(* ===== verification/Kolla_Prelude.thy ===== *)
theory Kolla_Prelude
  imports Main "HOL-Library.AList" "HOL-Library.Sublist"
begin

text \<open>
  The prelude of the development: the named collections the component theories feed, the
  generic lemmas on lists and association lists they share, and the interface of an ordered
  dictionary (Python's \<open>dict\<close> and \<open>collections.OrderedDict\<close>: lookup, in-place update that
  keeps the position of a key, deletion), given as a locale and interpreted on the
  association lists the model uses.
\<close>

named_theorems py_eval \<open>equations that evaluate Python primitives on values of known shape\<close>
named_theorems frame \<open>rules that show a command leaves a part of the state unchanged\<close>
named_theorems frame_defs \<open>definitions of the read-only queries, unfolded by frame proofs\<close>

section \<open>Lists\<close>

lemma takeWhile_append_stop:
  "\<lbrakk>\<forall>x \<in> set xs. P x; \<not> P y\<rbrakk> \<Longrightarrow> takeWhile P (xs @ y # ys) = xs"
  by (induction xs) auto

lemma dropWhile_append_stop:
  "\<lbrakk>\<forall>x \<in> set xs. P x; \<not> P y\<rbrakk> \<Longrightarrow> dropWhile P (xs @ y # ys) = y # ys"
  by (induction xs) auto

lemma split_at_first:
  "c \<notin> set xs \<Longrightarrow> takeWhile (\<lambda>x. x \<noteq> c) (xs @ c # ys) = xs"
  "c \<notin> set xs \<Longrightarrow> dropWhile (\<lambda>x. x \<noteq> c) (xs @ c # ys) = c # ys"
  by (rule takeWhile_append_stop dropWhile_append_stop; auto)+

lemma takeWhile_neq_notin: "c \<notin> set (takeWhile (\<lambda>x. x \<noteq> c) xs)"
  by (auto dest: set_takeWhileD)

lemma dropWhile_neq_in:
  "c \<in> set xs \<Longrightarrow> dropWhile (\<lambda>x. x \<noteq> c) xs = c # tl (dropWhile (\<lambda>x. x \<noteq> c) xs)"
  by (induction xs) auto

lemma split_at_char:
  "c \<in> set xs \<Longrightarrow> takeWhile (\<lambda>x. x \<noteq> c) xs @ c # tl (dropWhile (\<lambda>x. x \<noteq> c) xs) = xs"
  by (metis dropWhile_neq_in takeWhile_dropWhile_id)

lemma filter_fold_append:
  "fold (\<lambda>x acc. if P x then acc @ [x] else acc) xs acc = acc @ filter P xs"
  by (induction xs arbitrary: acc) auto

lemma length_dropWhile_Cons: "y # ys = dropWhile P xs \<Longrightarrow> length ys < length xs"
  by (metis Suc_le_eq length_Cons length_dropWhile_le)

section \<open>Association lists as ordered dictionaries\<close>

text \<open>\<open>dict_update d e\<close> is Python's \<open>d.update(e)\<close>: the items of \<open>e\<close> stored one by one.\<close>

definition dict_update :: "('k \<times> 'v) list \<Rightarrow> ('k \<times> 'v) list \<Rightarrow> ('k \<times> 'v) list" where
  "dict_update d e = fold (\<lambda>(k, v) acc. AList.update k v acc) e d"

definition dict_keys :: "('k \<times> 'v) list \<Rightarrow> 'k list" where
  "dict_keys d = map fst d"

definition wf_dict :: "('k \<times> 'v) list \<Rightarrow> bool" where
  "wf_dict d \<longleftrightarrow> distinct (map fst d)"

lemma wf_dict_Nil [simp]: "wf_dict []"
  by (simp add: wf_dict_def)

lemma wf_dict_Cons [simp]: "wf_dict ((k, v) # d) \<longleftrightarrow> k \<notin> fst ` set d \<and> wf_dict d"
  by (simp add: wf_dict_def)

lemma wf_dict_update [simp, intro]: "wf_dict d \<Longrightarrow> wf_dict (AList.update k v d)"
  by (simp add: wf_dict_def distinct_update)

lemma wf_dict_delete [simp, intro]: "wf_dict d \<Longrightarrow> wf_dict (AList.delete k d)"
  by (simp add: wf_dict_def distinct_delete)

lemma map_of_AList_update [simp]: "map_of (AList.update k v d) k' = (if k' = k then Some v else map_of d k')"
  by (simp add: update_conv)

lemma map_of_AList_delete [simp]: "map_of (AList.delete k d) k' = (if k' = k then None else map_of d k')"
  by (simp add: delete_conv)

lemma map_of_in_wf: "wf_dict d \<Longrightarrow> (k, v) \<in> set d \<longleftrightarrow> map_of d k = Some v"
  by (auto simp: wf_dict_def map_of_eq_Some_iff)

lemma keys_AList_update:
  "map fst (AList.update k v d) = (if k \<in> fst ` set d then map fst d else map fst d @ [k])"
  by (simp add: update_keys)

lemma map_of_rev_distinct: "distinct (map fst e) \<Longrightarrow> map_of (rev e) = map_of e"
proof (induction e)
  case Nil
  show ?case by simp
next
  case (Cons kv e)
  then show ?case by (cases kv) (auto simp: fun_eq_iff map_add_def image_iff split: option.splits dest: map_of_SomeD)
qed

locale ordered_dict =
  fixes empty_d :: "'d"
    and lookup :: "'d \<Rightarrow> 'k \<Rightarrow> 'v option"
    and store :: "'k \<Rightarrow> 'v \<Rightarrow> 'd \<Rightarrow> 'd"
    and remove :: "'k \<Rightarrow> 'd \<Rightarrow> 'd"
    and key_order :: "'d \<Rightarrow> 'k list"
    and well_formed :: "'d \<Rightarrow> bool"
  assumes lookup_empty: "lookup empty_d k = None"
    and lookup_store: "lookup (store k v d) k' = (if k' = k then Some v else lookup d k')"
    and lookup_remove: "lookup (remove k d) k' = (if k' = k then None else lookup d k')"
    and order_store: "key_order (store k v d) =
      (if lookup d k = None then key_order d @ [k] else key_order d)"
    and wf_empty: "well_formed empty_d"
    and wf_store: "well_formed d \<Longrightarrow> well_formed (store k v d)"
    and wf_remove: "well_formed d \<Longrightarrow> well_formed (remove k d)"
    and keys_lookup: "k \<in> set (key_order d) \<longleftrightarrow> lookup d k \<noteq> None"
begin

definition store_all :: "('k \<times> 'v) list \<Rightarrow> 'd \<Rightarrow> 'd" where
  "store_all e d = fold (\<lambda>(k, v) acc. store k v acc) e d"

lemma store_all_Nil [simp]: "store_all [] d = d"
  by (simp add: store_all_def)

lemma store_all_Cons [simp]: "store_all ((k, v) # e) d = store_all e (store k v d)"
  by (simp add: store_all_def)

lemma lookup_store_all:
  "lookup (store_all e d) k =
    (case map_of (rev e) k of None \<Rightarrow> lookup d k | Some v \<Rightarrow> Some v)"
  by (induction e arbitrary: d) (auto simp: lookup_store map_add_def split: option.splits)

lemma lookup_store_all_distinct:
  "distinct (map fst e) \<Longrightarrow>
    lookup (store_all e d) k = (case map_of e k of None \<Rightarrow> lookup d k | Some v \<Rightarrow> Some v)"
  by (simp add: lookup_store_all map_of_rev_distinct)

lemma wf_store_all: "well_formed d \<Longrightarrow> well_formed (store_all e d)"
  by (induction e arbitrary: d) (auto simp: wf_store)

lemma store_all_keeps_order_prefix: "\<exists>new. key_order (store_all e d) = key_order d @ new"
proof (induction e arbitrary: d)
  case Nil
  show ?case by simp
next
  case (Cons kv e)
  obtain k v where kv: "kv = (k, v)" by (cases kv)
  obtain new where "key_order (store_all e (store k v d)) = key_order (store k v d) @ new"
    using Cons.IH by blast
  then show ?case by (auto simp: kv order_store)
qed

lemma keys_store_all:
  "set (key_order (store_all e d)) = set (key_order d) \<union> fst ` set e"
proof (induction e arbitrary: d)
  case Nil
  show ?case by simp
next
  case (Cons kv e)
  show ?case
    by (cases kv) (auto simp: Cons.IH keys_lookup lookup_store split: if_splits)
qed

end

interpretation py_dict: ordered_dict "[]" map_of AList.update AList.delete "map fst" wf_dict
  by unfold_locales (auto simp: keys_AList_update map_of_eq_None_iff)

lemma dict_update_store_all: "dict_update d e = py_dict.store_all e d"
  by (simp add: dict_update_def py_dict.store_all_def)

lemma map_of_dict_update:
  "wf_dict e \<Longrightarrow>
    map_of (dict_update d e) k = (case map_of e k of None \<Rightarrow> map_of d k | Some v \<Rightarrow> Some v)"
  by (simp add: dict_update_store_all py_dict.lookup_store_all_distinct wf_dict_def)

lemma wf_dict_update_all [simp, intro]: "wf_dict d \<Longrightarrow> wf_dict (dict_update d e)"
  by (simp add: dict_update_store_all py_dict.wf_store_all)

lemma keys_dict_update: "fst ` set (dict_update d e) = fst ` set d \<union> fst ` set e"
  using py_dict.keys_store_all [of e d] by (simp add: dict_update_store_all)

lemma map_of_dict_update_other: "k \<notin> fst ` set e \<Longrightarrow> map_of (dict_update d e) k = map_of d k"
  by (induction e arbitrary: d) (auto simp: dict_update_def)

lemma dict_update_Nil [simp]: "dict_update d [] = d"
  by (simp add: dict_update_def)

lemma update_fresh: "k \<notin> fst ` set d \<Longrightarrow> AList.update k v d = d @ [(k, v)]"
  by (induction d) auto

lemma dict_update_fresh: "distinct (map fst (d @ e)) \<Longrightarrow> dict_update d e = d @ e"
proof (induction e arbitrary: d)
  case Nil
  then show ?case by (simp add: dict_update_def)
next
  case (Cons kv e)
  obtain k v where kv: "kv = (k, v)" by (cases kv)
  with Cons.prems have "AList.update k v d = d @ [(k, v)]"
    by (intro update_fresh) auto
  with Cons.IH [of "d @ [(k, v)]"] Cons.prems kv show ?case by (simp add: dict_update_def)
qed

lemma AList_update_map:
  "distinct ks \<Longrightarrow> k \<in> set ks \<Longrightarrow> AList.update k v (map (\<lambda>s. (s, g s)) ks) = map (\<lambda>s. (s, if s = k then v else g s)) ks"
  by (induction ks) auto

lemma map_of_key_map: "map_of (map (\<lambda>s. (s, g s)) ks) k = (if k \<in> set ks then Some (g k) else None)"
  by (induction ks) auto

end
