(* ===== verification/Py_Strings.thy ===== *)
theory Py_Strings
  imports Kolla_Prelude
begin

text \<open>
  What the source uses of Python's \<open>str\<close>. A string is a list of characters; a character is one
  of the 256 Latin-1 code points (code points beyond that are outside the model). Splitting at a
  character (\<open>split\<close>, \<open>split(c, 1)\<close>, \<open>rsplit(c, 1)\<close>), joining, stripping, the decimal
  conversions \<open>str(int)\<close> and \<open>int(str)\<close> with their round trip, and \<open>shlex.split\<close> in its
  default (POSIX) mode.
\<close>

section \<open>Characters\<close>

definition code_of :: "char \<Rightarrow> nat" where
  "code_of c = of_char c"

definition nl :: char where
  "nl = CHR 0x0A"

definition is_decimal :: "char \<Rightarrow> bool" where
  "is_decimal c \<longleftrightarrow> 48 \<le> code_of c \<and> code_of c \<le> 57"

text \<open>\<open>str.isdigit\<close> also accepts the superscripts 1, 2, 3 and \<open>str.isnumeric\<close> the vulgar fractions.\<close>

definition is_digit :: "char \<Rightarrow> bool" where
  "is_digit c \<longleftrightarrow> is_decimal c \<or> code_of c \<in> {178, 179, 185}"

definition is_numeric :: "char \<Rightarrow> bool" where
  "is_numeric c \<longleftrightarrow> is_digit c \<or> code_of c \<in> {188, 189, 190}"

definition is_space :: "char \<Rightarrow> bool" where
  "is_space c \<longleftrightarrow> (9 \<le> code_of c \<and> code_of c \<le> 13) \<or> (28 \<le> code_of c \<and> code_of c \<le> 32)
     \<or> code_of c = 133 \<or> code_of c = 160"

definition lower_char :: "char \<Rightarrow> char" where
  "lower_char c =
     (if (65 \<le> code_of c \<and> code_of c \<le> 90) \<or>
         (192 \<le> code_of c \<and> code_of c \<le> 222 \<and> code_of c \<noteq> 215)
      then char_of (code_of c + 32) else c)"

definition str_lower :: "string \<Rightarrow> string" where
  "str_lower s = map lower_char s"

section \<open>Splitting, joining, prefixes\<close>

definition starts_with :: "string \<Rightarrow> string \<Rightarrow> bool" where
  "starts_with s p \<longleftrightarrow> take (length p) s = p"

definition ends_with :: "string \<Rightarrow> string \<Rightarrow> bool" where
  "ends_with s p \<longleftrightarrow> starts_with (rev s) (rev p)"

fun is_substring :: "string \<Rightarrow> string \<Rightarrow> bool" where
  "is_substring k [] = (k = [])"
| "is_substring k (c # cs) = (starts_with (c # cs) k \<or> is_substring k cs)"

fun split_char :: "char \<Rightarrow> string \<Rightarrow> string list" where
  "split_char c [] = [[]]"
| "split_char c (x # xs) =
     (if x = c then [] # split_char c xs
      else (case split_char c xs of [] \<Rightarrow> [[x]] | p # ps \<Rightarrow> (x # p) # ps))"

fun join_with :: "string \<Rightarrow> string list \<Rightarrow> string" where
  "join_with sep [] = []"
| "join_with sep [s] = s"
| "join_with sep (s # t # ts) = s @ sep @ join_with sep (t # ts)"

text \<open>\<open>s.split(c, 1)\<close> and \<open>s.rsplit(c, 1)\<close>; \<open>None\<close> when \<open>c\<close> does not occur (a list of one part).\<close>

definition split_first :: "char \<Rightarrow> string \<Rightarrow> (string \<times> string) option" where
  "split_first c s =
     (if c \<in> set s then Some (takeWhile (\<lambda>x. x \<noteq> c) s, tl (dropWhile (\<lambda>x. x \<noteq> c) s)) else None)"

definition split_last :: "char \<Rightarrow> string \<Rightarrow> (string \<times> string) option" where
  "split_last c s =
     (case split_first c (rev s) of None \<Rightarrow> None | Some (b, a) \<Rightarrow> Some (rev a, rev b))"

definition replace_char :: "char \<Rightarrow> char \<Rightarrow> string \<Rightarrow> string" where
  "replace_char a b s = map (\<lambda>x. if x = a then b else x) s"

definition str_strip :: "string \<Rightarrow> string" where
  "str_strip s = rev (dropWhile is_space (rev (dropWhile is_space s)))"

lemma split_char_ne: "split_char c s \<noteq> []"
  by (cases s) (auto split: list.splits)

lemma split_char_notin [simp]: "c \<notin> set s \<Longrightarrow> split_char c s = [s]"
  by (induction s) auto

lemma split_char_append [simp]: "c \<notin> set s \<Longrightarrow> split_char c (s @ c # t) = s # split_char c t"
  by (induction s) auto

lemma split_char_parts: "p \<in> set (split_char c s) \<Longrightarrow> c \<notin> set p"
proof (induction s arbitrary: p)
  case Nil
  then show ?case by simp
next
  case (Cons x xs)
  then show ?case by (cases "split_char c xs") (auto split: if_splits)
qed

lemma join_split: "join_with [c] (split_char c s) = s"
proof (induction s)
  case Nil
  show ?case by simp
next
  case (Cons x xs)
  obtain p ps where p: "split_char c xs = p # ps"
    using split_char_ne [of c xs] by (cases "split_char c xs") auto
  with Cons.IH show ?case by (cases ps) auto
qed

lemma length_split_char: "length (split_char c s) = Suc (count_list s c)"
proof (induction s)
  case Nil
  show ?case by simp
next
  case (Cons x xs)
  then show ?case using split_char_ne [of c xs] by (auto split: list.splits)
qed

lemma split_join:
  "\<lbrakk>ps \<noteq> []; \<forall>p \<in> set ps. c \<notin> set p\<rbrakk> \<Longrightarrow> split_char c (join_with [c] ps) = ps"
proof (induction ps rule: induct_list012)
  case 1
  then show ?case by simp
next
  case (2 p)
  then show ?case by simp
next
  case (3 p q ps)
  then show ?case by simp
qed

lemma split_first_Some: "split_first c s = Some (a, b) \<Longrightarrow> s = a @ c # b \<and> c \<notin> set a"
  by (auto simp: split_first_def takeWhile_neq_notin split_at_char dest: set_takeWhileD split: if_splits)

lemma split_first_None: "split_first c s = None \<longleftrightarrow> c \<notin> set s"
  by (simp add: split_first_def)

lemma split_first_append [simp]:
  assumes "c \<notin> set a"
  shows "split_first c (a @ c # b) = Some (a, b)"
proof -
  have "\<forall>x \<in> set a. x \<noteq> c" using assms by auto
  then show ?thesis
    by (simp add: split_first_def takeWhile_append_stop dropWhile_append_stop)
qed

lemma split_last_Some: "split_last c s = Some (a, b) \<Longrightarrow> s = a @ c # b \<and> c \<notin> set b"
proof -
  assume "split_last c s = Some (a, b)"
  then obtain a' b' where "split_first c (rev s) = Some (b', a')" and ab: "a = rev a'" "b = rev b'"
    by (auto simp: split_last_def split: option.splits)
  then have *: "rev s = b' @ c # a'" "c \<notin> set b'" by (auto dest: split_first_Some)
  from *(1) have "s = rev (b' @ c # a')" by (metis rev_rev_ident)
  with *(2) ab show ?thesis by simp
qed

lemma split_last_None: "split_last c s = None \<longleftrightarrow> c \<notin> set s"
  by (auto simp: split_last_def split_first_None split: option.splits)
     (metis option.distinct(1) set_rev split_first_None)

lemma split_last_append [simp]: "c \<notin> set b \<Longrightarrow> split_last c (a @ c # b) = Some (a, b)"
  by (simp add: split_last_def)

section \<open>Ordering\<close>

text \<open>
  Strings are ordered by code point, lexicographically. The order is declared on a wrapper, the
  key the stable \<open>sort_key\<close> of the library sorts by; lists of characters keep no order of their own.
\<close>

datatype str_key = Key string

fun str_le :: "string \<Rightarrow> string \<Rightarrow> bool" where
  "str_le [] ys = True"
| "str_le (x # xs) [] = False"
| "str_le (x # xs) (y # ys) = (code_of x < code_of y \<or> (x = y \<and> str_le xs ys))"

lemma code_of_inject [simp]: "code_of x = code_of y \<longleftrightarrow> x = y"
  by (simp add: code_of_def)

lemma str_le_refl: "str_le xs xs"
  by (induction xs) auto

lemma str_le_trans: "str_le xs ys \<Longrightarrow> str_le ys zs \<Longrightarrow> str_le xs zs"
proof (induction xs ys arbitrary: zs rule: str_le.induct)
  case (3 x xs y ys)
  then show ?case by (cases zs) auto
qed auto

lemma str_le_antisym: "str_le xs ys \<Longrightarrow> str_le ys xs \<Longrightarrow> xs = ys"
proof (induction xs ys rule: str_le.induct)
  case (1 ys)
  then show ?case by (cases ys) auto
qed auto

lemma str_le_total: "str_le xs ys \<or> str_le ys xs"
proof (induction xs ys rule: str_le.induct)
  case (3 x xs y ys)
  then show ?case using linorder_less_linear [of "code_of x" "code_of y"] by auto
qed auto

instantiation str_key :: linorder
begin

fun less_eq_str_key :: "str_key \<Rightarrow> str_key \<Rightarrow> bool" where
  "less_eq_str_key (Key a) (Key b) = str_le a b"

definition less_str_key :: "str_key \<Rightarrow> str_key \<Rightarrow> bool" where
  "less_str_key a b \<longleftrightarrow> a \<le> b \<and> \<not> b \<le> a"

instance
proof
  fix a b c :: str_key
  show "a < b \<longleftrightarrow> a \<le> b \<and> \<not> b \<le> a" by (simp add: less_str_key_def)
  show "a \<le> a" by (cases a) (simp add: str_le_refl)
  show "a \<le> b \<Longrightarrow> b \<le> c \<Longrightarrow> a \<le> c"
    by (cases a; cases b; cases c) (auto intro: str_le_trans)
  show "a \<le> b \<Longrightarrow> b \<le> a \<Longrightarrow> a = b"
    by (cases a; cases b) (auto intro: str_le_antisym)
  show "a \<le> b \<or> b \<le> a" by (cases a; cases b) (simp add: str_le_total)
qed

end

section \<open>Decimal conversions\<close>

definition digit_char :: "nat \<Rightarrow> char" where
  "digit_char n = char_of (48 + n)"

definition digit_val :: "char \<Rightarrow> nat" where
  "digit_val c = code_of c - 48"

fun nat_str :: "nat \<Rightarrow> string" where
  "nat_str n = (if n < 10 then [digit_char n] else nat_str (n div 10) @ [digit_char (n mod 10)])"

declare nat_str.simps [simp del]

definition int_str :: "int \<Rightarrow> string" where
  "int_str i = (if i < 0 then CHR ''-'' # nat_str (nat (- i)) else nat_str (nat i))"

text \<open>The digits of an integer literal: single underscores may separate digits.\<close>

fun digits_val :: "nat \<Rightarrow> string \<Rightarrow> nat option" where
  "digits_val acc [] = Some acc"
| "digits_val acc (c # cs) =
     (if is_decimal c then digits_val (acc * 10 + digit_val c) cs
      else if c = CHR ''_''
      then (case cs of [] \<Rightarrow> None | d # ds \<Rightarrow> if is_decimal d then digits_val acc cs else None)
      else None)"

definition nat_of_str :: "string \<Rightarrow> nat option" where
  "nat_of_str s = (case s of [] \<Rightarrow> None | c # cs \<Rightarrow> if is_decimal c then digits_val 0 s else None)"

text \<open>\<open>int(s)\<close> for a string: \<open>None\<close> is the \<open>ValueError\<close>.\<close>

definition int_of_str :: "string \<Rightarrow> int option" where
  "int_of_str s =
     (case str_strip s of
        [] \<Rightarrow> None
      | c # cs \<Rightarrow>
          if c = CHR ''-'' then map_option (\<lambda>n. - int n) (nat_of_str cs)
          else if c = CHR ''+'' then map_option int (nat_of_str cs)
          else map_option int (nat_of_str (c # cs)))"

lemma code_of_digit_char: "n < 10 \<Longrightarrow> code_of (digit_char n) = 48 + n"
  by (simp add: code_of_def digit_char_def)

lemma digit_char_props [simp]:
  assumes "n < 10"
  shows "is_decimal (digit_char n)" and "digit_val (digit_char n) = n"
  using assms by (simp_all add: is_decimal_def digit_val_def code_of_digit_char)

lemma is_decimal_not_space: "is_decimal c \<Longrightarrow> \<not> is_space c"
  by (auto simp: is_decimal_def is_space_def)

lemma nat_str_ne: "nat_str n \<noteq> []"
  by (subst nat_str.simps) auto

lemma nat_str_decimal: "\<forall>c \<in> set (nat_str n). is_decimal c"
proof (induction n rule: nat_str.induct)
  case (1 n)
  then show ?case by (subst nat_str.simps) auto
qed

lemma digits_val_append:
  "digits_val acc xs = Some m \<Longrightarrow> \<forall>c \<in> set xs. is_decimal c \<Longrightarrow>
    digits_val acc (xs @ ys) = digits_val m ys"
  by (induction xs arbitrary: acc) auto

lemma digits_val_nat_str: "digits_val 0 (nat_str n) = Some n"
proof (induction n rule: nat_str.induct)
  case (1 n)
  show ?case
  proof (cases "n < 10")
    case True
    then show ?thesis by (subst nat_str.simps) simp
  next
    case False
    with 1 have "digits_val 0 (nat_str (n div 10)) = Some (n div 10)" by simp
    from digits_val_append [OF this nat_str_decimal] False show ?thesis
      by (subst nat_str.simps) simp
  qed
qed

lemma nat_of_str_nat_str [simp]: "nat_of_str (nat_str n) = Some n"
proof -
  obtain c cs where c: "nat_str n = c # cs" using nat_str_ne [of n] by (cases "nat_str n") auto
  then have "is_decimal c" using nat_str_decimal [of n] by simp
  then show ?thesis using digits_val_nat_str [of n] by (simp add: nat_of_str_def c)
qed

lemma str_strip_id:
  assumes "s \<noteq> []" and "\<not> is_space (hd s)" and "\<not> is_space (last s)"
  shows "str_strip s = s"
proof -
  have "dropWhile is_space s = s" using assms(1,2) by (cases s) auto
  moreover have "dropWhile is_space (rev s) = rev s"
    using assms(1,3) by (cases s rule: rev_cases) auto
  ultimately show ?thesis by (simp add: str_strip_def)
qed

lemma not_space_sign: "\<not> is_space (CHR ''-'')" "\<not> is_space (CHR ''+'')"
  by (simp_all add: is_space_def code_of_def)

lemma not_decimal_sign: "\<not> is_decimal (CHR ''-'')" "\<not> is_decimal (CHR ''+'')"
  by (simp_all add: is_decimal_def code_of_def)

lemma str_strip_nat_str [simp]: "str_strip (nat_str n) = nat_str n"
  using nat_str_ne [of n] nat_str_decimal [of n]
  by (intro str_strip_id) (auto simp: is_decimal_not_space)

lemma str_strip_neg [simp]: "str_strip (CHR ''-'' # nat_str n) = CHR ''-'' # nat_str n"
  using nat_str_ne [of n] nat_str_decimal [of n]
  by (intro str_strip_id) (auto simp: is_decimal_not_space not_space_sign)

lemma int_of_str_nat_str [simp]: "int_of_str (nat_str n) = Some (int n)"
proof -
  obtain c cs where c: "nat_str n = c # cs" using nat_str_ne [of n] by (cases "nat_str n") auto
  then have "is_decimal c" using nat_str_decimal [of n] by simp
  then have "c \<noteq> CHR ''-''" and "c \<noteq> CHR ''+''" using not_decimal_sign by auto
  then show ?thesis using nat_of_str_nat_str [of n] str_strip_nat_str [of n]
    by (simp add: int_of_str_def c)
qed

lemma int_of_str_int_str [simp]: "int_of_str (int_str i) = Some i"
  by (simp add: int_str_def int_of_str_def [of "CHR ''-'' # _"])

lemma int_str_inject [simp]: "int_str i = int_str j \<longleftrightarrow> i = j"
  by (metis int_of_str_int_str option.inject)

lemma int_str_ne [simp]: "int_str i \<noteq> []"
  by (simp add: int_str_def nat_str_ne)

lemma last_int_str_decimal: "is_decimal (last (int_str i))"
  using nat_str_ne nat_str_decimal last_in_set by (auto simp: int_str_def)

section \<open>shlex.split\<close>

text \<open>
  \<open>shlex.split(s)\<close> with \<open>comments=False, posix=True\<close>: the states of \<open>read_token\<close> with
  \<open>whitespace_split\<close>. \<open>SxStart\<close> is the state between tokens, \<open>SxWord\<close> a word, \<open>SxQuote q\<close>
  inside quotes, \<open>SxEscape e\<close> after a backslash read in the word (\<open>None\<close>) or inside the quote
  \<open>e\<close>. The flag records that the token was quoted, so that an empty quoted token is kept.
\<close>

datatype shlex_state = SxStart | SxWord | SxQuote char | SxEscape "char option"

definition sx_white :: "char \<Rightarrow> bool" where
  "sx_white c \<longleftrightarrow> code_of c \<in> {9, 10, 13, 32}"

definition sx_quote :: "char \<Rightarrow> bool" where
  "sx_quote c \<longleftrightarrow> code_of c = 39 \<or> code_of c = 34"

definition sx_backslash :: char where
  "sx_backslash = CHR 0x5C"

fun shlex_go :: "shlex_state \<Rightarrow> bool \<Rightarrow> string \<Rightarrow> string \<Rightarrow> string list option" where
  "shlex_go SxStart quoted tok [] = Some (if tok \<noteq> [] \<or> quoted then [tok] else [])"
| "shlex_go SxWord quoted tok [] = Some (if tok \<noteq> [] \<or> quoted then [tok] else [])"
| "shlex_go (SxQuote q) quoted tok [] = None"
| "shlex_go (SxEscape e) quoted tok [] = None"
| "shlex_go SxStart quoted tok (c # cs) =
     (if sx_white c then shlex_go SxStart False [] cs
      else if c = sx_backslash then shlex_go (SxEscape None) False [] cs
      else if sx_quote c then shlex_go (SxQuote c) True [] cs
      else shlex_go SxWord False [c] cs)"
| "shlex_go SxWord quoted tok (c # cs) =
     (if sx_white c
      then (if tok \<noteq> [] \<or> quoted then map_option ((#) tok) (shlex_go SxStart False [] cs)
            else shlex_go SxStart False [] cs)
      else if sx_quote c then shlex_go (SxQuote c) True tok cs
      else if c = sx_backslash then shlex_go (SxEscape None) quoted tok cs
      else shlex_go SxWord quoted (tok @ [c]) cs)"
| "shlex_go (SxQuote q) quoted tok (c # cs) =
     (if c = q then shlex_go SxWord True tok cs
      else if c = sx_backslash \<and> code_of q = 34 then shlex_go (SxEscape (Some q)) True tok cs
      else shlex_go (SxQuote q) True (tok @ [c]) cs)"
| "shlex_go (SxEscape e) quoted tok (c # cs) =
     (case e of
        None \<Rightarrow> shlex_go SxWord quoted (tok @ [c]) cs
      | Some q \<Rightarrow>
          shlex_go (SxQuote q) quoted
            (if c \<noteq> sx_backslash \<and> c \<noteq> q then tok @ [sx_backslash, c] else tok @ [c]) cs)"

definition shlex_split :: "string \<Rightarrow> string list option" where
  "shlex_split s = shlex_go SxStart False [] s"

definition sx_plain :: "string \<Rightarrow> bool" where
  "sx_plain w \<longleftrightarrow> w \<noteq> [] \<and> (\<forall>c \<in> set w. \<not> sx_white c \<and> \<not> sx_quote c \<and> c \<noteq> sx_backslash)"

lemma shlex_go_word:
  assumes "\<forall>c \<in> set w. \<not> sx_white c \<and> \<not> sx_quote c \<and> c \<noteq> sx_backslash"
  shows "shlex_go SxWord q tok (w @ rest) = shlex_go SxWord q (tok @ w) rest"
  using assms by (induction w arbitrary: tok) auto

lemma sx_plain_Cons:
  "sx_plain (c # cs) \<longleftrightarrow> \<not> sx_white c \<and> \<not> sx_quote c \<and> c \<noteq> sx_backslash \<and> (cs = [] \<or> sx_plain cs)"
  by (auto simp: sx_plain_def)

lemma shlex_go_plain:
  assumes "sx_plain w"
  shows "shlex_go SxStart False [] (w @ rest) = shlex_go SxWord False w rest"
proof -
  obtain c cs where w: "w = c # cs" using assms by (cases w) (auto simp: sx_plain_def)
  with assms show ?thesis by (auto simp: sx_plain_def shlex_go_word)
qed

lemma sx_white_space: "sx_white (CHR '' '')"
  by (simp add: sx_white_def code_of_def)

text \<open>Plain words separated by single blanks come back as they were written.\<close>

lemma shlex_split_join:
  "\<forall>w \<in> set ws. sx_plain w \<Longrightarrow> shlex_split (join_with '' '' ws) = Some ws"
  unfolding shlex_split_def
proof (induction ws rule: induct_list012)
  case 1
  then show ?case by simp
next
  case (2 w)
  then show ?case using shlex_go_plain [of w "[]"] by (simp add: sx_plain_def)
next
  case (3 v w ws)
  then show ?case
    using shlex_go_plain [of v "'' '' @ join_with '' '' (w # ws)"]
    by (simp add: sx_plain_def sx_white_space)
qed

end
