(* ===== verification/Py_Values.thy ===== *)
theory Py_Values
  imports Py_Strings
begin

text \<open>
  Python values and the ways a computation ends. The values are those that travel through
  module parameters, YAML documents and engine replies: \<open>None\<close>, booleans, unbounded integers,
  strings, lists and dictionaries with string keys (floats, tuples and other key types are
  outside the model). A computation returns, raises a Python exception, or ends the process
  through \<open>AnsibleModule.exit_json\<close> / \<open>fail_json\<close>, which raise \<open>SystemExit\<close>.
\<close>

section \<open>Values\<close>

datatype pyval =
    PNone
  | PBool bool
  | PInt int
  | PStr string
  | PList "pyval list"
  | PDict "(string \<times> pyval) list"

type_synonym pydict = "(string \<times> pyval) list"

fun truthy :: "pyval \<Rightarrow> bool" where
  "truthy PNone = False"
| "truthy (PBool b) = b"
| "truthy (PInt i) = (i \<noteq> 0)"
| "truthy (PStr s) = (s \<noteq> [])"
| "truthy (PList xs) = (xs \<noteq> [])"
| "truthy (PDict d) = (d \<noteq> [])"

fun is_none :: "pyval \<Rightarrow> bool" where
  "is_none PNone = True"
| "is_none _ = False"

lemma is_none_iff [simp]: "is_none v \<longleftrightarrow> v = PNone"
  by (cases v) auto

text \<open>\<open>bool\<close> is a subclass of \<open>int\<close>: \<open>True == 1\<close>.\<close>

fun as_int :: "pyval \<Rightarrow> int option" where
  "as_int (PInt i) = Some i"
| "as_int (PBool b) = Some (if b then 1 else 0)"
| "as_int _ = None"

fun scalar_eq :: "pyval \<Rightarrow> pyval \<Rightarrow> bool" where
  "scalar_eq PNone PNone = True"
| "scalar_eq (PStr s) (PStr t) = (s = t)"
| "scalar_eq a b = (case (as_int a, as_int b) of (Some i, Some j) \<Rightarrow> i = j | _ \<Rightarrow> False)"

text \<open>\<open>a == b\<close>: lists pointwise, dictionaries whatever the order of their keys.\<close>

fun py_eq :: "pyval \<Rightarrow> pyval \<Rightarrow> bool"
  and py_eq_list :: "pyval list \<Rightarrow> pyval list \<Rightarrow> bool"
  and py_eq_items :: "pydict \<Rightarrow> pydict \<Rightarrow> bool" where
  "py_eq (PList xs) b = (case b of PList ys \<Rightarrow> py_eq_list xs ys | _ \<Rightarrow> False)"
| "py_eq (PDict d) b = (case b of PDict e \<Rightarrow> length d = length e \<and> py_eq_items d e | _ \<Rightarrow> False)"
| "py_eq PNone b = scalar_eq PNone b"
| "py_eq (PBool x) b = scalar_eq (PBool x) b"
| "py_eq (PInt x) b = scalar_eq (PInt x) b"
| "py_eq (PStr x) b = scalar_eq (PStr x) b"
| "py_eq_list [] ys = (ys = [])"
| "py_eq_list (x # xs) ys = (case ys of [] \<Rightarrow> False | y # ys' \<Rightarrow> py_eq x y \<and> py_eq_list xs ys')"
| "py_eq_items [] e = True"
| "py_eq_items ((k, v) # d) e =
     (case map_of e k of None \<Rightarrow> False | Some w \<Rightarrow> py_eq v w \<and> py_eq_items d e)"

fun wf_val :: "pyval \<Rightarrow> bool" where
  "wf_val (PList xs) = (\<forall>x \<in> set xs. wf_val x)"
| "wf_val (PDict d) = (wf_dict d \<and> (\<forall>kv \<in> set d. wf_val (snd kv)))"
| "wf_val _ = True"

lemma py_eq_PStr [simp]:
  "py_eq (PStr s) v \<longleftrightarrow> v = PStr s" "py_eq v (PStr s) \<longleftrightarrow> v = PStr s"
  by (cases v; auto)+

lemma py_eq_PNone [simp]:
  "py_eq PNone v \<longleftrightarrow> v = PNone" "py_eq v PNone \<longleftrightarrow> v = PNone"
  by (cases v; auto)+

lemma py_eq_refl_aux:
  "wf_val v \<Longrightarrow> w = v \<Longrightarrow> py_eq v w"
  "(\<forall>x \<in> set xs. wf_val x) \<Longrightarrow> ys = xs \<Longrightarrow> py_eq_list xs ys"
  "(\<forall>kv \<in> set d. wf_val (snd kv)) \<Longrightarrow> wf_dict e \<Longrightarrow> set d \<subseteq> set e \<Longrightarrow> py_eq_items d e"
proof (induction v w and xs ys and d e rule: py_eq_py_eq_list_py_eq_items.induct)
  case (10 k v d e)
  then have "map_of e k = Some v" by (simp add: map_of_in_wf)
  with 10 show ?case by auto
qed auto

lemma py_eq_refl: "wf_val v \<Longrightarrow> py_eq v v"
  by (simp add: py_eq_refl_aux(1))

lemma py_eq_list_strs [simp]: "py_eq_list (map PStr xs) (map PStr ys) \<longleftrightarrow> xs = ys"
proof (induction xs arbitrary: ys)
  case Nil
  show ?case by auto
next
  case (Cons x xs)
  then show ?case by (cases ys) auto
qed

text \<open>Dictionaries of strings are equal when they agree key by key.\<close>

definition str_dict :: "(string \<times> string) list \<Rightarrow> pydict" where
  "str_dict d = map (\<lambda>(k, v). (k, PStr v)) d"

lemma map_of_str_dict [simp]: "map_of (str_dict d) k = map_option PStr (map_of d k)"
  by (induction d) (auto simp: str_dict_def)

lemma keys_str_dict [simp]: "map fst (str_dict d) = map fst d"
  by (induction d) (auto simp: str_dict_def)

section \<open>How a computation ends\<close>

datatype exn =
    KeyError string
  | TypeError
  | AttributeError
  | ValueError
  | IndexError
  | ZeroDivisionError
  | APIError int bool string  \<comment> \<open>status code, \<open>is_client_error()\<close>, text\<close>
  | PyError string

datatype exit_kind = ExitJson | FailJson

datatype 'a outcome =
    Ret 'a
  | Raise exn
  | Exit exit_kind pydict

fun obind :: "'a outcome \<Rightarrow> ('a \<Rightarrow> 'b outcome) \<Rightarrow> 'b outcome" where
  "obind (Ret x) f = f x"
| "obind (Raise e) f = Raise e"
| "obind (Exit k d) f = Exit k d"

fun omap :: "('a \<Rightarrow> 'b outcome) \<Rightarrow> 'a list \<Rightarrow> 'b list outcome" where
  "omap f [] = Ret []"
| "omap f (x # xs) = obind (f x) (\<lambda>y. obind (omap f xs) (\<lambda>ys. Ret (y # ys)))"

fun ofold :: "('a \<Rightarrow> 'b \<Rightarrow> 'b outcome) \<Rightarrow> 'a list \<Rightarrow> 'b \<Rightarrow> 'b outcome" where
  "ofold f [] acc = Ret acc"
| "ofold f (x # xs) acc = obind (f x acc) (ofold f xs)"

text \<open>A loop that returns \<open>True\<close> at the first element for which the body does.\<close>

fun oany :: "('a \<Rightarrow> bool outcome) \<Rightarrow> 'a list \<Rightarrow> bool outcome" where
  "oany f [] = Ret False"
| "oany f (x # xs) = obind (f x) (\<lambda>b. if b then Ret True else oany f xs)"

definition fail_json :: "pydict \<Rightarrow> 'a outcome" where
  "fail_json d = Exit FailJson d"

definition exit_json :: "pydict \<Rightarrow> 'a outcome" where
  "exit_json d = Exit ExitJson d"

lemma obind_eq_Ret [simp]: "obind m f = Ret y \<longleftrightarrow> (\<exists>x. m = Ret x \<and> f x = Ret y)"
  by (cases m) auto

lemma obind_Ret_right [simp]: "obind m Ret = m"
  by (cases m) auto

lemma obind_assoc: "obind (obind m f) g = obind m (\<lambda>x. obind (f x) g)"
  by (cases m) auto

lemma omap_Ret [simp]: "omap (\<lambda>x. Ret (f x)) xs = Ret (map f xs)"
  by (induction xs) auto

lemma omap_all_Ret: "\<forall>x \<in> set xs. g x = Ret (f x) \<Longrightarrow> omap g xs = Ret (map f xs)"
  by (induction xs) auto

lemma oany_Ret [simp]: "oany (\<lambda>x. Ret (P x)) xs = Ret (\<exists>x \<in> set xs. P x)"
  by (induction xs) auto

lemma oany_all_Ret: "\<forall>x \<in> set xs. g x = Ret (P x) \<Longrightarrow> oany g xs = Ret (\<exists>x \<in> set xs. P x)"
  by (induction xs) auto

lemma ofold_all_Ret: "\<forall>x \<in> set xs. \<forall>a. g x a = Ret (f x a) \<Longrightarrow> ofold g xs acc = Ret (fold f xs acc)"
  by (induction xs arbitrary: acc) auto

lemma ofold_append: "ofold f (xs @ ys) acc = obind (ofold f xs acc) (ofold f ys)"
proof (induction xs arbitrary: acc)
  case Nil
  show ?case by simp
next
  case (Cons x xs)
  then show ?case by (cases "f x acc") simp_all
qed

lemma obind_ofold_Nil [simp]: "obind m (ofold f []) = m"
  by (cases m) simp_all

lemma ofold_map: "ofold f (map g xs) = ofold (\<lambda>x. f (g x)) xs"
proof (induction xs)
  case (Cons x xs)
  then show ?case by (intro ext) simp
qed (simp add: fun_eq_iff)

lemma ofold_invariant:
  assumes "I pre a" and "ofold f xs a = Ret b"
    and "\<And>pre x a a'. I pre a \<Longrightarrow> f x a = Ret a' \<Longrightarrow> I (pre @ [x]) a'"
  shows "I (pre @ xs) b"
  using assms(1,2)
proof (induction xs arbitrary: pre a)
  case (Cons x xs)
  then obtain a' where "f x a = Ret a'" "ofold f xs a' = Ret b" by auto
  with Cons.IH [of "pre @ [x]" a'] Cons.prems(1) assms(3) show ?case by fastforce
qed simp

lemma omap_append: "omap f (xs @ ys) = obind (omap f xs) (\<lambda>us. obind (omap f ys) (\<lambda>vs. Ret (us @ vs)))"
  by (induction xs) (auto simp: obind_assoc)

lemma omap_cong: "(\<And>x. x \<in> set xs \<Longrightarrow> f x = g x) \<Longrightarrow> omap f xs = omap g xs"
  by (induction xs) auto

definition returns :: "'a outcome \<Rightarrow> bool" where
  "returns x = (case x of Ret _ \<Rightarrow> True | _ \<Rightarrow> False)"

lemma returns_outcome [simp]: "returns (Ret a)" "\<not> returns (Raise e)" "\<not> returns (Exit x d)"
  by (simp_all add: returns_def)

lemma fail_json_neq [simp]: "fail_json d \<noteq> Ret x" "fail_json d \<noteq> Raise e"
  by (simp_all add: fail_json_def)

lemma exit_json_neq [simp]: "exit_json d \<noteq> Ret x" "exit_json d \<noteq> Raise e"
  by (simp_all add: exit_json_def)

section \<open>Primitives\<close>

text \<open>\<open>d.get(k)\<close>, \<open>d.get(k, dflt)\<close> and \<open>d[k]\<close> for a value that may not be a dictionary.\<close>

definition dget_or :: "pydict \<Rightarrow> string \<Rightarrow> pyval \<Rightarrow> pyval" where
  "dget_or d k dflt = (case map_of d k of None \<Rightarrow> dflt | Some v \<Rightarrow> v)"

definition dget :: "pydict \<Rightarrow> string \<Rightarrow> pyval" where
  "dget d k = dget_or d k PNone"

definition has_key :: "pydict \<Rightarrow> string \<Rightarrow> bool" where
  "has_key d k \<longleftrightarrow> map_of d k \<noteq> None"

fun py_get_or :: "pyval \<Rightarrow> string \<Rightarrow> pyval \<Rightarrow> pyval outcome" where
  "py_get_or (PDict d) k dflt = Ret (dget_or d k dflt)"
| "py_get_or _ k dflt = Raise AttributeError"

definition py_get :: "pyval \<Rightarrow> string \<Rightarrow> pyval outcome" where
  "py_get v k = py_get_or v k PNone"

fun py_item :: "pyval \<Rightarrow> string \<Rightarrow> pyval outcome" where
  "py_item (PDict d) k = (case map_of d k of None \<Rightarrow> Raise (KeyError k) | Some v \<Rightarrow> Ret v)"
| "py_item _ k = Raise TypeError"

fun py_items :: "pyval \<Rightarrow> pydict outcome" where
  "py_items (PDict d) = Ret d"
| "py_items _ = Raise AttributeError"

text \<open>Iteration: over the elements, the keys, the characters.\<close>

fun py_iter :: "pyval \<Rightarrow> pyval list outcome" where
  "py_iter (PList xs) = Ret xs"
| "py_iter (PDict d) = Ret (map (\<lambda>kv. PStr (fst kv)) d)"
| "py_iter (PStr s) = Ret (map (\<lambda>c. PStr [c]) s)"
| "py_iter _ = Raise TypeError"

fun hashable :: "pyval \<Rightarrow> bool" where
  "hashable (PList _) = False"
| "hashable (PDict _) = False"
| "hashable _ = True"

text \<open>\<open>set(v)\<close>, as the list of the values put into the set.\<close>

definition py_set :: "pyval \<Rightarrow> pyval list outcome" where
  "py_set v = obind (py_iter v) (\<lambda>xs. if list_all hashable xs then Ret xs else Raise TypeError)"

definition mem_eq :: "pyval \<Rightarrow> pyval list \<Rightarrow> bool" where
  "mem_eq x ys = list_ex (py_eq x) ys"

text \<open>Whether \<open>set(a).symmetric_difference(set(b))\<close> has an element.\<close>

definition sets_differ :: "pyval list \<Rightarrow> pyval list \<Rightarrow> bool" where
  "sets_differ xs ys \<longleftrightarrow> list_ex (\<lambda>x. \<not> mem_eq x ys) xs \<or> list_ex (\<lambda>y. \<not> mem_eq y xs) ys"

definition py_sym_diff :: "pyval \<Rightarrow> pyval \<Rightarrow> bool outcome" where
  "py_sym_diff a b = obind (py_set a) (\<lambda>xs. obind (py_set b) (\<lambda>ys. Ret (sets_differ xs ys)))"

text \<open>\<open>v or []\<close>, the way the comparisons normalise a missing list.\<close>

definition or_list :: "pyval \<Rightarrow> pyval" where
  "or_list v = (if truthy v then v else PList [])"

lemma mem_eq_strs: "mem_eq (PStr s) (map PStr ys) \<longleftrightarrow> s \<in> set ys"
  by (auto simp: mem_eq_def list_ex_iff)

lemma sets_differ_strs: "sets_differ (map PStr xs) (map PStr ys) \<longleftrightarrow> set xs \<noteq> set ys"
  by (auto simp: sets_differ_def list_ex_iff mem_eq_strs)

lemma py_set_strs [simp]: "py_set (PList (map PStr xs)) = Ret (map PStr xs)"
  by (auto simp: py_set_def list_all_iff)

lemma py_sym_diff_strs:
  "py_sym_diff (PList (map PStr xs)) (PList (map PStr ys)) = Ret (set xs \<noteq> set ys)"
  by (simp add: py_sym_diff_def sets_differ_strs)

lemma py_sym_diff_keys:
  "py_sym_diff (PDict d) (PList (map PStr ys)) = Ret (fst ` set d \<noteq> set ys)"
  "py_sym_diff (PList (map PStr xs)) (PDict d) = Ret (set xs \<noteq> fst ` set d)"
proof -
  have *: "py_set (PDict d) = Ret (map PStr (map fst d))"
    by (auto simp: py_set_def list_all_iff)
  show "py_sym_diff (PDict d) (PList (map PStr ys)) = Ret (fst ` set d \<noteq> set ys)"
    using sets_differ_strs [of "map fst d" ys] by (simp add: py_sym_diff_def *)
  show "py_sym_diff (PList (map PStr xs)) (PDict d) = Ret (set xs \<noteq> fst ` set d)"
    using sets_differ_strs [of xs "map fst d"] by (simp add: py_sym_diff_def *)
qed

section \<open>str, repr and int\<close>

definition hex_digit :: "nat \<Rightarrow> char" where
  "hex_digit n = (if n < 10 then char_of (48 + n) else char_of (87 + n))"

definition repr_char :: "char \<Rightarrow> char \<Rightarrow> string" where
  "repr_char q c =
     (let n = code_of c in
      if c = q \<or> n = 92 then [CHR 0x5C, c]
      else if n = 10 then [CHR 0x5C, CHR ''n'']
      else if n = 13 then [CHR 0x5C, CHR ''r'']
      else if n = 9 then [CHR 0x5C, CHR ''t'']
      else if n < 32 \<or> (127 \<le> n \<and> n \<le> 160) \<or> n = 173
      then [CHR 0x5C, CHR ''x'', hex_digit (n div 16), hex_digit (n mod 16)]
      else [c])"

definition repr_str :: "string \<Rightarrow> string" where
  "repr_str s =
     (let q = (if CHR 0x27 \<in> set s \<and> CHR 0x22 \<notin> set s then CHR 0x22 else CHR 0x27)
      in q # concat (map (repr_char q) s) @ [q])"

fun py_repr :: "pyval \<Rightarrow> string" where
  "py_repr PNone = ''None''"
| "py_repr (PBool b) = (if b then ''True'' else ''False'')"
| "py_repr (PInt i) = int_str i"
| "py_repr (PStr s) = repr_str s"
| "py_repr (PList xs) = ''['' @ join_with '', '' (map py_repr xs) @ '']''"
| "py_repr (PDict d) =
     ''{'' @ join_with '', '' (map (\<lambda>kv. repr_str (fst kv) @ '': '' @ py_repr (snd kv)) d) @ ''}''"

definition py_str :: "pyval \<Rightarrow> string" where
  "py_str v = (case v of PStr s \<Rightarrow> s | _ \<Rightarrow> py_repr v)"

lemma py_str_simps [simp]:
  "py_str (PStr s) = s" "py_str (PInt i) = int_str i" "py_str PNone = ''None''"
  by (simp_all add: py_str_def)

fun py_int :: "pyval \<Rightarrow> int outcome" where
  "py_int (PInt i) = Ret i"
| "py_int (PBool b) = Ret (if b then 1 else 0)"
| "py_int (PStr s) = (case int_of_str s of None \<Rightarrow> Raise ValueError | Some i \<Rightarrow> Ret i)"
| "py_int _ = Raise TypeError"

text \<open>\<open>a // b\<close> on integers (division rounds towards minus infinity, as \<open>div\<close> does).\<close>

definition py_floordiv :: "pyval \<Rightarrow> pyval \<Rightarrow> int outcome" where
  "py_floordiv a b =
     (case (as_int a, as_int b) of
        (Some i, Some j) \<Rightarrow> if j = 0 then Raise ZeroDivisionError else Ret (i div j)
      | _ \<Rightarrow> Raise TypeError)"

end
