(* ===== verification/Py_Monad.thy ===== *)
theory Py_Monad
  imports Py_Values
begin

text \<open>
  Stateful code: a command maps a state to an outcome and the state reached, also when it raises
  or exits (what was done before the failure stays done). \<open>keeps v m\<close> says that \<open>m\<close> never
  changes the part \<open>v\<close> of the state; its rules are the collection \<open>frame\<close>.
\<close>

type_synonym ('s, 'a) cmd = "'s \<Rightarrow> 'a outcome \<times> 's"

definition ret :: "'a \<Rightarrow> ('s, 'a) cmd" where
  "ret x = (\<lambda>s. (Ret x, s))"

definition raise :: "exn \<Rightarrow> ('s, 'a) cmd" where
  "raise e = (\<lambda>s. (Raise e, s))"

definition lift :: "'a outcome \<Rightarrow> ('s, 'a) cmd" where
  "lift r = (\<lambda>s. (r, s))"

definition bnd :: "('s, 'a) cmd \<Rightarrow> ('a \<Rightarrow> ('s, 'b) cmd) \<Rightarrow> ('s, 'b) cmd" where
  "bnd m f = (\<lambda>s. case m s of
       (Ret x, s') \<Rightarrow> f x s'
     | (Raise e, s') \<Rightarrow> (Raise e, s')
     | (Exit k d, s') \<Rightarrow> (Exit k d, s'))"

definition seqc :: "('s, 'a) cmd \<Rightarrow> ('s, 'b) cmd \<Rightarrow> ('s, 'b) cmd" where
  "seqc m n = bnd m (\<lambda>_. n)"

definition gets :: "('s \<Rightarrow> 'a) \<Rightarrow> ('s, 'a) cmd" where
  "gets f = (\<lambda>s. (Ret (f s), s))"

definition modify :: "('s \<Rightarrow> 's) \<Rightarrow> ('s, unit) cmd" where
  "modify f = (\<lambda>s. (Ret (), f s))"

definition whenc :: "bool \<Rightarrow> ('s, unit) cmd \<Rightarrow> ('s, unit) cmd" where
  "whenc b m = (if b then m else ret ())"

text \<open>A chain of \<open>or\<close>: the first true condition ends it.\<close>

fun any_cmd :: "('s, bool) cmd list \<Rightarrow> ('s, bool) cmd" where
  "any_cmd [] = ret False"
| "any_cmd (m # ms) = bnd m (\<lambda>b. if b then ret True else any_cmd ms)"

text \<open>\<open>try: m except APIError as e: h(e)\<close>, with the parts of the error the handlers read.\<close>

definition catch_api ::
    "('s, 'a) cmd \<Rightarrow> (int \<Rightarrow> bool \<Rightarrow> string \<Rightarrow> ('s, 'a) cmd) \<Rightarrow> ('s, 'a) cmd" where
  "catch_api m h = (\<lambda>s. case m s of
       (Raise (APIError st cl tx), s') \<Rightarrow> h st cl tx s'
     | r \<Rightarrow> r)"

text \<open>\<open>try: m except Exception: h\<close>. \<open>SystemExit\<close> is not an \<open>Exception\<close>: exits pass through.\<close>

definition catch_all :: "('s, 'a) cmd \<Rightarrow> (exn \<Rightarrow> ('s, 'a) cmd) \<Rightarrow> ('s, 'a) cmd" where
  "catch_all m h = (\<lambda>s. case m s of
       (Raise e, s') \<Rightarrow> h e s'
     | r \<Rightarrow> r)"

text \<open>Running a command on a part of the state.\<close>

definition zoom :: "('s \<Rightarrow> 't) \<Rightarrow> ('t \<Rightarrow> 's \<Rightarrow> 's) \<Rightarrow> ('t, 'a) cmd \<Rightarrow> ('s, 'a) cmd" where
  "zoom g p m = (\<lambda>s. case m (g s) of (r, t) \<Rightarrow> (r, p t s))"

section \<open>Evaluation\<close>

lemma ret_run [simp]: "ret x s = (Ret x, s)"
  by (simp add: ret_def)

lemma raise_run [simp]: "raise e s = (Raise e, s)"
  by (simp add: raise_def)

lemma lift_run [simp]: "lift r s = (r, s)"
  by (simp add: lift_def)

lemma gets_run [simp]: "gets f s = (Ret (f s), s)"
  by (simp add: gets_def)

lemma modify_run [simp]: "modify f s = (Ret (), f s)"
  by (simp add: modify_def)

lemma bnd_Ret [simp]: "m s = (Ret x, t) \<Longrightarrow> bnd m f s = f x t"
  by (simp add: bnd_def)

lemma bnd_Raise [simp]: "m s = (Raise e, t) \<Longrightarrow> bnd m f s = (Raise e, t)"
  by (simp add: bnd_def)

lemma bnd_Exit [simp]: "m s = (Exit k d, t) \<Longrightarrow> bnd m f s = (Exit k d, t)"
  by (simp add: bnd_def)

lemma bnd_pure [simp]:
  "bnd (ret x) f = f x"
  "bnd (lift (Ret x)) f = f x"
  "bnd (gets g) f s = f (g s) s"
  "bnd (modify h) k s = k () (h s)"
  "bnd (raise e) f = raise e"
  by (simp_all add: bnd_def fun_eq_iff)

lemma seqc_pure [simp]:
  "seqc (ret x) m = m"
  "seqc (modify h) m s = m (h s)"
  "seqc (raise e) m = raise e"
  by (simp_all add: seqc_def)

lemma seqc_Ret [simp]: "m s = (Ret x, t) \<Longrightarrow> seqc m n s = n t"
  by (simp add: seqc_def)

lemma seqc_Raise [simp]: "m s = (Raise e, t) \<Longrightarrow> seqc m n s = (Raise e, t)"
  by (simp add: seqc_def)

lemma seqc_Exit [simp]: "m s = (Exit k d, t) \<Longrightarrow> seqc m n s = (Exit k d, t)"
  by (simp add: seqc_def)

lemma whenc_simps [simp]: "whenc True m = m" "whenc False m = ret ()"
  by (simp_all add: whenc_def)

text \<open>A command that returned came through each of its parts.\<close>

lemma bnd_returns:
  "bnd m f s = (Ret y, t) \<longleftrightarrow> (\<exists>x u. m s = (Ret x, u) \<and> f x u = (Ret y, t))"
  by (auto simp: bnd_def split: prod.splits outcome.splits)

lemma seqc_returns:
  "seqc m n s = (Ret y, t) \<longleftrightarrow> (\<exists>x u. m s = (Ret x, u) \<and> n u = (Ret y, t))"
  by (auto simp: seqc_def bnd_returns)

lemma zoom_returns:
  "zoom g p m s = (Ret y, t) \<longleftrightarrow> (\<exists>u. m (g s) = (Ret y, u) \<and> t = p u s)"
  by (auto simp: zoom_def split: prod.splits)

lemma zoom_run: "m (g s) = (r, u) \<Longrightarrow> zoom g p m s = (r, p u s)"
  by (simp add: zoom_def)

lemma whenc_returns:
  "whenc b m s = (Ret u, t) \<longleftrightarrow> (if b then m s = (Ret u, t) else t = s)"
  by (auto simp: whenc_def)

lemma any_cmd_False: "m s = (Ret False, t) \<Longrightarrow> any_cmd (m # ms) s = any_cmd ms t"
  by (simp add: bnd_def)

lemma catch_api_Ret [simp]: "m s = (Ret x, t) \<Longrightarrow> catch_api m h s = (Ret x, t)"
  by (simp add: catch_api_def)

lemma catch_api_Exit [simp]: "m s = (Exit k d, t) \<Longrightarrow> catch_api m h s = (Exit k d, t)"
  by (simp add: catch_api_def)

lemma catch_api_APIError [simp]:
  "m s = (Raise (APIError st cl tx), t) \<Longrightarrow> catch_api m h s = h st cl tx t"
  by (simp add: catch_api_def)

lemma catch_all_Ret [simp]: "m s = (Ret x, t) \<Longrightarrow> catch_all m h s = (Ret x, t)"
  by (simp add: catch_all_def)

lemma catch_all_Raise [simp]: "m s = (Raise e, t) \<Longrightarrow> catch_all m h s = h e t"
  by (simp add: catch_all_def)

lemma catch_all_Exit [simp]: "m s = (Exit k d, t) \<Longrightarrow> catch_all m h s = (Exit k d, t)"
  by (simp add: catch_all_def)

lemma catch_api_returns:
  "catch_api m h s = (Ret y, t) \<longleftrightarrow> m s = (Ret y, t)
     \<or> (\<exists>st cl tx u. m s = (Raise (APIError st cl tx), u) \<and> h st cl tx u = (Ret y, t))"
  by (auto simp: catch_api_def split: prod.splits outcome.splits exn.splits)

lemmas returns_simps = bnd_returns seqc_returns zoom_returns whenc_returns

section \<open>Frames\<close>

definition keeps :: "('s \<Rightarrow> 'b) \<Rightarrow> ('s, 'a) cmd \<Rightarrow> bool" where
  "keeps v m \<longleftrightarrow> (\<forall>s. v (snd (m s)) = v s)"

lemma keepsD: "keeps v m \<Longrightarrow> m s = (r, t) \<Longrightarrow> v t = v s"
  by (metis keeps_def snd_conv)

lemma keeps_basic [frame]:
  "keeps v (ret x)" "keeps v (raise e)" "keeps v (lift r)" "keeps v (gets f)"
  by (simp_all add: keeps_def)

lemma keeps_modify: "(\<And>s. v (f s) = v s) \<Longrightarrow> keeps v (modify f)"
  by (simp add: keeps_def)

lemma keeps_bnd [frame]:
  assumes m: "keeps v m" and f: "\<And>x. keeps v (f x)"
  shows "keeps v (bnd m f)"
  unfolding keeps_def
proof
  fix s
  obtain r t where r: "m s = (r, t)" by (cases "m s")
  have t: "v t = v s" using keepsD [OF m r] .
  show "v (snd (bnd m f s)) = v s"
  proof (cases r)
    case (Ret x)
    with f [of x] t r show ?thesis by (simp add: keeps_def)
  qed (use r t in simp_all)
qed

lemma keeps_seqc [frame]: "keeps v m \<Longrightarrow> keeps v n \<Longrightarrow> keeps v (seqc m n)"
  by (simp add: seqc_def keeps_bnd)

lemma keeps_if [frame]: "(b \<Longrightarrow> keeps v m) \<Longrightarrow> (\<not> b \<Longrightarrow> keeps v n) \<Longrightarrow> keeps v (if b then m else n)"
  by simp

lemma keeps_whenc [frame]: "(b \<Longrightarrow> keeps v m) \<Longrightarrow> keeps v (whenc b m)"
  by (simp add: whenc_def keeps_basic)

lemma keeps_any_cmd [frame]: "list_all (keeps v) ms \<Longrightarrow> keeps v (any_cmd ms)"
  by (induction ms) (auto intro!: keeps_bnd keeps_if keeps_basic)

lemma keeps_catch_api [frame]:
  assumes m: "keeps v m" and h: "\<And>st cl tx. keeps v (h st cl tx)"
  shows "keeps v (catch_api m h)"
  unfolding keeps_def
proof
  fix s
  obtain r t where r: "m s = (r, t)" by (cases "m s")
  have t: "v t = v s" using keepsD [OF m r] .
  show "v (snd (catch_api m h s)) = v s"
    using h r t by (auto simp: catch_api_def keeps_def split: outcome.splits exn.splits)
qed

lemma keeps_catch_all [frame]:
  assumes m: "keeps v m" and h: "\<And>e. keeps v (h e)"
  shows "keeps v (catch_all m h)"
  unfolding keeps_def
proof
  fix s
  obtain r t where r: "m s = (r, t)" by (cases "m s")
  have "v t = v s" using keepsD [OF m r] .
  then show "v (snd (catch_all m h s)) = v s"
    using h r by (cases r) (auto simp: keeps_def)
qed

lemma keeps_zoom: "(\<And>t s. v (p t s) = v s) \<Longrightarrow> keeps v (zoom g p m)"
  by (auto simp: keeps_def zoom_def split: prod.splits)

lemma keeps_case_option [frame]:
  "keeps v m \<Longrightarrow> (\<And>x. keeps v (f x)) \<Longrightarrow> keeps v (case_option m f o')"
  by (cases o') auto

end
