(* ===== verification/Systemd_Worker.thy ===== *)
theory Systemd_Worker
  imports Py_Monad
begin

text \<open>
  \<open>ansible/module_utils/kolla_systemd_worker.py\<close>: the systemd unit of a container. The state is
  a host: the unit files on disk and the rest of the machine (the systemd manager behind D-Bus
  and, with it, the container engine), an abstract \<open>'w\<close>. The D-Bus manager and the passing of
  time are parameters (\<open>systemd_api\<close>). \<open>string.Template.substitute\<close>, of the standard library,
  is modelled. The files' contract (create, remove, check) is the locale \<open>unit_store\<close>,
  interpreted on the worker's own methods.
\<close>

section \<open>Host and D-Bus interface\<close>

record 'w host =
  unit_files :: "string \<Rightarrow> string option"
  world :: 'w

text \<open>
  \<open>mgr_call files f args\<close> is \<open>getattr(manager, f)(*args)\<close> with the unit files on disk as they
  are; \<open>mgr_list_units\<close> is \<open>ListUnits()\<close>, as pairs of a unit's name and its sub-state
  (\<open>service[0]\<close>, \<open>service[4]\<close>); \<open>mgr_sleep n\<close> is what happens during \<open>sleep(n)\<close>.
\<close>

record 'w systemd_api =
  mgr_call :: "(string \<Rightarrow> string option) \<Rightarrow> string \<Rightarrow> pyval list \<Rightarrow> ('w, unit) cmd"
  mgr_list_units :: "('w, (string \<times> string) list) cmd"
  mgr_sleep :: "int \<Rightarrow> 'w \<Rightarrow> 'w"

definition on_world :: "('w, 'a) cmd \<Rightarrow> ('w host, 'a) cmd" where
  "on_world m = zoom world (\<lambda>w h. h\<lparr>world := w\<rparr>) m"

lemma keeps_on_world [frame]: "keeps unit_files (on_world m)"
  by (simp add: on_world_def keeps_zoom)

section \<open>Templates\<close>

definition ident_start :: "char \<Rightarrow> bool" where
  "ident_start c \<longleftrightarrow> (let n = code_of c in (65 \<le> n \<and> n \<le> 90) \<or> (97 \<le> n \<and> n \<le> 122) \<or> n = 95)"

definition ident_char :: "char \<Rightarrow> bool" where
  "ident_char c \<longleftrightarrow> ident_start c \<or> is_decimal c"

text \<open>\<open>Template(t).substitute(d)\<close>: \<open>$$\<close>, \<open>$name\<close>, \<open>${name}\<close>; anything else after a dollar is a
  \<open>ValueError\<close>, an unknown name a \<open>KeyError\<close>.\<close>

function template_substitute :: "pydict \<Rightarrow> string \<Rightarrow> string outcome" where
  "template_substitute d [] = Ret []"
| "template_substitute d (c # cs) =
     (if c \<noteq> CHR ''$'' then obind (template_substitute d cs) (\<lambda>r. Ret (c # r))
      else case cs of
        [] \<Rightarrow> Raise ValueError
      | e # es \<Rightarrow>
          if e = CHR ''$'' then obind (template_substitute d es) (\<lambda>r. Ret (CHR ''$'' # r))
          else if e = CHR 0x7B then
            (let ident = takeWhile ident_char es; rest = dropWhile ident_char es in
             case (ident, rest) of
               (i # _, b # rest') \<Rightarrow>
                 if ident_start i \<and> b = CHR 0x7D
                 then obind (py_item (PDict d) ident)
                        (\<lambda>v. obind (template_substitute d rest') (\<lambda>r. Ret (py_str v @ r)))
                 else Raise ValueError
             | _ \<Rightarrow> Raise ValueError)
          else if ident_start e then
            (let ident = e # takeWhile ident_char es; rest = dropWhile ident_char es in
             obind (py_item (PDict d) ident)
               (\<lambda>v. obind (template_substitute d rest) (\<lambda>r. Ret (py_str v @ r))))
          else Raise ValueError)"
  by pat_completeness auto
termination
proof (relation "measure (\<lambda>(d, s). length s)", goal_cases)
  case (4 d c cs e es ident rest p xs1 x1 x2 b rest')
  then show ?case by (auto dest: length_dropWhile_Cons)
qed (auto intro: le_less_trans [OF length_dropWhile_le])

definition template_lines :: "string list" where
  "template_lines =
    [''# ${service_name}'',
     ''# autogenerated by Kolla-Ansible'',
     [],
     ''[Unit]'',
     ''Description=${engine} ${service_name}'',
     ''After=${deps}'',
     ''Wants=${deps}'',
     ''StartLimitInterval=${restart_timeout}'',
     ''StartLimitBurst=${restart_retries}'',
     [],
     ''[Service]'',
     ''ExecStart=/usr/bin/${engine} start -a ${name}'',
     ''ExecStop=/usr/bin/${engine} stop ${name} -t ${graceful_timeout}'',
     ''Restart=${restart_policy}'',
     ''RestartSec=${restart_duration}'',
     ''SuccessExitStatus=143'',
     [],
     ''[Install]'',
     ''WantedBy=multi-user.target'']"

definition TEMPLATE :: string where
  "TEMPLATE = concat (map (\<lambda>l. l @ [nl]) template_lines)"

section \<open>The worker's attributes\<close>

text \<open>
  \<open>container_dict\<close> as a record. The name is a string and the duration an integer by then (the
  concatenation and the division that build them raise otherwise).
\<close>

record sysd_conf =
  sd_name :: string
  sd_service_name :: string
  sd_engine :: pyval
  sd_deps :: string
  sd_graceful_timeout :: pyval
  sd_restart_policy :: pyval
  sd_restart_timeout :: pyval
  sd_restart_retries :: pyval
  sd_restart_duration :: int

definition container_dict :: "sysd_conf \<Rightarrow> pydict" where
  "container_dict c =
    [(''name'', PStr (sd_name c)),
     (''service_name'', PStr (sd_service_name c)),
     (''engine'', sd_engine c),
     (''deps'', PStr (sd_deps c)),
     (''graceful_timeout'', sd_graceful_timeout c),
     (''restart_policy'', sd_restart_policy c),
     (''restart_timeout'', sd_restart_timeout c),
     (''restart_retries'', sd_restart_retries c),
     (''restart_duration'', PInt (sd_restart_duration c))]"

text \<open>\<open>SystemdWorker.__init__\<close>: \<open>None\<close> when there is no name, and then no attribute is set.\<close>

definition systemd_init :: "pydict \<Rightarrow> sysd_conf option outcome" where
  "systemd_init params =
    (let name = dget params ''name'' in
     if \<not> truthy name then Ret None
     else
       (let engine = dget params ''container_engine'';
            deps = (if engine = PStr ''docker'' then ''docker.service''
                    else ''network-online.target'');
            policy0 = dget_or params ''restart_policy'' (PStr ''no'');
            policy = (if policy0 = PStr ''unless-stopped'' then PStr ''always'' else policy0);
            timeout = dget_or params ''client_timeout'' (PInt 120);
            retries = dget_or params ''restart_retries'' (PInt 10)
        in obind (py_floordiv timeout retries) (\<lambda>q.
             case name of
               PStr n \<Rightarrow> Ret (Some
                 \<lparr>sd_name = n,
                  sd_service_name = ''kolla-'' @ n @ ''-container.service'',
                  sd_engine = engine,
                  sd_deps = deps,
                  sd_graceful_timeout = dget params ''graceful_timeout'',
                  sd_restart_policy = policy,
                  sd_restart_timeout = timeout,
                  sd_restart_retries = retries,
                  sd_restart_duration = q - 1\<rparr>)
             | _ \<Rightarrow> Raise TypeError)))"

definition sysdir :: string where
  "sysdir = ''/etc/systemd/system/''"

definition unit_path :: "sysd_conf \<Rightarrow> string" where
  "unit_path c = sysdir @ sd_service_name c"

definition job_mode :: pyval where
  "job_mode = PStr ''replace''"

section \<open>Unit actions\<close>

definition perform_action ::
    "'w systemd_api \<Rightarrow> string \<Rightarrow> pyval list \<Rightarrow> ('w host, bool) cmd" where
  "perform_action api f args =
     bnd (gets unit_files) (\<lambda>files.
       catch_all (seqc (on_world (mgr_call api files f args)) (ret True)) (\<lambda>e. ret False))"

definition get_unit_state :: "'w systemd_api \<Rightarrow> sysd_conf \<Rightarrow> ('w host, string option) cmd" where
  "get_unit_state api c =
     bnd (on_world (mgr_list_units api)) (\<lambda>units. ret (map_of units (sd_service_name c)))"

definition sleep_host :: "'w systemd_api \<Rightarrow> int \<Rightarrow> 'w host \<Rightarrow> 'w host" where
  "sleep_host api n h = h\<lparr>world := mgr_sleep api n (world h)\<rparr>"

text \<open>\<open>wait_for_unit\<close>: the loop with its \<open>elapsed\<close> counter, which grows by \<open>delay\<close> = 5.\<close>

function wait_loop ::
    "'w systemd_api \<Rightarrow> sysd_conf \<Rightarrow> int \<Rightarrow> string \<Rightarrow> int \<Rightarrow> 'w host \<Rightarrow> bool outcome \<times> 'w host" where
  "wait_loop api c timeout st elapsed h =
     (case get_unit_state api c h of
        (Ret r, h') \<Rightarrow>
          if r = Some st then (Ret True, h')
          else if elapsed > timeout then (Ret False, h')
          else wait_loop api c timeout st (elapsed + 5) (sleep_host api 5 h')
      | (Raise e, h') \<Rightarrow> (Raise e, h')
      | (Exit k d, h') \<Rightarrow> (Exit k d, h'))"
  by pat_completeness auto
termination
  by (relation "measure (\<lambda>(api, c, timeout, st, elapsed, h). nat (timeout + 5 - elapsed))") auto

declare wait_loop.simps [simp del]

definition wait_for_unit ::
    "'w systemd_api \<Rightarrow> sysd_conf \<Rightarrow> pyval \<Rightarrow> string \<Rightarrow> ('w host, bool) cmd" where
  "wait_for_unit api c timeout st =
     (case as_int timeout of
        None \<Rightarrow> raise TypeError
      | Some t \<Rightarrow> wait_loop api c t st 0)"

definition unit_action ::
    "'w systemd_api \<Rightarrow> sysd_conf \<Rightarrow> string \<Rightarrow> string \<Rightarrow> ('w host, bool) cmd" where
  "unit_action api c f st =
     bnd (perform_action api f [PStr (sd_service_name c), job_mode]) (\<lambda>ok.
       if ok then wait_for_unit api c (sd_restart_timeout c) st else ret False)"

definition systemd_start :: "'w systemd_api \<Rightarrow> sysd_conf \<Rightarrow> ('w host, bool) cmd" where
  "systemd_start api c = unit_action api c ''StartUnit'' ''running''"

definition systemd_restart :: "'w systemd_api \<Rightarrow> sysd_conf \<Rightarrow> ('w host, bool) cmd" where
  "systemd_restart api c = unit_action api c ''RestartUnit'' ''running''"

definition systemd_stop :: "'w systemd_api \<Rightarrow> sysd_conf \<Rightarrow> ('w host, bool) cmd" where
  "systemd_stop api c = unit_action api c ''StopUnit'' ''dead''"

definition systemd_reload :: "'w systemd_api \<Rightarrow> sysd_conf \<Rightarrow> ('w host, bool) cmd" where
  "systemd_reload api c =
     perform_action api ''Reload'' [PStr (sd_service_name c), job_mode]"

definition systemd_enable :: "'w systemd_api \<Rightarrow> sysd_conf \<Rightarrow> ('w host, bool) cmd" where
  "systemd_enable api c =
     perform_action api ''EnableUnitFiles''
       [PList [PStr (sd_service_name c)], PBool False, PBool True]"

section \<open>The unit file\<close>

definition generate_unit_file :: "sysd_conf \<Rightarrow> string outcome" where
  "generate_unit_file c = template_substitute (container_dict c) TEMPLATE"

definition check_unit_file :: "sysd_conf \<Rightarrow> ('w host, bool) cmd" where
  "check_unit_file c = gets (\<lambda>h. unit_files h (unit_path c) \<noteq> None)"

definition check_unit_change :: "sysd_conf \<Rightarrow> string \<Rightarrow> ('w host, bool) cmd" where
  "check_unit_change c new_content0 =
     bnd (if new_content0 = [] then lift (generate_unit_file c) else ret new_content0)
       (\<lambda>new_content. gets (\<lambda>h.
          case unit_files h (unit_path c) of
            Some curr_content \<Rightarrow> curr_content \<noteq> new_content
          | None \<Rightarrow> True))"

definition create_unit_file :: "'w systemd_api \<Rightarrow> sysd_conf \<Rightarrow> ('w host, bool) cmd" where
  "create_unit_file api c =
     bnd (lift (generate_unit_file c)) (\<lambda>file_content.
     bnd (check_unit_change c file_content) (\<lambda>change.
       if change
       then seqc (modify (\<lambda>h. h\<lparr>unit_files := (unit_files h)(unit_path c := Some file_content)\<rparr>))
           (seqc (systemd_reload api c)
           (seqc (systemd_enable api c)
           (ret True)))
       else ret False))"

definition remove_unit_file :: "'w systemd_api \<Rightarrow> sysd_conf \<Rightarrow> ('w host, bool) cmd" where
  "remove_unit_file api c =
     bnd (check_unit_file c) (\<lambda>exists.
       if exists
       then seqc (modify (\<lambda>h. h\<lparr>unit_files := (unit_files h)(unit_path c := None)\<rparr>))
           (seqc (systemd_reload api c)
           (ret True))
       else ret False)"

section \<open>The rendered unit\<close>

text \<open>What \<open>generate_unit_file\<close> writes, line by line, with the attributes filled in.\<close>

definition rendered_unit :: "sysd_conf \<Rightarrow> string" where
  "rendered_unit c = concat (map (\<lambda>l. l @ [nl])
    [''# '' @ sd_service_name c,
     ''# autogenerated by Kolla-Ansible'',
     [],
     ''[Unit]'',
     ''Description='' @ py_str (sd_engine c) @ '' '' @ sd_service_name c,
     ''After='' @ sd_deps c,
     ''Wants='' @ sd_deps c,
     ''StartLimitInterval='' @ py_str (sd_restart_timeout c),
     ''StartLimitBurst='' @ py_str (sd_restart_retries c),
     [],
     ''[Service]'',
     ''ExecStart=/usr/bin/'' @ py_str (sd_engine c) @ '' start -a '' @ sd_name c,
     ''ExecStop=/usr/bin/'' @ py_str (sd_engine c) @ '' stop '' @ sd_name c
        @ '' -t '' @ py_str (sd_graceful_timeout c),
     ''Restart='' @ py_str (sd_restart_policy c),
     ''RestartSec='' @ int_str (sd_restart_duration c),
     ''SuccessExitStatus=143'',
     [],
     ''[Install]'',
     ''WantedBy=multi-user.target''])"

declare template_substitute.simps(2) [simp del]

lemma template_char [simp]:
  "c \<noteq> CHR ''$'' \<Longrightarrow>
    template_substitute d (c # cs) = obind (template_substitute d cs) (\<lambda>r. Ret (c # r))"
  by (simp add: template_substitute.simps(2))

lemma template_text:
  "CHR ''$'' \<notin> set s \<Longrightarrow>
    template_substitute d (s @ t) = obind (template_substitute d t) (\<lambda>r. Ret (s @ r))"
  by (induction s) (auto simp: obind_assoc)

lemma template_text_end [simp]: "CHR ''$'' \<notin> set s \<Longrightarrow> template_substitute d s = Ret s"
  using template_text [of s d "[]"] by simp

lemma template_var:
  assumes "i \<noteq> []" and "ident_start (hd i)" and "\<forall>x \<in> set i. ident_char x"
    and "map_of d i = Some v"
  shows "template_substitute d (CHR ''$'' # CHR 0x7B # i @ CHR 0x7D # t)
    = obind (template_substitute d t) (\<lambda>r. Ret (py_str v @ r))"
proof -
  have stop: "\<not> ident_char (CHR 0x7D)"
    by (simp add: ident_char_def ident_start_def is_decimal_def code_of_def)
  obtain j js where i: "i = j # js" using assms(1) by (cases i) auto
  have tw: "takeWhile ident_char (i @ CHR 0x7D # t) = i"
    and dw: "dropWhile ident_char (i @ CHR 0x7D # t) = CHR 0x7D # t"
    using assms(3) stop by (simp_all add: takeWhile_append_stop dropWhile_append_stop)
  have "ident_start j" using assms(2) i by simp
  with tw dw show ?thesis
    using assms(4)
    by (simp add: i Let_def template_substitute.simps(2) del: takeWhile.simps dropWhile.simps)
qed

text \<open>A template as a list of literal texts, each followed by a placeholder, and a tail.\<close>

definition placeholder :: "string \<Rightarrow> string" where
  "placeholder i = CHR ''$'' # CHR 0x7B # i @ [CHR 0x7D]"

definition good_piece :: "pydict \<Rightarrow> string \<times> string \<Rightarrow> bool" where
  "good_piece d p \<longleftrightarrow> CHR ''$'' \<notin> set (fst p) \<and> snd p \<noteq> [] \<and> ident_start (hd (snd p))
     \<and> list_all ident_char (snd p) \<and> has_key d (snd p)"

lemma template_pieces:
  "\<lbrakk>list_all (good_piece d) ps; CHR ''$'' \<notin> set z\<rbrakk> \<Longrightarrow>
    template_substitute d (concat (map (\<lambda>p. fst p @ placeholder (snd p)) ps) @ z)
      = Ret (concat (map (\<lambda>p. fst p @ py_str (dget d (snd p))) ps) @ z)"
proof (induction ps)
  case Nil
  then show ?case by simp
next
  case (Cons p ps)
  then obtain v where v: "map_of d (snd p) = Some v" "dget d (snd p) = v"
    by (auto simp: good_piece_def has_key_def dget_def dget_or_def)
  from Cons show ?case
    using template_var [of "snd p" d v] template_text [of "fst p" d] v
    by (simp add: placeholder_def good_piece_def list_all_iff)
qed

definition template_parts :: "(string \<times> string) list" where
  "template_parts =
    [(''# '', ''service_name''),
     (nl # ''# autogenerated by Kolla-Ansible'' @ [nl, nl] @ ''[Unit]'' @ [nl] @ ''Description='', ''engine''),
     ('' '', ''service_name''),
     (nl # ''After='', ''deps''),
     (nl # ''Wants='', ''deps''),
     (nl # ''StartLimitInterval='', ''restart_timeout''),
     (nl # ''StartLimitBurst='', ''restart_retries''),
     ([nl, nl] @ ''[Service]'' @ [nl] @ ''ExecStart=/usr/bin/'', ''engine''),
     ('' start -a '', ''name''),
     (nl # ''ExecStop=/usr/bin/'', ''engine''),
     ('' stop '', ''name''),
     ('' -t '', ''graceful_timeout''),
     (nl # ''Restart='', ''restart_policy''),
     (nl # ''RestartSec='', ''restart_duration'')]"

definition template_tail :: string where
  "template_tail = nl # ''SuccessExitStatus=143'' @ [nl, nl] @ ''[Install]'' @ [nl]
     @ ''WantedBy=multi-user.target'' @ [nl]"

lemma TEMPLATE_parts:
  "TEMPLATE = concat (map (\<lambda>p. fst p @ placeholder (snd p)) template_parts) @ template_tail"
  by (simp add: TEMPLATE_def template_lines_def template_parts_def template_tail_def placeholder_def)

lemma template_parts_good: "list_all (good_piece (container_dict c)) template_parts"
  by (simp add: template_parts_def good_piece_def container_dict_def has_key_def ident_char_def
      ident_start_def is_decimal_def code_of_def nl_def)

lemma generate_unit_file_rendered: "generate_unit_file c = Ret (rendered_unit c)"
proof -
  have "CHR ''$'' \<notin> set template_tail" by (simp add: template_tail_def nl_def)
  then show ?thesis
    unfolding generate_unit_file_def TEMPLATE_parts
    by (simp add: template_pieces [OF template_parts_good])
       (simp add: rendered_unit_def template_parts_def template_tail_def container_dict_def
         dget_def dget_or_def)
qed

lemma rendered_unit_ne: "rendered_unit c \<noteq> []"
  by (simp add: rendered_unit_def)

section \<open>The contract of the unit files\<close>

text \<open>
  What the workers rely on: create leaves an up-to-date file and tells whether it had to write
  it, remove leaves none and tells whether there was one, the checks only look.
\<close>

locale unit_store =
  fixes create :: "('h, bool) cmd"
    and remove :: "('h, bool) cmd"
    and present :: "('h, bool) cmd"
    and outdated :: "('h, bool) cmd"
  assumes present_looks: "\<exists>b. present h = (Ret b, h)"
    and outdated_looks: "\<exists>b. outdated h = (Ret b, h)"
    and absent_outdated: "present h = (Ret False, h) \<Longrightarrow> outdated h = (Ret True, h)"
    and create_result: "create h = (Ret b, h') \<Longrightarrow> outdated h = (Ret b, h)"
    and create_present: "create h = (Ret b, h') \<Longrightarrow> present h' = (Ret True, h')"
    and create_current: "create h = (Ret b, h') \<Longrightarrow> outdated h' = (Ret False, h')"
    and create_skips: "outdated h = (Ret False, h) \<Longrightarrow> create h = (Ret False, h)"
    and remove_result: "remove h = (Ret b, h') \<Longrightarrow> present h = (Ret b, h)"
    and remove_absent: "remove h = (Ret b, h') \<Longrightarrow> present h' = (Ret False, h')"
    and remove_skips: "present h = (Ret False, h) \<Longrightarrow> remove h = (Ret False, h)"
begin

lemma create_idempotent: "create h = (Ret b, h') \<Longrightarrow> create h' = (Ret False, h')"
  by (blast intro: create_skips create_current)

lemma remove_idempotent: "remove h = (Ret b, h') \<Longrightarrow> remove h' = (Ret False, h')"
  by (blast intro: remove_skips remove_absent)

lemma create_after_remove:
  "\<lbrakk>remove h = (Ret b, h'); create h' = (Ret b', h'')\<rbrakk> \<Longrightarrow> b'"
  by (metis absent_outdated create_result outcome.inject(1) prod.inject remove_absent)

lemma remove_after_create:
  "\<lbrakk>create h = (Ret b, h'); remove h' = (Ret b', h'')\<rbrakk> \<Longrightarrow> b'"
  by (metis create_present outcome.inject(1) prod.inject remove_result)

end

lemma keeps_perform_action [frame]: "keeps unit_files (perform_action api f args)"
  unfolding perform_action_def by (intro frame)

lemma perform_action_files: "perform_action api f args h = (r, h') \<Longrightarrow> unit_files h' = unit_files h"
  by (rule keepsD [OF keeps_perform_action])

lemma check_unit_change_run:
  "check_unit_change c (rendered_unit c) h = (Ret (unit_files h (unit_path c) \<noteq> Some (rendered_unit c)), h)"
  "check_unit_change c [] h = (Ret (unit_files h (unit_path c) \<noteq> Some (rendered_unit c)), h)"
  by (auto simp: check_unit_change_def rendered_unit_ne generate_unit_file_rendered split: option.splits)

lemma check_unit_file_run: "check_unit_file c h = (Ret (unit_files h (unit_path c) \<noteq> None), h)"
  by (simp add: check_unit_file_def)

lemma create_unit_file_returns:
  assumes "create_unit_file api c h = (Ret b, h')"
  shows "b \<longleftrightarrow> unit_files h (unit_path c) \<noteq> Some (rendered_unit c)"
    and "unit_files h' = (unit_files h)(unit_path c := Some (rendered_unit c))"
    and "\<not> b \<Longrightarrow> h' = h"
  using assms
  by (auto simp: create_unit_file_def generate_unit_file_rendered check_unit_change_run
      bnd_returns seqc_returns systemd_reload_def systemd_enable_def fun_upd_idem
      dest!: perform_action_files split: if_splits)

lemma remove_unit_file_returns:
  assumes "remove_unit_file api c h = (Ret b, h')"
  shows "b \<longleftrightarrow> unit_files h (unit_path c) \<noteq> None"
    and "unit_files h' = (unit_files h)(unit_path c := None)"
    and "\<not> b \<Longrightarrow> h' = h"
  using assms
  by (auto simp: remove_unit_file_def check_unit_file_run bnd_returns seqc_returns
      systemd_reload_def fun_upd_idem dest!: perform_action_files split: if_splits)

interpretation unit_files_store: unit_store
  "create_unit_file api c" "remove_unit_file api c" "check_unit_file c" "check_unit_change c []"
  for api :: "'w systemd_api" and c :: sysd_conf
proof (unfold_locales, goal_cases)
  case (4 h b h')
  show ?case using create_unit_file_returns(1) [OF 4] by (simp add: check_unit_change_run)
next
  case (5 h b h')
  show ?case using create_unit_file_returns(2) [OF 5] by (simp add: check_unit_file_run)
next
  case (6 h b h')
  show ?case using create_unit_file_returns(2) [OF 6] by (simp add: check_unit_change_run)
next
  case (7 h)
  then show ?case
    by (simp add: create_unit_file_def generate_unit_file_rendered check_unit_change_run bnd_def)
next
  case (8 h b h')
  show ?case using remove_unit_file_returns(1) [OF 8] by (simp add: check_unit_file_run)
next
  case (9 h b h')
  show ?case using remove_unit_file_returns(2) [OF 9] by (simp add: check_unit_file_run)
next
  case (10 h)
  then show ?case by (simp add: remove_unit_file_def check_unit_file_run bnd_def)
qed (simp_all add: check_unit_file_run check_unit_change_run)

text \<open>C12: \<open>create_unit_file\<close> leaves exactly the rendered unit on disk (no other file changes), returns
  whether the file had to be written, and does nothing at all when it was up to date; a second
  call finds nothing to do.\<close>

theorem create_unit_file_correct:
  assumes "create_unit_file api c h = (Ret b, h')"
  shows "unit_files h' = (unit_files h)(unit_path c := Some (rendered_unit c))
    \<and> (b \<longleftrightarrow> unit_files h (unit_path c) \<noteq> Some (rendered_unit c))
    \<and> (\<not> b \<longrightarrow> h' = h)
    \<and> check_unit_change c [] h' = (Ret False, h')
    \<and> create_unit_file api c h' = (Ret False, h')"
  using create_unit_file_returns [OF assms] unit_files_store.create_current [OF assms]
    unit_files_store.create_idempotent [OF assms]
  by simp

text \<open>\<open>remove_unit_file\<close> deletes the unit's file and no other, reports whether there was one,
  and creating the unit again afterwards always writes it.\<close>

theorem remove_unit_file_correct:
  assumes "remove_unit_file api c h = (Ret b, h')"
  shows "unit_files h' = (unit_files h)(unit_path c := None)
    \<and> (b \<longleftrightarrow> unit_files h (unit_path c) \<noteq> None)
    \<and> remove_unit_file api c h' = (Ret False, h')
    \<and> (\<forall>b' h''. create_unit_file api c h' = (Ret b', h'') \<longrightarrow> b')"
  using remove_unit_file_returns [OF assms] unit_files_store.remove_idempotent [OF assms]
    unit_files_store.create_after_remove [OF assms]
  by blast

section \<open>Waiting for a unit\<close>

text \<open>The host at the \<open>k\<close>-th poll when the polls so far did not end the wait.\<close>

fun nth_poll :: "'w systemd_api \<Rightarrow> sysd_conf \<Rightarrow> nat \<Rightarrow> 'w host \<Rightarrow> 'w host" where
  "nth_poll api c 0 h = h"
| "nth_poll api c (Suc k) h = sleep_host api 5 (snd (get_unit_state api c (nth_poll api c k h)))"

text \<open>The last poll has the first index \<open>k\<close> with \<open>5 * k > timeout\<close>.\<close>

definition last_poll :: "int \<Rightarrow> nat" where
  "last_poll timeout = nat (timeout div 5 + 1)"

lemma wait_loop_polls:
  assumes obs: "\<And>k. fst (get_unit_state api c (nth_poll api c k h)) = Ret (obs k)"
  shows "i \<le> last_poll t \<Longrightarrow>
    \<exists>k \<ge> i. k \<le> last_poll t
      \<and> wait_loop api c t st (5 * int i) (nth_poll api c i h)
          = (Ret (obs k = Some st), snd (get_unit_state api c (nth_poll api c k h)))
      \<and> (\<forall>j. i \<le> j \<longrightarrow> j < k \<longrightarrow> obs j \<noteq> Some st) \<and> (obs k = Some st \<or> k = last_poll t)"
proof (induction "last_poll t - i" arbitrary: i)
  case 0
  then have i: "i = last_poll t" by simp
  then have "5 * int i > t" by (simp add: last_poll_def) linarith
  moreover obtain h' where g: "get_unit_state api c (nth_poll api c i h) = (Ret (obs i), h')"
    using obs [of i] by (metis prod.collapse)
  ultimately have "wait_loop api c t st (5 * int i) (nth_poll api c i h) = (Ret (obs i = Some st), h')"
    by (subst wait_loop.simps) simp
  then show ?case using i g by (intro exI [of _ i]) auto
next
  case (Suc n)
  obtain h' where g: "get_unit_state api c (nth_poll api c i h) = (Ret (obs i), h')"
    using obs [of i] by (metis prod.collapse)
  have lt: "\<not> 5 * int i > t" using Suc.hyps(2) by (simp add: last_poll_def)
  show ?case
  proof (cases "obs i = Some st")
    case True
    with g have "wait_loop api c t st (5 * int i) (nth_poll api c i h) = (Ret True, h')"
      by (subst wait_loop.simps) simp
    with True g Suc.prems show ?thesis by (intro exI [of _ i]) auto
  next
    case False
    have "n = last_poll t - Suc i" "Suc i \<le> last_poll t" using Suc.hyps(2) by auto
    from Suc.hyps(1) [OF this] obtain k where k: "Suc i \<le> k" "k \<le> last_poll t"
      "wait_loop api c t st (5 * int (Suc i)) (nth_poll api c (Suc i) h)
        = (Ret (obs k = Some st), snd (get_unit_state api c (nth_poll api c k h)))"
      "\<forall>j. Suc i \<le> j \<longrightarrow> j < k \<longrightarrow> obs j \<noteq> Some st" "obs k = Some st \<or> k = last_poll t"
      by blast
    have "wait_loop api c t st (5 * int i) (nth_poll api c i h)
        = wait_loop api c t st (5 * int (Suc i)) (nth_poll api c (Suc i) h)"
      using g lt False by (subst wait_loop.simps) (simp add: algebra_simps)
    moreover have "\<forall>j. i \<le> j \<longrightarrow> j < k \<longrightarrow> obs j \<noteq> Some st"
      using k(4) False by (metis Suc_leI le_neq_implies_less)
    ultimately show ?thesis using k by (intro exI [of _ k]) simp
  qed
qed

text \<open>C13: \<open>wait_for_unit\<close> always ends: it polls the unit at most \<open>timeout // 5 + 2\<close> times, five seconds
  apart, stops at the first poll that finds the wanted state and returns \<open>True\<close>, and returns
  \<open>False\<close> only when the last allowed poll still does not find it.\<close>

theorem wait_for_unit_terminates:
  assumes "\<And>k. fst (get_unit_state api c (nth_poll api c k h)) = Ret (obs k)"
  shows "\<exists>k \<le> last_poll t.
      wait_for_unit api c (PInt t) st h
        = (Ret (obs k = Some st), snd (get_unit_state api c (nth_poll api c k h)))
      \<and> (\<forall>j < k. obs j \<noteq> Some st) \<and> (obs k = Some st \<or> k = last_poll t)"
  using wait_loop_polls [OF assms, of 0 t st] by (auto simp: wait_for_unit_def)

lemma wait_loop_True:
  "wait_loop api c t st e h = (Ret True, h') \<Longrightarrow> \<exists>u. get_unit_state api c u = (Ret (Some st), h')"
proof (induction api c t st e h rule: wait_loop.induct)
  case (1 api c t st e h)
  from "1.prems" show ?case
    by (subst (asm) wait_loop.simps)
       (auto split: prod.splits outcome.splits if_splits intro: "1.IH")
qed

lemma unit_action_True:
  assumes "unit_action api c f st h = (Ret True, h')"
  shows "\<exists>u. get_unit_state api c u = (Ret (Some st), h')"
  using assms
  by (auto simp: unit_action_def bnd_returns wait_for_unit_def dest: wait_loop_True
      split: if_splits option.splits)

lemma keeps_wait_loop: "unit_files (snd (wait_loop api c t st e h)) = unit_files h"
proof (induction api c t st e h rule: wait_loop.induct)
  case (1 api c t st e h)
  have k: "keeps unit_files (get_unit_state api c)"
    unfolding get_unit_state_def by (intro frame)
  obtain r h1 where g: "get_unit_state api c h = (r, h1)" by (cases "get_unit_state api c h")
  with k have "unit_files h1 = unit_files h" by (rule keepsD)
  with 1 g show ?case
    by (subst wait_loop.simps) (auto simp: sleep_host_def split: outcome.splits)
qed

lemma keeps_unit_action [frame]: "keeps unit_files (unit_action api c f st)"
proof -
  have "keeps unit_files (wait_for_unit api c v st)" for v
    by (auto simp: keeps_def wait_for_unit_def keeps_wait_loop split: option.splits)
  then show ?thesis unfolding unit_action_def by (intro frame) auto
qed

text \<open>\<open>start\<close> and \<open>restart\<close> report success only after \<open>ListUnits\<close> has shown the container's unit
  in the sub-state \<open>running\<close>, \<open>stop\<close> only after it has shown it \<open>dead\<close>, and none of them
  touches a unit file.\<close>

theorem unit_actions_confirmed:
  "(systemd_start api c h = (Ret True, h') \<longrightarrow>
      (\<exists>u. get_unit_state api c u = (Ret (Some ''running''), h')))
   \<and> (systemd_restart api c h = (Ret True, h') \<longrightarrow>
      (\<exists>u. get_unit_state api c u = (Ret (Some ''running''), h')))
   \<and> (systemd_stop api c h = (Ret True, h') \<longrightarrow>
      (\<exists>u. get_unit_state api c u = (Ret (Some ''dead''), h')))
   \<and> keeps unit_files (systemd_start api c) \<and> keeps unit_files (systemd_restart api c)
   \<and> keeps unit_files (systemd_stop api c)"
  by (auto simp: systemd_start_def systemd_restart_def systemd_stop_def
      intro: keeps_unit_action dest: unit_action_True)

section \<open>Restart limits\<close>

text \<open>C19: with integer limits and a positive number of retries, all restarts fit in the start-limit
  interval (\<open>duration * retries < timeout\<close>, the condition the comment in \<open>__init__\<close> asks for);
  without a name no unit is configured, and zero retries raise \<open>ZeroDivisionError\<close>.\<close>

theorem systemd_init_restart_limits:
  assumes "dget params ''name'' = PStr n" and "n \<noteq> []"
    and "dget_or params ''client_timeout'' (PInt 120) = PInt t"
    and "dget_or params ''restart_retries'' (PInt 10) = PInt r"
  shows "(r = 0 \<longrightarrow> systemd_init params = Raise ZeroDivisionError)
    \<and> (r > 0 \<longrightarrow> (\<exists>c. systemd_init params = Ret (Some c)
          \<and> sd_service_name c = ''kolla-'' @ n @ ''-container.service''
          \<and> sd_restart_duration c * r < t
          \<and> t \<le> (sd_restart_duration c + 2) * r))"
proof -
  have b: "(t div r - 1) * r < t" and u: "t \<le> (1 + t div r) * r" if "r > 0"
  proof -
    have m: "0 \<le> t mod r" "t mod r < r" using that by simp_all
    have e: "(t div r - 1) * r = t - t mod r - r" "(1 + t div r) * r = t - t mod r + r"
      by (simp_all add: left_diff_distrib distrib_right minus_mod_eq_div_mult)
    show "(t div r - 1) * r < t" "t \<le> (1 + t div r) * r"
      unfolding e using m by simp_all
  qed
  show ?thesis
    using assms b u by (auto simp: systemd_init_def Let_def py_floordiv_def)
qed

section \<open>The theorems on a sample host\<close>

definition sample_conf :: sysd_conf where
  "sample_conf =
    \<lparr>sd_name = ''nova'', sd_service_name = ''kolla-nova-container.service'',
     sd_engine = PStr ''docker'', sd_deps = ''docker.service'', sd_graceful_timeout = PInt 10,
     sd_restart_policy = PStr ''always'', sd_restart_timeout = PInt 120,
     sd_restart_retries = PInt 10, sd_restart_duration = 11\<rparr>"

definition sample_bus :: "bool systemd_api" where
  "sample_bus =
    \<lparr>mgr_call = (\<lambda>files f args. modify (\<lambda>w. if f = ''StartUnit'' \<or> f = ''RestartUnit'' then True
        else if f = ''StopUnit'' then False else w)),
     mgr_list_units = gets (\<lambda>w. [(''kolla-nova-container.service'', if w then ''running'' else ''dead'')]),
     mgr_sleep = (\<lambda>n w. w)\<rparr>"

definition sample_host :: "bool host" where
  "sample_host = \<lparr>unit_files = (\<lambda>f. None), world = False\<rparr>"

lemma sample_create:
  "create_unit_file sample_bus sample_conf sample_host
    = (Ret True, sample_host\<lparr>unit_files := [unit_path sample_conf \<mapsto> rendered_unit sample_conf]\<rparr>)"
  by (simp add: create_unit_file_def generate_unit_file_rendered check_unit_change_run sample_host_def
      systemd_reload_def systemd_enable_def perform_action_def on_world_def zoom_def sample_bus_def
      bnd_def seqc_def catch_all_def)

lemma sample_remove_unit:
  "remove_unit_file sample_bus sample_conf sample_host = (Ret False, sample_host)"
  by (simp add: remove_unit_file_def check_unit_file_run sample_host_def bnd_def)

lemma sample_start_unit:
  "systemd_start sample_bus sample_conf sample_host = (Ret True, sample_host\<lparr>world := True\<rparr>)"
  by (simp add: systemd_start_def unit_action_def perform_action_def wait_for_unit_def sample_conf_def
      wait_loop.simps get_unit_state_def on_world_def zoom_def sample_bus_def sample_host_def
      bnd_def seqc_def catch_all_def)

theorem create_unit_file_correct_witness:
  "create_unit_file sample_bus sample_conf
      (sample_host\<lparr>unit_files := [unit_path sample_conf \<mapsto> rendered_unit sample_conf]\<rparr>)
    = (Ret False, sample_host\<lparr>unit_files := [unit_path sample_conf \<mapsto> rendered_unit sample_conf]\<rparr>)"
  using create_unit_file_correct [OF sample_create] by blast

theorem remove_unit_file_correct_witness:
  "\<forall>b' h''. create_unit_file sample_bus sample_conf sample_host = (Ret b', h'') \<longrightarrow> b'"
  using remove_unit_file_correct [OF sample_remove_unit] by blast

theorem wait_for_unit_terminates_witness:
  "\<exists>k \<le> last_poll 120. fst (wait_for_unit sample_bus sample_conf (PInt 120) ''running'' sample_host) = Ret False"
proof -
  have w: "world (nth_poll sample_bus sample_conf k sample_host) = False" for k
    by (induction k) (simp_all add: sample_host_def sleep_host_def get_unit_state_def on_world_def zoom_def
        sample_bus_def bnd_def)
  then have "fst (get_unit_state sample_bus sample_conf (nth_poll sample_bus sample_conf k sample_host))
      = Ret (Some ''dead'')" for k
    by (simp add: get_unit_state_def on_world_def zoom_def sample_bus_def bnd_def sample_conf_def)
  from wait_for_unit_terminates [OF this, of 120 "''running''"] show ?thesis by auto
qed

theorem unit_actions_confirmed_witness:
  "\<exists>u. get_unit_state sample_bus sample_conf u = (Ret (Some ''running''), sample_host\<lparr>world := True\<rparr>)"
  using unit_actions_confirmed [of sample_bus sample_conf sample_host "sample_host\<lparr>world := True\<rparr>"]
    sample_start_unit by blast

theorem systemd_init_restart_limits_witness:
  "\<exists>c. systemd_init [(''name'', PStr ''nova''), (''restart_retries'', PInt 7)] = Ret (Some c)
    \<and> sd_restart_duration c * 7 < 120"
  using systemd_init_restart_limits [of "[(''name'', PStr ''nova''), (''restart_retries'', PInt 7)]" "''nova''" 120 7]
  by (auto simp: dget_def dget_or_def)

end
