(* ===== verification/Container_Worker.thy ===== *)
theory Container_Worker
  imports Systemd_Worker
begin

text \<open>
  \<open>ansible/module_utils/kolla_container_worker.py\<close>: the base class of the two engine workers.
  The comparisons that decide whether a container must be recreated are functions of the
  parameters and the engine's description of the container (\<open>container_info\<close>); a comparison
  that falls off its end returns \<open>None\<close> in the source, which only truth tests read, so it is
  \<open>False\<close> here. What the engines provide (the abstract and overridden methods) is the record
  \<open>container_ops\<close>; the locale \<open>container_worker\<close> states what the base class relies on.
\<close>

section \<open>State\<close>

definition COMPARE_CONFIG_CMD :: "string list" where
  "COMPARE_CONFIG_CMD = [''/usr/local/bin/kolla_set_configs'', ''--check'']"

record 'w wstate =
  w_params :: pydict
  w_changed :: bool
  w_result :: pydict
  w_host :: "'w host"

definition set_changed :: "bool \<Rightarrow> ('w wstate, unit) cmd" where
  "set_changed b = modify (\<lambda>s. s\<lparr>w_changed := b\<rparr>)"

definition or_changed :: "bool \<Rightarrow> ('w wstate, unit) cmd" where
  "or_changed b = modify (\<lambda>s. s\<lparr>w_changed := w_changed s \<or> b\<rparr>)"

definition on_host :: "('w host, 'a) cmd \<Rightarrow> ('w wstate, 'a) cmd" where
  "on_host m = zoom w_host (\<lambda>h s. s\<lparr>w_host := h\<rparr>) m"

definition on_engine :: "('w, 'a) cmd \<Rightarrow> ('w wstate, 'a) cmd" where
  "on_engine m = on_host (on_world m)"

text \<open>\<open>self.systemd\<close>: when the module has no name the attributes are missing.\<close>

definition with_unit ::
    "sysd_conf option \<Rightarrow> (sysd_conf \<Rightarrow> ('w host, 'a) cmd) \<Rightarrow> ('w wstate, 'a) cmd" where
  "with_unit u f = (case u of None \<Rightarrow> raise AttributeError | Some c \<Rightarrow> on_host (f c))"

definition with_params :: "(pydict \<Rightarrow> 'a outcome) \<Rightarrow> ('w wstate, 'a) cmd" where
  "with_params f = bnd (gets w_params) (\<lambda>p. lift (f p))"

definition param :: "string \<Rightarrow> ('w wstate, pyval) cmd" where
  "param k = gets (\<lambda>s. dget (w_params s) k)"

section \<open>Simple comparisons\<close>

definition host_config_get :: "pyval \<Rightarrow> string \<Rightarrow> pyval outcome" where
  "host_config_get info k = obind (py_item info ''HostConfig'') (\<lambda>hc. py_get hc k)"

text \<open>The same under \<open>try ... except KeyError / except TypeError\<close>, as \<open>compare_cap_add\<close> has it.\<close>

definition host_config_try :: "pyval \<Rightarrow> string \<Rightarrow> pyval \<Rightarrow> pyval outcome" where
  "host_config_try info k dflt =
     (case obind (py_item info ''HostConfig'') (\<lambda>hc. py_get_or hc k dflt) of
        Raise (KeyError x) \<Rightarrow> Ret PNone
      | Raise TypeError \<Rightarrow> Ret PNone
      | r \<Rightarrow> r)"

definition compare_ipc_mode :: "pydict \<Rightarrow> pyval \<Rightarrow> bool outcome" where
  "compare_ipc_mode p info =
     (let new_ipc_mode = dget p ''ipc_mode'' in
      obind (host_config_get info ''IpcMode'') (\<lambda>cur.
        let current_ipc_mode = (if truthy cur then cur else PNone) in
        Ret (new_ipc_mode \<noteq> PNone \<and> \<not> py_eq new_ipc_mode current_ipc_mode)))"

definition compare_cap_add :: "pydict \<Rightarrow> pyval \<Rightarrow> bool outcome" where
  "compare_cap_add p info =
     obind (host_config_try info ''CapAdd'' PNone) (\<lambda>cur.
       py_sym_diff (dget_or p ''cap_add'' (PList [])) (or_list cur))"

definition compare_security_opt :: "pydict \<Rightarrow> pyval \<Rightarrow> bool outcome" where
  "compare_security_opt p info =
     (if dget p ''ipc_mode'' = PStr ''host'' \<or> dget p ''pid_mode'' = PStr ''host''
         \<or> truthy (dget_or p ''privileged'' (PBool False))
      then Ret False
      else obind (host_config_try info ''SecurityOpt'' (PList [])) (\<lambda>cur.
        py_sym_diff (dget_or p ''security_opt'' (PList [])) (or_list cur)))"

definition compare_cgroupns_mode :: "bool \<Rightarrow> pydict \<Rightarrow> pyval \<Rightarrow> bool outcome" where
  "compare_cgroupns_mode supported p info =
     (if \<not> supported then Ret False
      else let new_cgroupns_mode = dget p ''cgroupns_mode'' in
        if new_cgroupns_mode = PNone then Ret False
        else obind (host_config_get info ''CgroupnsMode'') (\<lambda>m1.
             obind (if truthy m1 then Ret m1 else host_config_get info ''CgroupMode'') (\<lambda>m.
               let current = (if m = PStr [] \<or> m = PNone then PStr ''host'' else m) in
               Ret (\<not> py_eq new_cgroupns_mode current))))"

definition compare_privileged :: "pydict \<Rightarrow> pyval \<Rightarrow> bool outcome" where
  "compare_privileged p info =
     obind (py_item info ''HostConfig'') (\<lambda>hc.
     obind (py_item hc ''Privileged'') (\<lambda>cur.
       Ret (\<not> py_eq (dget p ''privileged'') cur)))"

text \<open>\<open>k in v\<close> and \<open>del v[k]\<close> for a string \<open>k\<close>.\<close>

fun py_contains :: "pyval \<Rightarrow> string \<Rightarrow> bool outcome" where
  "py_contains (PDict d) k = Ret (has_key d k)"
| "py_contains (PList xs) k = Ret (mem_eq (PStr k) xs)"
| "py_contains (PStr s) k = Ret (is_substring k s)"
| "py_contains _ k = Raise TypeError"

fun py_del :: "pyval \<Rightarrow> string \<Rightarrow> pyval outcome" where
  "py_del (PDict d) k = (if has_key d k then Ret (PDict (AList.delete k d)) else Raise (KeyError k))"
| "py_del _ k = Raise TypeError"

text \<open>The loop over the image's labels; \<open>cur\<close> loses the labels inherited from the image.\<close>

fun labels_loop :: "pyval \<Rightarrow> pyval \<Rightarrow> pydict \<Rightarrow> bool outcome" where
  "labels_loop new cur [] = Ret (\<not> py_eq new cur)"
| "labels_loop new cur ((k, v) # rest) =
     obind (py_contains new k) (\<lambda>b.
       if b
       then obind (py_item new k) (\<lambda>w. if py_eq v w then labels_loop new cur rest else Ret True)
       else obind (py_del cur k) (\<lambda>cur'. labels_loop new cur' rest))"

definition compare_labels :: "pydict \<Rightarrow> pyval \<Rightarrow> pyval \<Rightarrow> bool outcome" where
  "compare_labels p info img =
     obind (py_item info ''Config'') (\<lambda>cfg.
     obind (py_get_or cfg ''Labels'' (PDict [])) (\<lambda>current_labels.
     obind (py_get_or img ''Labels'' (PDict [])) (\<lambda>image_labels.
     obind (py_items image_labels) (\<lambda>items.
       labels_loop (dget p ''labels'') current_labels items))))"

definition generate_tmpfs :: "pydict \<Rightarrow> pyval outcome" where
  "generate_tmpfs p =
     (let tmpfs = dget p ''tmpfs'' in
      if truthy tmpfs then obind (py_iter tmpfs) (\<lambda>ts. Ret (PList (filter truthy ts)))
      else Ret tmpfs)"

definition compare_tmpfs :: "pydict \<Rightarrow> pyval \<Rightarrow> bool outcome" where
  "compare_tmpfs p info =
     obind (generate_tmpfs p) (\<lambda>new_tmpfs.
     obind (host_config_get info ''Tmpfs'') (\<lambda>current_tmpfs.
       py_sym_diff (or_list current_tmpfs) (or_list new_tmpfs)))"

definition compare_volumes_from :: "pydict \<Rightarrow> pyval \<Rightarrow> bool outcome" where
  "compare_volumes_from p info =
     obind (host_config_get info ''VolumesFrom'') (\<lambda>cur.
       py_sym_diff (or_list cur) (or_list (dget p ''volumes_from'')))"

definition compare_container_state :: "pydict \<Rightarrow> pyval \<Rightarrow> bool outcome" where
  "compare_container_state p info =
     obind (py_item info ''State'') (\<lambda>st.
     obind (py_get st ''Status'') (\<lambda>current_state.
       let new_state = dget p ''state'' in
       if new_state = PStr ''started'' \<and> current_state = PStr ''running'' then Ret False
       else Ret (\<not> py_eq new_state current_state)))"

section \<open>Dimensions\<close>

definition dimension_map :: "(string \<times> string) list" where
  "dimension_map =
    [(''mem_limit'', ''Memory''), (''mem_reservation'', ''MemoryReservation''),
     (''memswap_limit'', ''MemorySwap''), (''cpu_period'', ''CpuPeriod''),
     (''cpu_quota'', ''CpuQuota''), (''cpu_shares'', ''CpuShares''),
     (''cpuset_cpus'', ''CpusetCpus''), (''cpuset_mems'', ''CpusetMems''),
     (''kernel_memory'', ''KernelMemory''), (''blkio_weight'', ''BlkioWeight''),
     (''ulimits'', ''Ulimits'')]"

definition unit_sizes :: "(char \<times> int) list" where
  "unit_sizes = [(CHR ''b'', 1), (CHR ''k'', 1024), (CHR ''m'', 1024 * 1024),
     (CHR ''g'', 1024 * 1024 * 1024)]"

definition dimension_unit_msg :: "char \<Rightarrow> string \<Rightarrow> string" where
  "dimension_unit_msg u s =
     ''The docker dimension unit ['' @ [u] @ ''] is not supported for the dimension ['' @ s
     @ '']. The currently supported units are '' @ py_repr (PList (map (\<lambda>c. PStr [c]) ''bkmg''))
     @ ''.''"

definition dimension_removed_msg :: "string \<Rightarrow> string" where
  "dimension_removed_msg key =
     ''The dimension ['' @ key @ ''] is no more supported by Docker, please remove it from yours ''
     @ ''configs or change to the new one.''"

text \<open>The normalisation of one side: a number stays as it is written, a unit is multiplied out.\<close>

definition dimension_bytes :: "string \<Rightarrow> string outcome" where
  "dimension_bytes s =
     (let u = lower_char (last s) in
      if is_numeric u then Ret s
      else case map_of unit_sizes u of
        Some k \<Rightarrow> (case int_of_str (butlast s) of
                     None \<Rightarrow> Raise ValueError
                   | Some n \<Rightarrow> Ret (int_str (n * k)))
      | None \<Rightarrow> fail_json [(''failed'', PBool True), (''msg'', PStr (dimension_unit_msg u s))])"

definition dimensions_differ :: "pyval \<Rightarrow> pyval \<Rightarrow> string \<Rightarrow> bool outcome" where
  "dimensions_differ a b key =
     (if a = PNone \<or> b = PNone
      then fail_json [(''failed'', PBool True), (''msg'', PStr (dimension_removed_msg key))]
      else
        (let sa = py_str a; sb = py_str b in
         if sa = [] \<or> sb = [] then Raise IndexError
         else obind (dimension_bytes sa) (\<lambda>na. obind (dimension_bytes sb) (\<lambda>nb. Ret (na \<noteq> nb)))))"

text \<open>\<open>sorted(us, key=lambda u: u['Name'])\<close>: a stable sort by name.\<close>

definition name_of :: "pyval \<Rightarrow> string" where
  "name_of u = (case u of PDict d \<Rightarrow> py_str (dget d ''Name'') | _ \<Rightarrow> [])"

definition sorted_by_name :: "pyval list \<Rightarrow> pyval list outcome" where
  "sorted_by_name us =
     obind (omap (\<lambda>u. py_item u ''Name'') us) (\<lambda>names.
       if \<forall>n \<in> set names. case n of PStr x \<Rightarrow> True | _ \<Rightarrow> False
       then Ret (sort_key (\<lambda>u. Key (name_of u)) us) else Raise TypeError)"

definition compare_ulimits ::
    "(pyval \<Rightarrow> pyval list outcome) \<Rightarrow> pyval \<Rightarrow> pyval \<Rightarrow> bool outcome" where
  "compare_ulimits build_ulimits new_ulimits current_ulimits =
     obind (build_ulimits new_ulimits) (\<lambda>new.
     obind (sorted_by_name new) (\<lambda>xs.
     obind (py_iter (if current_ulimits = PNone then PList [] else current_ulimits)) (\<lambda>cur.
     obind (sorted_by_name cur) (\<lambda>ys. Ret (\<not> py_eq_list xs ys)))))"

definition unsupported_exit :: "string \<Rightarrow> string \<Rightarrow> pyval list \<Rightarrow> 'a outcome" where
  "unsupported_exit msg key vs =
     exit_json [(''failed'', PBool True), (''msg'', PStr (repr_str msg)), (key, PList vs)]"

text \<open>The dimensions both engines accept when they create a container.\<close>

definition supported_dimensions :: "string list" where
  "supported_dimensions =
    [''cpu_period'', ''cpu_quota'', ''cpu_shares'', ''cpuset_cpus'', ''cpuset_mems'', ''mem_limit'',
     ''mem_reservation'', ''memswap_limit'', ''kernel_memory'', ''blkio_weight'', ''ulimits'']"

definition compare_dimensions ::
    "(pyval \<Rightarrow> pyval list outcome) \<Rightarrow> bool \<Rightarrow> pydict \<Rightarrow> pyval \<Rightarrow> bool outcome" where
  "compare_dimensions build_ulimits kernel_memory_removed p info =
     obind (py_items (dget p ''dimensions'')) (\<lambda>new.
       let dmap = (if kernel_memory_removed then AList.delete ''kernel_memory'' dimension_map
                   else dimension_map);
           unsupported = filter (\<lambda>k. k \<notin> set (map fst dmap)) (map fst new)
       in if unsupported \<noteq> []
          then unsupported_exit ''Unsupported dimensions'' ''unsupported_dimensions''
                 (map PStr unsupported)
          else obind (py_item info ''HostConfig'') (\<lambda>cur.
            oany (\<lambda>(key1, key2).
                obind (py_get cur key2) (\<lambda>c.
                  if has_key new key1
                  then (if key1 = ''ulimits'' then compare_ulimits build_ulimits (dget new key1) c
                        else dimensions_differ (dget new key1) c key1)
                  else Ret (truthy c)))
              dmap))"

section \<open>Environment and command\<close>

definition split_env :: "pyval \<Rightarrow> (string \<times> pyval) outcome" where
  "split_env kv =
     (case kv of
        PStr s \<Rightarrow> (case split_first (CHR ''='') s of
                     None \<Rightarrow> Raise ValueError
                   | Some (k, v) \<Rightarrow> Ret (k, PStr v))
      | _ \<Rightarrow> Raise AttributeError)"

definition compare_environment :: "pydict \<Rightarrow> pyval \<Rightarrow> bool outcome" where
  "compare_environment p info =
     (let environment = dget p ''environment'' in
      if truthy environment
      then obind (py_item info ''Config'') (\<lambda>cfg.
           obind (py_get_or cfg ''Env'' (PList [])) (\<lambda>env.
           obind (py_iter env) (\<lambda>kvs.
           obind (omap split_env kvs) (\<lambda>pairs.
             let current_env = dict_update [] pairs in
             obind (py_items environment) (\<lambda>items.
               Ret (list_ex (\<lambda>(k, v). case map_of current_env k of
                                None \<Rightarrow> True
                              | Some w \<Rightarrow> \<not> py_eq w v) items))))))
      else Ret False)"

definition py_shlex_split :: "pyval \<Rightarrow> string list outcome" where
  "py_shlex_split v =
     (case v of
        PStr s \<Rightarrow> (case shlex_split s of None \<Rightarrow> Raise ValueError | Some ws \<Rightarrow> Ret ws)
      | PNone \<Rightarrow> Raise ValueError
      | _ \<Rightarrow> Raise AttributeError)"

definition compare_command :: "pydict \<Rightarrow> pyval \<Rightarrow> bool outcome" where
  "compare_command p info =
     (let new_command = dget p ''command'' in
      if new_command = PNone then Ret False
      else obind (py_shlex_split new_command) (\<lambda>ws.
        case ws of
          [] \<Rightarrow> Raise IndexError
        | new_path # new_args \<Rightarrow>
            obind (py_item info ''Path'') (\<lambda>path.
              if \<not> py_eq (PStr new_path) path then Ret True
              else obind (py_item info ''Args'') (\<lambda>args.
                Ret (\<not> py_eq (PList (map PStr new_args)) args)))))"

section \<open>Health checks\<close>

definition hc_supported :: "string list" where
  "hc_supported = [''test'', ''interval'', ''timeout'', ''start_period'', ''retries'']"

definition hc_durations :: "string list" where
  "hc_durations = [''interval'', ''timeout'', ''start_period'']"

definition hc_disabled :: "pyval \<Rightarrow> bool" where
  "hc_disabled v \<longleftrightarrow> py_eq v (PList [PStr ''NONE'']) \<or> v = PStr ''NONE''"

definition hc_test :: "pyval \<Rightarrow> pyval" where
  "hc_test v = (case v of
       PList es \<Rightarrow> PList (map (\<lambda>e. PStr (py_str e)) es)
     | _ \<Rightarrow> PList [PStr ''CMD-SHELL'', PStr (py_str v)])"

text \<open>The loop over the options; \<open>None\<close> is the early \<open>return None\<close> of a disabled check.\<close>

fun hc_items :: "pydict \<Rightarrow> pydict \<Rightarrow> pydict option outcome" where
  "hc_items [] acc = Ret (Some acc)"
| "hc_items ((k, v) # rest) acc =
     (if k \<in> set hc_durations
      then obind (py_int v) (\<lambda>i. hc_items rest (AList.update k (PInt (i * 1000000000)) acc))
      else if k = ''test''
      then (if hc_disabled v then Ret None else hc_items rest (AList.update k (hc_test v) acc))
      else if k = ''retries''
      then obind (py_int v) (\<lambda>i. hc_items rest (AList.update k (PInt i) acc))
      else hc_items rest acc)"

definition parse_healthcheck :: "pyval \<Rightarrow> pydict option outcome" where
  "parse_healthcheck healthcheck =
     (if \<not> truthy healthcheck then Ret None
      else obind (py_set healthcheck) (\<lambda>keys.
        let supported = map PStr hc_supported;
            unsupported = filter (\<lambda>k. \<not> mem_eq k supported) keys;
            missing = filter (\<lambda>k. \<not> mem_eq k keys) supported
        in if unsupported \<noteq> []
           then unsupported_exit ''Unsupported healthcheck options'' ''unsupported_healthcheck'' unsupported
           else if missing \<noteq> []
           then unsupported_exit ''Missing healthcheck option'' ''missing_healthcheck'' missing
           else obind (py_items healthcheck) (\<lambda>items.
             obind (hc_items items []) (\<lambda>r.
               Ret (map_option (\<lambda>hc. [(''healthcheck'', PDict hc)]) r)))))"

definition healthcheck_map :: "(string \<times> string) list" where
  "healthcheck_map = [(''test'', ''Test''), (''retries'', ''Retries''), (''interval'', ''Interval''),
     (''start_period'', ''StartPeriod''), (''timeout'', ''Timeout'')]"

definition rename_key :: "(string \<times> string) list \<Rightarrow> string \<Rightarrow> string" where
  "rename_key m k = (case map_of m k of None \<Rightarrow> k | Some k' \<Rightarrow> k')"

definition compare_healthcheck ::
    "(pyval \<Rightarrow> pydict option outcome) \<Rightarrow> pydict \<Rightarrow> pyval \<Rightarrow> bool outcome" where
  "compare_healthcheck parse p info =
     obind (parse (dget p ''healthcheck'')) (\<lambda>new.
     obind (py_item info ''Config'') (\<lambda>cfg.
     obind (py_get cfg ''Healthcheck'') (\<lambda>cur.
       case new of
         None \<Rightarrow> Ret (truthy cur)
       | Some d \<Rightarrow>
           if truthy cur
           then obind (py_item (PDict d) ''healthcheck'') (\<lambda>hc.
                obind (py_items hc) (\<lambda>items.
                  Ret (\<not> py_eq (PDict (dict_update [] (map (\<lambda>(k, v). (rename_key healthcheck_map k, v)) items)))
                              cur)))
           else Ret True)))"

section \<open>Image names and volumes\<close>

definition parse_image :: "pydict \<Rightarrow> (string \<times> string) outcome" where
  "parse_image p =
     (case dget p ''image'' of
        PStr full_image \<Rightarrow>
          let img = (case split_first (CHR ''/'') full_image of
                       None \<Rightarrow> full_image | Some (registry, rest) \<Rightarrow> rest)
          in if CHR '':'' \<in> set img
             then (case split_last (CHR '':'') full_image of
                     Some (name, tag) \<Rightarrow> Ret (name, tag) | None \<Rightarrow> Raise ValueError)
             else Ret (full_image, ''latest'')
      | _ \<Rightarrow> Raise TypeError)"

text \<open>The binds of \<open>generate_volumes\<close>: source, then target (\<open>bind\<close>) and \<open>mode\<close>.\<close>

type_synonym binds = "(string \<times> string \<times> string) list"

definition volume_step :: "pyval \<Rightarrow> string list \<times> binds \<Rightarrow> (string list \<times> binds) outcome" where
  "volume_step vol acc =
     (case vol of
        PStr v \<Rightarrow>
          if v = [] then Ret acc
          else if CHR '':'' \<notin> set v then Ret (fst acc @ [v], snd acc)
          else (case split_char (CHR '':'') v of
              a # b # rest \<Rightarrow>
                let rest' = (if rest = [] \<and> (CHR ''/'' \<notin> set a \<or> CHR ''/'' \<in> set b)
                             then [''rw''] else rest)
                in (case rest' of
                      [] \<Rightarrow> Raise IndexError
                    | m # _ \<Rightarrow> Ret (fst acc @ [b], AList.update a (b, m) (snd acc)))
            | _ \<Rightarrow> Raise IndexError)
      | _ \<Rightarrow> Raise TypeError)"

definition generate_volumes :: "pydict \<Rightarrow> pyval \<Rightarrow> (string list \<times> binds) option outcome" where
  "generate_volumes p bs =
     (let volumes =
        (if \<not> truthy bs
         then (if truthy (dget p ''volumes'') then dget p ''volumes'' else dget p ''volume'')
         else bs)
      in if \<not> truthy volumes then Ret None
         else obind (py_iter volumes) (\<lambda>vs.
              obind (ofold volume_step vs ([], [])) (\<lambda>r. Ret (Some r))))"

section \<open>Steps the engines share\<close>

text \<open>\<open>fail_json(changed=True, msg=m, **v)\<close>.\<close>

definition fail_changed :: "string \<Rightarrow> pyval \<Rightarrow> 'a outcome" where
  "fail_changed m v =
     (case v of
        PDict d \<Rightarrow>
          if has_key d ''changed'' \<or> has_key d ''msg'' then Raise TypeError
          else fail_json ((''changed'', PBool True) # (''msg'', PStr m) # d)
      | _ \<Rightarrow> Raise TypeError)"

lemma fail_changed_neq [simp]: "fail_changed m v \<noteq> Ret x"
  by (auto simp: fail_changed_def split: pyval.splits)

definition graceful_timeout :: "('w wstate, pyval) cmd" where
  "graceful_timeout =
     bnd (param ''graceful_timeout'') (\<lambda>t. ret (if truthy t then t else PInt 10))"

definition oneshot :: "('w wstate, bool) cmd" where
  "oneshot = bnd (param ''restart_policy'') (\<lambda>r. ret (r = PStr ''oneshot''))"

definition set_result :: "string \<Rightarrow> pyval \<Rightarrow> ('w wstate, unit) cmd" where
  "set_result k v = modify (\<lambda>s. s\<lparr>w_result := AList.update k v (w_result s)\<rparr>)"

definition exit_code_msg :: "pyval \<Rightarrow> string" where
  "exit_code_msg rc = ''Container exited with non-zero return code '' @ py_str rc"

section \<open>What an engine provides\<close>

record 'w container_ops =
  op_unit :: "sysd_conf option"
  op_cgroupns_supported :: bool
  op_check_image :: "('w wstate, pyval) cmd"
  op_get_container_info :: "('w wstate, pyval) cmd"
  op_container_exists :: "('w wstate, bool) cmd"
  op_compare_pid_mode :: "pydict \<Rightarrow> pyval \<Rightarrow> bool outcome"
  op_compare_image :: "pyval \<Rightarrow> ('w wstate, bool) cmd"
  op_compare_volumes :: "pydict \<Rightarrow> pyval \<Rightarrow> bool outcome"
  op_compare_dimensions :: "pydict \<Rightarrow> pyval \<Rightarrow> bool outcome"
  op_parse_healthcheck :: "pyval \<Rightarrow> pydict option outcome"
  op_compare_config :: "('w wstate, bool) cmd"

definition query :: "(pydict \<Rightarrow> pyval \<Rightarrow> bool outcome) \<Rightarrow> pyval \<Rightarrow> ('w wstate, bool) cmd" where
  "query f info = with_params (\<lambda>p. f p info)"

definition check_container_differs :: "'w container_ops \<Rightarrow> ('w wstate, bool) cmd" where
  "check_container_differs ops =
     bnd (op_get_container_info ops) (\<lambda>info.
       if \<not> truthy info then ret True
       else any_cmd
        [query compare_cap_add info,
         query compare_security_opt info,
         op_compare_image ops info,
         query compare_ipc_mode info,
         bnd (op_check_image ops) (\<lambda>img. query (\<lambda>p i. compare_labels p i img) info),
         query compare_privileged info,
         query (op_compare_pid_mode ops) info,
         query (compare_cgroupns_mode (op_cgroupns_supported ops)) info,
         query compare_tmpfs info,
         query (op_compare_volumes ops) info,
         query compare_volumes_from info,
         query compare_environment info,
         query compare_container_state info,
         query (op_compare_dimensions ops) info,
         query compare_command info,
         query (compare_healthcheck (op_parse_healthcheck ops)) info])"

definition compare_container :: "'w container_ops \<Rightarrow> ('w wstate, bool) cmd" where
  "compare_container ops =
     bnd (op_container_exists ops) (\<lambda>container.
     bnd (any_cmd [ret (\<not> container),
                   check_container_differs ops,
                   op_compare_config ops,
                   with_unit (op_unit ops) (\<lambda>c. check_unit_change c [])]) (\<lambda>differs.
     seqc (whenc differs (set_changed True))
       (gets w_changed)))"

definition no_such_container :: "pyval \<Rightarrow> string \<Rightarrow> pydict" where
  "no_such_container name sfx =
     [(''msg'', PStr (''No such container: '' @ py_str name @ sfx))]"

definition env_pair :: "pyval \<Rightarrow> (string \<times> pyval) outcome" where
  "env_pair kv =
     (case kv of
        PStr s \<Rightarrow> (case split_first (CHR ''='') s of
                     None \<Rightarrow> Ret (s, PStr [])
                   | Some (k, v) \<Rightarrow> Ret (k, PStr v))
      | _ \<Rightarrow> Raise TypeError)"

definition get_container_env :: "'w container_ops \<Rightarrow> ('w wstate, unit) cmd" where
  "get_container_env ops =
     bnd (param ''name'') (\<lambda>name.
     bnd (op_get_container_info ops) (\<lambda>info.
       if \<not> truthy info then lift (fail_json (no_such_container name []))
       else lift (obind (py_item info ''Config'') (\<lambda>cfg.
                  obind (py_item cfg ''Env'') (\<lambda>env.
                  obind (py_iter env) (\<lambda>kvs.
                  obind (omap env_pair kvs) (\<lambda>envs. exit_json (dict_update [] envs))))))))"

definition get_container_state :: "'w container_ops \<Rightarrow> ('w wstate, unit) cmd" where
  "get_container_state ops =
     bnd (param ''name'') (\<lambda>name.
     bnd (op_get_container_info ops) (\<lambda>info.
       if \<not> truthy info then lift (fail_json (no_such_container name []))
       else lift (obind (py_item info ''State'') (\<lambda>st.
         case st of PDict d \<Rightarrow> exit_json d | _ \<Rightarrow> Raise TypeError))))"

section \<open>The interface of the engine workers\<close>

text \<open>The part of the state that the queries of a worker must not touch.\<close>

definition local_state :: "'w wstate \<Rightarrow> pydict \<times> bool \<times> pydict \<times> (string \<Rightarrow> string option)" where
  "local_state s = (w_params s, w_changed s, w_result s, unit_files (w_host s))"

lemma keeps_on_engine [frame]: "keeps local_state (on_engine m)"
  by (auto simp: keeps_def on_engine_def on_host_def on_world_def zoom_def local_state_def
      split: prod.splits)

lemma keeps_engine_files: "keeps (\<lambda>s. unit_files (w_host s)) (on_engine m)"
  by (auto simp: keeps_def on_engine_def on_host_def on_world_def zoom_def split: prod.splits)

lemma keeps_with_params [frame]: "keeps v (with_params f)"
  unfolding with_params_def by (intro frame)

lemma keeps_query [frame]: "keeps v (query f info)"
  unfolding query_def by (intro frame)

lemma keeps_param [frame]: "keeps v (param k)"
  unfolding param_def by (intro frame)

lemma keeps_oneshot [frame]: "keeps v oneshot" "keeps v graceful_timeout"
  unfolding oneshot_def graceful_timeout_def by (intro frame)+

lemma keeps_check_unit_change [frame]: "keeps v (with_unit u (\<lambda>c. check_unit_change c n))"
proof -
  have "snd (check_unit_change c n h) = h" for c and h :: "'a host"
    by (auto simp: check_unit_change_def bnd_def generate_unit_file_rendered)
  then show ?thesis
    by (auto simp: keeps_def with_unit_def on_host_def zoom_def split: option.splits prod.splits)
       (metis snd_conv wstate.surjective wstate.update_convs(4) wstate.select_convs(4))
qed

locale container_worker =
  fixes ops :: "'w container_ops"
  assumes check_image_frame: "keeps local_state (op_check_image ops)"
    and container_info_frame: "keeps local_state (op_get_container_info ops)"
    and container_exists_frame: "keeps local_state (op_container_exists ops)"
    and compare_image_frame: "keeps local_state (op_compare_image ops info)"
    and compare_config_frame: "keeps local_state (op_compare_config ops)"
begin

lemma differs_frame: "keeps local_state (check_container_differs ops)"
  unfolding check_container_differs_def
  by (intro frame container_info_frame)
     (simp add: keeps_query compare_image_frame keeps_bnd check_image_frame)

lemma compare_container_effect:
  assumes "compare_container ops s = (Ret b, t)"
  shows "w_params t = w_params s \<and> w_result t = w_result s
    \<and> unit_files (w_host t) = unit_files (w_host s)
    \<and> w_changed t = b \<and> (w_changed s \<longrightarrow> b)"
proof -
  obtain e u d v where e: "op_container_exists ops s = (Ret e, u)"
    and d: "any_cmd [ret (\<not> e), check_container_differs ops, op_compare_config ops,
        with_unit (op_unit ops) (\<lambda>c. check_unit_change c [])] u = (Ret d, v)"
    and t: "t = (if d then v\<lparr>w_changed := True\<rparr> else v)"
    and b: "w_changed (if d then v\<lparr>w_changed := True\<rparr> else v) = b"
    using assms
    by (auto simp: compare_container_def bnd_returns seqc_returns whenc_returns set_changed_def
        simp del: any_cmd.simps split: if_splits)
  have "local_state u = local_state s"
    using keepsD [OF container_exists_frame e] .
  moreover have "keeps local_state (any_cmd [ret (\<not> e), check_container_differs ops,
      op_compare_config ops, with_unit (op_unit ops) (\<lambda>c. check_unit_change c [])])"
    by (intro keeps_any_cmd)
       (simp add: keeps_basic keeps_check_unit_change differs_frame compare_config_frame)
  from keepsD [OF this d] have "local_state v = local_state u" .
  ultimately have "local_state v = local_state s" by simp
  then show ?thesis using b unfolding t local_state_def by (cases d) simp_all
qed

lemma no_container_is_changed:
  assumes "op_container_exists ops s = (Ret False, u)"
  shows "compare_container ops s = (Ret True, u\<lparr>w_changed := True\<rparr>)"
  using assms by (simp add: compare_container_def set_changed_def bnd_def [of "op_container_exists ops"])

end

section \<open>Dimensions: same size, same answer\<close>

text \<open>The factor of a unit suffix: none, or one of b, k, m, g in either case.\<close>

definition suffix_factor :: "string \<Rightarrow> int option" where
  "suffix_factor u =
     (case u of
        [] \<Rightarrow> Some 1
      | [c] \<Rightarrow> (if lower_char c = CHR ''b'' then Some 1 else if lower_char c = CHR ''k'' then Some (2 ^ 10)
               else if lower_char c = CHR ''m'' then Some (2 ^ 20)
               else if lower_char c = CHR ''g'' then Some (2 ^ 30) else None)
      | _ \<Rightarrow> None)"

lemma lower_decimal: "is_decimal c \<Longrightarrow> lower_char c = c"
  by (simp add: is_decimal_def lower_char_def)

lemma unit_char_not_numeric: "map_of unit_sizes u = Some k \<Longrightarrow> \<not> is_numeric u"
  by (auto simp: unit_sizes_def is_numeric_def is_digit_def is_decimal_def code_of_def split: if_splits)

lemma dimension_bytes_suffix:
  assumes "suffix_factor u = Some k"
  shows "dimension_bytes (int_str n @ u) = Ret (int_str (n * k))"
proof (cases u)
  case Nil
  then show ?thesis
    using assms last_int_str_decimal [of n]
    by (simp add: suffix_factor_def dimension_bytes_def Let_def lower_decimal is_numeric_def is_digit_def)
next
  case (Cons c cs)
  with assms have c: "u = [c]" "map_of unit_sizes (lower_char c) = Some k"
    by (auto simp: suffix_factor_def unit_sizes_def split: list.splits if_splits)
  then show ?thesis
    using unit_char_not_numeric [OF c(2)] by (simp add: dimension_bytes_def Let_def butlast_append)
qed

text \<open>C17: \<open>dimensions_differ\<close> compares sizes, not spellings: for numbers written with or without one of
  the units b, k, m, g (in either case) it returns whether the byte counts differ, and an
  integer from the engine is compared like its decimal text.\<close>

theorem dimensions_differ_sizes:
  assumes "suffix_factor u = Some k" and "suffix_factor w = Some l"
  shows "dimensions_differ (PStr (int_str n @ u)) (PStr (int_str m @ w)) key = Ret (n * k \<noteq> m * l)
    \<and> dimensions_differ (PStr (int_str n @ u)) (PInt m) key = Ret (n * k \<noteq> m)
    \<and> dimensions_differ (PInt n) (PInt m) key = Ret (n \<noteq> m)"
proof -
  have one: "dimension_bytes (int_str i) = Ret (int_str i)" for i
    using dimension_bytes_suffix [of "[]" 1 i] by (simp add: suffix_factor_def)
  show ?thesis
    using dimension_bytes_suffix [OF assms(1)] dimension_bytes_suffix [OF assms(2)] one
    by (simp add: dimensions_differ_def Let_def)
qed

theorem dimensions_differ_sizes_witness:
  "dimensions_differ (PStr (int_str 1 @ ''G'')) (PStr (int_str 1024 @ ''m'')) ''mem_limit'' = Ret False"
proof -
  have "suffix_factor ''G'' = Some (1024 * 1024 * 1024)" "suffix_factor ''m'' = Some (1024 * 1024)"
    by code_simp+
  from dimensions_differ_sizes [OF this, of 1 1024 "''mem_limit''"] show ?thesis by simp
qed

text \<open>The failures of \<open>dimensions_differ\<close>: a dimension the engine no longer reports and a unit that is
  not supported end the module through \<open>fail_json\<close>; a malformed number raises \<open>ValueError\<close>; and
  numbers without a unit are compared as text, so a leading zero makes equal sizes differ.\<close>

theorem dimensions_differ_failures:
  "dimensions_differ v PNone key
      = Exit FailJson [(''failed'', PBool True), (''msg'', PStr (dimension_removed_msg key))]
   \<and> (\<not> is_numeric (lower_char c) \<and> map_of unit_sizes (lower_char c) = None \<longrightarrow>
        dimensions_differ (PStr (t @ [c])) (PInt m) key
          = Exit FailJson [(''failed'', PBool True),
              (''msg'', PStr (dimension_unit_msg (lower_char c) (t @ [c])))])
   \<and> (map_of unit_sizes (lower_char c) = Some k \<and> int_of_str t = None \<longrightarrow>
        dimensions_differ (PStr (t @ [c])) (PInt m) key = Raise ValueError)
   \<and> dimensions_differ (PStr ''0512'') (PInt 512) key = Ret True"
proof -
  have l: "dimension_bytes ''0512'' = Ret ''0512''"
    by (simp add: dimension_bytes_def Let_def lower_char_def code_of_def is_numeric_def is_digit_def
        is_decimal_def)
  have r: "dimension_bytes (int_str i) = Ret (int_str i)" for i
    using dimension_bytes_suffix [of "[]" 1 i] by (simp add: suffix_factor_def)
  have "int_str 512 \<noteq> ''0512''"
    by (simp add: int_str_def nat_str.simps digit_char_def)
  with l r show ?thesis
    using unit_char_not_numeric [of "lower_char c" k]
    by (auto simp: dimensions_differ_def dimension_bytes_def [of "t @ [c]"] Let_def fail_json_def)
qed

theorem dimensions_differ_failures_witness:
  "dimensions_differ (PStr (''5'' @ ''x'')) (PInt 5) ''mem_limit''
    = Exit FailJson [(''failed'', PBool True),
        (''msg'', PStr (dimension_unit_msg (lower_char (CHR ''x'')) (''5'' @ ''x'')))]"
proof -
  have "\<not> is_numeric (lower_char (CHR ''x''))" "map_of unit_sizes (lower_char (CHR ''x'')) = None"
    by (simp_all add: is_numeric_def is_digit_def is_decimal_def lower_char_def code_of_def unit_sizes_def)
  then show ?thesis
    using dimensions_differ_failures [of PNone "''mem_limit''" "CHR ''x''" "''5''" 5 0] by simp
qed

section \<open>Image names\<close>

text \<open>\<open>parse_image\<close> splits off the tag and nothing else: a name with a tag comes back in its two
  parts, a name without one gets the tag \<open>latest\<close>, and the port of a registry is never taken
  for a tag.\<close>

theorem parse_image_parts:
  assumes "dget p ''image'' = PStr full"
  shows "(full = name @ '':'' @ tag \<and> CHR '':'' \<notin> set tag \<and> CHR ''/'' \<notin> set tag \<longrightarrow>
            parse_image p = Ret (name, tag))
    \<and> (CHR '':'' \<notin> set full \<longrightarrow> parse_image p = Ret (full, ''latest''))
    \<and> (full = host @ ''/'' @ path \<and> CHR ''/'' \<notin> set host \<and> CHR '':'' \<notin> set path \<longrightarrow>
            parse_image p = Ret (full, ''latest''))
    \<and> (\<forall>n t. parse_image p = Ret (n, t) \<longrightarrow> full = n @ '':'' @ t \<or> (full = n \<and> t = ''latest''))"
proof -
  have img: "CHR '':'' \<in> set (case split_first (CHR ''/'') (name @ CHR '':'' # tag) of
      None \<Rightarrow> name @ CHR '':'' # tag | Some (r, i) \<Rightarrow> i)" if "CHR ''/'' \<notin> set tag"
  proof (cases "split_first (CHR ''/'') (name @ CHR '':'' # tag)")
    case None
    then show ?thesis by simp
  next
    case (Some ri)
    obtain r i where ri: "ri = (r, i)" by (cases ri)
    then have "name @ CHR '':'' # tag = r @ CHR ''/'' # i" using Some split_first_Some by blast
    then obtain us where "(name = r @ us \<and> us @ CHR '':'' # tag = CHR ''/'' # i)
        \<or> (name @ us = r \<and> CHR '':'' # tag = us @ CHR ''/'' # i)"
      by (auto simp: append_eq_append_conv2)
    then have "CHR '':'' \<in> set i" using that by (cases us) auto
    then show ?thesis using Some ri by simp
  qed
  have nocolon: "CHR '':'' \<notin> set (case split_first (CHR ''/'') full of
      None \<Rightarrow> full | Some (r, i) \<Rightarrow> i)" if "CHR '':'' \<notin> set full"
    using that by (auto split: option.splits dest!: split_first_Some)
  show ?thesis
    using assms img nocolon
    by (auto simp: parse_image_def Let_def split: option.splits if_splits
        dest!: split_first_Some split_last_Some)
qed

theorem parse_image_parts_witness:
  "parse_image [(''image'', PStr ''registry:4000/kolla/nova'')]
    = Ret (''registry:4000/kolla/nova'', ''latest'')"
  using parse_image_parts [of "[(''image'', PStr ''registry:4000/kolla/nova'')]"
      "''registry:4000/kolla/nova''" "[]" "[]" "''registry:4000''" "''kolla/nova''"]
  by (simp add: dget_def dget_or_def)

section \<open>Environment\<close>

definition env_line :: "string \<times> string \<Rightarrow> string" where
  "env_line kv = fst kv @ ''='' @ snd kv"

lemma split_env_line: "CHR ''='' \<notin> set (fst kv) \<Longrightarrow> split_env (PStr (env_line kv)) = Ret (fst kv, PStr (snd kv))"
  by (cases kv) (simp add: split_env_def env_line_def)

lemma env_pair_line: "CHR ''='' \<notin> set (fst kv) \<Longrightarrow> env_pair (PStr (env_line kv)) = Ret (fst kv, PStr (snd kv))"
  by (cases kv) (simp add: env_pair_def env_line_def)

lemma map_of_dict_of_list: "distinct (map fst e) \<Longrightarrow> map_of (dict_update [] e) = map_of e"
  by (rule ext) (simp add: map_of_dict_update wf_dict_def split: option.splits)

lemma omap_env_lines:
  assumes "\<forall>kv \<in> set cur. CHR ''='' \<notin> set (fst kv)"
  shows "omap split_env (map (PStr \<circ> env_line) cur) = Ret (str_dict cur)"
    and "omap env_pair (map (PStr \<circ> env_line) cur) = Ret (str_dict cur)"
  using assms by (induction cur) (auto simp: str_dict_def split_env_line env_pair_line)

text \<open>\<open>compare_environment\<close> reads the engine's \<open>K=V\<close> lines (a value may itself contain an equals
  sign) and answers \<open>True\<close> exactly when some requested variable is missing from the container
  or set to another value; variables nobody asked for are ignored.\<close>

theorem compare_environment_spec:
  assumes "dget p ''environment'' = PDict (str_dict requested)" and "requested \<noteq> []"
    and "py_item info ''Config'' = Ret (PDict cfg)"
    and "dget_or cfg ''Env'' (PList []) = PList (map (PStr \<circ> env_line) cur)"
    and "\<forall>kv \<in> set cur. CHR ''='' \<notin> set (fst kv)" and "distinct (map fst cur)"
  shows "compare_environment p info = Ret (\<exists>(k, v) \<in> set requested. map_of cur k \<noteq> Some v)"
proof -
  have d: "map_of (dict_update [] (str_dict cur)) k = map_option PStr (map_of cur k)" for k
    using assms(6) by (simp add: map_of_dict_of_list)
  have "str_dict requested \<noteq> []" using assms(2) by (simp add: str_dict_def)
  moreover have "list_ex (\<lambda>(k, v). case map_of (dict_update [] (str_dict cur)) k of
        None \<Rightarrow> True | Some w \<Rightarrow> \<not> py_eq w v) (str_dict requested)
      \<longleftrightarrow> (\<exists>(k, v) \<in> set requested. map_of cur k \<noteq> Some v)"
    unfolding d by (induction requested) (auto simp: str_dict_def split: option.splits)
  ultimately show ?thesis
    using assms omap_env_lines(1) [OF assms(5)] by (simp add: compare_environment_def Let_def)
qed

theorem compare_environment_spec_witness:
  "compare_environment [(''environment'', PDict (str_dict [(''A'', ''x=y'')]))]
     (PDict [(''Config'', PDict [(''Env'', PList (map (PStr \<circ> env_line) [(''B'', ''1''), (''A'', ''x=y'')]))])])
   = Ret False"
  using compare_environment_spec [of "[(''environment'', PDict (str_dict [(''A'', ''x=y'')]))]"
      "[(''A'', ''x=y'')]"
      "PDict [(''Config'', PDict [(''Env'', PList (map (PStr \<circ> env_line) [(''B'', ''1''), (''A'', ''x=y'')]))])]"
      "[(''Env'', PList (map (PStr \<circ> env_line) [(''B'', ''1''), (''A'', ''x=y'')]))]"
      "[(''B'', ''1''), (''A'', ''x=y'')]"]
  by (simp add: dget_def dget_or_def)

text \<open>\<open>get_container_env\<close> ends the module with exactly the container's variables: for \<open>K=V\<close> lines
  with distinct names the exit carries a dictionary that maps each name to its value (and
  nothing else); a missing container ends it with \<open>fail_json\<close>.\<close>

theorem get_container_env_roundtrip:
  assumes "op_get_container_info ops s = (Ret info, t)"
  shows "(\<not> truthy info \<longrightarrow> get_container_env ops s
            = (Exit FailJson (no_such_container (dget (w_params s) ''name'') []), t))
    \<and> (info = PDict [(''Config'', PDict [(''Env'', PList (map (PStr \<circ> env_line) env))])]
         \<and> (\<forall>kv \<in> set env. CHR ''='' \<notin> set (fst kv)) \<and> distinct (map fst env) \<longrightarrow>
       (\<exists>d. get_container_env ops s = (Exit ExitJson d, t)
          \<and> (\<forall>k. map_of d k = map_option PStr (map_of env k))))"
proof -
  have 1: "get_container_env ops s = (Exit FailJson (no_such_container (dget (w_params s) ''name'') []), t)"
    if "\<not> truthy info"
    using assms that by (simp add: get_container_env_def param_def fail_json_def bnd_def)
  have 2: "get_container_env ops s = (Exit ExitJson (dict_update [] (str_dict env)), t)"
    if "info = PDict [(''Config'', PDict [(''Env'', PList (map (PStr \<circ> env_line) env))])]"
      and k: "\<forall>kv \<in> set env. CHR ''='' \<notin> set (fst kv)"
    using assms that omap_env_lines(2) [OF k]
    by (simp add: get_container_env_def param_def exit_json_def bnd_def)
  show ?thesis using 1 2 by (auto simp: map_of_dict_of_list)
qed

definition env_ops :: "pyval \<Rightarrow> unit container_ops" where
  "env_ops info =
    \<lparr>op_unit = None, op_cgroupns_supported = False, op_check_image = ret PNone,
     op_get_container_info = ret info, op_container_exists = ret True,
     op_compare_pid_mode = (\<lambda>p i. Ret False), op_compare_image = (\<lambda>i. ret False),
     op_compare_volumes = (\<lambda>p i. Ret False), op_compare_dimensions = (\<lambda>p i. Ret False),
     op_parse_healthcheck = (\<lambda>h. Ret None), op_compare_config = ret False\<rparr>"

theorem get_container_env_roundtrip_witness:
  "\<forall>s. \<exists>d. fst (get_container_env
        (env_ops (PDict [(''Config'', PDict [(''Env'', PList (map (PStr \<circ> env_line) [(''A'', ''x=y'')]))])])) s)
      = Exit ExitJson d \<and> map_of d ''A'' = Some (PStr ''x=y'')"
proof
  fix s :: "unit wstate"
  let ?i = "PDict [(''Config'', PDict [(''Env'', PList (map (PStr \<circ> env_line) [(''A'', ''x=y'')]))])]"
  have "op_get_container_info (env_ops ?i) s = (Ret ?i, s)" by (simp add: env_ops_def)
  from get_container_env_roundtrip [OF this, of "[(''A'', ''x=y'')]"] show "\<exists>d. fst (get_container_env (env_ops ?i) s) = Exit ExitJson d \<and> map_of d ''A'' = Some (PStr ''x=y'')"
    by fastforce
qed

section \<open>Volumes\<close>

text \<open>A well-formed volume: a path, \<open>source:target\<close>, \<open>source:target:mode\<close>.\<close>

datatype volume = VolPath string | VolPair string string | VolFull string string string

fun volume_text :: "volume \<Rightarrow> string" where
  "volume_text (VolPath t) = t"
| "volume_text (VolPair a b) = a @ '':'' @ b"
| "volume_text (VolFull a b m) = a @ '':'' @ b @ '':'' @ m"

fun volume_ok :: "volume \<Rightarrow> bool" where
  "volume_ok (VolPath t) = (t \<noteq> [] \<and> CHR '':'' \<notin> set t)"
| "volume_ok (VolPair a b) =
     (CHR '':'' \<notin> set a \<and> CHR '':'' \<notin> set b \<and> (CHR ''/'' \<notin> set a \<or> CHR ''/'' \<in> set b))"
| "volume_ok (VolFull a b m) = (CHR '':'' \<notin> set a \<and> CHR '':'' \<notin> set b \<and> CHR '':'' \<notin> set m)"

fun volume_target :: "volume \<Rightarrow> string" where
  "volume_target (VolPath t) = t"
| "volume_target (VolPair a b) = b"
| "volume_target (VolFull a b m) = b"

fun volume_bind :: "volume \<Rightarrow> binds" where
  "volume_bind (VolPath t) = []"
| "volume_bind (VolPair a b) = [(a, (b, ''rw''))]"
| "volume_bind (VolFull a b m) = [(a, (b, m))]"

lemma volume_step_ok:
  "volume_ok v \<Longrightarrow>
    volume_step (PStr (volume_text v)) acc
      = Ret (fst acc @ [volume_target v], dict_update (snd acc) (volume_bind v))"
  by (cases v) (auto simp: volume_step_def Let_def dict_update_def)

lemma volume_fold_ok:
  "\<forall>v \<in> set vs. volume_ok v \<Longrightarrow>
    ofold volume_step (map (PStr \<circ> volume_text) vs) acc
      = Ret (fst acc @ map volume_target vs, dict_update (snd acc) (concat (map volume_bind vs)))"
proof (induction vs arbitrary: acc)
  case Nil
  then show ?case by simp
next
  case (Cons v vs)
  then show ?case by (simp add: volume_step_ok) (simp add: dict_update_def)
qed

text \<open>\<open>generate_volumes\<close> on well-formed volumes yields their targets in order and, by source, the
  target and mode of each mount, read-write when no mode is given; a pair that mounts a path
  on a target that is no path is not completed and raises \<open>IndexError\<close>; without volumes there
  is nothing (\<open>None\<close>).\<close>

theorem generate_volumes_spec:
  assumes "dget p ''volumes'' = PList (map (PStr \<circ> volume_text) vs)" and "\<forall>v \<in> set vs. volume_ok v"
  shows "(vs \<noteq> [] \<longrightarrow> generate_volumes p PNone
            = Ret (Some (map volume_target vs, dict_update [] (concat (map volume_bind vs)))))
    \<and> (vs = [] \<and> dget p ''volume'' = PNone \<longrightarrow> generate_volumes p PNone = Ret None)
    \<and> (CHR '':'' \<notin> set a \<and> CHR '':'' \<notin> set b \<and> CHR ''/'' \<in> set a \<and> CHR ''/'' \<notin> set b \<longrightarrow>
        generate_volumes p (PList [PStr (a @ '':'' @ b)]) = Raise IndexError)"
  using assms volume_fold_ok [OF assms(2), of "([], [])"]
  by (auto simp: generate_volumes_def Let_def volume_step_def)

theorem generate_volumes_spec_witness:
  "generate_volumes [(''volumes'', PList (map (PStr \<circ> volume_text)
        [VolPair ''/etc/localtime'' ''/etc/localtime'', VolFull ''kolla_logs'' ''/var/log'' ''ro'']))] PNone
   = Ret (Some ([''/etc/localtime'', ''/var/log''],
       [(''/etc/localtime'', (''/etc/localtime'', ''rw'')), (''kolla_logs'', (''/var/log'', ''ro''))]))"
  using generate_volumes_spec [of "[(''volumes'', PList (map (PStr \<circ> volume_text)
        [VolPair ''/etc/localtime'' ''/etc/localtime'', VolFull ''kolla_logs'' ''/var/log'' ''ro'']))]"
      "[VolPair ''/etc/localtime'' ''/etc/localtime'', VolFull ''kolla_logs'' ''/var/log'' ''ro'']"]
  by (simp add: dget_def dget_or_def dict_update_def)

section \<open>Health checks\<close>

definition hc_value :: "string \<Rightarrow> pyval \<Rightarrow> pyval" where
  "hc_value k v =
     (if k \<in> set hc_durations then (case py_int v of Ret i \<Rightarrow> PInt (i * 1000000000) | _ \<Rightarrow> PNone)
      else if k = ''test'' then hc_test v
      else (case py_int v of Ret i \<Rightarrow> PInt i | _ \<Rightarrow> PNone))"

definition hc_good :: "string \<times> pyval \<Rightarrow> bool" where
  "hc_good kv \<longleftrightarrow> fst kv \<in> set hc_supported
     \<and> (if fst kv = ''test'' then \<not> hc_disabled (snd kv) else (\<exists>i. py_int (snd kv) = Ret i))"

lemma hc_good_cases:
  assumes "hc_good (k, v)"
  shows "(k = ''test'' \<and> \<not> hc_disabled v) \<or> (k = ''retries'' \<and> (\<exists>i. py_int v = Ret i))
    \<or> (k \<in> set hc_durations \<and> (\<exists>i. py_int v = Ret i))"
proof -
  have "k = ''test'' \<or> k = ''retries'' \<or> k \<in> set hc_durations"
    using assms by (auto simp: hc_good_def hc_supported_def hc_durations_def)
  moreover have "k = ''test'' \<longrightarrow> \<not> hc_disabled v" and "k \<noteq> ''test'' \<longrightarrow> (\<exists>i. py_int v = Ret i)"
    using assms by (cases "k = ''test''"; simp add: hc_good_def)+
  ultimately show ?thesis by blast
qed

lemma hc_items_good:
  "\<forall>kv \<in> set items. hc_good kv \<Longrightarrow>
    hc_items items acc = Ret (Some (dict_update acc (map (\<lambda>(k, v). (k, hc_value k v)) items)))"
proof (induction items arbitrary: acc)
  case Nil
  then show ?case by simp
next
  case (Cons kv items)
  obtain k v where kv: "kv = (k, v)" by (cases kv)
  with Cons.prems have g: "hc_good (k, v)" and "\<forall>kv \<in> set items. hc_good kv" by auto
  with Cons.IH have IH: "hc_items items acc
      = Ret (Some (dict_update acc (map (\<lambda>(k, v). (k, hc_value k v)) items)))" for acc by blast
  from hc_good_cases [OF g] show ?case
  proof (elim disjE conjE exE)
    assume "k = ''test''" "\<not> hc_disabled v"
    then show ?thesis by (simp add: kv IH hc_value_def hc_durations_def dict_update_def)
  next
    fix i assume "k = ''retries''" "py_int v = Ret i"
    then show ?thesis by (simp add: kv IH hc_value_def hc_durations_def dict_update_def)
  next
    fix i assume "k \<in> set hc_durations" "py_int v = Ret i"
    then show ?thesis by (simp add: kv IH hc_value_def dict_update_def)
  qed
qed

lemma hc_items_disabled:
  "\<lbrakk>\<forall>kv \<in> set items. fst kv \<noteq> ''test'' \<longrightarrow> hc_good kv; (''test'', v) \<in> set items; wf_dict items; hc_disabled v\<rbrakk>
    \<Longrightarrow> hc_items items acc = Ret None"
proof (induction items arbitrary: acc)
  case Nil
  then show ?case by simp
next
  case (Cons kv items)
  obtain k w where kv: "kv = (k, w)" by (cases kv)
  show ?case
  proof (cases "k = ''test''")
    case True
    with Cons.prems kv have "w = v" by (auto simp: image_iff)
    with True Cons.prems show ?thesis by (simp add: kv hc_durations_def)
  next
    case False
    with Cons.prems kv have "hc_good (k, w)" and IH: "hc_items items acc' = Ret None" for acc'
      by (auto intro!: Cons.IH)
    with False show ?thesis
      by (auto simp: kv hc_good_def hc_supported_def hc_durations_def split: if_splits)
  qed
qed

lemma hc_keys_ok:
  assumes "set (map fst items) = set hc_supported"
  shows "filter (\<lambda>k. \<not> mem_eq k (map PStr hc_supported)) (map (\<lambda>kv. PStr (fst kv)) items) = []"
    and "filter (\<lambda>k. \<not> mem_eq k (map (\<lambda>kv. PStr (fst kv)) items)) (map PStr hc_supported) = []"
proof -
  have m: "map (\<lambda>kv. PStr (fst kv)) items = map PStr (map fst items)" by simp
  show "filter (\<lambda>k. \<not> mem_eq k (map PStr hc_supported)) (map (\<lambda>kv. PStr (fst kv)) items) = []"
    using assms by (auto simp: filter_empty_conv mem_eq_strs)
  show "filter (\<lambda>k. \<not> mem_eq k (map (\<lambda>kv. PStr (fst kv)) items)) (map PStr hc_supported) = []"
    unfolding m using assms by (auto simp: filter_empty_conv mem_eq_strs simp del: map_map)
qed

text \<open>\<open>parse_healthcheck\<close> with the five supported options: durations become nanoseconds, retries an
  integer, a list test a list of strings and any other test a shell command; a test of \<open>NONE\<close>
  switches the check off (\<open>None\<close>); without one of the five options, or with another one, the
  module exits as failed.\<close>

theorem parse_healthcheck_spec:
  assumes "wf_dict items"
  shows "(set (map fst items) = set hc_supported \<and> (\<forall>kv \<in> set items. hc_good kv) \<longrightarrow>
       (\<exists>hc. parse_healthcheck (PDict items) = Ret (Some [(''healthcheck'', PDict hc)])
          \<and> (\<forall>k. map_of hc k = map_option (hc_value k) (map_of items k))))
    \<and> (set (map fst items) = set hc_supported \<and> (\<forall>kv \<in> set items. fst kv \<noteq> ''test'' \<longrightarrow> hc_good kv)
         \<and> hc_disabled v \<and> (''test'', v) \<in> set items \<longrightarrow> parse_healthcheck (PDict items) = Ret None)
    \<and> (items \<noteq> [] \<and> set (map fst items) \<noteq> set hc_supported \<longrightarrow>
        (\<exists>d. parse_healthcheck (PDict items) = Exit ExitJson ((''failed'', PBool True) # d)))"
proof -
  have set_items: "py_set (PDict items) = Ret (map (\<lambda>kv. PStr (fst kv)) items)"
    by (simp add: py_set_def list_all_iff)
  have ne: "items \<noteq> []" if "set (map fst items) = set hc_supported"
    using that by (cases items) (simp_all add: hc_supported_def)
  have vals: "map_of (map (\<lambda>(k, v). (k, hc_value k v)) items) k = map_option (hc_value k) (map_of items k)" for k
    by (induction items) auto
  have dist: "distinct (map fst (map (\<lambda>(k, v). (k, hc_value k v)) items))"
    using assms by (simp add: wf_dict_def case_prod_unfold comp_def)
  have bad: "\<exists>d. parse_healthcheck (PDict items) = Exit ExitJson ((''failed'', PBool True) # d)"
    if "items \<noteq> []" and "set (map fst items) \<noteq> set hc_supported"
  proof -
    have "filter (\<lambda>k. \<not> mem_eq k (map PStr hc_supported)) (map (\<lambda>kv. PStr (fst kv)) items) \<noteq> []
      \<or> filter (\<lambda>k. \<not> mem_eq k (map PStr (map fst items))) (map PStr hc_supported) \<noteq> []"
      using that(2) by (auto simp: filter_empty_conv mem_eq_strs simp del: map_map)
    with that(1) set_items show ?thesis
      by (auto simp: parse_healthcheck_def Let_def unsupported_exit_def exit_json_def comp_def)
  qed
  have good: "parse_healthcheck (PDict items) = Ret (Some [(''healthcheck'',
        PDict (dict_update [] (map (\<lambda>(k, v). (k, hc_value k v)) items)))])"
    if "set (map fst items) = set hc_supported" and "\<forall>kv \<in> set items. hc_good kv"
    using hc_keys_ok [OF that(1)] ne [OF that(1)] set_items hc_items_good [OF that(2)]
    by (simp add: parse_healthcheck_def Let_def)
  have off: "parse_healthcheck (PDict items) = Ret None"
    if "set (map fst items) = set hc_supported"
      and "\<forall>kv \<in> set items. fst kv \<noteq> ''test'' \<longrightarrow> hc_good kv" "(''test'', v) \<in> set items" "hc_disabled v"
    using hc_keys_ok [OF that(1)] ne [OF that(1)] set_items hc_items_disabled [OF that(2,3) assms that(4)]
    by (simp add: parse_healthcheck_def Let_def)
  show ?thesis
  proof (intro conjI impI)
    assume "set (map fst items) = set hc_supported \<and> (\<forall>kv \<in> set items. hc_good kv)"
    then have "parse_healthcheck (PDict items) = Ret (Some [(''healthcheck'',
        PDict (dict_update [] (map (\<lambda>(k, v). (k, hc_value k v)) items)))])"
      using good by blast
    then show "\<exists>hc. parse_healthcheck (PDict items) = Ret (Some [(''healthcheck'', PDict hc)])
        \<and> (\<forall>k. map_of hc k = map_option (hc_value k) (map_of items k))"
      using vals map_of_dict_of_list [OF dist] by auto
  next
    assume "set (map fst items) = set hc_supported
        \<and> (\<forall>kv \<in> set items. fst kv \<noteq> ''test'' \<longrightarrow> hc_good kv) \<and> hc_disabled v \<and> (''test'', v) \<in> set items"
    then show "parse_healthcheck (PDict items) = Ret None" using off by blast
  next
    assume "items \<noteq> [] \<and> set (map fst items) \<noteq> set hc_supported"
    then show "\<exists>d. parse_healthcheck (PDict items) = Exit ExitJson ((''failed'', PBool True) # d)"
      using bad by blast
  qed
qed

theorem parse_healthcheck_spec_witness:
  "parse_healthcheck (PDict [(''interval'', PInt 30), (''test'', PStr ''NONE''), (''timeout'', PStr ''5''),
     (''retries'', PInt 3), (''start_period'', PInt 5)]) = Ret None"
proof -
  have i: "py_int (PStr ''5'') = Ret 5" by code_simp
  show ?thesis
    using parse_healthcheck_spec [of "[(''interval'', PInt 30), (''test'', PStr ''NONE''),
       (''timeout'', PStr ''5''), (''retries'', PInt 3), (''start_period'', PInt 5)]" "PStr ''NONE''"] i
    by (auto simp: hc_good_def hc_supported_def hc_disabled_def simp del: py_int.simps(3))
qed

section \<open>Labels\<close>

lemma py_eq_items_str_dict:
  "py_eq_items (str_dict d) (str_dict e) \<longleftrightarrow> (\<forall>(k, v) \<in> set d. map_of e k = Some v)"
proof (induction d)
  case Nil
  then show ?case by (simp add: str_dict_def)
next
  case (Cons kv d)
  obtain k v where "kv = (k, v)" by (cases kv)
  then have "str_dict (kv # d) = (k, PStr v) # str_dict d" by (simp add: str_dict_def)
  with Cons \<open>kv = (k, v)\<close> show ?case by (cases "map_of e k") auto
qed

lemma length_str_dict: "length (str_dict x) = length x"
  by (simp add: str_dict_def)

lemma py_eq_str_dict:
  assumes "distinct (map fst d)" and "distinct (map fst e)"
  shows "py_eq (PDict (str_dict d)) (PDict (str_dict e)) \<longleftrightarrow> map_of d = map_of e"
proof
  assume "py_eq (PDict (str_dict d)) (PDict (str_dict e))"
  then have l: "length d = length e" and a: "\<forall>(k, v) \<in> set d. map_of e k = Some v"
    by (simp_all add: py_eq_items_str_dict length_str_dict)
  from a have s: "set d \<subseteq> set e" by (auto dest: map_of_SomeD)
  have "card (set d) = card (set e)"
    using l assms by (metis distinct_card distinct_map length_map)
  then have "set d = set e" using s by (simp add: card_subset_eq)
  then show "map_of d = map_of e" using assms map_of_inject_set by metis
next
  assume m: "map_of d = map_of e"
  then have "set d = set e" using assms map_of_inject_set by metis
  then have "length d = length e" using assms by (metis distinct_card distinct_map)
  with m assms show "py_eq (PDict (str_dict d)) (PDict (str_dict e))"
    using \<open>set d = set e\<close> by (auto simp: py_eq_items_str_dict length_str_dict)
qed

lemma delete_str_dict: "AList.delete k (str_dict d) = str_dict (AList.delete k d)"
  by (induction d) (auto simp: str_dict_def)

lemma labels_loop_strs:
  assumes "distinct (map fst new)"
  shows "\<lbrakk>distinct (map fst cur); distinct (map fst img);
      \<forall>k \<in> fst ` set img. k \<in> dom (map_of new) \<or> k \<in> dom (map_of cur)\<rbrakk> \<Longrightarrow>
    labels_loop (PDict (str_dict new)) (PDict (str_dict cur)) (str_dict img)
      = Ret ((\<exists>(k, v) \<in> set img. k \<in> dom (map_of new) \<and> map_of new k \<noteq> Some v)
          \<or> map_of new \<noteq> map_of cur |` (- (fst ` set img - dom (map_of new))))"
proof (induction img arbitrary: cur)
  case Nil
  then show ?case using py_eq_str_dict [OF assms] by (simp add: str_dict_def)
next
  case (Cons kv img)
  obtain k v where kv: "kv = (k, v)" by (cases kv)
  then have s: "str_dict (kv # img) = (k, PStr v) # str_dict img" by (simp add: str_dict_def)
  show ?case
  proof (cases "map_of new k")
    case None
    with Cons.prems kv have "k \<in> dom (map_of cur)" by auto
    have IH: "labels_loop (PDict (str_dict new)) (PDict (str_dict (AList.delete k cur))) (str_dict img)
      = Ret ((\<exists>(k, v) \<in> set img. k \<in> dom (map_of new) \<and> map_of new k \<noteq> Some v)
          \<or> map_of new \<noteq> map_of (AList.delete k cur) |` (- (fst ` set img - dom (map_of new))))"
    proof (intro Cons.IH ballI)
      fix x assume x: "x \<in> fst ` set img"
      then have "x \<noteq> k" using Cons.prems(2) kv by auto
      with x Cons.prems(3) kv show "x \<in> dom (map_of new) \<or> x \<in> dom (map_of (AList.delete k cur))"
        by (auto simp: delete_conv')
    qed (use Cons.prems kv in \<open>simp_all add: distinct_delete\<close>)
    have "map_of (AList.delete k cur) |` (- (fst ` set img - dom (map_of new)))
        = map_of cur |` (- (fst ` set (kv # img) - dom (map_of new)))"
      using None kv by (auto simp: restrict_map_def fun_eq_iff delete_conv')
    with IH None kv s \<open>k \<in> dom (map_of cur)\<close> show ?thesis
      by (auto simp: has_key_def delete_str_dict)
  next
    case (Some w)
    have IH: "labels_loop (PDict (str_dict new)) (PDict (str_dict cur)) (str_dict img)
      = Ret ((\<exists>(k, v) \<in> set img. k \<in> dom (map_of new) \<and> map_of new k \<noteq> Some v)
          \<or> map_of new \<noteq> map_of cur |` (- (fst ` set img - dom (map_of new))))"
      using Cons.prems kv by (intro Cons.IH) auto
    have "fst ` set (kv # img) - dom (map_of new) = fst ` set img - dom (map_of new)"
      using Some kv by auto
    with IH Some kv s show ?thesis by (auto simp: has_key_def)
  qed
qed

text \<open>\<open>compare_labels\<close>, when every label of the image is either requested or on the container: it
  answers \<open>False\<close> exactly when no requested label changes one of the image and the container's
  labels, less those it merely inherited from the image, are the requested ones. So a request
  that overrides a label of the image is reported as a difference even on a container that
  already carries the requested value; a label of the image that is on neither side raises
  \<open>KeyError\<close>.\<close>

theorem compare_labels_spec:
  assumes "dget p ''labels'' = PDict (str_dict new)"
    and "py_item info ''Config'' = Ret (PDict cfg)"
    and "dget_or cfg ''Labels'' (PDict []) = PDict (str_dict cur)"
    and "dget_or img ''Labels'' (PDict []) = PDict (str_dict labels)"
    and "distinct (map fst new)" and "distinct (map fst cur)" and "distinct (map fst labels)"
  shows "((\<forall>k \<in> fst ` set labels. k \<in> dom (map_of new) \<or> k \<in> dom (map_of cur)) \<longrightarrow>
      compare_labels p info (PDict img)
        = Ret ((\<exists>(k, v) \<in> set labels. k \<in> dom (map_of new) \<and> map_of new k \<noteq> Some v)
            \<or> map_of new \<noteq> map_of cur |` (- (fst ` set labels - dom (map_of new)))))
    \<and> (labels = (k, v) # rest \<and> k \<notin> dom (map_of new) \<and> k \<notin> dom (map_of cur) \<longrightarrow>
        compare_labels p info (PDict img) = Raise (KeyError k))"
proof -
  have run: "compare_labels p info (PDict img)
      = labels_loop (PDict (str_dict new)) (PDict (str_dict cur)) (str_dict labels)"
    using assms by (simp add: compare_labels_def)
  show ?thesis
    unfolding run using labels_loop_strs [OF assms(5-7)]
    by (auto simp: str_dict_def has_key_def map_of_str_dict [unfolded str_dict_def] dom_def)
qed

theorem compare_labels_spec_witness:
  "compare_labels [(''labels'', PDict (str_dict [(''app'', ''x'')]))]
      (PDict [(''Config'', PDict [(''Labels'', PDict (str_dict [(''app'', ''x''), (''build'', ''7'')]))])])
      (PDict [(''Labels'', PDict (str_dict [(''app'', ''y''), (''build'', ''7'')]))]) = Ret True"
  using compare_labels_spec [of "[(''labels'', PDict (str_dict [(''app'', ''x'')]))]" "[(''app'', ''x'')]"
      "PDict [(''Config'', PDict [(''Labels'', PDict (str_dict [(''app'', ''x''), (''build'', ''7'')]))])]"
      "[(''Labels'', PDict (str_dict [(''app'', ''x''), (''build'', ''7'')]))]"
      "[(''app'', ''x''), (''build'', ''7'')]"
      "[(''Labels'', PDict (str_dict [(''app'', ''y''), (''build'', ''7'')]))]"
      "[(''app'', ''y''), (''build'', ''7'')]"]
  by (simp add: dget_def dget_or_def)

end
