(* ===== verification/Docker_Worker.thy ===== *)
theory Docker_Worker
  imports Container_Worker
begin

text \<open>
  \<open>ansible/module_utils/kolla_docker_worker.py\<close>: the Docker engine. The client library (\<open>docker\<close>:
  the API client and the helpers \<open>parse_repository_tag\<close> and \<open>Ulimit\<close>) is the parameter
  \<open>docker_client\<close>: every API call is a command on the machine's state that may raise
  \<open>APIError\<close>. \<open>StrictVersion\<close> of \<open>distutils\<close> is modelled, with its order.
\<close>

section \<open>Versions\<close>

text \<open>\<open>StrictVersion\<close>: three numbers and an optional pre-release tag (\<open>a\<close> or \<open>b\<close> and a number).\<close>

datatype strict_version = StrictVersion nat nat nat "(char \<times> nat) option"

text \<open>A pre-release comes before the release it leads to.\<close>

fun sv_key :: "strict_version \<Rightarrow> nat list" where
  "sv_key (StrictVersion a b c None) = [a, b, c, 1, 0, 0]"
| "sv_key (StrictVersion a b c (Some (t, n))) = [a, b, c, 0, code_of t, n]"

fun lex_le :: "nat list \<Rightarrow> nat list \<Rightarrow> bool" where
  "lex_le [] ys = True"
| "lex_le (x # xs) [] = False"
| "lex_le (x # xs) (y # ys) = (x < y \<or> (x = y \<and> lex_le xs ys))"

lemma lex_le_refl: "lex_le xs xs"
  by (induction xs) auto

lemma lex_le_trans: "lex_le xs ys \<Longrightarrow> lex_le ys zs \<Longrightarrow> lex_le xs zs"
proof (induction xs ys arbitrary: zs rule: lex_le.induct)
  case (3 x xs y ys)
  then show ?case by (cases zs) auto
qed auto

lemma lex_le_antisym: "lex_le xs ys \<Longrightarrow> lex_le ys xs \<Longrightarrow> xs = ys"
proof (induction xs ys rule: lex_le.induct)
  case (1 ys)
  then show ?case by (cases ys) auto
qed auto

lemma lex_le_total: "lex_le xs ys \<or> lex_le ys xs"
  by (induction xs ys rule: lex_le.induct) auto

lemma sv_key_inject: "sv_key v = sv_key w \<Longrightarrow> v = w"
  by (cases v rule: sv_key.cases; cases w rule: sv_key.cases) auto

instantiation strict_version :: linorder
begin

definition less_eq_strict_version :: "strict_version \<Rightarrow> strict_version \<Rightarrow> bool" where
  "less_eq_strict_version v w \<longleftrightarrow> lex_le (sv_key v) (sv_key w)"

definition less_strict_version :: "strict_version \<Rightarrow> strict_version \<Rightarrow> bool" where
  "less_strict_version v w \<longleftrightarrow> v \<le> w \<and> \<not> w \<le> v"

instance
proof
  fix u v w :: strict_version
  show "u < v \<longleftrightarrow> u \<le> v \<and> \<not> v \<le> u" by (simp add: less_strict_version_def)
  show "u \<le> u" by (simp add: less_eq_strict_version_def lex_le_refl)
  show "u \<le> v \<Longrightarrow> v \<le> w \<Longrightarrow> u \<le> w"
    unfolding less_eq_strict_version_def by (rule lex_le_trans)
  show "u \<le> v \<Longrightarrow> v \<le> u \<Longrightarrow> u = v"
    unfolding less_eq_strict_version_def by (rule sv_key_inject) (rule lex_le_antisym)
  show "u \<le> v \<or> v \<le> u" unfolding less_eq_strict_version_def by (rule lex_le_total)
qed

end

definition decimal_part :: "string \<Rightarrow> nat option" where
  "decimal_part s = (if s \<noteq> [] \<and> list_all is_decimal s then digits_val 0 s else None)"

text \<open>The pattern \<open>N.N[.N][aN or bN]\<close> of \<open>StrictVersion.parse\<close>: the tag, when there is one,
  follows the last number.\<close>

definition parse_strict_version :: "string \<Rightarrow> strict_version outcome" where
  "parse_strict_version s =
     (let digits_dots = takeWhile (\<lambda>c. is_decimal c \<or> c = CHR ''.'') s;
          tag = dropWhile (\<lambda>c. is_decimal c \<or> c = CHR ''.'') s;
          nums = map decimal_part (split_char (CHR ''.'') digits_dots);
          pre = (case tag of
                   [] \<Rightarrow> Some None
                 | t # ds \<Rightarrow> if t = CHR ''a'' \<or> t = CHR ''b''
                             then map_option (\<lambda>n. Some (t, n)) (decimal_part ds) else None)
      in case (nums, pre) of
           ([Some a, Some b], Some p) \<Rightarrow> Ret (StrictVersion a b 0 p)
         | ([Some a, Some b, Some c], Some p) \<Rightarrow> Ret (StrictVersion a b c p)
         | _ \<Rightarrow> Raise ValueError)"

section \<open>The client and the worker's attributes\<close>

text \<open>
  \<open>dc_pull\<close> yields the statuses of the pull's stream as decoded by \<open>json.loads\<close>;
  \<open>dc_images\<close> and the other calls with keyword arguments take them as a dictionary.
\<close>

record 'w docker_client =
  dc_images :: "pydict \<Rightarrow> ('w, pyval) cmd"
  dc_volumes :: "('w, pyval) cmd"
  dc_containers :: "('w, pyval) cmd"
  dc_inspect_container :: "pyval \<Rightarrow> ('w, pyval) cmd"
  dc_exec_create :: "pyval \<Rightarrow> string list \<Rightarrow> ('w, pyval) cmd"
  dc_exec_start :: "pyval \<Rightarrow> ('w, pyval) cmd"
  dc_exec_inspect :: "pyval \<Rightarrow> ('w, pyval) cmd"
  dc_login :: "pydict \<Rightarrow> ('w, unit) cmd"
  dc_pull :: "string \<Rightarrow> string \<Rightarrow> ('w, pyval list) cmd"
  dc_remove_container :: "pyval \<Rightarrow> ('w, unit) cmd"
  dc_create_host_config :: "pydict \<Rightarrow> pydict outcome"
  dc_create_container :: "pydict \<Rightarrow> ('w, unit) cmd"
  dc_start :: "pyval \<Rightarrow> ('w, unit) cmd"
  dc_stop :: "pyval \<Rightarrow> pyval \<Rightarrow> ('w, unit) cmd"
  dc_wait :: "pyval \<Rightarrow> ('w, pyval) cmd"
  dc_logs :: "pyval \<Rightarrow> bool \<Rightarrow> bool \<Rightarrow> ('w, pyval) cmd"
  dc_create_volume :: "pyval \<Rightarrow> ('w, unit) cmd"
  dc_remove_volume :: "pyval \<Rightarrow> ('w, unit) cmd"
  dc_remove_image :: "pyval \<Rightarrow> ('w, unit) cmd"
  dk_parse_repository_tag :: "pyval \<Rightarrow> pyval outcome"
  dk_ulimit :: "string \<Rightarrow> pyval \<Rightarrow> pyval \<Rightarrow> pyval outcome"
  dk_log_config_none :: "pyval outcome"

record 'w docker =
  dk_client :: "'w docker_client"
  dk_systemd :: "'w systemd_api"
  dk_unit :: "sysd_conf option"
  dk_cgroupns_supported :: bool
  dk_kernel_memory_removed :: bool

text \<open>\<open>DockerWorker.__init__\<close>, given the client it builds and that client's \<open>_version\<close>.\<close>

definition docker_init ::
    "'w docker_client \<Rightarrow> 'w systemd_api \<Rightarrow> string \<Rightarrow> pydict \<Rightarrow> 'w docker outcome" where
  "docker_init client api version params =
     obind (systemd_init params) (\<lambda>u.
     obind (parse_strict_version version) (\<lambda>v.
       Ret \<lparr>dk_client = client, dk_systemd = api, dk_unit = u,
            dk_cgroupns_supported = (StrictVersion 1 41 0 None \<le> v),
            dk_kernel_memory_removed = (StrictVersion 1 42 0 None \<le> v)\<rparr>))"

definition docker_unit ::
    "'w docker \<Rightarrow> ('w systemd_api \<Rightarrow> sysd_conf \<Rightarrow> ('w host, 'a) cmd) \<Rightarrow> ('w wstate, 'a) cmd" where
  "docker_unit D f = with_unit (dk_unit D) (f (dk_systemd D))"

section \<open>Looking things up\<close>

fun find_image :: "string \<Rightarrow> pyval list \<Rightarrow> pyval outcome" where
  "find_image name [] = Ret PNone"
| "find_image name (img # imgs) =
     obind (py_get img ''RepoTags'') (\<lambda>repo_tags.
       if \<not> truthy repo_tags then find_image name imgs
       else obind (py_iter repo_tags) (\<lambda>tags.
         if mem_eq (PStr name) tags then Ret img else find_image name imgs))"

definition docker_check_image :: "'w docker \<Rightarrow> ('w wstate, pyval) cmd" where
  "docker_check_image D =
     bnd (with_params parse_image) (\<lambda>(name, tag).
     bnd (on_engine (dc_images (dk_client D) [])) (\<lambda>images.
       lift (obind (py_iter images) (find_image (name @ '':'' @ tag)))))"

fun find_named :: "pyval \<Rightarrow> pyval list \<Rightarrow> pyval outcome" where
  "find_named name [] = Ret PNone"
| "find_named name (v # vs) =
     obind (py_item v ''Name'') (\<lambda>n. if py_eq n name then Ret v else find_named name vs)"

definition docker_check_volume :: "'w docker \<Rightarrow> ('w wstate, pyval) cmd" where
  "docker_check_volume D =
     bnd (on_engine (dc_volumes (dk_client D))) (\<lambda>reply.
     bnd (param ''name'') (\<lambda>name.
       lift (obind (py_item reply ''Volumes'') (\<lambda>vols.
             obind (py_iter (or_list vols)) (find_named name)))))"

fun find_container :: "string \<Rightarrow> pyval list \<Rightarrow> pyval outcome" where
  "find_container find_name [] = Ret PNone"
| "find_container find_name (c # cs) =
     obind (py_item c ''Names'') (\<lambda>names.
     obind (py_contains names find_name) (\<lambda>b. if b then Ret c else find_container find_name cs))"

definition docker_check_container :: "'w docker \<Rightarrow> ('w wstate, pyval) cmd" where
  "docker_check_container D =
     bnd (param ''name'') (\<lambda>name.
     bnd (on_engine (dc_containers (dk_client D))) (\<lambda>conts.
       lift (obind (py_iter conts) (find_container (''/'' @ py_str name)))))"

definition docker_get_container_info :: "'w docker \<Rightarrow> ('w wstate, pyval) cmd" where
  "docker_get_container_info D =
     bnd (docker_check_container D) (\<lambda>container.
       if \<not> truthy container then ret PNone
       else bnd (param ''name'') (\<lambda>name. on_engine (dc_inspect_container (dk_client D) name)))"

section \<open>Comparisons\<close>

definition docker_compare_pid_mode :: "pydict \<Rightarrow> pyval \<Rightarrow> bool outcome" where
  "docker_compare_pid_mode p info =
     obind (host_config_get info ''PidMode'') (\<lambda>cur.
       Ret (\<not> py_eq (dget p ''pid_mode'') (if truthy cur then cur else PNone)))"

definition docker_compare_image :: "'w docker \<Rightarrow> pyval \<Rightarrow> ('w wstate, bool) cmd" where
  "docker_compare_image D info0 =
     bnd (if truthy info0 then ret info0 else docker_get_container_info D) (\<lambda>info.
       if \<not> truthy info then ret True
       else bnd (docker_check_image D) (\<lambda>new_image.
            bnd (lift (py_item info ''Image'')) (\<lambda>current_image.
              if \<not> truthy new_image then ret True
              else bnd (lift (py_item new_image ''Id'')) (\<lambda>new_id.
                if \<not> py_eq new_id current_image then ret True
                else with_params (\<lambda>p.
                  obind (py_item info ''Config'') (\<lambda>cfg.
                  obind (py_item cfg ''Image'') (\<lambda>cur_name.
                  obind (dk_parse_repository_tag (dk_client D) cur_name) (\<lambda>cur_tag.
                  obind (dk_parse_repository_tag (dk_client D) (dget p ''image'')) (\<lambda>new_tag.
                    Ret (\<not> py_eq cur_tag new_tag))))))))))"

definition bind_text :: "string \<times> string \<times> string \<Rightarrow> string" where
  "bind_text b = fst b @ '':'' @ fst (snd b) @ '':'' @ snd (snd b)"

definition docker_compare_volumes :: "pydict \<Rightarrow> pyval \<Rightarrow> bool outcome" where
  "docker_compare_volumes p info =
     obind (generate_volumes p PNone) (\<lambda>r.
       let (volumes, bs) = (case r of None \<Rightarrow> ([], []) | Some vb \<Rightarrow> vb) in
       obind (py_item info ''Config'') (\<lambda>cfg.
       obind (py_get cfg ''Volumes'') (\<lambda>current_vols.
       obind (host_config_get info ''Binds'') (\<lambda>current_binds.
       obind (py_sym_diff (PList (map PStr volumes)) (or_list current_vols)) (\<lambda>d1.
         if d1 then Ret True
         else py_sym_diff (PList (map (\<lambda>b. PStr (bind_text b)) bs)) (or_list current_binds))))))"

definition compare_config_error :: "pyval \<Rightarrow> string \<Rightarrow> exn" where
  "compare_config_error code output =
     PyError (''Failed to compare container configuration: ExitCode: '' @ py_str code
              @ '' Message: '' @ output)"

definition docker_compare_config :: "'w docker \<Rightarrow> ('w wstate, bool) cmd" where
  "docker_compare_config D =
     bnd (catch_api
       (bnd (with_params (\<lambda>p. py_item (PDict p) ''name'')) (\<lambda>name.
        bnd (on_engine (dc_exec_create (dk_client D) name COMPARE_CONFIG_CMD)) (\<lambda>job.
        bnd (on_engine (dc_exec_start (dk_client D) job)) (\<lambda>output.
        bnd (on_engine (dc_exec_inspect (dk_client D) job)) (\<lambda>exec_inspect.
          ret (Some (output, exec_inspect)))))))
       (\<lambda>st client_error tx. if client_error then ret None
                             else raise (APIError st client_error tx)))
     (\<lambda>r. case r of
         None \<Rightarrow> ret True
       | Some (output, exec_inspect) \<Rightarrow>
           lift (obind (py_item exec_inspect ''ExitCode'') (\<lambda>code.
             if py_eq code (PInt 0) then Ret False
             else if py_eq code (PInt 1) then Ret True
             else if py_eq code (PInt 137) then Ret True
             else Raise (compare_config_error code (py_str output)))))"

section \<open>Ulimits and dimensions\<close>

definition docker_build_ulimits :: "'w docker \<Rightarrow> pyval \<Rightarrow> pyval list outcome" where
  "docker_build_ulimits D ulimits =
     obind (py_items ulimits) (omap (\<lambda>(key, value).
       obind (py_get value ''soft'') (\<lambda>soft.
       obind (py_get value ''hard'') (\<lambda>hard.
         dk_ulimit (dk_client D) key soft hard))))"

definition docker_parse_dimensions :: "'w docker \<Rightarrow> pyval \<Rightarrow> pydict outcome" where
  "docker_parse_dimensions D dims =
     obind (py_items dims) (\<lambda>dimensions.
       let unsupported = filter (\<lambda>k. k \<notin> set supported_dimensions) (map fst dimensions) in
       if unsupported \<noteq> []
       then unsupported_exit ''Unsupported dimensions'' ''unsupported_dimensions'' (map PStr unsupported)
       else if truthy (dget dimensions ''ulimits'')
       then obind (docker_build_ulimits D (dget dimensions ''ulimits'')) (\<lambda>us.
              Ret (AList.update ''ulimits'' (PList us) dimensions))
       else Ret dimensions)"

definition docker_ops :: "'w docker \<Rightarrow> 'w container_ops" where
  "docker_ops D =
    \<lparr>op_unit = dk_unit D,
     op_cgroupns_supported = dk_cgroupns_supported D,
     op_check_image = docker_check_image D,
     op_get_container_info = docker_get_container_info D,
     op_container_exists = bnd (docker_check_container D) (\<lambda>c. ret (truthy c)),
     op_compare_pid_mode = docker_compare_pid_mode,
     op_compare_image = docker_compare_image D,
     op_compare_volumes = docker_compare_volumes,
     op_compare_dimensions =
       compare_dimensions (docker_build_ulimits D) (dk_kernel_memory_removed D),
     op_parse_healthcheck = parse_healthcheck,
     op_compare_config = docker_compare_config D\<rparr>"

section \<open>Images\<close>

definition docker_get_image_id :: "'w docker \<Rightarrow> ('w wstate, pyval) cmd" where
  "docker_get_image_id D =
     bnd (param ''image'') (\<lambda>full_image.
     bnd (on_engine (dc_images (dk_client D) [(''name'', full_image), (''quiet'', PBool True)])) (\<lambda>images.
       lift (obind (py_iter images) (\<lambda>xs. case xs of [x] \<Rightarrow> Ret x | _ \<Rightarrow> Ret PNone))))"

definition image_missing_msg :: "string \<Rightarrow> string \<Rightarrow> string" where
  "image_missing_msg name tag = ''The requested image does not exist: '' @ name @ '':'' @ tag"

text \<open>The loop over \<open>reversed(statuses)\<close>: the first error found ends the module.\<close>

fun pull_statuses :: "string \<Rightarrow> string \<Rightarrow> pyval list \<Rightarrow> unit outcome" where
  "pull_statuses name tag [] = Ret ()"
| "pull_statuses name tag (status # rest) =
     obind (py_contains status ''error'') (\<lambda>b.
       if b
       then obind (py_item status ''error'') (\<lambda>err.
         case err of
           PStr e \<Rightarrow>
             if ends_with e ''not found''
             then fail_json [(''msg'', PStr (image_missing_msg name tag)), (''failed'', PBool True)]
             else fail_json [(''msg'', PStr (''Unknown error message: '' @ e)), (''failed'', PBool True)]
         | _ \<Rightarrow> Raise AttributeError)
       else pull_statuses name tag rest)"

definition auth_options :: "pydict \<Rightarrow> pydict" where
  "auth_options p =
    [(''username'', dget p ''auth_username''), (''password'', dget p ''auth_password''),
     (''registry'', dget p ''auth_registry''), (''email'', dget p ''auth_email'')]"

definition docker_pull_image :: "'w docker \<Rightarrow> ('w wstate, unit) cmd" where
  "docker_pull_image D =
     bnd (gets w_params) (\<lambda>p.
     seqc (whenc (truthy (dget p ''auth_username''))
             (on_engine (dc_login (dk_client D) (auth_options p))))
     (bnd (lift (parse_image p)) (\<lambda>(name, tag).
      bnd (docker_get_image_id D) (\<lambda>old_image_id.
      bnd (on_engine (dc_pull (dk_client D) name tag)) (\<lambda>statuses.
      seqc (lift (pull_statuses name tag (rev statuses)))
      (bnd (docker_get_image_id D) (\<lambda>new_image_id.
        set_changed (\<not> py_eq old_image_id new_image_id))))))))"

definition docker_ensure_image :: "'w docker \<Rightarrow> ('w wstate, unit) cmd" where
  "docker_ensure_image D =
     bnd (docker_check_image D) (\<lambda>img. whenc (\<not> truthy img) (docker_pull_image D))"

definition in_use_msg :: "string \<Rightarrow> pyval \<Rightarrow> string" where
  "in_use_msg kind name = kind @ [CHR 0x27] @ py_str name @ [CHR 0x27] @ '' is currently in-use''"

definition docker_remove_image :: "'w docker \<Rightarrow> ('w wstate, unit) cmd" where
  "docker_remove_image D =
     bnd (docker_check_image D) (\<lambda>img.
       whenc (truthy img)
         (seqc (set_changed True)
         (bnd (param ''image'') (\<lambda>name.
           catch_api (on_engine (dc_remove_image (dk_client D) name))
             (\<lambda>st cl tx.
                if st = 409
                then lift (fail_json [(''failed'', PBool True), (''msg'', PStr (in_use_msg ''Image '' name))])
                else if st = 500
                then lift (fail_json [(''failed'', PBool True), (''msg'', PStr ''Server error'')])
                else raise (APIError st cl tx))))))"

section \<open>Volumes\<close>

definition docker_create_volume :: "'w docker \<Rightarrow> ('w wstate, unit) cmd" where
  "docker_create_volume D =
     bnd (docker_check_volume D) (\<lambda>vol.
       whenc (\<not> truthy vol)
         (seqc (set_changed True)
         (bnd (param ''name'') (\<lambda>name. on_engine (dc_create_volume (dk_client D) name)))))"

definition docker_remove_volume :: "'w docker \<Rightarrow> ('w wstate, unit) cmd" where
  "docker_remove_volume D =
     bnd (docker_check_volume D) (\<lambda>vol.
       whenc (truthy vol)
         (seqc (set_changed True)
         (bnd (param ''name'') (\<lambda>name.
           catch_api (on_engine (dc_remove_volume (dk_client D) name))
             (\<lambda>st cl tx.
                if st = 409
                then lift (fail_json [(''failed'', PBool True),
                       (''msg'', PStr (in_use_msg ''Volume named '' name))])
                else raise (APIError st cl tx))))))"

section \<open>What the queries leave alone\<close>

text \<open>The reading calls of the API keep the part \<open>u\<close> of the state. They always keep the worker's own
  state (\<open>reads_keep_local\<close>); that they keep a part of the machine is a property of the engine.\<close>

definition reads_keep :: "('w wstate \<Rightarrow> 'v) \<Rightarrow> 'w docker_client \<Rightarrow> bool" where
  "reads_keep u c \<longleftrightarrow>
     (\<forall>kw. keeps u (on_engine (dc_images c kw))) \<and> keeps u (on_engine (dc_volumes c))
     \<and> keeps u (on_engine (dc_containers c)) \<and> (\<forall>n. keeps u (on_engine (dc_inspect_container c n)))"

lemma reads_keep_local: "reads_keep local_state c"
  by (simp add: reads_keep_def keeps_on_engine)

locale docker_reads =
  fixes u :: "'w wstate \<Rightarrow> 'v" and D :: "'w docker"
  assumes reads: "reads_keep u (dk_client D)"
begin

lemma keeps_check_image: "keeps u (docker_check_image D)"
  using reads unfolding docker_check_image_def reads_keep_def
  by (intro frame) (auto intro!: frame)

lemma keeps_check_volume: "keeps u (docker_check_volume D)"
  using reads unfolding docker_check_volume_def reads_keep_def by (intro frame) auto

lemma keeps_check_container: "keeps u (docker_check_container D)"
  using reads unfolding docker_check_container_def reads_keep_def by (intro frame) auto

lemma keeps_get_container_info: "keeps u (docker_get_container_info D)"
  using reads unfolding docker_get_container_info_def reads_keep_def
  by (intro frame keeps_check_container) auto

lemma keeps_get_image_id: "keeps u (docker_get_image_id D)"
  using reads unfolding docker_get_image_id_def reads_keep_def by (intro frame) auto

lemma keeps_compare_image: "keeps u (docker_compare_image D info)"
  unfolding docker_compare_image_def
  by (intro frame keeps_check_image keeps_get_container_info)

lemma keeps_container_differs: "keeps u (check_container_differs (docker_ops D))"
  unfolding check_container_differs_def
  by (intro frame)
     (auto simp: docker_ops_def intro!: keeps_get_container_info keeps_query keeps_compare_image
        keeps_bnd keeps_check_image)

end

interpretation docker_local: docker_reads local_state D for D :: "'w docker"
  by unfold_locales (rule reads_keep_local)

lemma keeps_compare_config: "keeps local_state (docker_compare_config D)"
  unfolding docker_compare_config_def
  by (intro frame) (auto intro!: frame split: option.splits prod.splits)

interpretation docker_worker: container_worker "docker_ops D" for D :: "'w docker"
proof (unfold_locales, goal_cases)
  case 3
  show ?case
    unfolding docker_ops_def by (simp, intro frame docker_local.keeps_check_container)
qed (simp_all add: docker_ops_def docker_local.keeps_check_image docker_local.keeps_get_container_info
      docker_local.keeps_compare_image keeps_compare_config)

section \<open>API versions\<close>

lemma decimal_part_nat_str [simp]: "decimal_part (nat_str n) = Some n"
  using nat_str_decimal [of n]
  by (simp add: decimal_part_def nat_str_ne digits_val_nat_str list_all_iff)

lemma dot_notin_nat_str: "CHR ''.'' \<notin> set (nat_str n)"
  using nat_str_decimal [of n] by (auto simp: is_decimal_def code_of_def)

lemma parse_two_numbers: "parse_strict_version (nat_str a @ ''.'' @ nat_str b) = Ret (StrictVersion a b 0 None)"
proof -
  have "list_all (\<lambda>c. is_decimal c \<or> c = CHR ''.'') (nat_str a @ ''.'' @ nat_str b)"
    using nat_str_decimal [of a] nat_str_decimal [of b] by (auto simp: list_all_iff)
  then have "takeWhile (\<lambda>c. is_decimal c \<or> c = CHR ''.'') (nat_str a @ ''.'' @ nat_str b) = nat_str a @ ''.'' @ nat_str b"
    and "dropWhile (\<lambda>c. is_decimal c \<or> c = CHR ''.'') (nat_str a @ ''.'' @ nat_str b) = []"
    by (simp_all only: takeWhile_eq_all_conv dropWhile_eq_Nil_conv list_all_iff)
  moreover have "split_char (CHR ''.'') (nat_str a @ ''.'' @ nat_str b) = [nat_str a, nat_str b]"
    using dot_notin_nat_str by simp
  ultimately show ?thesis
    by (simp only: parse_strict_version_def Let_def list.map decimal_part_nat_str list.case
        option.case prod.case)
qed

text \<open>\<open>DockerWorker.__init__\<close> compares API versions as numbers, not as text: control-group namespaces
  are used exactly from 1.41 on and \<open>kernel_memory\<close> is dropped exactly from 1.42 on, for every
  version \<open>a.b\<close> the daemon may report (so 1.9 is older than 1.41, and 2.0 newer).\<close>

theorem docker_init_versions:
  assumes "systemd_init params = Ret u"
  shows "\<exists>D. docker_init c api (nat_str a @ ''.'' @ nat_str b) params = Ret D
    \<and> dk_client D = c \<and> dk_unit D = u
    \<and> (dk_cgroupns_supported D \<longleftrightarrow> a > 1 \<or> (a = 1 \<and> b \<ge> 41))
    \<and> (dk_kernel_memory_removed D \<longleftrightarrow> a > 1 \<or> (a = 1 \<and> b \<ge> 42))"
  using assms
  by (auto simp: docker_init_def parse_two_numbers [simplified] less_eq_strict_version_def)

section \<open>Comparing volumes\<close>

text \<open>C18: \<open>compare_volumes\<close> of the Docker worker, on well-formed volumes with distinct sources, answers
  \<open>False\<close> exactly when the container has the requested mount points and exactly the requested
  \<open>source:target:mode\<close> binds, in whatever order the engine lists them.\<close>

theorem docker_compare_volumes_spec:
  assumes "dget p ''volumes'' = PList (map (PStr \<circ> volume_text) vs)" and "vs \<noteq> []"
    and "\<forall>v \<in> set vs. volume_ok v" and "distinct (map fst (concat (map volume_bind vs)))"
    and "py_item info ''Config'' = Ret (PDict cfg)" and "dget cfg ''Volumes'' = PDict cur_vols"
    and "py_item info ''HostConfig'' = Ret (PDict hc)"
    and "dget hc ''Binds'' = PList (map PStr cur_binds)"
  shows "docker_compare_volumes p info
    = Ret (volume_target ` set vs \<noteq> fst ` set cur_vols
        \<or> bind_text ` (\<Union>v \<in> set vs. set (volume_bind v)) \<noteq> set cur_binds)"
proof -
  have g: "generate_volumes p PNone = Ret (Some (map volume_target vs, concat (map volume_bind vs)))"
    using assms(1,2) volume_fold_ok [OF assms(3), of "([], [])"] dict_update_fresh [of "[]"] assms(4)
    by (simp add: generate_volumes_def Let_def)
  have o: "or_list (PDict cur_vols) = (if cur_vols = [] then PList (map PStr []) else PDict cur_vols)"
    "or_list (PList (map PStr cur_binds)) = PList (map PStr cur_binds)"
    by (simp_all add: or_list_def)
  have v: "py_sym_diff (PList (map PStr (map volume_target vs))) (or_list (PDict cur_vols))
      = Ret (volume_target ` set vs \<noteq> fst ` set cur_vols)"
    using py_sym_diff_strs [of "map volume_target vs" "[]"]
      py_sym_diff_keys(2) [of "map volume_target vs" cur_vols]
    by (cases "cur_vols = []") (simp_all add: or_list_def)
  have b: "py_sym_diff (PList (map (\<lambda>b. PStr (bind_text b)) (concat (map volume_bind vs))))
        (or_list (PList (map PStr cur_binds)))
      = Ret (bind_text ` (\<Union>v \<in> set vs. set (volume_bind v)) \<noteq> set cur_binds)"
    using py_sym_diff_strs [of "map bind_text (concat (map volume_bind vs))" cur_binds] o(2)
    by (simp add: comp_def)
  show ?thesis
    using assms(5-8) g v b
    by (simp add: docker_compare_volumes_def py_get_def host_config_get_def dget_def [symmetric])
qed

theorem docker_compare_volumes_spec_witness:
  "docker_compare_volumes
     [(''volumes'', PList (map (PStr \<circ> volume_text) [VolFull ''kolla_logs'' ''/var/log'' ''rw'', VolPath ''/run'']))]
     (PDict [(''Config'', PDict [(''Volumes'', PDict [(''/run'', PNone), (''/var/log'', PNone)])]),
             (''HostConfig'', PDict [(''Binds'', PList (map PStr [''kolla_logs:/var/log:ro'']))])])
   = Ret True"
  using docker_compare_volumes_spec [of
     "[(''volumes'', PList (map (PStr \<circ> volume_text) [VolFull ''kolla_logs'' ''/var/log'' ''rw'', VolPath ''/run'']))]"
     "[VolFull ''kolla_logs'' ''/var/log'' ''rw'', VolPath ''/run'']"
     "PDict [(''Config'', PDict [(''Volumes'', PDict [(''/run'', PNone), (''/var/log'', PNone)])]),
             (''HostConfig'', PDict [(''Binds'', PList (map PStr [''kolla_logs:/var/log:ro'']))])]"
     "[(''Volumes'', PDict [(''/run'', PNone), (''/var/log'', PNone)])]"
     "[(''/run'', PNone), (''/var/log'', PNone)]"
     "[(''Binds'', PList (map PStr [''kolla_logs:/var/log:ro'']))]" "[''kolla_logs:/var/log:ro'']"]
  by (simp add: dget_def dget_or_def bind_text_def)

section \<open>Comparing the configuration\<close>

text \<open>\<open>compare_config\<close> maps what \<open>kolla_set_configs --check\<close> did in the container to its answer: exit
  code 0 is unchanged, 1 and 137 (the container was killed meanwhile) are changed, any other
  code is an error that carries the code and the output; a client error of the API (the
  container is gone or stopped) is changed, a server error is raised again.\<close>

theorem docker_compare_config_codes:
  assumes "map_of (w_params s) ''name'' = Some name"
  shows "(on_engine (dc_exec_create (dk_client D) name COMPARE_CONFIG_CMD) s = (Ret job, s1)
      \<and> on_engine (dc_exec_start (dk_client D) job) s1 = (Ret out, s2)
      \<and> on_engine (dc_exec_inspect (dk_client D) job) s2 = (Ret (PDict d), s3)
      \<and> map_of d ''ExitCode'' = Some (PInt code) \<longrightarrow>
        docker_compare_config D s
          = (if code = 0 then Ret False
             else if code = 1 \<or> code = 137 then Ret True
             else Raise (compare_config_error (PInt code) (py_str out)), s3))
    \<and> (on_engine (dc_exec_create (dk_client D) name COMPARE_CONFIG_CMD) s = (Raise (APIError st cl tx), s1)
       \<longrightarrow> docker_compare_config D s = (if cl then Ret True else Raise (APIError st cl tx), s1))"
  using assms
  by (auto simp: docker_compare_config_def with_params_def bnd_def catch_api_def)

section \<open>Pulling images\<close>

lemma pull_statuses_ok:
  "\<forall>d \<in> set ds. \<not> has_key d ''error'' \<Longrightarrow> pull_statuses name tag (map PDict ds @ rest) = pull_statuses name tag rest"
  by (induction ds) auto

text \<open>\<open>pull_image\<close> succeeds only when no status of the pull reports an error, and then \<open>changed\<close> tells
  whether the image has a new id; otherwise the last error reported ends the module as failed,
  a missing image with a message of its own, and \<open>changed\<close> is as it was.\<close>

theorem docker_pull_image_spec:
  assumes "\<not> truthy (dget (w_params s) ''auth_username'')"
    and "parse_image (w_params s) = Ret (name, tag)"
    and "docker_get_image_id D s = (Ret old, s1)"
    and "on_engine (dc_pull (dk_client D) name tag) s1 = (Ret (map PDict statuses), s2)"
  shows "((\<forall>d \<in> set statuses. \<not> has_key d ''error'') \<and> docker_get_image_id D s2 = (Ret new, s3) \<longrightarrow>
      docker_pull_image D s = (Ret (), s3\<lparr>w_changed := \<not> py_eq old new\<rparr>))
    \<and> (statuses = before @ d # after \<and> map_of d ''error'' = Some (PStr e)
         \<and> (\<forall>x \<in> set after. \<not> has_key x ''error'') \<longrightarrow>
      docker_pull_image D s
        = (Exit FailJson [(''msg'', PStr (if ends_with e ''not found'' then image_missing_msg name tag
             else ''Unknown error message: '' @ e)), (''failed'', PBool True)], s2)
      \<and> w_changed s2 = w_changed s)"
proof (intro conjI impI)
  have run: "docker_pull_image D s = seqc (lift (pull_statuses name tag (rev (map PDict statuses))))
      (bnd (docker_get_image_id D) (\<lambda>n. set_changed (\<not> py_eq old n))) s2"
    using assms by (simp add: docker_pull_image_def bnd_def)
  { assume "(\<forall>d \<in> set statuses. \<not> has_key d ''error'') \<and> docker_get_image_id D s2 = (Ret new, s3)"
    with pull_statuses_ok [of "rev statuses" name tag "[]"]
    show "docker_pull_image D s = (Ret (), s3\<lparr>w_changed := \<not> py_eq old new\<rparr>)"
      unfolding run by (simp add: rev_map set_changed_def bnd_def) }
  assume a: "statuses = before @ d # after \<and> map_of d ''error'' = Some (PStr e)
      \<and> (\<forall>x \<in> set after. \<not> has_key x ''error'')"
  with pull_statuses_ok [of "rev after" name tag "PDict d # map PDict (rev before)"]
  show "docker_pull_image D s
        = (Exit FailJson [(''msg'', PStr (if ends_with e ''not found'' then image_missing_msg name tag
             else ''Unknown error message: '' @ e)), (''failed'', PBool True)], s2)"
    unfolding run by (simp add: rev_map has_key_def fail_json_def)
  have "local_state s1 = local_state s"
    using keepsD [OF docker_local.keeps_get_image_id assms(3)] .
  moreover have "local_state s2 = local_state s1" using keepsD [OF keeps_on_engine assms(4)] .
  ultimately show "w_changed s2 = w_changed s" by (simp add: local_state_def)
qed

section \<open>A sample engine\<close>

text \<open>
  An engine small enough to compute with, on which the theorems are instantiated: its world is
  the list of containers as \<open>containers()\<close> reports them; images and pull statuses are fixed.
\<close>

definition sample_container :: "string \<Rightarrow> string \<Rightarrow> pyval" where
  "sample_container name status =
     PDict [(''Names'', PList [PStr (''/'' @ name)]), (''Status'', PStr status)]"

definition sample_status :: "string \<Rightarrow> pyval list \<Rightarrow> pyval list" where
  "sample_status st = map (\<lambda>c. case c of PDict d \<Rightarrow> PDict (AList.update ''Status'' (PStr st) d) | _ \<Rightarrow> c)"

definition nova_params :: pydict where
  "nova_params = [(''name'', PStr ''nova''), (''image'', PStr ''kolla/nova:1''),
     (''environment'', PDict [(''KOLLA_CONFIG_STRATEGY'', PStr ''COPY_ONCE'')]),
     (''detach'', PBool True), (''privileged'', PBool False), (''state'', PStr ''running''),
     (''dimensions'', PDict []), (''labels'', PDict []), (''cap_add'', PList [])]"

definition nova_image :: pyval where
  "nova_image = PDict [(''RepoTags'', PList [PStr ''kolla/nova:1'']), (''Id'', PStr ''sha256:1'')]"

definition nova_info :: pyval where
  "nova_info = PDict
     [(''Image'', PStr ''sha256:1''),
      (''Config'', PDict [(''Image'', PStr ''kolla/nova:1''), (''Labels'', PDict []),
         (''Env'', PList [PStr ''PATH=/usr/bin'', PStr ''KOLLA_CONFIG_STRATEGY=COPY_ONCE''])]),
      (''HostConfig'', PDict [(''Privileged'', PBool False), (''PidMode'', PStr []), (''CapAdd'', PNone)]),
      (''State'', PDict [(''Status'', PStr ''running'')])]"

definition sample_client :: "pyval list \<Rightarrow> pyval list \<Rightarrow> pyval list docker_client" where
  "sample_client images statuses =
    \<lparr>dc_images = (\<lambda>kw. ret (PList images)),
     dc_volumes = ret (PDict [(''Volumes'', PNone)]),
     dc_containers = gets PList,
     dc_inspect_container = (\<lambda>n. ret nova_info),
     dc_exec_create = (\<lambda>n cmd. ret (PStr ''job'')),
     dc_exec_start = (\<lambda>job. ret (PStr ''output'')),
     dc_exec_inspect = (\<lambda>job. ret (PDict [(''ExitCode'', PInt 2)])),
     dc_login = (\<lambda>kw. ret ()),
     dc_pull = (\<lambda>name tag. ret statuses),
     dc_remove_container = (\<lambda>n. modify (\<lambda>w. [])),
     dc_create_host_config = Ret,
     dc_create_container = (\<lambda>opts. modify (\<lambda>w. sample_container (py_str (dget opts ''name'')) ''Created'' # w)),
     dc_start = (\<lambda>n. modify (sample_status ''Up 1 second'')),
     dc_stop = (\<lambda>n t. modify (sample_status ''Exited (0) 1 second ago'')),
     dc_wait = (\<lambda>n. ret (PDict [(''StatusCode'', PInt 0)])),
     dc_logs = (\<lambda>n out err. ret (PStr ''log'')),
     dc_create_volume = (\<lambda>n. ret ()),
     dc_remove_volume = (\<lambda>n. raise (APIError 409 True ''in use'')),
     dc_remove_image = (\<lambda>n. ret ()),
     dk_parse_repository_tag = Ret,
     dk_ulimit = (\<lambda>k soft hard. Ret (PDict [(''Name'', PStr k), (''Soft'', soft), (''Hard'', hard)])),
     dk_log_config_none = Ret (PStr ''none'')\<rparr>"

definition sample_systemd :: "string \<Rightarrow> pyval list systemd_api" where
  "sample_systemd unit =
    \<lparr>mgr_call = (\<lambda>files f args.
        if f = ''StopUnit'' then modify (sample_status ''Exited (0) 1 second ago'')
        else if f = ''StartUnit'' \<or> f = ''RestartUnit'' then modify (sample_status ''Up 1 second'')
        else ret ()),
     mgr_list_units = gets (\<lambda>w. [(unit, if w = sample_status ''Up 1 second'' w then ''running'' else ''dead'')]),
     mgr_sleep = (\<lambda>n w. w)\<rparr>"

definition sample_docker :: "pyval list \<Rightarrow> pyval list \<Rightarrow> pyval list docker" where
  "sample_docker images statuses =
    \<lparr>dk_client = sample_client images statuses,
     dk_systemd = sample_systemd ''kolla-nova-container.service'',
     dk_unit = Some sample_conf,
     dk_cgroupns_supported = True, dk_kernel_memory_removed = True\<rparr>"

definition sample_state :: "pydict \<Rightarrow> pyval list \<Rightarrow> pyval list wstate" where
  "sample_state p containers =
    \<lparr>w_params = p, w_changed = False, w_result = [],
     w_host = \<lparr>unit_files = (\<lambda>f. None), world = containers\<rparr>\<rparr>"

lemmas sample_defs = sample_container_def sample_status_def sample_client_def sample_systemd_def
  sample_docker_def sample_state_def

theorem docker_init_versions_witness:
  "\<exists>D. docker_init (sample_client [] []) (sample_systemd []) (nat_str 1 @ ''.'' @ nat_str 9) [] = Ret D
    \<and> \<not> dk_cgroupns_supported D"
proof -
  have "systemd_init [] = Ret None" by (simp add: systemd_init_def dget_def dget_or_def)
  from docker_init_versions [OF this, of "sample_client [] []" "sample_systemd []" 1 9]
  show ?thesis by auto
qed

theorem docker_compare_config_codes_witness:
  "fst (docker_compare_config (sample_docker [] []) (sample_state [(''name'', PStr ''nova'')] []))
    = Raise (compare_config_error (PInt 2) ''output'')"
proof -
  let ?s = "sample_state [(''name'', PStr ''nova'')] []"
  have "map_of (w_params ?s) ''name'' = Some (PStr ''nova'')" by (simp add: sample_defs)
  from docker_compare_config_codes [OF this, of "sample_docker [] []" "PStr ''job''" ?s "PStr ''output''"
      ?s "[(''ExitCode'', PInt 2)]" ?s 2]
  show ?thesis by (simp add: sample_defs on_engine_def on_host_def on_world_def zoom_def)
qed

theorem docker_pull_image_spec_witness:
  "fst (docker_pull_image
      (sample_docker [] [PDict [(''error'', PStr ''manifest for nova not found'')], PDict [(''status'', PStr ''x'')]])
      (sample_state [(''image'', PStr ''nova'')] []))
    = Exit FailJson [(''msg'', PStr (image_missing_msg ''nova'' ''latest'')), (''failed'', PBool True)]"
proof -
  let ?d = "[(''error'', PStr ''manifest for nova not found'')]"
  let ?D = "sample_docker [] [PDict ?d, PDict [(''status'', PStr ''x'')]]"
  let ?s = "sample_state [(''image'', PStr ''nova'')] []"
  have 1: "\<not> truthy (dget (w_params ?s) ''auth_username'')"
    by (simp add: sample_state_def dget_def dget_or_def)
  have 2: "parse_image (w_params ?s) = Ret (''nova'', ''latest'')"
    by (simp add: sample_state_def parse_image_def dget_def dget_or_def Let_def split_first_def)
  have 3: "docker_get_image_id ?D ?s = (Ret PNone, ?s)"
    by (simp add: sample_defs docker_get_image_id_def param_def on_engine_def on_host_def on_world_def
        zoom_def bnd_def dget_def dget_or_def)
  have 4: "on_engine (dc_pull (dk_client ?D) ''nova'' ''latest'') ?s
      = (Ret (map PDict [?d, [(''status'', PStr ''x'')]]), ?s)"
    by (simp add: sample_defs on_engine_def on_host_def on_world_def zoom_def)
  have e: "ends_with ''manifest for nova not found'' ''not found''" by code_simp
  show ?thesis
    using docker_pull_image_spec [OF 1 2 3 4, of PNone ?s "[]" ?d "[[(''status'', PStr ''x'')]]"
        "''manifest for nova not found''"] e
    by (simp add: has_key_def)
qed

section \<open>Volumes: what each state of the engine leads to\<close>

text \<open>\<open>create_volume\<close> does nothing when the volume exists and \<open>remove_volume\<close> does nothing when it does
  not; a volume in use (409) ends the module with \<open>fail_json\<close> and any other API error is raised
  again, both with \<open>changed\<close> already set.\<close>

theorem docker_volume_handlers:
  assumes "docker_check_volume D s = (Ret vol, s1)"
  shows "(truthy vol \<longrightarrow> docker_create_volume D s = (Ret (), s1))
    \<and> (\<not> truthy vol \<longrightarrow> docker_remove_volume D s = (Ret (), s1))
    \<and> (\<not> truthy vol \<longrightarrow> docker_create_volume D s
          = on_engine (dc_create_volume (dk_client D) (dget (w_params s) ''name'')) (s1\<lparr>w_changed := True\<rparr>))
    \<and> (truthy vol \<and> on_engine (dc_remove_volume (dk_client D) (dget (w_params s) ''name''))
            (s1\<lparr>w_changed := True\<rparr>) = (Raise (APIError st cl tx), s2) \<longrightarrow>
        docker_remove_volume D s
          = (if st = 409
             then Exit FailJson [(''failed'', PBool True),
               (''msg'', PStr (in_use_msg ''Volume named '' (dget (w_params s) ''name'')))]
             else Raise (APIError st cl tx), s2) \<and> w_changed s2)"
proof -
  have l: "local_state s1 = local_state s"
    using keepsD [OF docker_local.keeps_check_volume assms] .
  have c: "w_changed s2"
    if "on_engine (dc_remove_volume (dk_client D) n) (s1\<lparr>w_changed := True\<rparr>) = (r, s2)" for n r
    using keepsD [OF keeps_on_engine that] by (simp add: local_state_def)
  show ?thesis
    using assms l c
    by (auto simp: docker_create_volume_def docker_remove_volume_def bnd_def set_changed_def param_def
        local_state_def fail_json_def)
qed

theorem docker_volume_handlers_witness:
  "fst (docker_create_volume (sample_docker [] []) (sample_state [(''name'', PStr ''v'')] [])) = Ret ()"
proof -
  have "docker_check_volume (sample_docker [] []) (sample_state [(''name'', PStr ''v'')] [])
      = (Ret PNone, sample_state [(''name'', PStr ''v'')] [])"
    by (simp add: docker_check_volume_def sample_defs on_engine_def on_host_def on_world_def zoom_def
        param_def bnd_def or_list_def)
  from docker_volume_handlers [OF this]
  show ?thesis
    by (simp add: sample_defs on_engine_def on_host_def on_world_def zoom_def)
qed

end
