(* ===== verification/Docker_Container.thy ===== *)
theory Docker_Container
  imports Docker_Worker
begin

text \<open>
  \<open>ansible/module_utils/kolla_docker_worker.py\<close>, continued: the life of a container. The handlers
  call each other the way the methods do: recreate or restart, start, create, stop and remove.
\<close>

section \<open>The status of a container\<close>

text \<open>\<open>container['Status'].startswith(prefix)\<close>.\<close>

definition status_starts :: "pyval \<Rightarrow> string \<Rightarrow> bool outcome" where
  "status_starts container pfx =
     obind (py_item container ''Status'') (\<lambda>st.
       case st of PStr x \<Rightarrow> Ret (starts_with x pfx) | _ \<Rightarrow> Raise AttributeError)"

section \<open>Removing\<close>

definition docker_do_remove :: "'w docker \<Rightarrow> ('w wstate, unit) cmd" where
  "docker_do_remove D =
     catch_api
       (bnd (param ''name'') (\<lambda>name.
        seqc (on_engine (dc_remove_container (dk_client D) name))
        (seqc (docker_unit D remove_unit_file) (ret ()))))
       (\<lambda>st cl tx.
          bnd (docker_check_container D) (\<lambda>c.
            if truthy c then raise (APIError st cl tx) else ret ()))"

text \<open>The first removal of the unit file comes before the engine is asked whether there is a container.\<close>

definition docker_remove_container :: "'w docker \<Rightarrow> ('w wstate, unit) cmd" where
  "docker_remove_container D =
     bnd (docker_unit D remove_unit_file) (\<lambda>removed.
     seqc (or_changed removed)
     (bnd (docker_check_container D) (\<lambda>container.
       whenc (truthy container)
         (seqc (set_changed True) (docker_do_remove D)))))"

section \<open>Creating\<close>

definition binds_dict :: "binds \<Rightarrow> pydict" where
  "binds_dict bs = map (\<lambda>(k, b, m). (k, PDict [(''bind'', PStr b), (''mode'', PStr m)])) bs"

text \<open>The log configuration is stored in the options after the host configuration has been built
  from them, so it does not reach it.\<close>

definition docker_build_host_config :: "'w docker \<Rightarrow> binds \<Rightarrow> pydict \<Rightarrow> pydict outcome" where
  "docker_build_host_config D bs p =
     obind (generate_tmpfs p) (\<lambda>tmpfs.
       let options0 =
             [(''network_mode'', PStr ''host''), (''ipc_mode'', dget p ''ipc_mode''),
              (''cap_add'', dget p ''cap_add''), (''security_opt'', dget p ''security_opt''),
              (''pid_mode'', dget p ''pid_mode''), (''privileged'', dget p ''privileged''),
              (''tmpfs'', tmpfs), (''volumes_from'', dget p ''volumes_from'')]
       in obind (if truthy (dget p ''dimensions'')
                 then obind (docker_parse_dimensions D (dget p ''dimensions'')) (\<lambda>dims.
                        Ret (dict_update options0 dims))
                 else Ret options0) (\<lambda>options1.
          let options2 = (if bs \<noteq> [] then AList.update ''binds'' (PDict (binds_dict bs)) options1
                          else options1)
          in obind (dc_create_host_config (dk_client D) options2) (\<lambda>host_config0.
             let cgroupns_mode = dget p ''cgroupns_mode'';
                 host_config = (if dk_cgroupns_supported D \<and> cgroupns_mode \<noteq> PNone
                                then AList.update ''CgroupnsMode'' cgroupns_mode host_config0
                                else host_config0)
             in obind (if truthy (dget p ''detach'')
                       then obind (dk_log_config_none (dk_client D)) (\<lambda>lc.
                              Ret (AList.update ''log_config'' lc options2))
                       else Ret options2) (\<lambda>options3. Ret host_config))))"

text \<open>\<open>_inject_env_var\<close> updates the dictionary of the parameter itself.\<close>

definition inject_env_var :: "('w wstate, pydict) cmd" where
  "inject_env_var =
     bnd (gets w_params) (\<lambda>p.
       case dget p ''name'' of
         PStr name \<Rightarrow>
           (case dget p ''environment'' of
              PDict env \<Rightarrow>
                let env' = dict_update env
                      [(''KOLLA_SERVICE_NAME'', PStr (replace_char (CHR ''_'') (CHR ''-'') name))]
                in seqc (modify (\<lambda>s. s\<lparr>w_params := AList.update ''environment'' (PDict env') (w_params s)\<rparr>))
                     (ret env')
            | _ \<Rightarrow> raise AttributeError)
       | _ \<Rightarrow> raise AttributeError)"

definition format_env_vars :: "('w wstate, pydict) cmd" where
  "format_env_vars =
     bnd inject_env_var (\<lambda>env. ret (map (\<lambda>(k, v). (k, if v = PNone then PStr [] else v)) env))"

definition docker_build_container_options :: "'w docker \<Rightarrow> ('w wstate, pydict) cmd" where
  "docker_build_container_options D =
     bnd (with_params (\<lambda>p. generate_volumes p PNone)) (\<lambda>vb.
       let (volumes, bs) = (case vb of
              None \<Rightarrow> (PNone, []) | Some (vs, bs) \<Rightarrow> (PList (map PStr vs), bs))
       in bnd (param ''command'') (\<lambda>command.
          bnd (param ''detach'') (\<lambda>detach.
          bnd format_env_vars (\<lambda>env.
          bnd (with_params (docker_build_host_config D bs)) (\<lambda>host_config.
          bnd (gets w_params) (\<lambda>p.
          bnd (lift (parse_healthcheck (dget p ''healthcheck''))) (\<lambda>healthcheck.
            let options =
              [(''command'', command), (''detach'', detach), (''environment'', PDict env),
               (''host_config'', PDict host_config), (''labels'', dget p ''labels''),
               (''image'', dget p ''image''), (''name'', dget p ''name''), (''volumes'', volumes),
               (''tty'', dget p ''tty'')]
            in ret (case healthcheck of None \<Rightarrow> options | Some h \<Rightarrow> dict_update options h))))))))"

definition docker_create_container :: "'w docker \<Rightarrow> ('w wstate, unit) cmd" where
  "docker_create_container D =
     seqc (set_changed True)
     (bnd (docker_build_container_options D) (\<lambda>options.
      seqc (on_engine (dc_create_container (dk_client D) options))
      (bnd oneshot (\<lambda>once.
         whenc (\<not> once)
           (bnd (docker_unit D create_unit_file) or_changed)))))"

section \<open>Stopping\<close>

definition docker_stop_container :: "'w docker \<Rightarrow> ('w wstate, unit) cmd" where
  "docker_stop_container D =
     bnd (param ''name'') (\<lambda>name.
     bnd graceful_timeout (\<lambda>timeout.
     bnd (docker_check_container D) (\<lambda>container.
       if \<not> truthy container
       then bnd (param ''ignore_missing'') (\<lambda>ignore_missing.
              whenc (\<not> truthy ignore_missing)
                (lift (fail_json (no_such_container name '' to stop''))))
       else bnd (lift (status_starts container ''Exited '')) (\<lambda>exited.
              whenc (\<not> exited)
                (seqc (set_changed True)
                (bnd (docker_unit D (\<lambda>api. check_unit_file)) (\<lambda>unit_file.
                   if \<not> unit_file
                   then on_engine (dc_stop (dk_client D) name timeout)
                   else seqc (docker_unit D systemd_stop) (ret ()))))))))"

definition docker_stop_and_remove_container :: "'w docker \<Rightarrow> ('w wstate, unit) cmd" where
  "docker_stop_and_remove_container D =
     bnd (docker_check_container D) (\<lambda>container.
       whenc (truthy container) (seqc (docker_stop_container D) (docker_remove_container D)))"

section \<open>Starting\<close>

definition docker_bring_up :: "'w docker \<Rightarrow> pyval \<Rightarrow> ('w wstate, unit) cmd" where
  "docker_bring_up D container =
     bnd (lift (status_starts container ''Up '')) (\<lambda>up.
       whenc (\<not> up)
         (seqc (set_changed True)
         (bnd oneshot (\<lambda>once.
            if once
            then bnd (param ''name'') (\<lambda>name. on_engine (dc_start (dk_client D) name))
            else seqc (docker_unit D create_unit_file)
              (bnd (docker_unit D systemd_start) (\<lambda>started.
                 whenc (\<not> started)
                   (bnd (docker_check_container D) (\<lambda>c.
                      lift (fail_changed ''Container timed out'' c)))))))))"

definition docker_wait_for_exit :: "'w docker \<Rightarrow> ('w wstate, unit) cmd" where
  "docker_wait_for_exit D =
     bnd (param ''name'') (\<lambda>name.
     bnd (on_engine (dc_wait (dk_client D) name)) (\<lambda>reply.
     bnd (lift (case reply of PDict d \<Rightarrow> py_item reply ''StatusCode'' | _ \<Rightarrow> Ret reply)) (\<lambda>rc.
     seqc (set_result ''rc'' rc)
     (bnd (on_engine (dc_logs (dk_client D) name True False)) (\<lambda>out.
      seqc (set_result ''stdout'' out)
      (bnd (on_engine (dc_logs (dk_client D) name False True)) (\<lambda>err.
       seqc (set_result ''stderr'' err)
       (bnd (param ''remove_on_exit'') (\<lambda>remove_on_exit.
        seqc (whenc (truthy remove_on_exit)
               (seqc (docker_stop_container D) (docker_remove_container D)))
        (whenc (\<not> py_eq rc (PInt 0))
          (bnd (gets w_result) (\<lambda>result. lift (fail_changed (exit_code_msg rc) (PDict result))))))))))))))"

text \<open>The first half of \<open>start_container\<close>, up to the container it will bring up.\<close>

definition docker_ensure_container :: "'w docker \<Rightarrow> ('w wstate, pyval) cmd" where
  "docker_ensure_container D =
     bnd (docker_check_image D) (\<lambda>img.
     seqc (whenc (\<not> truthy img) (docker_pull_image D))
     (bnd (docker_check_container D) (\<lambda>container0.
      bnd (if truthy container0 then check_container_differs (docker_ops D) else ret False) (\<lambda>differs.
      bnd (if differs
           then seqc (docker_stop_container D) (seqc (docker_remove_container D) (docker_check_container D))
           else ret container0) (\<lambda>container1.
        if \<not> truthy container1
        then seqc (docker_create_container D) (docker_check_container D)
        else ret container1)))))"

definition docker_start_container :: "'w docker \<Rightarrow> ('w wstate, unit) cmd" where
  "docker_start_container D =
     bnd (docker_ensure_container D) (\<lambda>container.
     seqc (docker_bring_up D container)
     (bnd (param ''detach'') (\<lambda>detach.
        whenc (\<not> truthy detach) (docker_wait_for_exit D))))"

definition docker_restart_container :: "'w docker \<Rightarrow> ('w wstate, unit) cmd" where
  "docker_restart_container D =
     bnd (param ''name'') (\<lambda>name.
     bnd graceful_timeout (\<lambda>timeout.
     bnd (docker_get_container_info D) (\<lambda>info.
       if \<not> truthy info then lift (fail_json (no_such_container name []))
       else seqc (set_changed True)
         (bnd oneshot (\<lambda>once.
            if \<not> once
            then seqc (docker_unit D create_unit_file)
              (bnd (docker_unit D systemd_restart) (\<lambda>restarted.
                 whenc (\<not> restarted)
                   (bnd (docker_check_container D) (\<lambda>c.
                      lift (fail_changed ''Container timed out'' c)))))
            else seqc (on_engine (dc_stop (dk_client D) name timeout))
                   (on_engine (dc_start (dk_client D) name)))))))"

definition docker_recreate_or_restart_container :: "'w docker \<Rightarrow> ('w wstate, unit) cmd" where
  "docker_recreate_or_restart_container D =
     seqc (set_changed True)
     (bnd (docker_check_container D) (\<lambda>container.
      bnd (with_params (\<lambda>p. py_get (dget p ''environment'') ''KOLLA_CONFIG_STRATEGY'')) (\<lambda>strategy.
        if \<not> truthy container then docker_start_container D
        else bnd (if strategy = PStr ''COPY_ONCE'' then ret True
                  else check_container_differs (docker_ops D)) (\<lambda>recreate.
          if recreate
          then bnd (docker_check_image D) (\<lambda>img.
               seqc (whenc (\<not> truthy img) (docker_pull_image D))
               (seqc (docker_stop_container D)
               (seqc (docker_remove_container D)
                     (docker_start_container D))))
          else whenc (strategy = PStr ''COPY_ALWAYS'') (docker_restart_container D)))))"

section \<open>Stopping and removing: what the state leads to\<close>

lemma docker_unit_run:
  "dk_unit D = Some c \<Longrightarrow> docker_unit D f = on_host (f (dk_systemd D) c)"
  by (simp add: docker_unit_def with_unit_def)

text \<open>\<open>stop_container\<close>: a missing container is an error unless \<open>ignore_missing\<close> is set, a container that
  has exited is left alone, a running one is stopped through its systemd unit when the unit file
  is there and through the engine (with the timeout, ten seconds by default) when it is not.\<close>

theorem docker_stop_container_cases:
  assumes "docker_check_container D s = (Ret container, s1)" and "dk_unit D = Some c"
  shows "(\<not> truthy container \<longrightarrow> docker_stop_container D s
            = (if truthy (dget (w_params s) ''ignore_missing'') then Ret ()
               else Exit FailJson (no_such_container (dget (w_params s) ''name'') '' to stop''), s1))
    \<and> (truthy container \<and> status_starts container ''Exited '' = Ret True \<longrightarrow>
         docker_stop_container D s = (Ret (), s1))
    \<and> (truthy container \<and> status_starts container ''Exited '' = Ret False
         \<and> unit_files (w_host s) (unit_path c) = None \<longrightarrow>
         docker_stop_container D s
           = on_engine (dc_stop (dk_client D) (dget (w_params s) ''name'')
               (if truthy (dget (w_params s) ''graceful_timeout'')
                then dget (w_params s) ''graceful_timeout'' else PInt 10)) (s1\<lparr>w_changed := True\<rparr>))
    \<and> (truthy container \<and> status_starts container ''Exited '' = Ret False
         \<and> unit_files (w_host s) (unit_path c) \<noteq> None \<longrightarrow>
         docker_stop_container D s
           = seqc (on_host (systemd_stop (dk_systemd D) c)) (ret ()) (s1\<lparr>w_changed := True\<rparr>))"
proof -
  have l: "w_params s1 = w_params s" "unit_files (w_host s1) = unit_files (w_host s)"
    using keepsD [OF docker_local.keeps_check_container assms(1)] by (simp_all add: local_state_def)
  have u: "on_host (check_unit_file c) (s1\<lparr>w_changed := True\<rparr>)
      = (Ret (unit_files (w_host s) (unit_path c) \<noteq> None), s1\<lparr>w_changed := True\<rparr>)"
    using l(2) by (simp add: on_host_def zoom_def check_unit_file_run)
  show ?thesis
    using assms l u
    by (auto simp: docker_stop_container_def param_def graceful_timeout_def bnd_def fail_json_def
        set_changed_def docker_unit_run seqc_def [of "modify _"])
qed

lemma docker_do_remove_returns:
  assumes "dk_unit D = Some c" and "docker_do_remove D s = (Ret (), t)"
    and "unit_files (w_host s) (unit_path c) = None"
  shows "unit_files (w_host t) = unit_files (w_host s) \<and> w_changed t = w_changed s
    \<and> ((\<exists>u. on_engine (dc_remove_container (dk_client D) (dget (w_params s) ''name'')) s = (Ret (), u))
       \<or> (\<exists>k u. docker_check_container D u = (Ret k, t) \<and> \<not> truthy k))"
proof -
  obtain r u where r: "on_engine (dc_remove_container (dk_client D) (dget (w_params s) ''name'')) s = (r, u)"
    by fastforce
  have l: "local_state u = local_state s" using keepsD [OF keeps_on_engine r] .
  then have skip: "on_host (remove_unit_file (dk_systemd D) c) u = (Ret False, u)"
    using assms(3) unit_files_store.remove_skips [of c "w_host u" "dk_systemd D"]
    by (simp add: on_host_def zoom_def check_unit_file_run local_state_def)
  show ?thesis
  proof (cases r)
    case (Ret x)
    with r skip assms l show ?thesis
      by (auto simp: docker_do_remove_def param_def docker_unit_run catch_api_returns returns_simps
          bnd_def seqc_def local_state_def)
  next
    case (Raise e)
    with r assms(2) obtain k where "docker_check_container D u = (Ret k, t)" "\<not> truthy k"
      by (auto simp: docker_do_remove_def param_def catch_api_returns bnd_returns split: if_splits)
    with keepsD [OF docker_local.keeps_check_container this(1)] l show ?thesis
      by (auto simp: local_state_def)
  next
    case (Exit x d)
    with r assms(2) show ?thesis
      by (auto simp: docker_do_remove_def param_def catch_api_returns)
  qed
qed

text \<open>\<open>remove_container\<close>, when it returns, has left no unit file behind and touched no other; and when
  the engine has raised an API error on the removal, it returns only if the container is gone.\<close>

theorem docker_remove_container_post:
  assumes "docker_remove_container D s = (Ret (), t)" and "dk_unit D = Some c"
  shows "unit_files (w_host t) = (unit_files (w_host s))(unit_path c := None)
    \<and> (w_changed s \<longrightarrow> w_changed t) \<and> (unit_files (w_host s) (unit_path c) \<noteq> None \<longrightarrow> w_changed t)
    \<and> (\<exists>b s1 k s2. on_host (remove_unit_file (dk_systemd D) c) s = (Ret b, s1)
        \<and> docker_check_container D (s1\<lparr>w_changed := w_changed s1 \<or> b\<rparr>) = (Ret k, s2)
        \<and> (\<not> truthy k \<and> t = s2
           \<or> truthy k \<and> w_changed t
             \<and> ((\<exists>u. on_engine (dc_remove_container (dk_client D) (dget (w_params s) ''name''))
                    (s2\<lparr>w_changed := True\<rparr>) = (Ret (), u))
                \<or> (\<exists>k' u. docker_check_container D u = (Ret k', t) \<and> \<not> truthy k'))))"
proof -
  let ?p = "unit_path c"
  obtain b s1 k s2 where r: "on_host (remove_unit_file (dk_systemd D) c) s = (Ret b, s1)"
    and k: "docker_check_container D (s1\<lparr>w_changed := w_changed s1 \<or> b\<rparr>) = (Ret k, s2)"
    and w: "whenc (truthy k) (seqc (set_changed True) (docker_do_remove D)) s2 = (Ret (), t)"
    using assms
    by (auto simp: docker_remove_container_def docker_unit_run returns_simps or_changed_def whenc_def)
  obtain h1 where h1: "remove_unit_file (dk_systemd D) c (w_host s) = (Ret b, h1)"
    and s1_def: "s1 = s\<lparr>w_host := h1\<rparr>"
    using r by (auto simp: on_host_def zoom_returns)
  have files: "unit_files (w_host s1) = (unit_files (w_host s))(?p := None)"
    and b: "b \<longleftrightarrow> unit_files (w_host s) ?p \<noteq> None" and s1: "w_changed s1 = w_changed s"
      "w_params s1 = w_params s"
    using remove_unit_file_returns(1,2) [OF h1] by (simp_all add: s1_def)
  have s2: "unit_files (w_host s2) = (unit_files (w_host s))(?p := None)"
    "w_changed s2 = (w_changed s \<or> b)" "w_params s2 = w_params s"
    using keepsD [OF docker_local.keeps_check_container k] files s1 by (simp_all add: local_state_def)
  show ?thesis
  proof (cases "truthy k")
    case False
    with w have "t = s2" by simp
    with r k False b s2 show ?thesis by auto
  next
    case True
    with w s2 docker_do_remove_returns [OF assms(2), of "s2\<lparr>w_changed := True\<rparr>" t]
    have t: "unit_files (w_host t) = unit_files (w_host s2)" "w_changed t"
      "(\<exists>u. on_engine (dc_remove_container (dk_client D) (dget (w_params s) ''name''))
            (s2\<lparr>w_changed := True\<rparr>) = (Ret (), u))
        \<or> (\<exists>k' u. docker_check_container D u = (Ret k', t) \<and> \<not> truthy k')"
      by (auto simp: set_changed_def)
    with r k True b s2 show ?thesis by auto
  qed
qed

section \<open>What the handlers leave alone\<close>

text \<open>
  The worker's own state changes in four ways only: the host, \<open>changed\<close>, the three results of a
  foreground container, and the \<open>environment\<close> among the parameters. A view of the state that
  none of them changes is kept by every handler.
\<close>

definition exit_results :: "string list" where
  "exit_results = [''rc'', ''stdout'', ''stderr'']"

locale docker_view =
  fixes u :: "'w wstate \<Rightarrow> 'v" and D :: "'w docker"
  assumes upd_host: "u (s\<lparr>w_host := h\<rparr>) = u s"
    and upd_changed: "u (s\<lparr>w_changed := b\<rparr>) = u s"
    and upd_result: "k \<in> set exit_results \<Longrightarrow> u (s\<lparr>w_result := AList.update k v (w_result s)\<rparr>) = u s"
    and upd_environment:
      "u (s\<lparr>w_params := AList.update ''environment'' v (w_params s)\<rparr>) = u s"
begin

lemma keeps_on_host: "keeps u (on_host m)"
  by (auto simp: on_host_def upd_host intro!: keeps_zoom)

lemma keeps_engine: "keeps u (on_engine m)"
  unfolding on_engine_def by (rule keeps_on_host)

lemma keeps_unit: "keeps u (docker_unit D f)"
  unfolding docker_unit_def with_unit_def by (intro frame keeps_on_host)

lemma keeps_changed: "keeps u (set_changed b)" "keeps u (or_changed b)"
  unfolding set_changed_def or_changed_def by (auto intro!: keeps_modify upd_changed)

lemma keeps_result: "k \<in> set exit_results \<Longrightarrow> keeps u (set_result k v)"
  unfolding set_result_def by (auto intro!: keeps_modify upd_result)

lemma keeps_steps:
  "keeps u (set_result ''rc'' v)" "keeps u (set_result ''stdout'' v)" "keeps u (set_result ''stderr'' v)"
  by (auto intro!: keeps_result simp: exit_results_def)

lemmas own_steps = keeps_on_host keeps_engine keeps_unit keeps_changed keeps_steps

end

sublocale docker_view \<subseteq> docker_reads u D
  by unfold_locales (simp add: reads_keep_def keeps_engine)

context docker_view
begin

lemmas steps = own_steps keeps_check_image keeps_check_volume keeps_check_container
  keeps_get_container_info keeps_get_image_id keeps_compare_image keeps_container_differs

lemma keeps_pull_image: "keeps u (docker_pull_image D)"
  unfolding docker_pull_image_def by (intro frame steps) (auto intro!: frame steps)

lemma keeps_ensure_image: "keeps u (docker_ensure_image D)"
  unfolding docker_ensure_image_def by (intro frame steps keeps_pull_image)

lemma keeps_remove_image: "keeps u (docker_remove_image D)"
  unfolding docker_remove_image_def by (intro frame steps)

lemma keeps_volumes: "keeps u (docker_create_volume D)" "keeps u (docker_remove_volume D)"
  unfolding docker_create_volume_def docker_remove_volume_def by (intro frame steps)+

lemma keeps_remove: "keeps u (docker_remove_container D)"
  unfolding docker_remove_container_def docker_do_remove_def by (intro frame steps)

lemma keeps_stop: "keeps u (docker_stop_container D)"
  unfolding docker_stop_container_def by (intro frame steps)

lemma keeps_stop_and_remove: "keeps u (docker_stop_and_remove_container D)"
  unfolding docker_stop_and_remove_container_def by (intro frame steps keeps_stop keeps_remove)

lemma keeps_inject: "keeps u inject_env_var"
  unfolding inject_env_var_def
  by (intro frame) (auto intro!: frame keeps_modify upd_environment simp: Let_def split: pyval.splits)

lemma keeps_create: "keeps u (docker_create_container D)"
  unfolding docker_create_container_def docker_build_container_options_def format_env_vars_def
  by (intro frame steps) (auto intro!: frame steps keeps_inject simp: Let_def split: prod.splits option.splits)

lemma keeps_ensure: "keeps u (docker_ensure_container D)"
  unfolding docker_ensure_container_def
  by (intro frame steps keeps_pull_image keeps_stop keeps_remove keeps_create)

lemma keeps_bring_up: "keeps u (docker_bring_up D container)"
  unfolding docker_bring_up_def by (intro frame steps)

lemma keeps_wait: "keeps u (docker_wait_for_exit D)"
  unfolding docker_wait_for_exit_def by (intro frame steps keeps_stop keeps_remove)

lemma keeps_start: "keeps u (docker_start_container D)"
  unfolding docker_start_container_def by (intro frame keeps_ensure keeps_bring_up keeps_wait)

lemma keeps_restart: "keeps u (docker_restart_container D)"
  unfolding docker_restart_container_def by (intro frame steps)

lemma keeps_recreate: "keeps u (docker_recreate_or_restart_container D)"
  unfolding docker_recreate_or_restart_container_def
  by (intro frame steps keeps_pull_image keeps_stop keeps_remove keeps_start keeps_restart)

end

text \<open>The parameters but for \<open>environment\<close>, and the absence of foreign keys from the result.\<close>

definition fixed_params :: "'w wstate \<Rightarrow> string \<Rightarrow> pyval option" where
  "fixed_params s = (map_of (w_params s))(''environment'' := None)"

definition plain_result :: "'w wstate \<Rightarrow> bool" where
  "plain_result s \<longleftrightarrow> fst ` set (w_result s) \<subseteq> set exit_results"

lemma fixed_params_dget:
  "fixed_params t = fixed_params s \<Longrightarrow> k \<noteq> ''environment'' \<Longrightarrow> dget (w_params t) k = dget (w_params s) k"
  by (auto simp: fixed_params_def dget_def dget_or_def dest!: fun_cong [where x = k])

interpretation docker_fixed: docker_view fixed_params D for D :: "'w docker"
  by unfold_locales (auto simp: fixed_params_def)

interpretation docker_plain: docker_view plain_result D for D :: "'w docker"
  by unfold_locales (auto simp: plain_result_def dom_update)

section \<open>Starting\<close>

text \<open>\<open>start_container\<close> is idempotent: with the image there, the container up and nothing to change, a
  detached start returns without touching the parameters, \<open>changed\<close>, the result or a unit file,
  and whatever part of the machine the reading calls of the API keep is as it was.\<close>

theorem docker_start_container_noop:
  assumes "docker_check_image D s = (Ret img, s1)" and "truthy img"
    and "docker_check_container D s1 = (Ret container, s2)" and "truthy container"
    and "check_container_differs (docker_ops D) s2 = (Ret False, s3)"
    and "status_starts container ''Up '' = Ret True"
    and "truthy (dget (w_params s) ''detach'')"
  shows "docker_start_container D s = (Ret (), s3) \<and> local_state s3 = local_state s
    \<and> (reads_keep u (dk_client D) \<longrightarrow> u s3 = u s)"
proof -
  have l: "local_state s3 = local_state s"
    using keepsD [OF docker_local.keeps_check_image assms(1)]
      keepsD [OF docker_local.keeps_check_container assms(3)]
      keepsD [OF docker_worker.differs_frame assms(5)] by simp
  have r: "u s3 = u s" if "reads_keep u (dk_client D)"
  proof -
    have d: "docker_reads u D" using that by (rule docker_reads.intro)
    show ?thesis
      using keepsD [OF docker_reads.keeps_check_image [OF d] assms(1)]
        keepsD [OF docker_reads.keeps_check_container [OF d] assms(3)]
        keepsD [OF docker_reads.keeps_container_differs [OF d] assms(5)] by simp
  qed
  have "docker_start_container D s = (Ret (), s3)"
    using assms l
    by (simp add: docker_start_container_def docker_ensure_container_def docker_bring_up_def bnd_def
        seqc_def param_def local_state_def)
  with l r show ?thesis by blast
qed

lemma on_host_run: "on_host m s = (r, s\<lparr>w_host := h\<rparr>)" if "m (w_host s) = (r, h)"
  using that by (simp add: on_host_def zoom_def)

lemma bring_up_returns:
  assumes "docker_bring_up D container s = (Ret (), t)" and "dk_unit D = Some c"
    and "dget (w_params s) ''restart_policy'' \<noteq> PStr ''oneshot''"
  shows "(status_starts container ''Up '' = Ret True \<and> t = s)
    \<or> (w_changed t \<and> unit_files (w_host t) (unit_path c) = Some (rendered_unit c)
       \<and> (\<exists>h. get_unit_state (dk_systemd D) c h = (Ret (Some ''running''), w_host t)))"
proof -
  obtain up where up: "status_starts container ''Up '' = Ret up"
    using assms(1) by (auto simp: docker_bring_up_def bnd_returns)
  show ?thesis
  proof (cases up)
    case True
    with up assms(1) show ?thesis by (simp add: docker_bring_up_def)
  next
    case False
    with up assms obtain b h1 h2 where
      c: "create_unit_file (dk_systemd D) c (w_host s) = (Ret b, h1)"
      and st: "systemd_start (dk_systemd D) c h1 = (Ret True, h2)"
      and t: "t = s\<lparr>w_changed := True, w_host := h2\<rparr>"
      by (auto simp: docker_bring_up_def bnd_returns seqc_returns whenc_returns set_changed_def
          oneshot_def param_def docker_unit_run on_host_def zoom_returns split: if_splits)
    have "unit_files h2 = unit_files h1"
      using st keepsD [OF keeps_unit_action] by (auto simp: systemd_start_def)
    moreover have "\<exists>h. get_unit_state (dk_systemd D) c h = (Ret (Some ''running''), h2)"
      using st unfolding systemd_start_def by (rule unit_action_True)
    ultimately show ?thesis using create_unit_file_returns(2) [OF c] t by simp
  qed
qed

lemma ensure_container_returns:
  assumes "docker_ensure_container D s = (Ret container, t)"
  shows "(\<exists>u. docker_check_container D u = (Ret container, t))
    \<or> (\<exists>u v. docker_check_container D u = (Ret container, v) \<and> truthy container
          \<and> check_container_differs (docker_ops D) v = (Ret False, t))"
  using assms
  by (auto simp: docker_ensure_container_def bnd_returns seqc_returns split: if_splits)

text \<open>When a detached \<open>start_container\<close> with a unit (any restart policy but \<open>oneshot\<close>) returns, either the
  engine last described the container as up, or the rendered unit is on disk, \<open>changed\<close> is set and
  systemd has shown the unit \<open>running\<close> in the state reached: no silent failure to start.\<close>

theorem docker_start_container_started:
  assumes "docker_start_container D s = (Ret (), t)" and "dk_unit D = Some c"
    and "dget (w_params s) ''restart_policy'' \<noteq> PStr ''oneshot''"
    and "truthy (dget (w_params s) ''detach'')"
  shows "(\<exists>container u. docker_check_container D u = (Ret container, t)
            \<and> status_starts container ''Up '' = Ret True)
    \<or> (\<exists>container u v. docker_check_container D u = (Ret container, v) \<and> truthy container
            \<and> check_container_differs (docker_ops D) v = (Ret False, t)
            \<and> status_starts container ''Up '' = Ret True)
    \<or> (w_changed t \<and> unit_files (w_host t) (unit_path c) = Some (rendered_unit c)
       \<and> (\<exists>h. get_unit_state (dk_systemd D) c h = (Ret (Some ''running''), w_host t)))"
proof -
  obtain container w v where e: "docker_ensure_container D s = (Ret container, w)"
    and b: "docker_bring_up D container w = (Ret (), v)"
    and d: "whenc (\<not> truthy (dget (w_params v) ''detach'')) (docker_wait_for_exit D) v = (Ret (), t)"
    using assms(1) by (auto simp: docker_start_container_def param_def bnd_returns seqc_returns)
  have p: "dget (w_params w) k = dget (w_params s) k" "dget (w_params v) k = dget (w_params s) k"
    if "k \<noteq> ''environment''" for k
    using fixed_params_dget [OF keepsD [OF docker_fixed.keeps_ensure e] that]
      fixed_params_dget [OF keepsD [OF docker_fixed.keeps_bring_up b] that] by simp_all
  have "v = t" using d p(2) assms(4) by simp
  with bring_up_returns [OF b assms(2)] p(1) assms(3)
  show ?thesis using ensure_container_returns [OF e] by auto
qed

section \<open>Recreating\<close>

lemma keeps_pull_files: "keeps (\<lambda>s. unit_files (w_host s)) (docker_pull_image D)"
proof -
  have g: "keeps (\<lambda>s. unit_files (w_host s)) (docker_get_image_id D)"
    by (rule docker_reads.keeps_get_image_id, rule docker_reads.intro) (simp add: reads_keep_def keeps_engine_files)
  have c: "keeps (\<lambda>s. unit_files (w_host s)) (set_changed b)" for b
    unfolding set_changed_def by (rule keeps_modify) simp
  show ?thesis
    unfolding docker_pull_image_def by (intro frame keeps_engine_files g c) (auto intro!: frame keeps_engine_files g c)
qed

text \<open>C1: When \<open>recreate_or_restart_container\<close> has to pull the image and the pull fails, the container is
  neither stopped nor removed: the handler ends with the failure of the pull in the state the
  pull has left; the unit files are as they were, and so is every part of the machine that the
  reading calls and the pull itself keep (the running containers).\<close>

theorem docker_recreate_pull_failure:
  assumes "docker_check_container D (s\<lparr>w_changed := True\<rparr>) = (Ret container, s1)" and "truthy container"
    and "dget (w_params s) ''environment'' = PDict env"
    and "(if dget env ''KOLLA_CONFIG_STRATEGY'' = PStr ''COPY_ONCE'' then ret True
          else check_container_differs (docker_ops D)) s1 = (Ret True, s2)"
    and "docker_check_image D s2 = (Ret img, s3)" and "\<not> truthy img"
    and "docker_pull_image D s3 = (r, s4)" and "r \<noteq> Ret ()"
  shows "docker_recreate_or_restart_container D s = (r, s4)
    \<and> unit_files (w_host s4) = unit_files (w_host s)
    \<and> (reads_keep u (dk_client D) \<and> keeps u (docker_pull_image D) \<and> u (s\<lparr>w_changed := True\<rparr>) = u s
         \<longrightarrow> u s4 = u s)"
proof -
  have l: "local_state s1 = local_state (s\<lparr>w_changed := True\<rparr>)"
    using keepsD [OF docker_local.keeps_check_container assms(1)] .
  have "docker_recreate_or_restart_container D s = (r, s4)"
    using assms l
    by (cases r) (simp_all add: docker_recreate_or_restart_container_def set_changed_def with_params_def py_get_def
        bnd_def seqc_def local_state_def dget_def [symmetric])
  moreover have "unit_files (w_host s4) = unit_files (w_host s)"
  proof -
    have "local_state s2 = local_state s1"
      using assms(4) keepsD [OF docker_worker.differs_frame] by (auto split: if_splits)
    then show ?thesis
      using l keepsD [OF docker_local.keeps_check_image assms(5)]
        keepsD [OF keeps_pull_files assms(7)] by (simp add: local_state_def)
  qed
  moreover have "u s4 = u s" if "reads_keep u (dk_client D)" and "keeps u (docker_pull_image D)"
    and "u (s\<lparr>w_changed := True\<rparr>) = u s"
  proof -
    have D: "docker_reads u D" using that(1) by (rule docker_reads.intro)
    have "u s2 = u s1"
      using assms(4) keepsD [OF docker_reads.keeps_container_differs [OF D]] by (auto split: if_splits)
    then show ?thesis
      using keepsD [OF docker_reads.keeps_check_container [OF D] assms(1)]
        keepsD [OF docker_reads.keeps_check_image [OF D] assms(5)]
        keepsD [OF that(2) assms(7)] that(3) by simp
  qed
  ultimately show ?thesis by blast
qed

section \<open>The environment of a new container\<close>

text \<open>A new container gets the requested environment with \<open>KOLLA_SERVICE_NAME\<close> set to the name
  (underscores as dashes, whatever was requested for it) and \<open>None\<close> turned into the empty string,
  and nothing else; the variable is also left behind in the module's own parameter.\<close>

theorem format_env_vars_spec:
  assumes "dget (w_params s) ''name'' = PStr name" and "dget (w_params s) ''environment'' = PDict env"
  shows "\<exists>e t. format_env_vars s = (Ret e, t)
    \<and> (\<forall>k. map_of e k = (if k = ''KOLLA_SERVICE_NAME''
              then Some (PStr (replace_char (CHR ''_'') (CHR ''-'') name))
              else map_option (\<lambda>v. if v = PNone then PStr [] else v) (map_of env k)))
    \<and> (\<exists>env'. dget (w_params t) ''environment'' = PDict env' \<and> has_key env' ''KOLLA_SERVICE_NAME'')
    \<and> (\<forall>k. k \<noteq> ''environment'' \<longrightarrow> dget (w_params t) k = dget (w_params s) k)
    \<and> w_host t = w_host s"
proof -
  let ?n = "PStr (replace_char (CHR ''_'') (CHR ''-'') name)"
  let ?env = "AList.update ''KOLLA_SERVICE_NAME'' ?n env"
  let ?t = "s\<lparr>w_params := AList.update ''environment'' (PDict ?env) (w_params s)\<rparr>"
  have "format_env_vars s = (Ret (map (\<lambda>(k, v). (k, if v = PNone then PStr [] else v)) ?env), ?t)"
    using assms by (simp add: format_env_vars_def inject_env_var_def bnd_def seqc_def dict_update_def Let_def)
  moreover have "map_of (map (\<lambda>(k, v). (k, if v = PNone then PStr [] else v)) ?env) k
      = (if k = ''KOLLA_SERVICE_NAME'' then Some ?n
         else map_option (\<lambda>v. if v = PNone then PStr [] else v) (map_of env k))" for k
    by (subst map_of_map) simp
  ultimately show ?thesis
    by (intro exI [of _ "map (\<lambda>(k, v). (k, if v = PNone then PStr [] else v)) ?env"] exI [of _ ?t])
       (simp add: dget_def dget_or_def has_key_def)
qed

section \<open>Waiting for a foreground container\<close>

text \<open>For a container that is not detached, the exit code and both outputs end up in the module's
  result, and the module succeeds exactly when the exit code is 0; otherwise it fails with a
  message that carries the code, and with the same result.\<close>

theorem docker_wait_for_exit_reports:
  assumes "w_result s = []" and "\<not> truthy (dget (w_params s) ''remove_on_exit'')"
    and "on_engine (dc_wait (dk_client D) (dget (w_params s) ''name'')) s = (Ret (PDict d), s1)"
    and "map_of d ''StatusCode'' = Some (PInt rc)"
    and "\<And>r. on_engine (dc_logs (dk_client D) (dget (w_params s) ''name'') True False)
           (s1\<lparr>w_result := r\<rparr>) = (Ret out, s2\<lparr>w_result := r\<rparr>)"
    and "\<And>r. on_engine (dc_logs (dk_client D) (dget (w_params s) ''name'') False True)
           (s2\<lparr>w_result := r\<rparr>) = (Ret err, s3\<lparr>w_result := r\<rparr>)"
  shows "docker_wait_for_exit D s
    = (if rc = 0 then Ret ()
       else Exit FailJson [(''changed'', PBool True), (''msg'', PStr (exit_code_msg (PInt rc))),
          (''rc'', PInt rc), (''stdout'', out), (''stderr'', err)],
       s3\<lparr>w_result := [(''rc'', PInt rc), (''stdout'', out), (''stderr'', err)]\<rparr>)"
proof -
  have "local_state s1 = local_state s" using keepsD [OF keeps_on_engine assms(3)] .
  moreover have "local_state s3 = local_state (s2\<lparr>w_result := w_result s3\<rparr>)"
    using keepsD [OF keeps_on_engine assms(6) [of "w_result s3"]] by (simp add: local_state_def)
  moreover have "w_params s2 = w_params s1"
    using keepsD [OF keeps_on_engine assms(5) [of "w_result s2"]] by (simp add: local_state_def)
  ultimately show ?thesis
    using assms
    by (simp add: docker_wait_for_exit_def param_def set_result_def bnd_def seqc_def local_state_def
        fail_changed_def has_key_def fail_json_def)
qed

section \<open>The theorems at work on the sample engine\<close>

lemmas sample_run = sample_defs nova_params_def nova_image_def docker_check_container_def
  docker_check_image_def param_def with_params_def on_engine_def on_host_def on_world_def zoom_def
  bnd_def seqc_def dget_def dget_or_def

lemma sample_check_container:
  "docker_check_container (sample_docker images statuses) (sample_state nova_params [sample_container ''nova'' st])
    = (Ret (sample_container ''nova'' st), sample_state nova_params [sample_container ''nova'' st])"
  "docker_check_container (sample_docker images statuses) (sample_state nova_params [])
    = (Ret PNone, sample_state nova_params [])"
  by (simp_all add: sample_run mem_eq_def)

lemma sample_parse_image: "parse_image nova_params = Ret (''kolla/nova'', ''1'')"
proof -
  have "split_first (CHR ''/'') ''kolla/nova:1'' = Some (''kolla'', ''nova:1'')"
    "split_last (CHR '':'') ''kolla/nova:1'' = Some (''kolla/nova'', ''1'')" by code_simp+
  then show ?thesis by (simp add: nova_params_def parse_image_def dget_def dget_or_def Let_def)
qed

lemma sample_status_starts: "status_starts (sample_container ''nova'' st) p = Ret (starts_with st p)"
  by (simp add: status_starts_def sample_container_def)

theorem docker_stop_container_cases_witness:
  "fst (docker_stop_container (sample_docker [] []) (sample_state nova_params []))
    = Exit FailJson (no_such_container (PStr ''nova'') '' to stop'')
   \<and> docker_stop_container (sample_docker [] []) (sample_state nova_params [sample_container ''nova'' ''Exited (0)''])
    = (Ret (), sample_state nova_params [sample_container ''nova'' ''Exited (0)''])"
proof -
  have u: "dk_unit (sample_docker [] []) = Some (the (dk_unit (sample_docker [] [])))"
    by (simp add: sample_docker_def)
  have e: "starts_with ''Exited (0)'' ''Exited ''" by code_simp
  have t: "truthy (sample_container ''nova'' ''Exited (0)'')" by (simp add: sample_container_def)
  show ?thesis
    using docker_stop_container_cases [OF sample_check_container(2) u]
      docker_stop_container_cases [OF sample_check_container(1) [of _ _ "''Exited (0)''"] u] e t
    by (simp add: sample_status_starts) (simp add: sample_state_def nova_params_def dget_def dget_or_def)
qed

lemma sample_image:
  "docker_check_image (sample_docker [nova_image] statuses) (sample_state nova_params w)
    = (Ret nova_image, sample_state nova_params w)"
  "docker_check_image (sample_docker [] statuses) (sample_state nova_params w)
    = (Ret PNone, sample_state nova_params w)"
  using sample_parse_image
  by (simp_all add: docker_check_image_def with_params_def sample_docker_def sample_client_def sample_state_def
      bnd_def on_engine_def on_host_def on_world_def zoom_def nova_image_def py_get_def dget_def
      dget_or_def mem_eq_def)

lemma sample_info:
  "docker_get_container_info (sample_docker images statuses) (sample_state nova_params [sample_container ''nova'' st])
    = (Ret nova_info, sample_state nova_params [sample_container ''nova'' st])"
  using sample_check_container(1) [of images statuses st]
  by (simp add: docker_get_container_info_def bnd_def sample_container_def)
     (simp add: sample_defs param_def on_engine_def on_host_def on_world_def zoom_def)

lemma nova_unchanged:
  "compare_cap_add nova_params nova_info = Ret False"
  "compare_security_opt nova_params nova_info = Ret False"
  "compare_ipc_mode nova_params nova_info = Ret False"
  "compare_labels nova_params nova_info nova_image = Ret False"
  "compare_privileged nova_params nova_info = Ret False"
  "docker_compare_pid_mode nova_params nova_info = Ret False"
  "compare_cgroupns_mode True nova_params nova_info = Ret False"
  "compare_tmpfs nova_params nova_info = Ret False"
  "docker_compare_volumes nova_params nova_info = Ret False"
  "compare_volumes_from nova_params nova_info = Ret False"
  "compare_environment nova_params nova_info = Ret False"
  "compare_container_state nova_params nova_info = Ret False"
  "compare_command nova_params nova_info = Ret False"
  "compare_healthcheck parse_healthcheck nova_params nova_info = Ret False"
  by code_simp+

lemma nova_dimensions: "compare_dimensions b True nova_params nova_info = Ret False"
  by (simp add: compare_dimensions_def nova_params_def nova_info_def dget_def dget_or_def
      dimension_map_def has_key_def py_get_def)

lemma sample_same_image:
  "docker_compare_image (sample_docker [nova_image] statuses) nova_info (sample_state nova_params w)
    = (Ret False, sample_state nova_params w)"
  by (simp add: docker_compare_image_def bnd_def sample_image)
     (simp add: nova_info_def nova_image_def with_params_def bnd_def sample_docker_def sample_client_def
        sample_state_def nova_params_def dget_def dget_or_def)

lemma sample_unchanged:
  "check_container_differs (docker_ops (sample_docker [nova_image] statuses))
      (sample_state nova_params [sample_container ''nova'' st])
    = (Ret False, sample_state nova_params [sample_container ''nova'' st])"
proof -
  have p: "w_params (sample_state nova_params w) = nova_params" for w by (simp add: sample_state_def)
  have "truthy nova_info" by (simp add: nova_info_def)
  moreover have flags: "dk_cgroupns_supported (sample_docker [nova_image] statuses)"
    "dk_kernel_memory_removed (sample_docker [nova_image] statuses)" by (simp_all add: sample_docker_def)
  ultimately show ?thesis
    by (simp add: check_container_differs_def docker_ops_def bnd_def sample_info sample_image
        sample_same_image query_def with_params_def nova_unchanged nova_dimensions p any_cmd_False
        flags del: any_cmd.simps(2))
qed

theorem docker_start_container_noop_witness:
  "docker_start_container (sample_docker [nova_image] []) (sample_state nova_params [sample_container ''nova'' ''Up 1 second''])
    = (Ret (), sample_state nova_params [sample_container ''nova'' ''Up 1 second''])"
proof -
  have "truthy nova_image" "truthy (sample_container ''nova'' ''Up 1 second'')"
    "truthy (dget (w_params (sample_state nova_params [sample_container ''nova'' ''Up 1 second''])) ''detach'')"
    by (simp_all add: nova_image_def sample_container_def sample_state_def nova_params_def dget_def dget_or_def)
  moreover have "starts_with ''Up 1 second'' ''Up ''" by code_simp
  ultimately show ?thesis
    using docker_start_container_noop [OF sample_image(1) _ sample_check_container(1) _ sample_unchanged]
    by (simp add: sample_status_starts)
qed

lemma sample_start:
  "docker_start_container (sample_docker [nova_image] []) (sample_state nova_params [sample_container ''nova'' ''Up 1 second''])
    = (Ret (), sample_state nova_params [sample_container ''nova'' ''Up 1 second''])"
proof -
  have "truthy nova_image" "truthy (sample_container ''nova'' ''Up 1 second'')"
    by (simp_all add: nova_image_def sample_container_def)
  moreover have "starts_with ''Up 1 second'' ''Up ''" by code_simp
  ultimately show ?thesis
    by (simp add: docker_start_container_def docker_ensure_container_def docker_bring_up_def bnd_def
        seqc_def sample_image sample_check_container sample_unchanged sample_status_starts param_def)
      (simp add: sample_state_def nova_params_def dget_def dget_or_def)
qed

theorem docker_start_container_started_witness:
  "\<exists>container u t. docker_check_container (sample_docker [nova_image] []) u = (Ret container, t)
    \<and> status_starts container ''Up '' = Ret True"
proof -
  let ?D = "sample_docker [nova_image] []"
  have u: "dk_unit ?D = Some (the (dk_unit ?D))" by (simp add: sample_docker_def)
  have p: "dget (w_params (sample_state nova_params w)) ''restart_policy'' \<noteq> PStr ''oneshot''"
    "truthy (dget (w_params (sample_state nova_params w)) ''detach'')"
    "\<not> w_changed (sample_state nova_params w)" for w
    by (simp_all add: sample_state_def nova_params_def dget_def dget_or_def)
  from docker_start_container_started [OF sample_start u p(1,2)] p(3) show ?thesis by blast
qed

theorem docker_recreate_pull_failure_witness:
  "docker_recreate_or_restart_container
      (sample_docker [] [PDict [(''error'', PStr ''no space left'')]])
      (sample_state nova_params [sample_container ''nova'' ''Up 1 second''])
    = (Exit FailJson [(''msg'', PStr ''Unknown error message: no space left''), (''failed'', PBool True)],
       (sample_state nova_params [sample_container ''nova'' ''Up 1 second''])\<lparr>w_changed := True\<rparr>)"
proof -
  let ?D = "sample_docker [] [PDict [(''error'', PStr ''no space left'')]]"
  let ?s = "(sample_state nova_params [sample_container ''nova'' ''Up 1 second''])\<lparr>w_changed := True\<rparr>"
  have 1: "docker_check_container ?D ?s = (Ret (sample_container ''nova'' ''Up 1 second''), ?s)"
    by (simp add: sample_run mem_eq_def)
  have 5: "docker_check_image ?D ?s = (Ret PNone, ?s)"
    by (simp add: docker_check_image_def with_params_def sample_docker_def sample_client_def
        sample_state_def bnd_def on_engine_def on_host_def on_world_def zoom_def sample_parse_image)
  have e: "\<not> ends_with ''no space left'' ''not found''" by code_simp
  have a: "dget nova_params ''auth_username'' = PNone" by (simp add: nova_params_def dget_def dget_or_def)
  have 7: "docker_pull_image ?D ?s
    = (Exit FailJson [(''msg'', PStr ''Unknown error message: no space left''), (''failed'', PBool True)], ?s)"
    using e a by (simp add: docker_pull_image_def docker_get_image_id_def sample_defs sample_parse_image
        param_def bnd_def seqc_def on_engine_def on_host_def on_world_def zoom_def has_key_def fail_json_def)
  have 2: "truthy (sample_container ''nova'' ''Up 1 second'')" by (simp add: sample_container_def)
  have 3: "dget (w_params (sample_state nova_params [sample_container ''nova'' ''Up 1 second''])) ''environment''
      = PDict [(''KOLLA_CONFIG_STRATEGY'', PStr ''COPY_ONCE'')]"
    by (simp add: sample_state_def nova_params_def dget_def dget_or_def)
  have 4: "(if dget [(''KOLLA_CONFIG_STRATEGY'', PStr ''COPY_ONCE'')] ''KOLLA_CONFIG_STRATEGY'' = PStr ''COPY_ONCE''
      then ret True else check_container_differs (docker_ops ?D)) ?s = (Ret True, ?s)"
    by (simp add: dget_def dget_or_def)
  from docker_recreate_pull_failure [OF 1 2 3 4 5 _ 7, where u = "\<lambda>_. ()"] show ?thesis by simp
qed

theorem format_env_vars_spec_witness:
  "\<exists>e t. format_env_vars (sample_state nova_params []) = (Ret e, t)
    \<and> map_of e ''KOLLA_SERVICE_NAME'' = Some (PStr ''nova'')"
proof -
  have 1: "dget (w_params (sample_state nova_params [])) ''name'' = PStr ''nova''"
    and 2: "dget (w_params (sample_state nova_params [])) ''environment''
      = PDict [(''KOLLA_CONFIG_STRATEGY'', PStr ''COPY_ONCE'')]"
    by (simp_all add: sample_state_def nova_params_def dget_def dget_or_def)
  from format_env_vars_spec [OF 1 2] show ?thesis by (auto simp: replace_char_def)
qed

theorem docker_wait_for_exit_reports_witness:
  "fst (docker_wait_for_exit (sample_docker [] []) (sample_state nova_params [])) = Ret ()"
proof -
  let ?s = "sample_state nova_params []" let ?D = "sample_docker [] []"
  have "w_result ?s = []" "\<not> truthy (dget (w_params ?s) ''remove_on_exit'')"
    by (simp_all add: sample_state_def nova_params_def dget_def dget_or_def)
  moreover have "on_engine (dc_wait (dk_client ?D) n) s = (Ret (PDict [(''StatusCode'', PInt 0)]), s)"
    "on_engine (dc_logs (dk_client ?D) n x y) s = (Ret (PStr ''log''), s)" for n x y s
    by (simp_all add: sample_docker_def sample_client_def on_engine_def on_host_def on_world_def zoom_def)
  ultimately show ?thesis
    using docker_wait_for_exit_reports [of ?s ?D "[(''StatusCode'', PInt 0)]" ?s 0 "PStr ''log''" ?s
        "PStr ''log''" ?s] by simp
qed

lemma sample_remove:
  "docker_remove_container (sample_docker [] []) (sample_state nova_params [sample_container ''nova'' ''Up 1 second''])
    = (Ret (), (sample_state nova_params [])\<lparr>w_changed := True\<rparr>)"
proof -
  have "docker_unit (sample_docker [] []) remove_unit_file s = (Ret False, s)"
    if "unit_files (w_host s) = (\<lambda>f. None)" for s
    using that by (simp add: docker_unit_def with_unit_def sample_docker_def on_host_def zoom_def
        remove_unit_file_def check_unit_file_def)
  then show ?thesis
    by (simp add: docker_remove_container_def docker_do_remove_def catch_api_def or_changed_def
        set_changed_def bnd_def seqc_def docker_check_container_def param_def sample_docker_def
        sample_client_def sample_state_def sample_container_def on_engine_def on_host_def on_world_def
        zoom_def mem_eq_def nova_params_def dget_def dget_or_def)
qed

theorem docker_remove_container_post_witness:
  "unit_files (w_host (sample_state nova_params []))
    = (unit_files (w_host (sample_state nova_params [sample_container ''nova'' ''Up 1 second''])))
        (unit_path sample_conf := None)"
proof -
  have u: "dk_unit (sample_docker [] []) = Some sample_conf" by (simp add: sample_docker_def)
  from docker_remove_container_post [OF sample_remove u] show ?thesis by simp
qed

end
