(* ===== verification/Podman_Worker.thy ===== *)
theory Podman_Worker
  imports Container_Worker
begin

text \<open>
  \<open>ansible/module_utils/kolla_podman_worker.py\<close>: the Podman engine. The client library (\<open>podman\<close>) is
  the parameter \<open>podman_client\<close>; a container object of the library is a record of the attributes the
  worker reads, and each method of it is a call of the client. The queries and comparisons are
  here, the life of a container is in the theory \<open>Podman_Container\<close>.
\<close>

section \<open>The client\<close>

record podman_container =
  pc_name :: pyval
  pc_status :: pyval
  pc_attrs :: pydict

text \<open>\<open>pd_reload\<close> is \<open>cont.reload()\<close>, with the object after it; \<open>pd_str_error\<close> is \<open>str(e)\<close> of an
  \<open>APIError\<close>, of which the model keeps the status code and the explanation.\<close>

record 'w podman_client =
  pd_images_get :: "pyval \<Rightarrow> ('w, pydict) cmd"
  pd_images_pull :: "pydict \<Rightarrow> ('w, pydict) cmd"
  pd_image_remove :: "pydict \<Rightarrow> ('w, unit) cmd"
  pd_volumes_get :: "pyval \<Rightarrow> ('w, pydict) cmd"
  pd_volumes_create :: "pydict \<Rightarrow> ('w, pydict) cmd"
  pd_volumes_remove :: "pyval \<Rightarrow> ('w, unit) cmd"
  pd_list :: "('w, podman_container list) cmd"
  pd_get :: "pyval \<Rightarrow> ('w, podman_container) cmd"
  pd_reload :: "podman_container \<Rightarrow> ('w, podman_container) cmd"
  pd_exec_run :: "podman_container \<Rightarrow> string list \<Rightarrow> ('w, pyval \<times> string) cmd"
  pd_create :: "pydict \<Rightarrow> ('w, podman_container) cmd"
  pd_to_dict :: "podman_container \<Rightarrow> pyval outcome"
  pd_start :: "podman_container \<Rightarrow> ('w, unit) cmd"
  pd_stop :: "podman_container \<Rightarrow> string \<Rightarrow> ('w, unit) cmd"
  pd_remove :: "podman_container \<Rightarrow> ('w, unit) cmd"
  pd_wait :: "podman_container \<Rightarrow> ('w, pyval) cmd"
  pd_logs :: "podman_container \<Rightarrow> bool \<Rightarrow> bool \<Rightarrow> ('w, string list) cmd"
  pd_str_error :: "int \<Rightarrow> string \<Rightarrow> string"

record 'w podman =
  pm_client :: "'w podman_client"
  pm_systemd :: "'w systemd_api"
  pm_unit :: "sysd_conf option"

definition podman_init :: "'w podman_client \<Rightarrow> 'w systemd_api \<Rightarrow> pydict \<Rightarrow> 'w podman outcome" where
  "podman_init client api params =
     obind (systemd_init params) (\<lambda>u. Ret \<lparr>pm_client = client, pm_systemd = api, pm_unit = u\<rparr>)"

definition podman_unit ::
    "'w podman \<Rightarrow> ('w systemd_api \<Rightarrow> sysd_conf \<Rightarrow> ('w host, 'a) cmd) \<Rightarrow> ('w wstate, 'a) cmd" where
  "podman_unit P f = with_unit (pm_unit P) (f (pm_systemd P))"

section \<open>Looking things up\<close>

definition internal_error :: "string \<Rightarrow> 'a outcome" where
  "internal_error m = fail_json [(''failed'', PBool True), (''msg'', PStr (''Internal error: '' @ m))]"

definition podman_check_image :: "'w podman \<Rightarrow> ('w wstate, pyval) cmd" where
  "podman_check_image P =
     catch_api
       (bnd (param ''image'') (\<lambda>img.
        bnd (on_engine (pd_images_get (pm_client P) img)) (\<lambda>attrs. ret (PDict attrs))))
       (\<lambda>st cl explanation. if st = 404 then ret (PDict []) else lift (internal_error explanation))"

definition podman_check_volume :: "'w podman \<Rightarrow> ('w wstate, pyval) cmd" where
  "podman_check_volume P =
     catch_api
       (bnd (param ''name'') (\<lambda>name.
        bnd (on_engine (pd_volumes_get (pm_client P) name)) (\<lambda>attrs. ret (PDict attrs))))
       (\<lambda>st cl explanation. if st = 404 then ret (PDict []) else ret PNone)"

fun find_reloaded ::
    "'w podman_client \<Rightarrow> pyval \<Rightarrow> podman_container list \<Rightarrow> ('w, podman_container option) cmd" where
  "find_reloaded c name [] = ret None"
| "find_reloaded c name (cont # rest) =
     bnd (pd_reload c cont) (\<lambda>cont'.
       if py_eq name (pc_name cont') then ret (Some cont') else find_reloaded c name rest)"

definition podman_check_container :: "'w podman \<Rightarrow> ('w wstate, podman_container option) cmd" where
  "podman_check_container P =
     bnd (param ''name'') (\<lambda>name.
       on_engine (bnd (pd_list (pm_client P)) (find_reloaded (pm_client P) name)))"

definition podman_get_container_info :: "'w podman \<Rightarrow> ('w wstate, pyval) cmd" where
  "podman_get_container_info P =
     bnd (podman_check_container P) (\<lambda>container.
       ret (case container of None \<Rightarrow> PNone | Some c \<Rightarrow> PDict (pc_attrs c)))"

section \<open>Comparisons\<close>

definition podman_compare_pid_mode :: "pydict \<Rightarrow> pyval \<Rightarrow> bool outcome" where
  "podman_compare_pid_mode p info =
     (let new_pid_mode = (if truthy (dget p ''pid_mode'') then dget p ''pid_mode'' else dget p ''pid'') in
      obind (host_config_get info ''PidMode'') (\<lambda>cur.
        let current_pid_mode = (if truthy cur then cur else PNone) in
        if new_pid_mode = PNone \<and> current_pid_mode = PStr ''private'' then Ret False
        else Ret (\<not> py_eq new_pid_mode current_pid_mode)))"

text \<open>\<open>parse_tag\<close>: what follows the last slash.\<close>

definition podman_parse_tag :: "pyval \<Rightarrow> string outcome" where
  "podman_parse_tag v =
     (case v of
        PStr tag \<Rightarrow> (case split_last (CHR ''/'') tag of None \<Rightarrow> Ret tag | Some (a, b) \<Rightarrow> Ret b)
      | _ \<Rightarrow> Raise AttributeError)"

definition podman_compare_image :: "'w podman \<Rightarrow> pyval \<Rightarrow> ('w wstate, bool) cmd" where
  "podman_compare_image P info0 =
     bnd (if truthy info0 then ret info0 else podman_get_container_info P) (\<lambda>info.
       if \<not> truthy info then ret True
       else bnd (podman_check_image P) (\<lambda>new_image.
            bnd (lift (py_item info ''Image'')) (\<lambda>current_image.
              if \<not> truthy new_image then ret True
              else bnd (lift (py_item new_image ''Id'')) (\<lambda>new_id.
                if \<not> py_eq new_id current_image then ret True
                else with_params (\<lambda>p.
                  obind (podman_parse_tag (dget p ''image'')) (\<lambda>new_tag.
                  obind (py_item info ''Config'') (\<lambda>cfg.
                  obind (py_item cfg ''Image'') (\<lambda>cur_name.
                  obind (podman_parse_tag cur_name) (\<lambda>cur_tag.
                    Ret (new_tag \<noteq> cur_tag))))))))))"

definition check_slash :: "string \<Rightarrow> string" where
  "check_slash s = (if s = [] then s else if last s \<noteq> CHR ''/'' then s @ ''/'' else s)"

definition new_bind_text :: "string \<times> string \<times> string \<Rightarrow> string" where
  "new_bind_text b = check_slash (fst b) @ '':'' @ check_slash (fst (snd b)) @ '':'' @ snd (snd b)"

definition current_bind_text :: "string \<times> string \<times> string \<Rightarrow> string" where
  "current_bind_text b =
     check_slash (fst b) @ '':'' @ check_slash (fst (snd b)) @ '':''
       @ take 2 (if is_substring ''ro'' (snd (snd b)) then ''ro'' else ''rw'')"

text \<open>\<open>generate_volumes\<close> yields \<open>(None, None)\<close> when there is nothing; iterating over that is a
  \<open>TypeError\<close>. The sorting of the lists does not matter for the comparison of the sets.\<close>

definition podman_compare_volumes :: "pydict \<Rightarrow> pyval \<Rightarrow> bool outcome" where
  "podman_compare_volumes p info =
     obind (generate_volumes p PNone) (\<lambda>raw.
     obind (host_config_get info ''Binds'') (\<lambda>cur_raw_binds.
     obind (generate_volumes p cur_raw_binds) (\<lambda>cur.
       case (cur, raw) of
         (Some (raw_vols, current_binds), Some (raw_volumes, bs)) \<Rightarrow>
           let current_vols = map check_slash (filter (\<lambda>v. v \<noteq> []) raw_vols);
               volumes = map check_slash (filter (\<lambda>v. v \<noteq> []) raw_volumes)
           in obind (py_sym_diff (PList (map PStr volumes)) (PList (map PStr current_vols))) (\<lambda>d.
              if d then Ret True
              else py_sym_diff (PList (map (PStr \<circ> new_bind_text) bs))
                     (PList (map (PStr \<circ> current_bind_text) current_binds)))
       | _ \<Rightarrow> Raise TypeError)))"

definition podman_build_ulimits :: "pyval \<Rightarrow> pyval list outcome" where
  "podman_build_ulimits ulimits =
     obind (py_items ulimits) (omap (\<lambda>(key, value).
       obind (py_get value ''soft'') (\<lambda>soft.
       obind (py_get value ''hard'') (\<lambda>hard.
         Ret (PDict [(''Name'', PStr key), (''Soft'', soft), (''Hard'', hard)])))))"

definition podman_compare_dimensions :: "pydict \<Rightarrow> pyval \<Rightarrow> bool outcome" where
  "podman_compare_dimensions p info =
     obind (py_items (dget p ''dimensions'')) (\<lambda>new.
       let unsupported = filter (\<lambda>k. k \<notin> set (map fst dimension_map)) (map fst new)
       in if unsupported \<noteq> []
          then unsupported_exit ''Unsupported dimensions'' ''unsupported_dimensions''
                 (map PStr unsupported)
          else obind (py_item info ''HostConfig'') (\<lambda>cur.
            oany (\<lambda>(key1, key2).
                if has_key new key1
                then (if key1 = ''ulimits''
                      then obind (py_item cur key2) (compare_ulimits podman_build_ulimits (dget new key1))
                      else obind (py_item cur key2) (\<lambda>c. Ret (\<not> py_eq (dget new key1) c)))
                else obind (py_item cur key2) (\<lambda>c. Ret (truthy c)))
              dimension_map))"

definition podman_parse_healthcheck :: "pyval \<Rightarrow> pydict option outcome" where
  "podman_parse_healthcheck healthcheck =
     obind (parse_healthcheck healthcheck) (\<lambda>hc.
       case hc of
         None \<Rightarrow> Ret None
       | Some d \<Rightarrow>
           obind (py_item (PDict d) ''healthcheck'') (\<lambda>inner.
           obind (py_items inner) (\<lambda>items.
             let sp = dget items ''start_period'';
                 items' = AList.delete ''start_period'' items;
                 items'' = (if truthy sp then AList.update ''StartPeriod'' sp items' else items')
             in Ret (Some (AList.update ''healthcheck'' (PDict items'') d)))))"

definition podman_config_error :: "pyval \<Rightarrow> string \<Rightarrow> exn" where
  "podman_config_error rc output =
     PyError (''Failed to compare container configuration: ExitCode: '' @ py_str rc
              @ '' Message: '' @ output)"

text \<open>The \<open>try\<close> covers the early return for a container that is not running.\<close>

definition podman_compare_config :: "'w podman \<Rightarrow> ('w wstate, bool) cmd" where
  "podman_compare_config P =
     bnd (catch_api
       (bnd (with_params (\<lambda>p. py_item (PDict p) ''name'')) (\<lambda>name.
        bnd (on_engine (pd_get (pm_client P) name)) (\<lambda>c0.
        bnd (on_engine (pd_reload (pm_client P) c0)) (\<lambda>c.
          if pc_status c \<noteq> PStr ''running'' then ret None
          else bnd (on_engine (pd_exec_run (pm_client P) c COMPARE_CONFIG_CMD)) (\<lambda>r. ret (Some r))))))
       (\<lambda>st client_error tx. if client_error then ret None
                             else raise (APIError st client_error tx)))
     (\<lambda>r. case r of
         None \<Rightarrow> ret True
       | Some (rc, raw_output) \<Rightarrow>
           if py_eq rc (PInt 0) then ret False
           else if py_eq rc (PInt 1) then ret True
           else raise (podman_config_error rc raw_output))"

definition podman_ops :: "'w podman \<Rightarrow> 'w container_ops" where
  "podman_ops P =
    \<lparr>op_unit = pm_unit P,
     op_cgroupns_supported = True,
     op_check_image = podman_check_image P,
     op_get_container_info = podman_get_container_info P,
     op_container_exists = bnd (podman_check_container P) (\<lambda>c. ret (c \<noteq> None)),
     op_compare_pid_mode = podman_compare_pid_mode,
     op_compare_image = podman_compare_image P,
     op_compare_volumes = podman_compare_volumes,
     op_compare_dimensions = podman_compare_dimensions,
     op_parse_healthcheck = podman_parse_healthcheck,
     op_compare_config = podman_compare_config P\<rparr>"

section \<open>What the queries leave alone\<close>

text \<open>\<open>keeps_lookups v c\<close>: the reading calls of the API keep the part \<open>v\<close> of the machine.\<close>

definition keeps_lookups :: "('w wstate \<Rightarrow> 'v) \<Rightarrow> 'w podman_client \<Rightarrow> bool" where
  "keeps_lookups u c \<longleftrightarrow>
     (\<forall>n. keeps u (on_engine (pd_images_get c n))) \<and> (\<forall>n. keeps u (on_engine (pd_volumes_get c n)))
     \<and> (\<forall>n. keeps u (on_engine (bnd (pd_list c) (find_reloaded c n))))"

locale podman_reads =
  fixes u :: "'w wstate \<Rightarrow> 'v" and P :: "'w podman"
  assumes reads: "keeps_lookups u (pm_client P)"
begin

lemma keeps_check_image: "keeps u (podman_check_image P)"
  using reads unfolding podman_check_image_def keeps_lookups_def by (intro frame) auto

lemma keeps_check_volume: "keeps u (podman_check_volume P)"
  using reads unfolding podman_check_volume_def keeps_lookups_def by (intro frame) auto

lemma keeps_check_container: "keeps u (podman_check_container P)"
  using reads unfolding podman_check_container_def keeps_lookups_def by (intro frame) auto

lemma keeps_get_container_info: "keeps u (podman_get_container_info P)"
  unfolding podman_get_container_info_def by (intro frame keeps_check_container)

lemma keeps_compare_image: "keeps u (podman_compare_image P info)"
  unfolding podman_compare_image_def
  by (intro frame keeps_check_image keeps_get_container_info)

lemma keeps_container_differs: "keeps u (check_container_differs (podman_ops P))"
  unfolding check_container_differs_def
  by (intro frame)
     (auto simp: podman_ops_def intro!: keeps_get_container_info keeps_query keeps_compare_image
        keeps_bnd keeps_check_image)

end

interpretation podman_local: podman_reads local_state P for P :: "'w podman"
  by unfold_locales (simp add: keeps_lookups_def keeps_on_engine)

lemma keeps_podman_config: "keeps local_state (podman_compare_config P)"
  unfolding podman_compare_config_def
  by (intro frame) (auto intro!: frame split: option.splits prod.splits)

interpretation podman_worker: container_worker "podman_ops P" for P :: "'w podman"
proof (unfold_locales, goal_cases)
  case 3
  show ?case
    unfolding podman_ops_def by (simp, intro frame podman_local.keeps_check_container)
qed (simp_all add: podman_ops_def podman_local.keeps_check_image podman_local.keeps_get_container_info
      podman_local.keeps_compare_image keeps_podman_config)

section \<open>Comparing volumes\<close>

lemma generate_volumes_binds:
  assumes "\<forall>v \<in> set vs. volume_ok v" and "distinct (map fst (concat (map volume_bind vs)))" and "vs \<noteq> []"
  shows "generate_volumes p (PList (map (PStr \<circ> volume_text) vs))
    = Ret (Some (map volume_target vs, concat (map volume_bind vs)))"
  using volume_fold_ok [OF assms(1), of "([], [])"] dict_update_fresh [of "[]"] assms(2,3)
  by (simp add: generate_volumes_def Let_def)

lemma generate_volumes_default:
  assumes "dget p ''volumes'' = PList (map (PStr \<circ> volume_text) vs)"
    and "\<forall>v \<in> set vs. volume_ok v" and "distinct (map fst (concat (map volume_bind vs)))" and "vs \<noteq> []"
    and "\<not> truthy b"
  shows "generate_volumes p b = Ret (Some (map volume_target vs, concat (map volume_bind vs)))"
  using volume_fold_ok [OF assms(2), of "([], [])"] dict_update_fresh [of "[]"] assms
  by (simp add: generate_volumes_def Let_def)

text \<open>The mount points and binds of a list of volumes, as the comparison normalises them.\<close>

definition slashed_targets :: "volume list \<Rightarrow> string set" where
  "slashed_targets vs = check_slash ` (volume_target ` set vs - {[]})"

definition all_binds :: "volume list \<Rightarrow> (string \<times> string \<times> string) set" where
  "all_binds vs = (\<Union>v \<in> set vs. set (volume_bind v))"

lemma podman_compare_run:
  assumes "generate_volumes p PNone = Ret (Some (map volume_target vs, concat (map volume_bind vs)))"
    and "host_config_get info ''Binds'' = Ret b"
    and "generate_volumes p b = Ret (Some (map volume_target cs, concat (map volume_bind cs)))"
  shows "podman_compare_volumes p info
    = Ret (slashed_targets vs \<noteq> slashed_targets cs \<or> new_bind_text ` all_binds vs \<noteq> current_bind_text ` all_binds cs)"
proof -
  have t: "set (map check_slash (filter (\<lambda>v. v \<noteq> []) (map volume_target vs))) = slashed_targets vs" for vs
    by (auto simp: slashed_targets_def)
  have b: "set (map f (concat (map volume_bind vs))) = f ` all_binds vs" for f :: "_ \<Rightarrow> string" and vs
    by (auto simp: all_binds_def)
  show ?thesis
    using assms py_sym_diff_strs [of "map check_slash (filter (\<lambda>v. v \<noteq> []) (map volume_target vs))"
        "map check_slash (filter (\<lambda>v. v \<noteq> []) (map volume_target cs))"]
      py_sym_diff_strs [of "map new_bind_text (concat (map volume_bind vs))"
        "map current_bind_text (concat (map volume_bind cs))"]
    unfolding t b
    by (simp add: podman_compare_volumes_def Let_def del: filter_map)
qed

text \<open>\<open>compare_volumes\<close> of the Podman worker, on well-formed volumes and binds with distinct sources:
  it compares the mount points and the \<open>source:target:mode\<close> binds as sets, up to trailing
  slashes, with the container's modes cut down to \<open>ro\<close> or \<open>rw\<close>.\<close>

theorem podman_compare_volumes_spec:
  assumes "dget p ''volumes'' = PList (map (PStr \<circ> volume_text) vs)" and "vs \<noteq> []"
    and "\<forall>v \<in> set vs. volume_ok v" and "distinct (map fst (concat (map volume_bind vs)))"
    and "host_config_get info ''Binds'' = Ret (PList (map (PStr \<circ> volume_text) cs))" and "cs \<noteq> []"
    and "\<forall>v \<in> set cs. volume_ok v" and "distinct (map fst (concat (map volume_bind cs)))"
  shows "podman_compare_volumes p info
    = Ret (slashed_targets vs \<noteq> slashed_targets cs
        \<or> new_bind_text ` all_binds vs \<noteq> current_bind_text ` all_binds cs)"
  by (rule podman_compare_run [OF generate_volumes_default [OF assms(1,3,4,2)] assms(5)
        generate_volumes_binds [OF assms(7,8,6)]]) simp

theorem podman_compare_volumes_spec_witness:
  "podman_compare_volumes
     [(''volumes'', PList (map (PStr \<circ> volume_text) [VolFull ''/etc/kolla'' ''/conf'' ''ro'']))]
     (PDict [(''HostConfig'', PDict [(''Binds'',
        PList (map (PStr \<circ> volume_text) [VolFull ''/etc/kolla/'' ''/conf/'' ''ro,rprivate,rbind'']))])])
   = Ret False"
proof -
  have "is_substring ''ro'' ''ro,rprivate,rbind''" by code_simp
  then show ?thesis
    using podman_compare_volumes_spec [of
        "[(''volumes'', PList (map (PStr \<circ> volume_text) [VolFull ''/etc/kolla'' ''/conf'' ''ro'']))]"
        "[VolFull ''/etc/kolla'' ''/conf'' ''ro'']"
        "PDict [(''HostConfig'', PDict [(''Binds'',
            PList (map (PStr \<circ> volume_text) [VolFull ''/etc/kolla/'' ''/conf/'' ''ro,rprivate,rbind'']))])]"
        "[VolFull ''/etc/kolla/'' ''/conf/'' ''ro,rprivate,rbind'']"]
    by (simp add: dget_def dget_or_def host_config_get_def py_get_def slashed_targets_def all_binds_def
        check_slash_def new_bind_text_def current_bind_text_def)
qed

lemma bind_text_mode:
  assumes "new_bind_text (a, b, m) = current_bind_text x" and "CHR '':'' \<notin> set m"
  shows "m = ''ro'' \<or> m = ''rw''"
proof -
  let ?k = "if is_substring ''ro'' (snd (snd x)) then ''ro'' else ''rw''"
  have k: "CHR '':'' \<notin> set ?k" by simp
  have n: "new_bind_text (a, b, m) = (check_slash a @ '':'' @ check_slash b) @ CHR '':'' # m"
    by (simp add: new_bind_text_def)
  have c: "current_bind_text x = (check_slash (fst x) @ '':'' @ check_slash (fst (snd x))) @ CHR '':'' # ?k"
    by (simp add: current_bind_text_def)
  have "split_last (CHR '':'') (new_bind_text (a, b, m)) = Some (check_slash a @ '':'' @ check_slash b, m)"
    unfolding n by (rule split_last_append) (rule assms(2))
  moreover have "split_last (CHR '':'') (current_bind_text x)
      = Some (check_slash (fst x) @ '':'' @ check_slash (fst (snd x)), ?k)"
    unfolding c by (rule split_last_append) (rule k)
  ultimately have "m = ?k" using assms(1) by simp
  then show ?thesis by (simp split: if_splits)
qed

text \<open>Where \<open>compare_volumes\<close> of the Podman worker goes wrong: a bind requested with a mode other than
  \<open>ro\<close> or \<open>rw\<close> (such as \<open>shared\<close>) always differs, even from the container it created; a
  container without any bind is compared with the parameters themselves, so that missing binds
  are not seen; and when there are no volumes on either side the comparison raises \<open>TypeError\<close>.\<close>

theorem podman_compare_volumes_gaps:
  assumes "\<forall>v \<in> set vs. volume_ok v" and "distinct (map fst (concat (map volume_bind vs)))"
    and "host_config_get info ''Binds'' = Ret b"
  shows "(dget p ''volumes'' = PList (map (PStr \<circ> volume_text) vs) \<and> (src, dest, m) \<in> all_binds vs
        \<and> m \<noteq> ''ro'' \<and> m \<noteq> ''rw'' \<and> b = PList (map (PStr \<circ> volume_text) cs) \<and> cs \<noteq> []
        \<and> (\<forall>v \<in> set cs. volume_ok v) \<and> distinct (map fst (concat (map volume_bind cs))) \<longrightarrow>
        podman_compare_volumes p info = Ret True)
    \<and> (dget p ''volumes'' = PList (map (PStr \<circ> volume_text) vs) \<and> vs \<noteq> [] \<and> \<not> truthy b
        \<and> (\<forall>(a, c, k) \<in> all_binds vs. k = ''ro'' \<or> k = ''rw'') \<longrightarrow>
        podman_compare_volumes p info = Ret False)
    \<and> (\<not> truthy (dget p ''volumes'') \<and> \<not> truthy (dget p ''volume'') \<and> \<not> truthy b \<longrightarrow>
        podman_compare_volumes p info = Raise TypeError)"
proof (intro conjI impI)
  assume a: "dget p ''volumes'' = PList (map (PStr \<circ> volume_text) vs) \<and> (src, dest, m) \<in> all_binds vs
        \<and> m \<noteq> ''ro'' \<and> m \<noteq> ''rw'' \<and> b = PList (map (PStr \<circ> volume_text) cs) \<and> cs \<noteq> []
        \<and> (\<forall>v \<in> set cs. volume_ok v) \<and> distinct (map fst (concat (map volume_bind cs)))"
  then obtain v where "v \<in> set vs" "(src, dest, m) \<in> set (volume_bind v)" by (auto simp: all_binds_def)
  with assms(1) have "CHR '':'' \<notin> set m" by (cases v) auto
  with a have "new_bind_text (src, dest, m) \<notin> current_bind_text ` all_binds cs"
    by (metis bind_text_mode imageE)
  moreover have "new_bind_text (src, dest, m) \<in> new_bind_text ` all_binds vs" using a by blast
  moreover have "podman_compare_volumes p info
      = Ret (slashed_targets vs \<noteq> slashed_targets cs \<or> new_bind_text ` all_binds vs \<noteq> current_bind_text ` all_binds cs)"
  proof (rule podman_compare_run [OF _ assms(3)])
    show "generate_volumes p PNone = Ret (Some (map volume_target vs, concat (map volume_bind vs)))"
      using a \<open>v \<in> set vs\<close> by (intro generate_volumes_default [OF _ assms(1,2)]) auto
    show "generate_volumes p b = Ret (Some (map volume_target cs, concat (map volume_bind cs)))"
      using a generate_volumes_binds [of cs p] by simp
  qed
  ultimately show "podman_compare_volumes p info = Ret True" by auto
next
  assume a: "dget p ''volumes'' = PList (map (PStr \<circ> volume_text) vs) \<and> vs \<noteq> [] \<and> \<not> truthy b
        \<and> (\<forall>(a, c, k) \<in> all_binds vs. k = ''ro'' \<or> k = ''rw'')"
  have ro: "is_substring ''ro'' ''ro''" "\<not> is_substring ''ro'' ''rw''" by code_simp+
  have "new_bind_text x = current_bind_text x" if "x \<in> all_binds vs" for x
    using a that ro by (cases x) (auto simp: new_bind_text_def current_bind_text_def)
  then have "new_bind_text ` all_binds vs = current_bind_text ` all_binds vs" by (rule image_cong [OF refl])
  moreover have "podman_compare_volumes p info
      = Ret (slashed_targets vs \<noteq> slashed_targets vs \<or> new_bind_text ` all_binds vs \<noteq> current_bind_text ` all_binds vs)"
    using a by (intro podman_compare_run [OF _ assms(3)] generate_volumes_default [OF _ assms(1,2)]) auto
  ultimately show "podman_compare_volumes p info = Ret False" by simp
next
  assume "\<not> truthy (dget p ''volumes'') \<and> \<not> truthy (dget p ''volume'') \<and> \<not> truthy b"
  then show "podman_compare_volumes p info = Raise TypeError"
    using assms(3) by (simp add: podman_compare_volumes_def generate_volumes_def Let_def)
qed

theorem podman_compare_volumes_gaps_witness:
  "podman_compare_volumes
      [(''volumes'', PList (map (PStr \<circ> volume_text) [VolFull ''/run/netns'' ''/run/netns'' ''shared'']))]
      (PDict [(''HostConfig'', PDict [(''Binds'',
         PList (map (PStr \<circ> volume_text) [VolFull ''/run/netns'' ''/run/netns'' ''shared'']))])]) = Ret True
   \<and> podman_compare_volumes [] (PDict [(''HostConfig'', PDict [])]) = Raise TypeError"
proof -
  let ?vs = "[VolFull ''/run/netns'' ''/run/netns'' ''shared'']"
  let ?i = "PDict [(''HostConfig'', PDict [(''Binds'', PList (map (PStr \<circ> volume_text) ?vs))])]"
  let ?p = "[(''volumes'', PList (map (PStr \<circ> volume_text) ?vs))]"
  have i: "host_config_get ?i ''Binds'' = Ret (PList (map (PStr \<circ> volume_text) ?vs))"
    "host_config_get (PDict [(''HostConfig'', PDict [])]) ''Binds'' = Ret PNone"
    by (simp_all add: host_config_get_def py_get_def dget_or_def)
  have w: "\<forall>v \<in> set ?vs. volume_ok v" "distinct (map fst (concat (map volume_bind ?vs)))" by simp_all
  have p: "dget ?p ''volumes'' = PList (map (PStr \<circ> volume_text) ?vs)" by (simp add: dget_def dget_or_def)
  have b: "(''/run/netns'', ''/run/netns'', ''shared'') \<in> all_binds ?vs" by (simp add: all_binds_def)
  have 1: "podman_compare_volumes ?p ?i = Ret True"
    by (rule podman_compare_volumes_gaps [OF w i(1), of ?p "''/run/netns''" "''/run/netns''" "''shared''" ?vs,
          THEN conjunct1, rule_format]) (use p b w in \<open>simp del: map_map list.map\<close>)
  have 2: "podman_compare_volumes [] (PDict [(''HostConfig'', PDict [])]) = Raise TypeError"
    using podman_compare_volumes_gaps [OF _ _ i(2), of "[]" "[]"] by (simp add: dget_def dget_or_def)
  from 1 2 show ?thesis ..
qed

end
