(* ===== verification/Podman_Container.thy ===== *)
theory Podman_Container
  imports Podman_Worker
begin

text \<open>
  \<open>ansible/module_utils/kolla_podman_worker.py\<close>, continued: the arguments a container is created
  with, images, volumes, and the life of a container. \<open>prepare_container_args\<close> works on the module's
  parameters in place (it pops keys and rewrites values), so it is a command on the state.
\<close>

section \<open>Volumes as mounts\<close>

definition wrong_volume :: "string \<Rightarrow> 'a outcome" where
  "wrong_volume item =
     fail_json [(''msg'', PStr (''Wrong format of volume: '' @ item)), (''failed'', PBool True)]"

definition bind_mount :: "string \<Rightarrow> string \<Rightarrow> string \<Rightarrow> pydict" where
  "bind_mount src dest mode =
     [(''source'', PStr src), (''target'', PStr dest), (''type'', PStr ''bind''),
      (''propagation'', PStr (if mode = ''shared'' then ''shared'' else ''rprivate''))]
     @ (if mode = ''ro'' then [(''read_only'', PBool True)] else [])"

text \<open>One volume of \<open>parse_volumes\<close>, after the empty ones are gone; the accumulator holds \<open>mounts\<close>
  and \<open>filtered_volumes\<close>. No mode is the empty one for a bind (\<open>None\<close>), \<open>rw\<close> for a volume.\<close>

definition parse_volume :: "string \<Rightarrow> pydict list \<times> pydict \<Rightarrow> (pydict list \<times> pydict) outcome" where
  "parse_volume item acc =
     (let bind = starts_with item ''/'';
          no_mode = (if bind then [] else ''rw'')
      in obind (case split_char (CHR '':'') item of
                  [src, dest, mode] \<Rightarrow> Ret (src, dest, mode)
                | [src, dest] \<Rightarrow> Ret (src, dest, no_mode)
                | _ \<Rightarrow> wrong_volume item) (\<lambda>(src, dest, mode).
           if bind then Ret (fst acc @ [bind_mount src dest mode], snd acc)
           else if src = ''devpts''
           then Ret (fst acc @ [[(''target'', PStr dest), (''type'', PStr ''devpts'')]], snd acc)
           else Ret (fst acc,
                  AList.update src (PDict [(''bind'', PStr dest), (''mode'', PStr mode)]) (snd acc))))"

definition as_string :: "pyval \<Rightarrow> string outcome" where
  "as_string v = (case v of PStr s \<Rightarrow> Ret s | _ \<Rightarrow> Raise AttributeError)"

definition parse_volumes :: "pyval \<Rightarrow> (pydict list \<times> pydict) outcome" where
  "parse_volumes volumes =
     obind (py_iter volumes) (\<lambda>vs.
     obind (omap as_string vs) (\<lambda>items.
       ofold parse_volume (filter (\<lambda>i. str_strip i \<noteq> []) items) ([], [])))"

section \<open>The arguments of a new container\<close>

definition set_param :: "string \<Rightarrow> pyval \<Rightarrow> ('w wstate, unit) cmd" where
  "set_param k v = modify (\<lambda>s. s\<lparr>w_params := AList.update k v (w_params s)\<rparr>)"

definition pop_param :: "string \<Rightarrow> ('w wstate, unit) cmd" where
  "pop_param k = modify (\<lambda>s. s\<lparr>w_params := AList.delete k (w_params s)\<rparr>)"

definition args_command :: "('w wstate, unit) cmd" where
  "args_command =
     bnd (gets (\<lambda>s. dget_or (w_params s) ''command'' (PStr []))) (\<lambda>command.
     seqc (pop_param ''command'')
     (bnd (lift (py_shlex_split command)) (\<lambda>ws. set_param ''command'' (PList (map PStr ws)))))"

definition args_volumes :: "pydict \<Rightarrow> ('w wstate, pydict) cmd" where
  "args_volumes args =
     bnd (gets (\<lambda>s. dget_or (w_params s) ''volumes'' (PList []))) (\<lambda>volumes.
     bnd (if truthy volumes
          then bnd (lift (parse_volumes volumes)) (\<lambda>r. seqc (pop_param ''volumes'') (ret r))
          else ret ([], [])) (\<lambda>(mounts, filtered_volumes).
       ret (dict_update args
              [(''mounts'', PList (map PDict mounts)), (''volumes'', PDict filtered_volumes)])))"

definition args_environment :: "('w wstate, unit) cmd" where
  "args_environment =
     bnd (param ''environment'') (\<lambda>environment.
       whenc (truthy environment)
         (bnd (lift (py_items environment)) (\<lambda>items.
            set_param ''environment'' (PDict (map (\<lambda>(k, v). (k, PStr (py_str v))) items)))))"

text \<open>\<open>args.update(None)\<close>, for a health check that is switched off, is a \<open>TypeError\<close>.\<close>

definition args_healthcheck :: "pydict \<Rightarrow> ('w wstate, pydict) cmd" where
  "args_healthcheck args =
     bnd (param ''healthcheck'') (\<lambda>healthcheck.
       if \<not> truthy healthcheck then ret args
       else bnd (lift (podman_parse_healthcheck healthcheck)) (\<lambda>hc.
            seqc (pop_param ''healthcheck'')
              (case hc of None \<Rightarrow> raise TypeError | Some d \<Rightarrow> ret (dict_update args d))))"

definition default_ulimits :: "string list" where
  "default_ulimits = [''RLIMIT_NOFILE'', ''RLIMIT_NPROC'']"

definition pop_default_ulimits :: "pyval \<Rightarrow> pydict outcome" where
  "pop_default_ulimits v =
     (case v of
        PDict d \<Rightarrow> Ret (fold AList.delete default_ulimits d)
      | PList xs \<Rightarrow> Raise TypeError
      | _ \<Rightarrow> Raise AttributeError)"

text \<open>\<open>parse_dimensions\<close> copies the dictionary, but not the one of the ulimits in it: the default
  limits leave the parameter as well. The result is the copy and the parameter afterwards.\<close>

definition podman_parse_dimensions :: "pyval \<Rightarrow> (pydict \<times> pyval) outcome" where
  "podman_parse_dimensions dims =
     obind (py_items dims) (\<lambda>dimensions.
       let unsupported = filter (\<lambda>k. k \<notin> set supported_dimensions) (map fst dimensions) in
       if unsupported \<noteq> []
       then unsupported_exit ''Unsupported dimensions'' ''unsupported_dimensions'' (map PStr unsupported)
       else if truthy (dget dimensions ''ulimits'')
       then obind (pop_default_ulimits (dget dimensions ''ulimits'')) (\<lambda>ulimits.
            obind (podman_build_ulimits (PDict ulimits)) (\<lambda>us.
              Ret (AList.update ''ulimits'' (PList us) dimensions,
                   PDict (AList.update ''ulimits'' (PDict ulimits) dimensions))))
       else Ret (dimensions, dims))"

definition args_dimensions :: "pydict \<Rightarrow> ('w wstate, pydict) cmd" where
  "args_dimensions args =
     bnd (param ''dimensions'') (\<lambda>dimensions.
       if \<not> truthy dimensions then ret args
       else bnd (lift (podman_parse_dimensions dimensions)) (\<lambda>(new, old).
            seqc (set_param ''dimensions'' old) (ret (dict_update args new))))"

definition args_cap_add :: "pydict \<Rightarrow> ('w wstate, pydict) cmd" where
  "args_cap_add args =
     bnd (gets (\<lambda>s. dget_or (w_params s) ''privileged'' (PBool False))) (\<lambda>privileged.
       if truthy privileged then ret args
       else bnd (gets (\<lambda>s. dget_or (w_params s) ''cap_add'' (PList []))) (\<lambda>cap_add.
            seqc (pop_param ''cap_add'')
              (case cap_add of
                 PList xs \<Rightarrow> ret (AList.update ''cap_add'' (PList (xs @ [PStr ''AUDIT_WRITE''])) args)
               | _ \<Rightarrow> raise TypeError)))"

definition CONTAINER_PARAMS :: "string list" where
  "CONTAINER_PARAMS =
    [''name'', ''cap_add'', ''cgroupns'', ''command'', ''cpu_period'', ''cpu_quota'', ''cpuset_cpus'',
     ''cpu_shares'', ''cpuset_mems'', ''kernel_memory'', ''mem_limit'', ''mem_reservation'',
     ''memswap_limit'', ''ulimits'', ''blkio_weight'', ''detach'', ''entrypoint'', ''environment'',
     ''healthcheck'', ''image'', ''ipc_mode'', ''labels'', ''netns'', ''network_options'', ''pid_mode'',
     ''privileged'', ''restart_policy'', ''remove'', ''restart_tries'', ''stop_timeout'', ''tty'',
     ''volumes'', ''volumes_from'']"

definition convert_keys :: "(string \<times> string) list" where
  "convert_keys = [(''graceful_timeout'', ''stop_timeout''), (''cgroupns_mode'', ''cgroupns'')]"

text \<open>The last part works on the parameters as they are by then, without changing them.\<close>

definition remap_args :: "pydict \<Rightarrow> pydict \<Rightarrow> pydict" where
  "remap_args p args =
     fold (\<lambda>(k, k') a. if dget p k \<noteq> PNone then AList.update k' (dget p k) a else a) convert_keys args"

definition record_args :: "pydict \<Rightarrow> pydict \<Rightarrow> pydict" where
  "record_args p args =
     dict_update args (filter (\<lambda>(k, v). k \<in> set CONTAINER_PARAMS \<and> v \<noteq> PNone) p)"

definition prepare_container_args :: "('w wstate, pydict) cmd" where
  "prepare_container_args =
     seqc args_command
     (bnd (args_volumes [(''network_mode'', PStr ''host'')]) (\<lambda>args1.
      seqc args_environment
      (bnd (args_healthcheck args1) (\<lambda>args2.
       bnd (args_dimensions args2) (\<lambda>args3.
       seqc (pop_param ''tmpfs'')
       (bnd (args_cap_add args3) (\<lambda>args4.
        bnd (gets w_params) (\<lambda>p.
          ret (AList.delete ''restart_policy'' (record_args p (remap_args p args4)))))))))))"

section \<open>Images\<close>

definition prepare_image_args :: "pydict \<Rightarrow> pydict outcome" where
  "prepare_image_args p =
     obind (parse_image p) (\<lambda>(image, tag).
       let args = [(''repository'', PStr image), (''tag'', PStr tag),
                   (''tls_verify'', dget_or p ''tls_verify'' (PBool False)), (''stream'', PBool False)];
           args1 = (if truthy (dget p ''auth_username'')
                    then args @ [(''auth_config'', PDict [(''username'', dget p ''auth_username''),
                                   (''password'', dget_or p ''auth_password'' (PStr []))])]
                    else args)
       in if CHR ''/'' \<notin> set image \<and> truthy (dget p ''auth_registry'')
          then (case dget p ''auth_registry'' of
                  PStr r \<Rightarrow> Ret (args1 @ [(''image'', PStr (r @ ''/'' @ image))])
                | _ \<Rightarrow> Raise TypeError)
          else Ret args1)"

definition podman_pull_image :: "'w podman \<Rightarrow> ('w wstate, unit) cmd" where
  "podman_pull_image P =
     bnd (with_params prepare_image_args) (\<lambda>args.
     bnd (podman_check_image P) (\<lambda>old_image.
       catch_api
         (bnd (on_engine (pd_images_pull (pm_client P) args)) (\<lambda>attrs.
            if attrs = []
            then bnd (with_params (\<lambda>p. py_item (PDict p) ''image'')) (\<lambda>img.
                   lift (fail_json [(''msg'', PStr (''The requested image does not exist: '' @ py_str img)),
                                    (''failed'', PBool True)]))
            else set_changed (\<not> py_eq old_image (PDict attrs))))
         (\<lambda>st cl tx. lift (fail_json
            [(''msg'', PStr (''Unknown error message: '' @ pd_str_error (pm_client P) st tx)),
             (''failed'', PBool True)]))))"

definition podman_ensure_image :: "'w podman \<Rightarrow> ('w wstate, unit) cmd" where
  "podman_ensure_image P =
     bnd (podman_check_image P) (\<lambda>img. whenc (\<not> truthy img) (podman_pull_image P))"

definition in_use_error :: "string \<Rightarrow> pyval \<Rightarrow> 'a outcome" where
  "in_use_error kind name =
     fail_json [(''failed'', PBool True),
       (''msg'', PStr (kind @ [CHR 0x27] @ py_str name @ [CHR 0x27] @ '' is currently in-use''))]"

definition podman_remove_image :: "'w podman \<Rightarrow> ('w wstate, unit) cmd" where
  "podman_remove_image P =
     bnd (podman_check_image P) (\<lambda>img.
       whenc (truthy img)
         (bnd (with_params (\<lambda>p. py_item (PDict p) ''image'')) (\<lambda>name.
          bnd (on_engine (pd_images_get (pm_client P) name)) (\<lambda>attrs.
          seqc (set_changed True)
            (catch_api (on_engine (pd_image_remove (pm_client P) attrs))
               (\<lambda>st cl tx.
                  if st = 409 then lift (in_use_error ''Image '' name)
                  else lift (internal_error (pd_str_error (pm_client P) st tx))))))))"

section \<open>Volumes\<close>

definition podman_create_volume :: "'w podman \<Rightarrow> ('w wstate, unit) cmd" where
  "podman_create_volume P =
     bnd (podman_check_volume P) (\<lambda>vol.
       whenc (\<not> truthy vol)
         (seqc (set_changed True)
         (bnd (param ''name'') (\<lambda>name.
          bnd (on_engine (pd_volumes_create (pm_client P) [(''name'', name), (''driver'', PStr ''local'')]))
            (\<lambda>attrs. modify (\<lambda>s. s\<lparr>w_result := attrs\<rparr>))))))"

definition podman_remove_volume :: "'w podman \<Rightarrow> ('w wstate, unit) cmd" where
  "podman_remove_volume P =
     bnd (podman_check_volume P) (\<lambda>vol.
       whenc (truthy vol)
         (seqc (set_changed True)
         (bnd (param ''name'') (\<lambda>name.
           catch_api (on_engine (pd_volumes_remove (pm_client P) name))
             (\<lambda>st cl explanation.
                if st = 409 then lift (in_use_error ''Volume named '' name)
                else lift (internal_error explanation))))))"

section \<open>The life of a container\<close>

definition podman_do_remove :: "'w podman \<Rightarrow> podman_container \<Rightarrow> ('w wstate, unit) cmd" where
  "podman_do_remove P c =
     catch_api (on_engine (pd_remove (pm_client P) c))
       (\<lambda>st cl tx. bnd (podman_check_container P) (\<lambda>c'.
          if c' \<noteq> None then raise (APIError st cl tx) else ret ()))"

definition podman_remove_container :: "'w podman \<Rightarrow> ('w wstate, unit) cmd" where
  "podman_remove_container P =
     bnd (podman_unit P remove_unit_file) (\<lambda>removed.
     seqc (or_changed removed)
     (bnd (podman_check_container P) (\<lambda>container.
       case container of
         None \<Rightarrow> ret ()
       | Some c \<Rightarrow> podman_do_remove P c)))"

definition fail_creation :: "pyval \<Rightarrow> 'a outcome" where
  "fail_creation v =
     (case v of
        PDict d \<Rightarrow>
          if has_key d ''failed'' \<or> has_key d ''msg'' then Raise TypeError
          else fail_json ((''failed'', PBool True) # (''msg'', PStr ''Creation failed'') # d)
      | _ \<Rightarrow> Raise TypeError)"

definition podman_create_container :: "'w podman \<Rightarrow> ('w wstate, podman_container) cmd" where
  "podman_create_container P =
     bnd prepare_container_args (\<lambda>args.
     bnd (on_engine (pd_create (pm_client P) args)) (\<lambda>container.
       seqc (if pc_attrs container = []
             then bnd (lift (pd_to_dict (pm_client P) container)) (\<lambda>data. lift (fail_creation data))
             else bnd (podman_unit P create_unit_file) or_changed)
         (ret container)))"

definition podman_stop_container :: "'w podman \<Rightarrow> ('w wstate, unit) cmd" where
  "podman_stop_container P =
     bnd (param ''name'') (\<lambda>name.
     bnd graceful_timeout (\<lambda>timeout.
     bnd (podman_check_container P) (\<lambda>container.
       case container of
         None \<Rightarrow>
           bnd (param ''ignore_missing'') (\<lambda>ignore_missing.
             whenc (\<not> truthy ignore_missing)
               (lift (fail_json (no_such_container name '' to stop''))))
       | Some c \<Rightarrow>
           whenc (\<not> (pc_status c = PStr ''exited'' \<or> pc_status c = PStr ''stopped''))
             (seqc (set_changed True)
             (bnd oneshot (\<lambda>once.
                if \<not> once
                then seqc (podman_unit P create_unit_file) (seqc (podman_unit P systemd_stop) (ret ()))
                else on_engine (pd_stop (pm_client P) c (py_str timeout))))))))"

definition podman_stop_and_remove_container :: "'w podman \<Rightarrow> ('w wstate, unit) cmd" where
  "podman_stop_and_remove_container P =
     bnd (podman_check_container P) (\<lambda>container.
       whenc (container \<noteq> None) (seqc (podman_stop_container P) (podman_remove_container P)))"

text \<open>An attribute of what \<open>check_container\<close> returned; of \<open>None\<close> it is an \<open>AttributeError\<close>.\<close>

definition of_container :: "(podman_container \<Rightarrow> ('w wstate, 'a) cmd) \<Rightarrow> podman_container option \<Rightarrow> ('w wstate, 'a) cmd" where
  "of_container f container = (case container of None \<Rightarrow> raise AttributeError | Some c \<Rightarrow> f c)"

definition podman_bring_up :: "'w podman \<Rightarrow> podman_container \<Rightarrow> ('w wstate, unit) cmd" where
  "podman_bring_up P container =
     whenc (pc_status container \<noteq> PStr ''running'')
       (seqc (set_changed True)
       (bnd oneshot (\<lambda>once.
          if once
          then bnd (podman_check_container P) (of_container (\<lambda>c. on_engine (pd_start (pm_client P) c)))
          else seqc (podman_unit P create_unit_file)
            (bnd (podman_unit P systemd_start) (\<lambda>started.
               whenc (\<not> started)
                 (bnd (podman_check_container P) (of_container (\<lambda>c.
                    lift (fail_changed ''Container timed out'' (PDict (pc_attrs c)))))))))))"

definition podman_wait_for_exit :: "'w podman \<Rightarrow> ('w wstate, unit) cmd" where
  "podman_wait_for_exit P =
     bnd (podman_check_container P) (of_container (\<lambda>c.
     bnd (on_engine (pd_wait (pm_client P) c)) (\<lambda>rc.
     bnd (on_engine (pd_logs (pm_client P) c True False)) (\<lambda>out.
     bnd (on_engine (pd_logs (pm_client P) c False True)) (\<lambda>err.
     seqc (set_result ''rc'' rc)
     (seqc (set_result ''stdout'' (PStr (join_with [nl] out)))
     (seqc (set_result ''stderr'' (PStr (join_with [nl] err)))
     (bnd (param ''remove_on_exit'') (\<lambda>remove_on_exit.
      seqc (whenc (truthy remove_on_exit)
             (seqc (podman_stop_container P) (podman_remove_container P)))
      (whenc (\<not> py_eq rc (PInt 0))
        (bnd (gets w_result) (\<lambda>result. lift (fail_changed (exit_code_msg rc) (PDict result))))))))))))))"

definition podman_ensure_container :: "'w podman \<Rightarrow> ('w wstate, podman_container option) cmd" where
  "podman_ensure_container P =
     seqc (podman_ensure_image P)
     (bnd (podman_check_container P) (\<lambda>container0.
      bnd (if container0 \<noteq> None then check_container_differs (podman_ops P) else ret False) (\<lambda>differs.
      bnd (if differs
           then seqc (podman_stop_container P) (seqc (podman_remove_container P) (podman_check_container P))
           else ret container0) (\<lambda>container1.
        if container1 = None
        then seqc (podman_create_container P) (podman_check_container P)
        else ret container1))))"

definition podman_start_container :: "'w podman \<Rightarrow> ('w wstate, unit) cmd" where
  "podman_start_container P =
     bnd (podman_ensure_container P) (of_container (\<lambda>container.
     seqc (podman_bring_up P container)
     (bnd (param ''detach'') (\<lambda>detach.
        whenc (\<not> truthy detach) (podman_wait_for_exit P)))))"

definition podman_restart_container :: "'w podman \<Rightarrow> ('w wstate, unit) cmd" where
  "podman_restart_container P =
     bnd (podman_check_container P) (\<lambda>container.
       case container of
         None \<Rightarrow> bnd (param ''name'') (\<lambda>name. lift (fail_json (no_such_container name [])))
       | Some c \<Rightarrow>
           seqc (set_changed True)
           (seqc (podman_unit P create_unit_file)
           (bnd (podman_unit P systemd_restart) (\<lambda>restarted.
              whenc (\<not> restarted)
                (lift (fail_changed ''Container timed out'' (PDict (pc_attrs c))))))))"

definition podman_recreate :: "'w podman \<Rightarrow> ('w wstate, unit) cmd" where
  "podman_recreate P =
     seqc (podman_ensure_image P)
     (seqc (podman_stop_container P)
     (seqc (podman_remove_container P)
           (podman_start_container P)))"

definition podman_recreate_or_restart_container :: "'w podman \<Rightarrow> ('w wstate, unit) cmd" where
  "podman_recreate_or_restart_container P =
     bnd (with_params (\<lambda>p. py_get (dget_or p ''environment'' (PDict [])) ''KOLLA_CONFIG_STRATEGY'')) (\<lambda>strategy.
     bnd (podman_get_container_info P) (\<lambda>container.
       if \<not> truthy container then podman_start_container P
       else bnd (if strategy = PStr ''COPY_ONCE'' then ret True
                 else check_container_differs (podman_ops P)) (\<lambda>recreate.
         if recreate then podman_recreate P
         else whenc (strategy = PStr ''COPY_ALWAYS'') (podman_recreate P))))"

section \<open>Volumes: what parse_volumes makes of them\<close>

text \<open>The volumes kolla uses: a path of the host, a named volume, the devpts file system.\<close>

datatype pod_volume =
    BindPath string string "string option"
  | NamedVolume string string "string option"
  | Devpts string

definition with_mode :: "string \<Rightarrow> string option \<Rightarrow> string" where
  "with_mode s m = (case m of None \<Rightarrow> s | Some k \<Rightarrow> s @ '':'' @ k)"

fun pod_text :: "pod_volume \<Rightarrow> string" where
  "pod_text (BindPath a b m) = with_mode (a @ '':'' @ b) m"
| "pod_text (NamedVolume a b m) = with_mode (a @ '':'' @ b) m"
| "pod_text (Devpts b) = ''devpts:'' @ b"

definition no_colon :: "string \<Rightarrow> bool" where
  "no_colon s \<longleftrightarrow> CHR '':'' \<notin> set s"

fun pod_ok :: "pod_volume \<Rightarrow> bool" where
  "pod_ok (BindPath a b m) = (starts_with a ''/'' \<and> no_colon a \<and> no_colon b \<and> (\<forall>k \<in> set_option m. no_colon k))"
| "pod_ok (NamedVolume a b m) = (a \<noteq> [] \<and> hd a \<noteq> CHR ''/'' \<and> a \<noteq> ''devpts'' \<and> no_colon a \<and> no_colon b
     \<and> (\<forall>k \<in> set_option m. no_colon k))"
| "pod_ok (Devpts b) = no_colon b"

fun pod_mounts :: "pod_volume \<Rightarrow> pydict list" where
  "pod_mounts (BindPath a b m) = [bind_mount a b (case m of None \<Rightarrow> [] | Some k \<Rightarrow> k)]"
| "pod_mounts (NamedVolume a b m) = []"
| "pod_mounts (Devpts b) = [[(''target'', PStr b), (''type'', PStr ''devpts'')]]"

fun pod_named :: "pod_volume \<Rightarrow> pydict" where
  "pod_named (NamedVolume a b m) =
     [(a, PDict [(''bind'', PStr b), (''mode'', PStr (case m of None \<Rightarrow> ''rw'' | Some k \<Rightarrow> k))])]"
| "pod_named _ = []"

lemma starts_slash: "starts_with s ''/'' \<longleftrightarrow> s \<noteq> [] \<and> hd s = CHR ''/''"
  by (cases s) (auto simp: starts_with_def)

lemma parse_volume_ok:
  "pod_ok v \<Longrightarrow> parse_volume (pod_text v) acc = Ret (fst acc @ pod_mounts v, dict_update (snd acc) (pod_named v))"
  by (cases v) (auto simp: parse_volume_def Let_def with_mode_def no_colon_def starts_slash dict_update_def
      split: option.splits)

lemma parse_volumes_fold:
  "\<forall>v \<in> set vs. pod_ok v \<Longrightarrow>
    ofold parse_volume (map pod_text vs) acc
      = Ret (fst acc @ concat (map pod_mounts vs), dict_update (snd acc) (concat (map pod_named vs)))"
proof (induction vs arbitrary: acc)
  case Nil
  then show ?case by (simp add: dict_update_def)
next
  case (Cons v vs)
  then show ?case by (simp add: parse_volume_ok) (simp add: dict_update_def)
qed

lemma str_strip_blank: "str_strip s = [] \<longleftrightarrow> (\<forall>c \<in> set s. is_space c)"
proof -
  have "\<exists>c \<in> set (dropWhile is_space s). \<not> is_space c" if "dropWhile is_space s \<noteq> []"
    using hd_dropWhile [OF that] hd_in_set [OF that] by blast
  then show ?thesis
    by (auto simp: str_strip_def dropWhile_eq_Nil_conv dest: set_dropWhileD)
qed

lemma pod_text_not_blank: "pod_ok v \<Longrightarrow> str_strip (pod_text v) \<noteq> []"
proof -
  have c: "\<not> is_space (CHR '':'')" by (simp add: is_space_def code_of_def)
  have "CHR '':'' \<in> set (pod_text v)"
    by (cases v) (auto simp: with_mode_def split: option.splits)
  with c show ?thesis by (auto simp: str_strip_blank)
qed

lemma parse_volume_bad:
  assumes "length (split_char (CHR '':'') bad) \<notin> {2, 3}"
  shows "parse_volume bad acc = wrong_volume bad"
proof -
  have "(case split_char (CHR '':'') bad of [src, dest, mode] \<Rightarrow> Ret (src, dest, mode)
      | [src, dest] \<Rightarrow> Ret (src, dest, m) | _ \<Rightarrow> wrong_volume bad) = wrong_volume bad" for m
    using assms by (auto split: list.splits)
  then show ?thesis by (simp add: parse_volume_def Let_def wrong_volume_def fail_json_def)
qed

lemma parse_volumes_list:
  "parse_volumes (PList (map PStr items)) = ofold parse_volume (filter (\<lambda>i. str_strip i \<noteq> []) items) ([], [])"
proof -
  have "omap as_string (map PStr items) = Ret items"
    by (induction items) (simp_all add: as_string_def)
  then show ?thesis by (simp add: parse_volumes_def)
qed

text \<open>\<open>parse_volumes\<close> of the Podman worker turns every host path into a bind mount (read-only for \<open>ro\<close>,
  shared propagation for \<open>shared\<close>), \<open>devpts\<close> into a devpts mount, and every other volume into a
  named one (read-write without a mode), keeping the order and ignoring blank entries; an entry
  that has not two or three parts ends the module as failed.\<close>

theorem parse_volumes_spec:
  assumes "\<forall>v \<in> set vs. pod_ok v" and "\<forall>b \<in> set blanks. str_strip b = []"
  shows "parse_volumes (PList (map PStr (blanks @ map pod_text vs)))
      = Ret (concat (map pod_mounts vs), dict_update [] (concat (map pod_named vs)))
    \<and> (str_strip bad \<noteq> [] \<and> length (split_char (CHR '':'') bad) \<notin> {2, 3} \<longrightarrow>
        parse_volumes (PList (map PStr (blanks @ map pod_text vs @ [bad]))) = wrong_volume bad)"
proof -
  have 1: "filter (\<lambda>i. str_strip i \<noteq> []) (map pod_text vs) = map pod_text vs"
    using assms(1) pod_text_not_blank by (simp add: filter_id_conv)
  have 2: "filter (\<lambda>i. str_strip i \<noteq> []) blanks = []"
    using assms(2) by (simp add: filter_empty_conv)
  show ?thesis
    unfolding parse_volumes_list filter_append 1 2
    using parse_volumes_fold [OF assms(1), of "([], [])"] parse_volume_bad [of bad]
    by (simp add: ofold_append wrong_volume_def fail_json_def del: ofold.simps(2))
       (simp add: wrong_volume_def fail_json_def)
qed

section \<open>What a container is created with\<close>

text \<open>\<open>d\<close> and \<open>e\<close> agree outside the keys \<open>K\<close>.\<close>

definition same_but :: "string set \<Rightarrow> pydict \<Rightarrow> pydict \<Rightarrow> bool" where
  "same_but K d e \<longleftrightarrow> (\<forall>k. k \<notin> K \<longrightarrow> map_of e k = map_of d k) \<and> (wf_dict d \<longrightarrow> wf_dict e)"

lemma same_but_refl [simp]: "same_but K d d"
  by (simp add: same_but_def)

lemma same_but_update: "k \<in> K \<Longrightarrow> same_but K d (AList.update k v d)"
  by (auto simp: same_but_def)

lemma same_but_delete: "k \<in> K \<Longrightarrow> same_but K d (AList.delete k d)"
  by (auto simp: same_but_def)

lemma same_but_dict_update: "fst ` set e \<subseteq> K \<Longrightarrow> same_but K d (dict_update d e)"
  by (auto simp: same_but_def intro!: map_of_dict_update_other)

lemma same_but_trans: "same_but K d e \<Longrightarrow> same_but L e f \<Longrightarrow> same_but (K \<union> L) d f"
  by (simp add: same_but_def)

text \<open>A step that touches nothing but the parameters \<open>K\<close>.\<close>

definition params_step :: "string set \<Rightarrow> 'w wstate \<Rightarrow> 'w wstate \<Rightarrow> bool" where
  "params_step K s t \<longleftrightarrow> same_but K (w_params s) (w_params t)
     \<and> w_changed t = w_changed s \<and> w_result t = w_result s \<and> w_host t = w_host s"

lemma args_command_step: "args_command s = (Ret (), t) \<Longrightarrow> params_step {''command''} s t"
  by (auto simp: args_command_def returns_simps set_param_def pop_param_def params_step_def same_but_def)

lemma args_volumes_step:
  "args_volumes a s = (Ret a', t) \<Longrightarrow> params_step {''volumes''} s t \<and> same_but {''mounts'', ''volumes''} a a'"
  by (auto simp: args_volumes_def returns_simps pop_param_def params_step_def
      intro!: same_but_delete same_but_dict_update split: if_splits)

lemma args_environment_step:
  assumes "args_environment s = (Ret (), t)"
  shows "params_step {''environment''} s t"
    and "map_of (w_params t) ''environment'' = Some (PDict env) \<Longrightarrow> \<forall>(k, v) \<in> set env. \<exists>x. v = PStr x"
proof -
  have t: "t = s \<and> \<not> truthy (dget (w_params s) ''environment'')
    \<or> (\<exists>items. t = s\<lparr>w_params := AList.update ''environment'' (PDict (map (\<lambda>(k, v). (k, PStr (py_str v))) items))
            (w_params s)\<rparr>)"
    using assms by (auto simp: args_environment_def returns_simps set_param_def param_def split: if_splits)
  then show "params_step {''environment''} s t"
    by (auto simp: params_step_def intro!: same_but_update)
  show "map_of (w_params t) ''environment'' = Some (PDict env) \<Longrightarrow> \<forall>(k, v) \<in> set env. \<exists>x. v = PStr x"
    using t by (auto simp: dget_def dget_or_def)
qed

lemma podman_parse_healthcheck_keys:
  "podman_parse_healthcheck v = Ret (Some d) \<Longrightarrow> fst ` set d \<subseteq> {''healthcheck''}"
  by (auto simp: podman_parse_healthcheck_def parse_healthcheck_def Let_def unsupported_exit_def
      split: if_splits option.splits)

lemma args_healthcheck_step:
  "args_healthcheck a s = (Ret a', t) \<Longrightarrow> params_step {''healthcheck''} s t \<and> same_but {''healthcheck''} a a'"
  using podman_parse_healthcheck_keys
  by (fastforce simp: args_healthcheck_def returns_simps pop_param_def params_step_def param_def
      intro!: same_but_delete same_but_dict_update split: if_splits option.splits)

lemma podman_parse_dimensions_keys:
  "podman_parse_dimensions v = Ret (new, old) \<Longrightarrow> fst ` set new \<subseteq> set supported_dimensions"
proof -
  assume a: "podman_parse_dimensions v = Ret (new, old)"
  then obtain d where d: "py_items v = Ret d" by (auto simp: podman_parse_dimensions_def)
  have u: "''ulimits'' \<in> set supported_dimensions" by (simp add: supported_dimensions_def)
  have k: "fst ` set d \<subseteq> set supported_dimensions"
    using a d by (auto simp: podman_parse_dimensions_def unsupported_exit_def filter_empty_conv Let_def split: if_splits)
  have n: "new = d \<or> (\<exists>us. new = AList.update ''ulimits'' us d)"
    using a d by (auto simp: podman_parse_dimensions_def unsupported_exit_def Let_def split: if_splits)
  have "fst ` set (AList.update ''ulimits'' us d) = insert ''ulimits'' (fst ` set d)" for us
    by (induction d) auto
  then have "fst ` set (AList.update ''ulimits'' us d) \<subseteq> set supported_dimensions" for us
    using k u by simp
  with n k show ?thesis by (elim disjE exE) simp_all
qed

lemma args_dimensions_step:
  "args_dimensions a s = (Ret a', t) \<Longrightarrow>
    params_step {''dimensions''} s t \<and> same_but (set supported_dimensions) a a'"
  using podman_parse_dimensions_keys
  by (fastforce simp: args_dimensions_def returns_simps set_param_def params_step_def param_def
      intro!: same_but_update same_but_dict_update split: if_splits)

lemma args_cap_add_step:
  assumes "args_cap_add a s = (Ret a', t)"
  shows "params_step {''cap_add''} s t" and "same_but {''cap_add''} a a'"
    and "\<not> truthy (dget (w_params s) ''privileged'') \<Longrightarrow>
      \<exists>xs. dget_or (w_params s) ''cap_add'' (PList []) = PList xs
        \<and> map_of a' ''cap_add'' = Some (PList (xs @ [PStr ''AUDIT_WRITE'']))
        \<and> map_of (w_params t) ''cap_add'' = None"
  using assms
  by (auto simp: args_cap_add_def returns_simps pop_param_def params_step_def dget_or_def dget_def
      intro!: same_but_delete same_but_update split: if_splits pyval.splits option.splits)

lemma map_of_filter_wf:
  "wf_dict d \<Longrightarrow> map_of (filter (\<lambda>(k, v). P k v) d) k
    = (case map_of d k of Some v \<Rightarrow> if P k v then Some v else None | None \<Rightarrow> None)"
proof (induction d)
  case (Cons kv d)
  obtain a b where "kv = (a, b)" by (cases kv)
  with Cons show ?case by (auto simp: map_of_eq_None_iff [THEN iffD2] split: option.splits)
qed simp

lemma wf_dict_filter: "wf_dict d \<Longrightarrow> wf_dict (filter P d)"
  by (induction d) auto

lemma map_of_record_args:
  "wf_dict p \<Longrightarrow> map_of (record_args p b) k
    = (case map_of p k of
         Some v \<Rightarrow> if k \<in> set CONTAINER_PARAMS \<and> v \<noteq> PNone then Some v else map_of b k
       | None \<Rightarrow> map_of b k)"
  unfolding record_args_def
  by (subst map_of_dict_update) (auto simp: wf_dict_filter map_of_filter_wf split: option.splits)

lemma map_of_remap_args:
  "k \<noteq> ''stop_timeout'' \<Longrightarrow> k \<noteq> ''cgroupns'' \<Longrightarrow> map_of (remap_args p b) k = map_of b k"
  by (simp add: remap_args_def convert_keys_def)

text \<open>C16: When \<open>prepare_container_args\<close> succeeds, the container will be on the host's network, keep every
  capability requested plus \<open>AUDIT_WRITE\<close> unless it is privileged, get an environment whose values
  are all strings, and no restart policy (systemd restarts it); the parameters that the worker has
  left are the requested ones but for the six it consumes or rewrites, and nothing else of the
  state has changed.\<close>

theorem prepare_container_args_safe:
  assumes "prepare_container_args s = (Ret args, t)" and "wf_dict (w_params s)"
  shows "map_of args ''network_mode'' = Some (PStr ''host'')
    \<and> map_of args ''restart_policy'' = None
    \<and> (\<forall>env. map_of args ''environment'' = Some (PDict env) \<longrightarrow> (\<forall>(k, v) \<in> set env. \<exists>x. v = PStr x))
    \<and> (\<not> truthy (dget (w_params s) ''privileged'') \<longrightarrow>
        (\<exists>xs. dget_or (w_params s) ''cap_add'' (PList []) = PList xs
           \<and> map_of args ''cap_add'' = Some (PList (xs @ [PStr ''AUDIT_WRITE'']))))
    \<and> same_but {''command'', ''volumes'', ''environment'', ''healthcheck'', ''dimensions'', ''tmpfs'', ''cap_add''}
        (w_params s) (w_params t)
    \<and> w_changed t = w_changed s \<and> w_result t = w_result s \<and> w_host t = w_host s"
proof -
  let ?a0 = "[(''network_mode'', PStr ''host'')]"
  obtain s1 s2 a1 s3 s4 a2 s5 a3 a4 where
    1: "args_command s = (Ret (), s1)" and
    2: "args_volumes ?a0 s1 = (Ret a1, s2)" and
    3: "args_environment s2 = (Ret (), s3)" and
    4: "args_healthcheck a1 s3 = (Ret a2, s4)" and
    5: "args_dimensions a2 s4 = (Ret a3, s5)" and
    6: "args_cap_add a3 (s5\<lparr>w_params := AList.delete ''tmpfs'' (w_params s5)\<rparr>) = (Ret a4, t)" and
    a: "args = AList.delete ''restart_policy'' (record_args (w_params t) (remap_args (w_params t) a4))"
    using assms(1) by (auto simp: prepare_container_args_def returns_simps pop_param_def)
  let ?s6 = "s5\<lparr>w_params := AList.delete ''tmpfs'' (w_params s5)\<rparr>"
  have p: "params_step {''command''} s s1" "params_step {''volumes''} s1 s2" "params_step {''environment''} s2 s3"
    "params_step {''healthcheck''} s3 s4" "params_step {''dimensions''} s4 s5" "params_step {''tmpfs''} s5 ?s6"
    "params_step {''cap_add''} ?s6 t"
    using args_command_step [OF 1] args_volumes_step [OF 2] args_environment_step(1) [OF 3]
      args_healthcheck_step [OF 4] args_dimensions_step [OF 5] args_cap_add_step(1) [OF 6]
    by (simp_all add: params_step_def same_but_delete)
  have same: "same_but {''command'', ''volumes'', ''environment'', ''healthcheck'', ''dimensions'', ''tmpfs'', ''cap_add''}
      (w_params s) (w_params t)"
    using p unfolding params_step_def by (auto simp: same_but_def)
  have rest: "w_changed t = w_changed s \<and> w_result t = w_result s \<and> w_host t = w_host s"
    using p unfolding params_step_def by simp
  have wf: "wf_dict (w_params t)" using same assms(2) by (simp add: same_but_def)
  have args: "map_of args k = (case map_of (w_params t) k of
      Some v \<Rightarrow> if k \<in> set CONTAINER_PARAMS \<and> v \<noteq> PNone then Some v else map_of a4 k
    | None \<Rightarrow> map_of a4 k)" if "k \<noteq> ''stop_timeout''" "k \<noteq> ''cgroupns''" "k \<noteq> ''restart_policy''" for k
    using that a map_of_record_args [OF wf] map_of_remap_args by (simp split: option.splits)
  have a4: "map_of a4 k = map_of ?a0 k"
    if "k \<notin> {''mounts'', ''volumes'', ''healthcheck'', ''cap_add''} \<union> set supported_dimensions" for k
    using that args_volumes_step [OF 2] args_healthcheck_step [OF 4] args_dimensions_step [OF 5]
      args_cap_add_step(2) [OF 6] by (simp add: same_but_def)
  have net: "map_of args ''network_mode'' = Some (PStr ''host'')"
    using args [of "''network_mode''"] a4 [of "''network_mode''"]
    by (simp add: CONTAINER_PARAMS_def supported_dimensions_def split: option.splits)
  have "map_of (w_params t) ''environment'' = map_of (w_params s3) ''environment''"
    using p(4-7) by (simp add: params_step_def same_but_def)
  then have env: "\<forall>(k, v) \<in> set env. \<exists>x. v = PStr x" if "map_of args ''environment'' = Some (PDict env)" for env
    using that args [of "''environment''"] a4 [of "''environment''"] args_environment_step(2) [OF 3]
    by (simp add: supported_dimensions_def split: option.splits if_splits)
  have "dget (w_params ?s6) ''privileged'' = dget (w_params s) ''privileged''"
    and "dget_or (w_params ?s6) ''cap_add'' d = dget_or (w_params s) ''cap_add'' d" for d
    using p(1-6) by (simp_all add: params_step_def same_but_def dget_def dget_or_def)
  then have cap: "\<exists>xs. dget_or (w_params s) ''cap_add'' (PList []) = PList xs
      \<and> map_of args ''cap_add'' = Some (PList (xs @ [PStr ''AUDIT_WRITE'']))"
    if "\<not> truthy (dget (w_params s) ''privileged'')"
    using that args [of "''cap_add''"] args_cap_add_step(3) [OF 6] by (simp split: option.splits)
  have "map_of args ''restart_policy'' = None" using a by simp
  with net env cap same rest show ?thesis by blast
qed

section \<open>Removing and recreating\<close>

text \<open>\<open>remove_container\<close> of the Podman worker leaves no unit file behind and touches no other, and returns
  only when there was no container, when the engine removed it, or when it is gone in spite of an
  API error. But \<open>changed\<close> tells only whether there was a unit file: removing a container that has
  none is not reported as a change (the Docker worker reports it).\<close>

theorem podman_remove_container_post:
  assumes "podman_remove_container P s = (Ret (), t)" and "pm_unit P = Some c"
  shows "unit_files (w_host t) = (unit_files (w_host s))(unit_path c := None)
    \<and> (w_changed t \<longleftrightarrow> w_changed s \<or> unit_files (w_host s) (unit_path c) \<noteq> None)
    \<and> (\<exists>k u v. podman_check_container P u = (Ret k, v)
        \<and> (k = None \<and> t = v
           \<or> (\<exists>x. k = Some x \<and> on_engine (pd_remove (pm_client P) x) v = (Ret (), t))
           \<or> (\<exists>w. podman_check_container P w = (Ret None, t))))"
proof -
  obtain b h1 k v where r: "remove_unit_file (pm_systemd P) c (w_host s) = (Ret b, h1)"
    and k: "podman_check_container P (s\<lparr>w_host := h1, w_changed := w_changed s \<or> b\<rparr>) = (Ret k, v)"
    and t: "(case k of None \<Rightarrow> ret () | Some x \<Rightarrow> podman_do_remove P x) v = (Ret (), t)"
    using assms
    by (auto simp: podman_remove_container_def podman_unit_def with_unit_def bnd_returns seqc_returns
        on_host_def zoom_returns or_changed_def)
  have v: "local_state v = (w_params s, w_changed s \<or> b, w_result s, unit_files h1)"
    using keepsD [OF podman_local.keeps_check_container k] by (simp add: local_state_def)
  have t': "k = None \<and> t = v
       \<or> (\<exists>x. k = Some x \<and> on_engine (pd_remove (pm_client P) x) v = (Ret (), t))
       \<or> (\<exists>w. podman_check_container P w = (Ret None, t))"
    using t by (auto simp: podman_do_remove_def catch_api_returns bnd_returns split: if_splits option.splits)
  have d: "keeps local_state (podman_do_remove P x)" for x
    unfolding podman_do_remove_def by (intro frame podman_local.keeps_check_container)
  have "local_state t = local_state v"
  proof (cases k)
    case None
    with t show ?thesis by simp
  next
    case (Some x)
    with t keepsD [OF d, of x v] show ?thesis by simp
  qed
  with v have l: "w_changed t = (w_changed s \<or> b)" "unit_files (w_host t) = unit_files h1"
    by (simp_all add: local_state_def)
  show ?thesis
    using l remove_unit_file_returns(1,2) [OF r] k t' by auto
qed

lemma keeps_ensure_image_files: "keeps (\<lambda>s. unit_files (w_host s)) (podman_ensure_image P)"
proof -
  have i: "keeps (\<lambda>s. unit_files (w_host s)) (podman_check_image P)"
    unfolding podman_check_image_def by (intro frame keeps_engine_files)
  have c: "keeps (\<lambda>s. unit_files (w_host s)) (set_changed b)" for b
    unfolding set_changed_def by (rule keeps_modify) simp
  show ?thesis
    unfolding podman_ensure_image_def podman_pull_image_def by (intro frame keeps_engine_files i c)
qed

text \<open>The Podman worker recreates a container for both configuration strategies and for any difference,
  and it makes sure of the image first: when that fails, the handler ends with the failure and the
  container has not been stopped; the unit files, and every part of the machine that the lookups
  and the pull keep, are as they were.\<close>

theorem podman_recreate_image_first:
  assumes "dget_or (w_params s) ''environment'' (PDict []) = PDict env"
    and "dget env ''KOLLA_CONFIG_STRATEGY'' = PStr strategy"
    and "podman_get_container_info P s = (Ret info, s1)" and "truthy info"
    and "(if strategy = ''COPY_ONCE'' then ret True else check_container_differs (podman_ops P)) s1 = (Ret b, s2)"
    and "b \<or> strategy = ''COPY_ALWAYS''"
  shows "podman_recreate_or_restart_container P s = podman_recreate P s2
    \<and> local_state s2 = local_state s
    \<and> (podman_ensure_image P s2 = (r, s3) \<and> r \<noteq> Ret () \<longrightarrow>
        podman_recreate_or_restart_container P s = (r, s3)
        \<and> unit_files (w_host s3) = unit_files (w_host s)
        \<and> (keeps_lookups u (pm_client P) \<and> keeps u (podman_ensure_image P) \<longrightarrow> u s3 = u s))"
proof -
  have run: "podman_recreate_or_restart_container P s = podman_recreate P s2"
    using assms by (cases b)
      (auto simp: podman_recreate_or_restart_container_def with_params_def py_get_def bnd_def dget_def [symmetric])
  have l: "local_state s2 = local_state s"
  proof (cases "strategy = ''COPY_ONCE''")
    case True
    with assms(5) keepsD [OF podman_local.keeps_get_container_info assms(3)] show ?thesis by simp
  next
    case False
    with assms(5) have "check_container_differs (podman_ops P) s1 = (Ret b, s2)" by simp
    from keepsD [OF podman_worker.differs_frame this]
      keepsD [OF podman_local.keeps_get_container_info assms(3)] show ?thesis by simp
  qed
  have f: "unit_files (w_host s3) = unit_files (w_host s2)" if "podman_ensure_image P s2 = (r, s3)"
    using keepsD [OF keeps_ensure_image_files that] .
  have u: "u s3 = u s" if "keeps_lookups u (pm_client P)" and "keeps u (podman_ensure_image P)"
    and "podman_ensure_image P s2 = (r, s3)"
  proof -
    have P: "podman_reads u P" using that(1) by (rule podman_reads.intro)
    have "u s2 = u s1"
      using assms(5) keepsD [OF podman_reads.keeps_container_differs [OF P]] by (auto split: if_splits)
    then show ?thesis
      using keepsD [OF podman_reads.keeps_get_container_info [OF P] assms(3)] keepsD [OF that(2,3)] by simp
  qed
  have fail: "podman_recreate P s2 = (r, s3)" if "podman_ensure_image P s2 = (r, s3)" "r \<noteq> Ret ()"
    using that by (cases r) (simp_all add: podman_recreate_def)
  show ?thesis using run l f u fail by (auto simp: local_state_def)
qed

text \<open>A health check that is switched off (test \<open>NONE\<close>) cannot be passed to Podman: the parsed check is
  \<open>None\<close>, and building the arguments raises \<open>TypeError\<close> after the parameter has been dropped.\<close>

theorem podman_disabled_healthcheck:
  assumes "dget (w_params s) ''healthcheck'' = hc" and "truthy hc" and "parse_healthcheck hc = Ret None"
  shows "args_healthcheck args s
    = (Raise TypeError, s\<lparr>w_params := AList.delete ''healthcheck'' (w_params s)\<rparr>)"
  using assms
  by (simp add: args_healthcheck_def param_def podman_parse_healthcheck_def pop_param_def)

section \<open>The theorems on a sample engine\<close>

definition sample_podman_client :: "podman_container list podman_client" where
  "sample_podman_client =
    \<lparr>pd_images_get = (\<lambda>n. raise (APIError 404 True ''no such image'')),
     pd_images_pull = (\<lambda>args. raise (APIError 500 False ''registry down'')),
     pd_image_remove = (\<lambda>a. ret ()),
     pd_volumes_get = (\<lambda>n. ret []), pd_volumes_create = (\<lambda>a. ret []), pd_volumes_remove = (\<lambda>n. ret ()),
     pd_list = gets (\<lambda>w. w),
     pd_get = (\<lambda>n. raise (APIError 404 True ''no such container'')),
     pd_reload = ret,
     pd_exec_run = (\<lambda>c cmd. ret (PInt 0, [])),
     pd_create = (\<lambda>a. ret \<lparr>pc_name = dget a ''name'', pc_status = PStr ''created'', pc_attrs = [(''Id'', PStr ''1'')]\<rparr>),
     pd_to_dict = (\<lambda>c. Ret (PDict [])),
     pd_start = (\<lambda>c. ret ()), pd_stop = (\<lambda>c t. ret ()), pd_remove = (\<lambda>c. modify (\<lambda>w. [])),
     pd_wait = (\<lambda>c. ret (PInt 0)), pd_logs = (\<lambda>c out err. ret []),
     pd_str_error = (\<lambda>st tx. tx)\<rparr>"

definition sample_podman :: "podman_container list podman" where
  "sample_podman =
    \<lparr>pm_client = sample_podman_client,
     pm_systemd = \<lparr>mgr_call = (\<lambda>files f args. ret ()), mgr_list_units = ret [], mgr_sleep = (\<lambda>n w. w)\<rparr>,
     pm_unit = Some sample_conf\<rparr>"

definition sample_pod :: podman_container where
  "sample_pod = \<lparr>pc_name = PStr ''nova'', pc_status = PStr ''exited'', pc_attrs = [(''Id'', PStr ''1'')]\<rparr>"

definition pod_state :: "pydict \<Rightarrow> podman_container list wstate" where
  "pod_state p = \<lparr>w_params = p, w_changed = False, w_result = [],
     w_host = \<lparr>unit_files = (\<lambda>f. None), world = [sample_pod]\<rparr>\<rparr>"

definition pod_params :: pydict where
  "pod_params = [(''name'', PStr ''nova''), (''image'', PStr ''nova''), (''command'', PStr ''sleep 1''),
     (''environment'', PDict [(''KOLLA_CONFIG_STRATEGY'', PStr ''COPY_ONCE''), (''N'', PInt 3)]),
     (''cap_add'', PList [PStr ''NET_ADMIN''])]"

lemmas pod_defs = sample_podman_client_def sample_podman_def sample_pod_def pod_state_def pod_params_def

theorem parse_volumes_spec_witness:
  "parse_volumes (PList (map PStr ([] @ map pod_text
      [BindPath ''/etc/kolla'' ''/conf'' (Some ''ro''), NamedVolume ''kolla_logs'' ''/var/log'' None, Devpts ''/dev/pts''])))
   = Ret ([bind_mount ''/etc/kolla'' ''/conf'' ''ro'', [(''target'', PStr ''/dev/pts''), (''type'', PStr ''devpts'')]],
          [(''kolla_logs'', PDict [(''bind'', PStr ''/var/log''), (''mode'', PStr ''rw'')])])"
  using parse_volumes_spec [of "[BindPath ''/etc/kolla'' ''/conf'' (Some ''ro''),
      NamedVolume ''kolla_logs'' ''/var/log'' None, Devpts ''/dev/pts'']" "[]"]
  by (simp add: no_colon_def starts_with_def dict_update_def)

lemma sample_args:
  "\<exists>args t. prepare_container_args (pod_state pod_params) = (Ret args, t)"
proof -
  have "shlex_split ''sleep 1'' = Some [''sleep'', ''1'']" by code_simp
  then show ?thesis
    by (simp add: prepare_container_args_def args_command_def args_volumes_def args_environment_def
        args_healthcheck_def args_dimensions_def args_cap_add_def pop_param_def set_param_def param_def
        pod_state_def pod_params_def dget_def dget_or_def py_shlex_split_def bnd_def seqc_def)
qed

theorem prepare_container_args_safe_witness:
  "\<exists>args t. prepare_container_args (pod_state pod_params) = (Ret args, t)
    \<and> map_of args ''cap_add'' = Some (PList [PStr ''NET_ADMIN'', PStr ''AUDIT_WRITE''])"
proof -
  obtain args t where a: "prepare_container_args (pod_state pod_params) = (Ret args, t)"
    using sample_args by blast
  have w: "wf_dict (w_params (pod_state pod_params))" by (simp add: pod_state_def pod_params_def)
  show ?thesis
    using prepare_container_args_safe [OF a w] a
    by (auto simp: pod_state_def pod_params_def dget_def dget_or_def)
qed

lemma sample_pod_remove:
  "podman_remove_container sample_podman (pod_state pod_params)
    = (Ret (), (pod_state pod_params)\<lparr>w_host := \<lparr>unit_files = (\<lambda>f. None), world = []\<rparr>\<rparr>)"
  by (simp add: podman_remove_container_def podman_unit_def with_unit_def remove_unit_file_def
      check_unit_file_def podman_do_remove_def podman_check_container_def or_changed_def param_def
      pod_defs on_engine_def on_host_def on_world_def zoom_def bnd_def seqc_def catch_api_def
      dget_def dget_or_def)

theorem podman_remove_container_post_witness:
  "\<not> w_changed (snd (podman_remove_container sample_podman (pod_state pod_params)))"
proof -
  have u: "pm_unit sample_podman = Some sample_conf" by (simp add: sample_podman_def)
  show ?thesis
    using podman_remove_container_post [OF sample_pod_remove u] sample_pod_remove
    by (simp add: pod_state_def)
qed

theorem podman_recreate_image_first_witness:
  "podman_recreate_or_restart_container sample_podman (pod_state pod_params)
    = (Exit FailJson [(''msg'', PStr ''Unknown error message: registry down''), (''failed'', PBool True)],
       pod_state pod_params)"
proof -
  let ?s = "pod_state pod_params"
  let ?env = "[(''KOLLA_CONFIG_STRATEGY'', PStr ''COPY_ONCE''), (''N'', PInt 3)]"
  have 1: "dget_or (w_params ?s) ''environment'' (PDict []) = PDict ?env"
    "dget ?env ''KOLLA_CONFIG_STRATEGY'' = PStr ''COPY_ONCE''"
    by (simp_all add: pod_defs dget_def dget_or_def)
  have 2: "podman_get_container_info sample_podman ?s = (Ret (PDict [(''Id'', PStr ''1'')]), ?s)"
    by (simp add: podman_get_container_info_def podman_check_container_def param_def pod_defs on_engine_def
        on_host_def on_world_def zoom_def bnd_def dget_def dget_or_def)
  have 3: "(if ''COPY_ONCE'' = ''COPY_ONCE'' then ret True else check_container_differs (podman_ops sample_podman)) ?s
      = (Ret True, ?s)" by simp
  have 4: "podman_ensure_image sample_podman ?s
    = (Exit FailJson [(''msg'', PStr ''Unknown error message: registry down''), (''failed'', PBool True)], ?s)"
    by (simp add: podman_ensure_image_def podman_pull_image_def podman_check_image_def param_def with_params_def
        prepare_image_args_def parse_image_def split_first_def Let_def pod_defs on_engine_def on_host_def
        on_world_def zoom_def bnd_def catch_api_def dget_def dget_or_def fail_json_def)
  have "truthy (PDict [(''Id'', PStr ''1'')])" by simp
  note first = podman_recreate_image_first [OF 1 2 this 3, where u = "\<lambda>_. ()"]
  have "podman_recreate sample_podman ?s
    = (Exit FailJson [(''msg'', PStr ''Unknown error message: registry down''), (''failed'', PBool True)], ?s)"
    using 4 by (simp add: podman_recreate_def)
  with first show ?thesis by simp
qed

theorem podman_disabled_healthcheck_witness:
  "fst (args_healthcheck [] (pod_state [(''healthcheck'', PDict [(''test'', PStr ''NONE''), (''interval'', PInt 30),
      (''timeout'', PInt 5), (''retries'', PInt 3), (''start_period'', PInt 5)])])) = Raise TypeError"
proof -
  let ?hc = "PDict [(''test'', PStr ''NONE''), (''interval'', PInt 30), (''timeout'', PInt 5),
    (''retries'', PInt 3), (''start_period'', PInt 5)]"
  have "parse_healthcheck ?hc = Ret None" by code_simp
  moreover have "dget (w_params (pod_state [(''healthcheck'', ?hc)])) ''healthcheck'' = ?hc"
    by (simp add: pod_state_def dget_def dget_or_def)
  ultimately show ?thesis
    using podman_disabled_healthcheck [of "pod_state [(''healthcheck'', ?hc)]" ?hc "[]"] by simp
qed

end
