(* ===== verification/Kolla_Container.thy ===== *)
theory Kolla_Container
  imports Docker_Container Podman_Container
begin

text \<open>
  \<open>ansible/library/kolla_container.py\<close>: the module \<open>kolla_container\<close>. \<open>generate_module\<close> merges the
  module's own arguments with the common options and the defaults; \<open>main\<close> builds the worker of the
  engine, runs the requested action on it and turns what happens into the module's exit. Ansible's
  argument parser is outside the model: its result, the parameters, is the input.
\<close>

section \<open>Merging the parameters\<close>

definition common_options_defaults :: pydict where
  "common_options_defaults =
    [(''auth_email'', PNone), (''auth_password'', PNone), (''auth_registry'', PNone),
     (''auth_username'', PNone), (''environment'', PNone), (''restart_policy'', PNone),
     (''restart_retries'', PInt 10), (''api_version'', PStr ''auto''), (''graceful_timeout'', PInt 10),
     (''client_timeout'', PInt 120), (''container_engine'', PStr ''docker'')]"

text \<open>A common option may come from a group variable as a string of digits.\<close>

definition digits_to_int :: "pyval \<Rightarrow> pyval outcome" where
  "digits_to_int v =
     (case v of
        PStr s \<Rightarrow> if s \<noteq> [] \<and> list_all is_digit s then obind (py_int v) (\<lambda>i. Ret (PInt i)) else Ret v
      | _ \<Rightarrow> Ret v)"

text \<open>The body of the loop over \<open>module.params.items()\<close>.\<close>

definition merge_param :: "string \<times> pyval \<Rightarrow> pydict \<Rightarrow> pydict outcome" where
  "merge_param kv new_args =
     (let (k, v) = kv in
      if v \<noteq> PNone then Ret (AList.update k v new_args)
      else case map_of common_options_defaults k of
        None \<Rightarrow> Ret new_args
      | Some dflt \<Rightarrow>
          (case map_of new_args k of
             Some w \<Rightarrow> obind (digits_to_int w) (\<lambda>w'. Ret (AList.update k w' new_args))
           | None \<Rightarrow> Ret (if dflt \<noteq> PNone then AList.update k dflt new_args else new_args)))"

definition drop_falsy :: "string \<Rightarrow> pydict \<Rightarrow> pydict" where
  "drop_falsy k d = (if truthy (dget d k) then d else AList.delete k d)"

definition dict_of :: "pyval \<Rightarrow> pydict outcome" where
  "dict_of v = (if truthy v then (case v of PDict d \<Rightarrow> Ret d | _ \<Rightarrow> Raise AttributeError) else Ret [])"

definition generate_module :: "pydict \<Rightarrow> pydict outcome" where
  "generate_module params =
     obind (dict_of (dget params ''common_options'')) (\<lambda>common.
     obind (dict_of (dget params ''environment'')) (\<lambda>env_module.
     obind (ofold merge_param (AList.delete ''environment'' (AList.delete ''common_options'' params)) common)
       (\<lambda>new_args.
         obind (dict_of (dget new_args ''environment'')) (\<lambda>env_common.
           Ret (drop_falsy ''ipc_mode'' (drop_falsy ''pid_mode''
                 (AList.update ''environment'' (PDict (dict_update env_common env_module))
                   (AList.delete ''environment'' new_args))))))))"

section \<open>The actions\<close>

definition no_result :: "('w wstate, unit) cmd \<Rightarrow> ('w wstate, bool) cmd" where
  "no_result m = bnd m (\<lambda>u. ret False)"

definition docker_actions :: "'w docker \<Rightarrow> (string \<times> ('w wstate, bool) cmd) list" where
  "docker_actions D =
    [(''compare_container'', compare_container (docker_ops D)),
     (''compare_image'', docker_compare_image D PNone),
     (''create_volume'', no_result (docker_create_volume D)),
     (''ensure_image'', no_result (docker_ensure_image D)),
     (''get_container_env'', no_result (get_container_env (docker_ops D))),
     (''get_container_state'', no_result (get_container_state (docker_ops D))),
     (''pull_image'', no_result (docker_pull_image D)),
     (''recreate_or_restart_container'', no_result (docker_recreate_or_restart_container D)),
     (''remove_container'', no_result (docker_remove_container D)),
     (''remove_image'', no_result (docker_remove_image D)),
     (''remove_volume'', no_result (docker_remove_volume D)),
     (''restart_container'', no_result (docker_restart_container D)),
     (''start_container'', no_result (docker_start_container D)),
     (''stop_container'', no_result (docker_stop_container D)),
     (''stop_and_remove_container'', no_result (docker_stop_and_remove_container D))]"

definition podman_actions :: "'w podman \<Rightarrow> (string \<times> ('w wstate, bool) cmd) list" where
  "podman_actions P =
    [(''compare_container'', compare_container (podman_ops P)),
     (''compare_image'', podman_compare_image P PNone),
     (''create_volume'', no_result (podman_create_volume P)),
     (''ensure_image'', no_result (podman_ensure_image P)),
     (''get_container_env'', no_result (get_container_env (podman_ops P))),
     (''get_container_state'', no_result (get_container_state (podman_ops P))),
     (''pull_image'', no_result (podman_pull_image P)),
     (''recreate_or_restart_container'', no_result (podman_recreate_or_restart_container P)),
     (''remove_container'', no_result (podman_remove_container P)),
     (''remove_image'', no_result (podman_remove_image P)),
     (''remove_volume'', no_result (podman_remove_volume P)),
     (''restart_container'', no_result (podman_restart_container P)),
     (''start_container'', no_result (podman_start_container P)),
     (''stop_container'', no_result (podman_stop_container P)),
     (''stop_and_remove_container'', no_result (podman_stop_and_remove_container P))]"

definition run_action :: "(string \<times> ('w wstate, bool) cmd) list \<Rightarrow> ('w wstate, bool) cmd" where
  "run_action actions =
     bnd (param ''action'') (\<lambda>action.
       case action of
         PStr a \<Rightarrow> (case map_of actions a of None \<Rightarrow> raise AttributeError | Some m \<Rightarrow> m)
       | _ \<Rightarrow> raise TypeError)"

section \<open>The module\<close>

text \<open>Keyword arguments followed by \<open>**d\<close>: a key given twice is a \<open>TypeError\<close>.\<close>

definition with_kwargs :: "pydict \<Rightarrow> pydict \<Rightarrow> (pydict \<Rightarrow> 'a outcome) \<Rightarrow> 'a outcome" where
  "with_kwargs base d f =
     (if list_ex (\<lambda>k. has_key d k) (map fst base) then Raise TypeError else f (base @ d))"

text \<open>What \<open>main\<close> takes from outside: the constructors of the two clients (with the API version the
  Docker client has settled on), the systemd manager, and \<open>traceback.format_exc\<close>.\<close>

record 'w module_env =
  new_docker :: "pydict \<Rightarrow> ('w, 'w docker_client \<times> string) cmd"
  new_podman :: "('w, 'w podman_client) cmd"
  systemd :: "'w systemd_api"
  format_exc :: "exn \<Rightarrow> string"

definition docker_options :: "pydict \<Rightarrow> pydict" where
  "docker_options p = [(''version'', dget p ''api_version''), (''timeout'', dget p ''client_timeout'')]"

definition docker_worker_actions ::
    "'w module_env \<Rightarrow> ('w wstate, (string \<times> ('w wstate, bool) cmd) list) cmd" where
  "docker_worker_actions E =
     bnd (with_params systemd_init) (\<lambda>u.
     bnd (gets w_params) (\<lambda>p.
     bnd (on_engine (new_docker E (docker_options p))) (\<lambda>(client, version).
     bnd (lift (docker_init client (systemd E) version p)) (\<lambda>D.
       ret (docker_actions D)))))"

definition podman_worker_actions ::
    "'w module_env \<Rightarrow> ('w wstate, (string \<times> ('w wstate, bool) cmd) list) cmd" where
  "podman_worker_actions E =
     bnd (with_params systemd_init) (\<lambda>u.
     bnd (gets w_params) (\<lambda>p.
     bnd (on_engine (new_podman E)) (\<lambda>client.
     bnd (lift (podman_init client (systemd E) p)) (\<lambda>P.
       ret (podman_actions P)))))"

text \<open>\<open>main\<close> after \<open>generate_module\<close>. The result of the worker is empty until it is built, so the
  handler of the exceptions can read it from the state in both cases.\<close>

definition module_body :: "'w module_env \<Rightarrow> ('w wstate, unit) cmd" where
  "module_body E =
     catch_all
       (bnd (param ''container_engine'') (\<lambda>engine.
        bnd (if engine = PStr ''docker'' then docker_worker_actions E else podman_worker_actions E) (\<lambda>actions.
        bnd (run_action actions) (\<lambda>result.
        bnd (gets (\<lambda>s. (w_changed s, w_result s))) (\<lambda>(changed, r).
          lift (with_kwargs [(''changed'', PBool changed), (''result'', PBool result)] r exit_json))))))
       (\<lambda>e. bnd (gets w_result) (\<lambda>r.
          lift (with_kwargs [(''changed'', PBool True), (''msg'', PStr (repr_str (format_exc E e)))] r fail_json)))"

definition main :: "'w module_env \<Rightarrow> pydict \<Rightarrow> ('w host, unit) cmd" where
  "main E params h =
     (case generate_module params of
        Ret args \<Rightarrow>
          (case module_body E \<lparr>w_params = args, w_changed = False, w_result = [], w_host = h\<rparr> of
             (r, s) \<Rightarrow> (r, w_host s))
      | Raise e \<Rightarrow> (Raise e, h)
      | Exit k d \<Rightarrow> (Exit k d, h))"

section \<open>Which value an option gets\<close>

definition digits_value :: "pyval \<Rightarrow> pyval" where
  "digits_value w = (case digits_to_int w of Ret x \<Rightarrow> x | _ \<Rightarrow> w)"

text \<open>The documented precedence: the module's own argument, then the common option (digits as a
  number), then the default. Options without a default in the table do not convert digits.\<close>

definition effective :: "pydict \<Rightarrow> pydict \<Rightarrow> string \<Rightarrow> pyval option" where
  "effective params common k =
     (case map_of params k of
        None \<Rightarrow> map_of common k
      | Some v \<Rightarrow>
          if v \<noteq> PNone then Some v
          else if has_key common_options_defaults k
          then (case map_of common k of
                  Some w \<Rightarrow> Some (digits_value w)
                | None \<Rightarrow> if dget common_options_defaults k \<noteq> PNone
                          then Some (dget common_options_defaults k) else None)
          else map_of common k)"

lemma effective_Nil [simp]: "effective [] common k = map_of common k"
  by (simp add: effective_def)

lemma merge_param_step:
  assumes "merge_param (k, v) acc = Ret acc'"
  shows "map_of acc' = (map_of acc)(k := effective [(k, v)] acc k)"
proof (cases "v = PNone")
  case True
  then show ?thesis
    using assms
    by (auto simp: merge_param_def effective_def has_key_def dget_def dget_or_def digits_value_def fun_eq_iff
        split: option.splits if_splits)
next
  case False
  then show ?thesis using assms by (auto simp: merge_param_def effective_def fun_eq_iff)
qed

lemma merge_params:
  "ofold merge_param ps acc = Ret r \<Longrightarrow> wf_dict ps \<Longrightarrow> map_of r k = effective ps acc k"
proof (induction ps arbitrary: acc)
  case Nil
  then show ?case by simp
next
  case (Cons kv ps)
  obtain k' v where kv: "kv = (k', v)" by (cases kv)
  with Cons.prems obtain acc' where a: "merge_param (k', v) acc = Ret acc'"
    and r: "ofold merge_param ps acc' = Ret r" by auto
  have wf: "wf_dict ps" and new: "map_of ps k' = None"
    using Cons.prems(2) kv by (simp_all add: map_of_eq_None_iff)
  have IH: "map_of r k = effective ps acc' k" by (rule Cons.IH [OF r wf])
  show ?case
  proof (cases "k = k'")
    case True
    with IH merge_param_step [OF a] new show ?thesis by (simp add: kv effective_def)
  next
    case False
    with merge_param_step [OF a] have "map_of acc' k = map_of acc k" by simp
    with IH False show ?thesis by (auto simp: kv effective_def split: option.splits)
  qed
qed

definition given_dict :: "pydict \<Rightarrow> string \<Rightarrow> pydict \<Rightarrow> bool" where
  "given_dict d k e \<longleftrightarrow> dget d k = PDict e \<or> (dget d k = PNone \<and> e = [])"

lemma dict_of_given: "given_dict d k e \<Longrightarrow> dict_of (dget d k) = Ret e"
  by (auto simp: given_dict_def dict_of_def)

definition own_options :: "pydict \<Rightarrow> pydict" where
  "own_options params = AList.delete ''environment'' (AList.delete ''common_options'' params)"

lemma generate_module_lookup:
  assumes "generate_module params = Ret args" and "wf_dict params"
    and "given_dict params ''common_options'' common" and "given_dict params ''environment'' env"
    and "given_dict common ''environment'' common_env"
  shows "map_of args k =
    (if k = ''environment'' then Some (PDict (dict_update common_env env))
     else if k \<in> {''pid_mode'', ''ipc_mode''}
     then (case effective (own_options params) common k of Some v \<Rightarrow> if truthy v then Some v else None | None \<Rightarrow> None)
     else effective (own_options params) common k)"
proof -
  have d: "dict_of (dget params ''common_options'') = Ret common" "dict_of (dget params ''environment'') = Ret env"
    using assms(3,4) by (simp_all add: dict_of_given)
  obtain new where n: "ofold merge_param (own_options params) common = Ret new"
    using assms(1) d by (auto simp: generate_module_def own_options_def)
  have eff: "map_of new x = effective (own_options params) common x" for x
    by (rule merge_params [OF n]) (simp add: assms(2) own_options_def)
  have "map_of new ''environment'' = map_of common ''environment''"
    using eff [of "''environment''"] by (simp add: effective_def own_options_def)
  then have "dict_of (dget new ''environment'') = Ret common_env"
    using dict_of_given [OF assms(5)] by (simp add: dget_def dget_or_def)
  then have args: "args = drop_falsy ''ipc_mode'' (drop_falsy ''pid_mode''
      (AList.update ''environment'' (PDict (dict_update common_env env)) (AList.delete ''environment'' new)))"
    using assms(1) d n by (simp add: generate_module_def own_options_def)
  have drop: "map_of (drop_falsy a b) x
      = (if x = a then (case map_of b a of Some v \<Rightarrow> if truthy v then Some v else None | None \<Rightarrow> None)
         else map_of b x)" for a b x
    by (auto simp: drop_falsy_def dget_def dget_or_def split: option.splits)
  show ?thesis unfolding args drop by (auto simp: eff)
qed

lemma effective_own: "k \<notin> {''common_options'', ''environment''} \<Longrightarrow> effective (own_options params) common k = effective params common k"
  by (simp add: effective_def own_options_def)

text \<open>C7: \<open>generate_module\<close> gives every option the module's own argument when it is set, otherwise the common
  option (a string of digits becomes a number), otherwise the default; the environment is the
  common one updated with the module's; and an empty \<open>pid_mode\<close> or \<open>ipc_mode\<close> is removed, so that
  what the worker sees of them is never falsy.\<close>

theorem generate_module_precedence:
  assumes "generate_module params = Ret args" and "wf_dict params"
    and "given_dict params ''common_options'' common" and "given_dict params ''environment'' env"
    and "given_dict common ''environment'' common_env" and "wf_dict env"
  shows "(k \<notin> {''common_options'', ''environment'', ''pid_mode'', ''ipc_mode''} \<longrightarrow>
           map_of args k = effective params common k)
    \<and> (\<exists>e. map_of args ''environment'' = Some (PDict e)
         \<and> (\<forall>x. map_of e x = (case map_of env x of None \<Rightarrow> map_of common_env x | Some v \<Rightarrow> Some v)))
    \<and> (k \<in> {''pid_mode'', ''ipc_mode''} \<longrightarrow>
        map_of args k = (case effective params common k of
                           Some v \<Rightarrow> if truthy v then Some v else None | None \<Rightarrow> None))"
  using generate_module_lookup [OF assms(1-5)] effective_own map_of_dict_update [OF assms(6)] by simp

theorem generate_module_precedence_witness:
  "\<exists>args. generate_module
      [(''common_options'', PDict [(''graceful_timeout'', PStr ''60''), (''environment'', PDict [(''A'', PStr ''1'')])]),
       (''environment'', PDict [(''A'', PStr ''2'')]), (''graceful_timeout'', PNone), (''client_timeout'', PNone),
       (''name'', PStr ''nova'')] = Ret args
    \<and> map_of args ''graceful_timeout'' = Some (PInt 60)"
proof -
  let ?c = "[(''graceful_timeout'', PStr ''60''), (''environment'', PDict [(''A'', PStr ''1'')])]"
  let ?p = "[(''common_options'', PDict ?c), (''environment'', PDict [(''A'', PStr ''2'')]),
    (''graceful_timeout'', PNone), (''client_timeout'', PNone), (''name'', PStr ''nova'')]"
  have "case generate_module ?p of Ret a \<Rightarrow> True | _ \<Rightarrow> False" by code_simp
  then obtain args where a: "generate_module ?p = Ret args" by (auto split: outcome.splits)
  have g: "digits_value (PStr ''60'') = PInt 60" by code_simp
  show ?thesis
    using generate_module_precedence [OF a, of ?c "[(''A'', PStr ''2'')]" "[(''A'', PStr ''1'')]" "''graceful_timeout''"] a g
    by (auto simp: given_dict_def dget_def dget_or_def effective_def has_key_def common_options_defaults_def)
qed

section \<open>The module always ends with an exit\<close>

lemma bnd_assoc: "bnd (bnd m f) g = bnd m (\<lambda>x. bnd (f x) g)"
  by (auto simp: bnd_def fun_eq_iff split: prod.splits outcome.splits)

lemma keeps_run_action:
  assumes "\<forall>(a, m) \<in> set actions. keeps v m"
  shows "keeps v (run_action actions)"
  unfolding run_action_def
  by (intro frame) (use assms in \<open>auto intro!: frame dest: map_of_SomeD split: pyval.splits option.splits\<close>)

lemma keeps_local_plain: "keeps local_state m \<Longrightarrow> keeps plain_result m"
  by (simp add: keeps_def local_state_def plain_result_def)

lemma keeps_compare_container:
  "keeps plain_result (compare_container (docker_ops D))"
proof -
  have e: "keeps plain_result (op_container_exists (docker_ops D))"
    by (rule keeps_local_plain) (rule docker_worker.container_exists_frame)
  have a: "keeps plain_result (any_cmd [ret (\<not> container), check_container_differs (docker_ops D),
      op_compare_config (docker_ops D), with_unit (op_unit (docker_ops D)) (\<lambda>c. check_unit_change c [])])"
    for container
    by (rule keeps_any_cmd)
       (simp add: keeps_basic keeps_check_unit_change docker_plain.keeps_container_differs
         keeps_local_plain [OF docker_worker.compare_config_frame])
  show ?thesis
    unfolding compare_container_def by (intro frame docker_plain.keeps_changed e a)
qed

lemma keeps_docker_actions: "\<forall>(a, m) \<in> set (docker_actions D). keeps plain_result m"
proof -
  have i: "keeps plain_result (op_get_container_info (docker_ops D))"
    by (rule keeps_local_plain) (rule docker_worker.container_info_frame)
  have q: "keeps plain_result (get_container_env (docker_ops D))"
    "keeps plain_result (get_container_state (docker_ops D))"
    unfolding get_container_env_def get_container_state_def by (intro frame i)+
  show ?thesis
    unfolding docker_actions_def no_result_def
    by (simp add: q keeps_compare_container keeps_bnd keeps_basic docker_plain.keeps_compare_image
        docker_plain.keeps_volumes docker_plain.keeps_ensure_image docker_plain.keeps_pull_image
        docker_plain.keeps_recreate docker_plain.keeps_remove docker_plain.keeps_remove_image
        docker_plain.keeps_restart docker_plain.keeps_start docker_plain.keeps_stop
        docker_plain.keeps_stop_and_remove)
qed

text \<open>The action of the module on the worker of its engine, up to the result.\<close>

definition docker_run :: "'w module_env \<Rightarrow> ('w wstate, bool) cmd" where
  "docker_run E = bnd (docker_worker_actions E) run_action"

lemma keeps_engine_plain: "keeps plain_result (on_engine m)"
  by (rule keeps_local_plain) (rule keeps_on_engine)

lemma keeps_docker_run: "keeps plain_result (docker_run E)"
  unfolding docker_run_def docker_worker_actions_def
  by (simp add: bnd_assoc case_prod_unfold, intro frame keeps_engine_plain)
     (simp add: keeps_run_action [OF keeps_docker_actions])

lemma module_body_docker:
  assumes "dget (w_params s) ''container_engine'' = PStr ''docker''"
  shows "module_body E s = (case docker_run E s of
      (Ret b, t) \<Rightarrow> (case with_kwargs [(''changed'', PBool (w_changed t)), (''result'', PBool b)] (w_result t) exit_json of
          Raise e \<Rightarrow> (with_kwargs [(''changed'', PBool True), (''msg'', PStr (repr_str (format_exc E e)))] (w_result t) fail_json, t)
        | r \<Rightarrow> (r, t))
    | (Raise e, t) \<Rightarrow> (with_kwargs [(''changed'', PBool True), (''msg'', PStr (repr_str (format_exc E e)))] (w_result t) fail_json, t)
    | (Exit k d, t) \<Rightarrow> (Exit k d, t))"
  using assms
  by (auto simp: module_body_def docker_run_def param_def catch_all_def bnd_def split: prod.splits outcome.splits)

definition start_state :: "pydict \<Rightarrow> 'w host \<Rightarrow> 'w wstate" where
  "start_state args h = \<lparr>w_params = args, w_changed = False, w_result = [], w_host = h\<rparr>"

lemma main_docker_run:
  assumes "generate_module params = Ret args" and "dget args ''container_engine'' = PStr ''docker''"
  shows "main E params h = (case docker_run E (start_state args h) of
      (Ret b, t) \<Rightarrow> (Exit ExitJson ([(''changed'', PBool (w_changed t)), (''result'', PBool b)] @ w_result t), w_host t)
    | (Raise e, t) \<Rightarrow> (Exit FailJson ([(''changed'', PBool True), (''msg'', PStr (repr_str (format_exc E e)))] @ w_result t), w_host t)
    | (Exit k d, t) \<Rightarrow> (Exit k d, w_host t))"
proof -
  let ?s = "start_state args h"
  have run: "main E params h = (case module_body E ?s of (r, s) \<Rightarrow> (r, w_host s))"
    using assms(1) by (simp add: main_def start_state_def)
  have engine: "dget (w_params ?s) ''container_engine'' = PStr ''docker''" using assms(2) by (simp add: start_state_def)
  have kw: "with_kwargs [(''changed'', x), (''msg'', y)] (w_result t') f = f ([(''changed'', x), (''msg'', y)] @ w_result t')"
    "with_kwargs [(''changed'', x), (''result'', y)] (w_result t') f = f ([(''changed'', x), (''result'', y)] @ w_result t')"
    if "docker_run E ?s = (r, t')" for r t' x y and f :: "pydict \<Rightarrow> unit outcome"
  proof -
    have "plain_result t'" using keepsD [OF keeps_docker_run that] by (simp add: plain_result_def start_state_def)
    then have "map_of (w_result t') ''changed'' = None" "map_of (w_result t') ''msg'' = None" "map_of (w_result t') ''result'' = None"
      by (auto simp: plain_result_def exit_results_def map_of_eq_None_iff)
    then show "with_kwargs [(''changed'', x), (''msg'', y)] (w_result t') f = f ([(''changed'', x), (''msg'', y)] @ w_result t')"
      "with_kwargs [(''changed'', x), (''result'', y)] (w_result t') f = f ([(''changed'', x), (''result'', y)] @ w_result t')"
      by (simp_all add: with_kwargs_def has_key_def)
  qed
  obtain r t where r: "docker_run E ?s = (r, t)" by (rule prod.exhaust)
  then show ?thesis
    using kw [OF r] unfolding run module_body_docker [of ?s E, OF engine] by (cases r) (simp_all add: exit_json_def fail_json_def)
qed

text \<open>C8: With the Docker engine the module never dies with a traceback of its own: \<open>main\<close> always ends
  with an exit of the module. When the action returns, it is a success that reports \<open>changed\<close>, the
  action's answer and the worker's result; when it raises, a failure with \<open>changed\<close> true, the
  traceback and the same result; what was done to the machine before stays done.\<close>

theorem main_docker_exits:
  assumes "generate_module params = Ret args" and "dget args ''container_engine'' = PStr ''docker''"
  shows "(\<exists>k d. fst (main E params h) = Exit k d)
    \<and> (docker_run E (start_state args h) = (Ret b, t) \<longrightarrow>
        main E params h = (Exit ExitJson ([(''changed'', PBool (w_changed t)), (''result'', PBool b)] @ w_result t), w_host t))
    \<and> (docker_run E (start_state args h) = (Raise e, t) \<longrightarrow>
        main E params h = (Exit FailJson ([(''changed'', PBool True), (''msg'', PStr (repr_str (format_exc E e)))]
                             @ w_result t), w_host t))
    \<and> (docker_run E (start_state args h) = (Exit k d, t) \<longrightarrow> main E params h = (Exit k d, w_host t))"
  unfolding main_docker_run [OF assms] by (auto split: prod.splits outcome.splits)

definition sample_env :: "pyval list module_env" where
  "sample_env =
    \<lparr>new_docker = (\<lambda>options. ret (sample_client [] [], ''1.41'')),
     new_podman = raise (APIError 500 False ''no podman''),
     systemd = sample_systemd [], format_exc = (\<lambda>e. ''Traceback'')\<rparr>"

theorem main_docker_exits_witness:
  "\<forall>h. \<exists>k d. fst (main sample_env [(''common_options'', PDict [(''container_engine'', PStr ''docker'')]),
      (''container_engine'', PNone), (''name'', PStr ''nova''), (''action'', PStr ''start_container'')] h) = Exit k d"
proof -
  let ?p = "[(''common_options'', PDict [(''container_engine'', PStr ''docker'')]),
      (''container_engine'', PNone), (''name'', PStr ''nova''), (''action'', PStr ''start_container'')]"
  have "case generate_module ?p of Ret a \<Rightarrow> dget a ''container_engine'' = PStr ''docker'' | _ \<Rightarrow> False"
    by code_simp
  then obtain args where "generate_module ?p = Ret args" "dget args ''container_engine'' = PStr ''docker''"
    by (auto split: outcome.splits)
  from main_docker_exits [OF this] show ?thesis by blast
qed

end
