(* ===== verification/Host_Runs.thy ===== *)
theory Host_Runs
  imports Kolla_Container
begin

text \<open>
  The unit files of a host over any number of runs of the module \<open>kolla_container\<close>, with either
  engine, whatever the engine and systemd answer. A command has an effect \<open>R\<close> when each of its runs,
  also one that raises or exits, leads from a state to one related by \<open>R\<close>.
\<close>

named_theorems effects \<open>how effects pass through the combinators of commands\<close>

section \<open>Effects\<close>

definition effect :: "('s \<Rightarrow> 's \<Rightarrow> bool) \<Rightarrow> ('s, 'a) cmd \<Rightarrow> bool" where
  "effect R m \<longleftrightarrow> (\<forall>s. R s (snd (m s)))"

locale effect_order =
  fixes R :: "'s \<Rightarrow> 's \<Rightarrow> bool"
  assumes R_refl: "R s s" and R_trans: "R s t \<Longrightarrow> R t u \<Longrightarrow> R s u"
begin

lemma basic: "effect R (ret x)" "effect R (raise e)" "effect R (lift r)" "effect R (gets f)"
  by (simp_all add: effect_def R_refl)

lemma bnd:
  assumes m: "effect R m" and f: "\<And>x. effect R (f x)"
  shows "effect R (bnd m f)"
  unfolding effect_def
proof
  fix s
  obtain r t where r: "m s = (r, t)" by (cases "m s")
  with m have "R s t" by (metis effect_def snd_conv)
  then show "R s (snd (bnd m f s))"
    using f r by (cases r) (auto simp: effect_def intro: R_trans)
qed

lemma seqc: "effect R m \<Longrightarrow> effect R n \<Longrightarrow> effect R (seqc m n)"
  by (simp add: seqc_def bnd)

lemma whenc: "effect R m \<Longrightarrow> effect R (whenc b m)"
  by (simp add: whenc_def basic)

lemma catch_api:
  assumes m: "effect R m" and h: "\<And>st cl tx. effect R (h st cl tx)"
  shows "effect R (catch_api m h)"
  unfolding effect_def
proof
  fix s
  obtain r t where r: "m s = (r, t)" by (cases "m s")
  with m have "R s t" by (metis effect_def snd_conv)
  then show "R s (snd (catch_api m h s))"
    using h r by (auto simp: catch_api_def effect_def split: outcome.splits exn.splits intro: R_trans)
qed

lemma catch_all:
  assumes m: "effect R m" and h: "\<And>e. effect R (h e)"
  shows "effect R (catch_all m h)"
  unfolding effect_def
proof
  fix s
  obtain r t where r: "m s = (r, t)" by (cases "m s")
  with m have "R s t" by (metis effect_def snd_conv)
  then show "R s (snd (catch_all m h s))"
    using h r by (cases r) (auto simp: effect_def intro: R_trans)
qed

lemma any_cmd: "list_all (effect R) ms \<Longrightarrow> effect R (any_cmd ms)"
  by (induction ms) (auto intro!: bnd simp: basic)

lemma branch: "(b \<Longrightarrow> effect R m) \<Longrightarrow> (\<not> b \<Longrightarrow> effect R n) \<Longrightarrow> effect R (if b then m else n)"
  by simp

lemma option: "effect R m \<Longrightarrow> (\<And>x. effect R (f x)) \<Longrightarrow> effect R (case_option m f v)"
  by (cases v) auto

lemma pair: "(\<And>x y. effect R (f x y)) \<Longrightarrow> effect R (case_prod f v)"
  by (cases v) auto

lemma modify: "(\<And>s. R s (f s)) \<Longrightarrow> effect R (modify f)"
  by (simp add: effect_def)

lemma kept: "(\<And>s t. v t = v s \<Longrightarrow> R s t) \<Longrightarrow> keeps v m \<Longrightarrow> effect R m"
  by (simp add: effect_def keeps_def)

lemmas steps = basic bnd seqc whenc catch_api catch_all any_cmd branch option pair

end

section \<open>The unit file of a container\<close>

text \<open>
  What a run may do to the unit files: the file of the worker's own container stays, goes, or is the
  rendered unit; every other file stays.
\<close>

definition own_unit :: "sysd_conf option \<Rightarrow> (string \<Rightarrow> string option) \<Rightarrow> (string \<Rightarrow> string option) \<Rightarrow> bool" where
  "own_unit u f g \<longleftrightarrow>
     (\<forall>p. g p = f p \<or> (\<exists>c. u = Some c \<and> p = unit_path c \<and> (g p = None \<or> g p = Some (rendered_unit c))))"

lemma own_unit_refl: "own_unit u f f"
  by (simp add: own_unit_def)

lemma own_unit_trans: "own_unit u f g \<Longrightarrow> own_unit u g h \<Longrightarrow> own_unit u f h"
  unfolding own_unit_def by metis

lemma own_unit_write: "own_unit (Some c) f (f(unit_path c := Some (rendered_unit c)))"
  "own_unit (Some c) f (f(unit_path c := None))"
  by (simp_all add: own_unit_def)

abbreviation on_files :: "sysd_conf option \<Rightarrow> 'w host \<Rightarrow> 'w host \<Rightarrow> bool" where
  "on_files u h h' \<equiv> own_unit u (unit_files h) (unit_files h')"

abbreviation in_state :: "sysd_conf option \<Rightarrow> 'w wstate \<Rightarrow> 'w wstate \<Rightarrow> bool" where
  "in_state u s t \<equiv> on_files u (w_host s) (w_host t)"

interpretation on_host: effect_order "on_files u" for u
  by unfold_locales (auto intro: own_unit_refl own_unit_trans)

interpretation on_state: effect_order "in_state u" for u
  by unfold_locales (auto intro: own_unit_refl own_unit_trans)

lemmas [effects] = on_host.steps on_state.steps

lemma host_kept: "keeps unit_files m \<Longrightarrow> effect (on_files u) m"
  by (rule on_host.kept) (simp_all add: own_unit_refl)

lemma state_kept: "keeps (\<lambda>s. unit_files (w_host s)) m \<Longrightarrow> effect (in_state u) m"
  by (rule on_state.kept) (simp_all add: own_unit_refl)

lemma local_kept: "keeps local_state m \<Longrightarrow> effect (in_state u) m"
  by (rule state_kept) (simp add: keeps_def local_state_def)

lemma create_effect: "effect (on_files (Some c)) (create_unit_file api c)"
  unfolding create_unit_file_def generate_unit_file_rendered systemd_reload_def systemd_enable_def
  by (simp, intro effects on_host.modify)
     (auto simp: own_unit_write effect_def check_unit_change_run own_unit_refl
       intro!: host_kept [unfolded effect_def, rule_format] frame)

lemma remove_effect: "effect (on_files (Some c)) (remove_unit_file api c)"
  unfolding remove_unit_file_def check_unit_file_def systemd_reload_def
  by (intro effects on_host.modify host_kept frame) (simp add: own_unit_write)

lemma action_effect:
  "effect (on_files u) (systemd_start api c)" "effect (on_files u) (systemd_stop api c)"
  "effect (on_files u) (systemd_restart api c)" "effect (on_files u) (check_unit_file c)"
  unfolding systemd_start_def systemd_stop_def systemd_restart_def check_unit_file_def
  by (intro host_kept frame)+

lemma with_unit_effect [effects]:
  assumes "\<And>c. effect (on_files (Some c)) (f c)"
  shows "effect (in_state u) (with_unit u f)"
  using assms by (auto simp: effect_def with_unit_def on_host_def zoom_def own_unit_refl split: option.splits prod.splits)
     (metis snd_conv)

lemma engine_effect [effects]: "effect (in_state u) (on_engine m)"
  by (rule state_kept) (rule keeps_engine_files)

lemma own_state_effect [effects]:
  "effect (in_state u) (set_changed b)" "effect (in_state u) (or_changed b)" "effect (in_state u) (set_result k v)"
  "effect (in_state u) (set_param k v)" "effect (in_state u) (pop_param k)" "effect (in_state u) (param k)"
  "effect (in_state u) (with_params g)" "effect (in_state u) oneshot" "effect (in_state u) graceful_timeout"
  unfolding set_changed_def or_changed_def set_result_def set_param_def pop_param_def param_def with_params_def
    oneshot_def graceful_timeout_def
  by (intro effects on_state.modify; simp add: own_unit_refl)+

section \<open>The Docker worker\<close>

lemma docker_unit_effect [effects]:
  "effect (in_state (dk_unit D)) (docker_unit D create_unit_file)" "effect (in_state (dk_unit D)) (docker_unit D remove_unit_file)"
  "effect (in_state (dk_unit D)) (docker_unit D systemd_start)" "effect (in_state (dk_unit D)) (docker_unit D systemd_stop)"
  "effect (in_state (dk_unit D)) (docker_unit D systemd_restart)"
  "effect (in_state (dk_unit D)) (docker_unit D (\<lambda>api. check_unit_file))"
  unfolding docker_unit_def by (intro effects create_effect remove_effect action_effect)+

lemma docker_query_effect [effects]:
  "effect (in_state u) (docker_check_image D)" "effect (in_state u) (docker_check_volume D)"
  "effect (in_state u) (docker_check_container D)" "effect (in_state u) (docker_get_container_info D)"
  "effect (in_state u) (docker_get_image_id D)" "effect (in_state u) (docker_compare_image D info)"
  "effect (in_state u) (check_container_differs (docker_ops D))" "effect (in_state u) (docker_compare_config D)"
  by (intro local_kept docker_local.keeps_check_image docker_local.keeps_check_volume docker_local.keeps_check_container
      docker_local.keeps_get_container_info docker_local.keeps_get_image_id docker_local.keeps_compare_image
      docker_local.keeps_container_differs keeps_compare_config)+

lemma docker_image_effect [effects]:
  "effect (in_state u) (docker_pull_image D)" "effect (in_state u) (docker_ensure_image D)" "effect (in_state u) (docker_remove_image D)"
  "effect (in_state u) (docker_create_volume D)" "effect (in_state u) (docker_remove_volume D)"
  unfolding docker_pull_image_def docker_ensure_image_def docker_remove_image_def docker_create_volume_def docker_remove_volume_def
  by (intro effects)+

lemma docker_remove_effect [effects]: "effect (in_state (dk_unit D)) (docker_remove_container D)"
  unfolding docker_remove_container_def docker_do_remove_def by (intro effects)

lemma docker_stop_effect [effects]: "effect (in_state (dk_unit D)) (docker_stop_container D)"
  unfolding docker_stop_container_def by (intro effects)

lemma docker_stop_remove_effect [effects]: "effect (in_state (dk_unit D)) (docker_stop_and_remove_container D)"
  unfolding docker_stop_and_remove_container_def by (intro effects)

lemma inject_effect [effects]: "effect (in_state u) inject_env_var"
  unfolding inject_env_var_def
  by (intro effects) (auto intro!: effects on_state.modify simp: own_unit_refl Let_def split: pyval.splits)

lemma docker_create_effect [effects]: "effect (in_state (dk_unit D)) (docker_create_container D)"
  unfolding docker_create_container_def docker_build_container_options_def format_env_vars_def
  by (intro effects) (auto intro!: effects simp: Let_def split: prod.splits option.splits)

lemma docker_start_effect [effects]: "effect (in_state (dk_unit D)) (docker_start_container D)"
  unfolding docker_start_container_def docker_ensure_container_def docker_bring_up_def docker_wait_for_exit_def
  by (intro effects)

lemma docker_restart_effect [effects]:
  "effect (in_state (dk_unit D)) (docker_restart_container D)" "effect (in_state (dk_unit D)) (docker_recreate_or_restart_container D)"
  unfolding docker_recreate_or_restart_container_def docker_restart_container_def by (intro effects)+

section \<open>The Podman worker\<close>

lemma podman_unit_effect [effects]:
  "effect (in_state (pm_unit P)) (podman_unit P create_unit_file)" "effect (in_state (pm_unit P)) (podman_unit P remove_unit_file)"
  "effect (in_state (pm_unit P)) (podman_unit P systemd_start)" "effect (in_state (pm_unit P)) (podman_unit P systemd_stop)"
  "effect (in_state (pm_unit P)) (podman_unit P systemd_restart)"
  unfolding podman_unit_def by (intro effects create_effect remove_effect action_effect)+

lemma podman_query_effect [effects]:
  "effect (in_state u) (podman_check_image P)" "effect (in_state u) (podman_check_volume P)"
  "effect (in_state u) (podman_check_container P)" "effect (in_state u) (podman_get_container_info P)"
  "effect (in_state u) (podman_compare_image P info)"
  "effect (in_state u) (check_container_differs (podman_ops P))" "effect (in_state u) (podman_compare_config P)"
  by (intro local_kept podman_local.keeps_check_image podman_local.keeps_check_volume podman_local.keeps_check_container
      podman_local.keeps_get_container_info podman_local.keeps_compare_image podman_local.keeps_container_differs keeps_podman_config)+

lemma podman_image_effect [effects]:
  "effect (in_state u) (podman_pull_image P)" "effect (in_state u) (podman_ensure_image P)" "effect (in_state u) (podman_remove_image P)"
  unfolding podman_pull_image_def podman_ensure_image_def podman_remove_image_def by (intro effects)+

lemma podman_volume_effect [effects]:
  "effect (in_state u) (podman_create_volume P)" "effect (in_state u) (podman_remove_volume P)"
  unfolding podman_create_volume_def podman_remove_volume_def
  by (intro effects on_state.modify; simp add: own_unit_refl)+

lemma podman_remove_effect [effects]: "effect (in_state (pm_unit P)) (podman_remove_container P)"
  unfolding podman_remove_container_def podman_do_remove_def by (intro effects)

lemma podman_stop_effect [effects]: "effect (in_state (pm_unit P)) (podman_stop_container P)"
  unfolding podman_stop_container_def by (intro effects)

lemma podman_stop_remove_effect [effects]: "effect (in_state (pm_unit P)) (podman_stop_and_remove_container P)"
  unfolding podman_stop_and_remove_container_def by (intro effects)

lemma prepare_args_effect [effects]: "effect (in_state u) prepare_container_args"
  unfolding prepare_container_args_def args_command_def args_volumes_def args_environment_def args_healthcheck_def
    args_dimensions_def args_cap_add_def
  by (intro effects) (auto intro!: effects split: pyval.splits)

lemma podman_create_effect [effects]: "effect (in_state (pm_unit P)) (podman_create_container P)"
  unfolding podman_create_container_def by (intro effects)

lemma of_container_effect [effects]:
  "(\<And>c. effect (in_state u) (f c)) \<Longrightarrow> effect (in_state u) (of_container f container)"
  unfolding of_container_def by (intro effects)

lemma podman_start_effect [effects]: "effect (in_state (pm_unit P)) (podman_start_container P)"
  unfolding podman_start_container_def podman_ensure_container_def podman_bring_up_def podman_wait_for_exit_def
  by (intro effects)

lemma podman_restart_effect [effects]:
  "effect (in_state (pm_unit P)) (podman_restart_container P)" "effect (in_state (pm_unit P)) (podman_recreate_or_restart_container P)"
  unfolding podman_recreate_or_restart_container_def podman_restart_container_def podman_recreate_def by (intro effects)+

section \<open>The module\<close>

lemma compare_effect:
  assumes "effect (in_state u) (op_container_exists ops)" "effect (in_state u) (check_container_differs ops)"
    and "effect (in_state u) (op_compare_config ops)"
  shows "effect (in_state u) (compare_container ops)"
proof -
  have differs: "effect (in_state u) (any_cmd [ret (\<not> container), check_container_differs ops, op_compare_config ops,
      with_unit (op_unit ops) (\<lambda>c. check_unit_change c [])])" for container
    by (rule on_state.any_cmd) (simp add: assms on_state.basic state_kept [OF keeps_check_unit_change])
  show ?thesis
    unfolding compare_container_def
    by (rule on_state.bnd [OF assms(1)], rule on_state.bnd [OF differs]) (intro effects)
qed

lemma query_actions_effect:
  assumes "effect (in_state u) (op_get_container_info ops)"
  shows "effect (in_state u) (get_container_env ops)" "effect (in_state u) (get_container_state ops)"
  unfolding get_container_env_def get_container_state_def by (intro effects assms)+

lemma docker_actions_effect: "\<forall>(a, m) \<in> set (docker_actions D). effect (in_state (dk_unit D)) m"
  unfolding docker_actions_def no_result_def
  by (simp add: on_state.bnd effects compare_effect query_actions_effect local_kept
      docker_worker.container_exists_frame docker_worker.compare_config_frame docker_worker.container_info_frame)

lemma podman_actions_effect: "\<forall>(a, m) \<in> set (podman_actions P). effect (in_state (pm_unit P)) m"
  unfolding podman_actions_def no_result_def
  by (simp add: on_state.bnd effects compare_effect query_actions_effect local_kept
      podman_worker.container_exists_frame podman_worker.compare_config_frame podman_worker.container_info_frame)

lemma run_action_effect:
  assumes "\<forall>(a, m) \<in> set actions. effect (in_state u) m"
  shows "effect (in_state u) (run_action actions)"
  unfolding run_action_def
  by (intro effects) (use assms in \<open>auto intro!: effects dest: map_of_SomeD split: pyval.splits option.splits\<close>)

text \<open>The unit the worker is built with, from the parameters.\<close>

definition module_unit :: "pydict \<Rightarrow> sysd_conf option" where
  "module_unit args = (case systemd_init args of Ret u \<Rightarrow> u | _ \<Rightarrow> None)"

lemma worker_actions:
  "docker_worker_actions E s = (Ret actions, t) \<Longrightarrow>
     unit_files (w_host t) = unit_files (w_host s) \<and> (\<exists>D. actions = docker_actions D \<and> dk_unit D = module_unit (w_params s))"
  "podman_worker_actions E s = (Ret actions, t) \<Longrightarrow>
     unit_files (w_host t) = unit_files (w_host s) \<and> (\<exists>P. actions = podman_actions P \<and> pm_unit P = module_unit (w_params s))"
  by (auto simp: docker_worker_actions_def podman_worker_actions_def docker_init_def podman_init_def bnd_returns with_params_def
      module_unit_def dest!: keepsD [OF keeps_engine_files])

lemma worker_actions_effect:
  "effect (in_state u) (docker_worker_actions E)" "effect (in_state u) (podman_worker_actions E)"
  unfolding docker_worker_actions_def podman_worker_actions_def by (intro effects)+

lemma reported_state [simp]: "snd (catch_all m (\<lambda>e. bnd (gets f) (\<lambda>r. lift (g e r))) s) = snd (m s)"
proof -
  obtain r t where "m s = (r, t)" by (rule prod.exhaust)
  then show ?thesis by (cases r) (simp_all add: catch_all_def bnd_def lift_def gets_def)
qed

lemma module_body_effect: "in_state (module_unit (w_params s)) s (snd (module_body E s))"
proof -
  let ?u = "module_unit (w_params s)"
  let ?worker = "if dget (w_params s) ''container_engine'' = PStr ''docker'' then docker_worker_actions E else podman_worker_actions E"
  let ?tail = "\<lambda>actions. bnd (run_action actions) (\<lambda>result.
        bnd (gets (\<lambda>s. (w_changed s, w_result s))) (\<lambda>(changed, r).
          lift (with_kwargs [(''changed'', PBool changed), (''result'', PBool result)] r exit_json :: unit outcome)))"
  have tail: "effect (in_state ?u) (?tail actions)" if "?worker s = (Ret actions, t)" for actions t
  proof -
    have acts: "\<forall>(a, m) \<in> set actions. effect (in_state ?u) m"
    proof (cases "dget (w_params s) ''container_engine'' = PStr ''docker''")
      case True
      with that obtain D where "actions = docker_actions D" "dk_unit D = ?u" using worker_actions(1) by fastforce
      then show ?thesis using docker_actions_effect by metis
    next
      case False
      with that obtain P where "actions = podman_actions P" "pm_unit P = ?u" using worker_actions(2) by fastforce
      then show ?thesis using podman_actions_effect by metis
    qed
    show ?thesis by (intro effects run_action_effect [OF acts])
  qed
  obtain r t where run: "?worker s = (r, t)" by (cases "?worker s")
  have "effect (in_state ?u) ?worker" by (intro on_state.branch worker_actions_effect)
  then have "in_state ?u s (snd (?worker s))" unfolding effect_def by (rule spec)
  then have st: "in_state ?u s t" unfolding run by (simp only: snd_conv)
  have "in_state ?u s (snd (bnd ?worker ?tail s))"
  proof (cases r)
    case (Ret actions)
    have "effect (in_state ?u) (?tail actions)" by (rule tail [OF run [unfolded Ret]])
    then have "in_state ?u t (snd (?tail actions t))" unfolding effect_def by (rule spec)
    then have "in_state ?u s (snd (?tail actions t))" by (rule on_state.R_trans [OF st])
    then show ?thesis unfolding bnd_def run Ret by simp
  next
    case (Raise e)
    then show ?thesis using st unfolding bnd_def run by simp
  next
    case (Exit k d)
    then show ?thesis using st unfolding bnd_def run by simp
  qed
  moreover have "snd (module_body E s) = snd (bnd ?worker ?tail s)"
  proof -
    have "bnd (param ''container_engine'') f s = f (dget (w_params s) ''container_engine'') s" for f :: "_ \<Rightarrow> ('a wstate, unit) cmd"
      by (simp add: param_def bnd_def)
    then show ?thesis unfolding module_body_def reported_state by (simp only:)
  qed
  ultimately show ?thesis by simp
qed

lemma main_files:
  "on_files (case generate_module params of Ret args \<Rightarrow> module_unit args | _ \<Rightarrow> None) h (snd (main E params h))"
proof (cases "generate_module params")
  case (Ret args)
  let ?s = "\<lparr>w_params = args, w_changed = False, w_result = [], w_host = h\<rparr>"
  have "in_state (module_unit args) ?s (snd (module_body E ?s))" using module_body_effect [of ?s E] by simp
  then show ?thesis using Ret by (simp add: main_def case_prod_beta)
qed (simp_all add: main_def own_unit_refl)

section \<open>Runs on a host\<close>

text \<open>
  What happens to a host: the module is run with some parameters and some engine (\<open>E\<close> holds the
  clients, which may answer anything), or something else happens to its containers.
\<close>

inductive host_step :: "'w host \<Rightarrow> 'w host \<Rightarrow> bool" where
  run_module: "main E params h = (r, h') \<Longrightarrow> host_step h h'"
| elsewhere: "unit_files h' = unit_files h \<Longrightarrow> host_step h h'"

inductive host_runs :: "'w host \<Rightarrow> 'w host \<Rightarrow> bool" where
  start: "host_runs h h"
| step: "host_runs h h' \<Longrightarrow> host_step h' h'' \<Longrightarrow> host_runs h h''"

definition kolla_path :: "string \<Rightarrow> string" where
  "kolla_path name = sysdir @ ''kolla-'' @ name @ ''-container.service''"

lemma module_unit_name:
  assumes "module_unit args = Some c"
  shows "dget args ''name'' = PStr (sd_name c) \<and> unit_path c = kolla_path (sd_name c)"
proof -
  let ?q = "py_floordiv (dget_or args ''client_timeout'' (PInt 120)) (dget_or args ''restart_retries'' (PInt 10))"
  have init: "systemd_init args = Ret (Some c)"
    using assms by (simp add: module_unit_def split: outcome.splits)
  then have "truthy (dget args ''name'')" by (cases "truthy (dget args ''name'')") (simp_all add: systemd_init_def Let_def)
  with init obtain q where q: "?q = Ret q" by (cases ?q) (simp_all add: systemd_init_def Let_def)
  with init obtain n where n: "dget args ''name'' = PStr n"
    by (cases "dget args ''name''") (simp_all add: systemd_init_def Let_def split: if_splits)
  with init q show ?thesis
    by (auto simp: systemd_init_def Let_def unit_path_def kolla_path_def split: if_splits)
qed

lemma kolla_path_inject [simp]: "kolla_path a = kolla_path b \<longleftrightarrow> a = b"
  by (simp add: kolla_path_def)

lemma module_run_unit:
  assumes "main E params h = (r, h')"
  shows "unit_files h' p = unit_files h p \<or> (\<exists>args c. generate_module params = Ret args \<and> systemd_init args = Ret (Some c)
    \<and> dget args ''name'' = PStr (sd_name c) \<and> p = kolla_path (sd_name c)
    \<and> (unit_files h' p = None \<or> unit_files h' p = Some (rendered_unit c)))"
proof (rule ccontr)
  assume *: "\<not> ?thesis"
  have "on_files (case generate_module params of Ret args \<Rightarrow> module_unit args | _ \<Rightarrow> None) h h'"
    using main_files [of params h E] assms by simp
  with * obtain c where c: "(case generate_module params of Ret args \<Rightarrow> module_unit args | _ \<Rightarrow> None) = Some c"
    "p = unit_path c" "unit_files h' p = None \<or> unit_files h' p = Some (rendered_unit c)"
    unfolding own_unit_def by metis
  then obtain args where args: "generate_module params = Ret args" "module_unit args = Some c"
    by (auto split: outcome.splits)
  then have "systemd_init args = Ret (Some c)" by (auto simp: module_unit_def split: outcome.splits)
  then show False using * args c module_unit_name [OF args(2)] by auto
qed

text \<open>C10: a run of the module touches the unit file of no other container: whatever its action, its
  engine and its end, every file but the one of the container it names stays as it was, and that one
  stays, is gone, or is the rendered unit of the parameters.
\<close>

theorem module_run_own_unit:
  assumes "main E params h = (r, h')" and "unit_files h' p \<noteq> unit_files h p"
  shows "\<exists>args c. generate_module params = Ret args \<and> systemd_init args = Ret (Some c)
    \<and> dget args ''name'' = PStr (sd_name c) \<and> p = kolla_path (sd_name c)
    \<and> (unit_files h' p = None \<or> unit_files h' p = Some (rendered_unit c))"
  using module_run_unit [OF assms(1), of p] assms(2) by blast

text \<open>C11: over any number of runs, with other changes to the containers between them, every unit file of
  the host is the one it started with or the rendered unit of a container whose name its path holds;
  no file outside the paths of Kolla containers is ever touched.
\<close>

theorem host_units_rendered:
  assumes "host_runs h0 h"
  shows "(\<forall>p t. unit_files h p = Some t \<longrightarrow> unit_files h0 p = Some t \<or> (\<exists>c. p = kolla_path (sd_name c) \<and> t = rendered_unit c))
    \<and> (\<forall>p. (\<forall>name. p \<noteq> kolla_path name) \<longrightarrow> unit_files h p = unit_files h0 p)"
  using assms
proof (induction rule: host_runs.induct)
  case (step h0 h h')
  from step.hyps(2) show ?case
  proof (cases rule: host_step.cases)
    case (run_module E params r)
    have "unit_files h' p = unit_files h p \<or> (\<exists>c. p = kolla_path (sd_name c) \<and> (unit_files h' p = None \<or> unit_files h' p = Some (rendered_unit c)))" for p
      using module_run_unit [OF run_module] by blast
    with step.IH show ?thesis by (metis option.distinct(1) option.inject)
  next
    case elsewhere
    with step.IH show ?thesis by simp
  qed
qed simp

text \<open>A host with a unit of the container \<open>nova\<close>, from which it is removed.\<close>

definition nova_removal :: pydict where
  "nova_removal = [(''common_options'', PDict [(''container_engine'', PStr ''docker'')]),
      (''container_engine'', PNone), (''name'', PStr ''nova''), (''action'', PStr ''remove_container'')]"

definition nova_host :: "pyval list host" where
  "nova_host = \<lparr>unit_files = [kolla_path ''nova'' \<mapsto> ''unit'', ''/etc/hosts'' \<mapsto> ''hosts''], world = []\<rparr>"

lemma nova_removed: "unit_files (snd (main sample_env nova_removal nova_host)) (kolla_path ''nova'') = None"
  by code_simp

theorem module_run_own_unit_witness:
  "\<exists>args c. generate_module nova_removal = Ret args \<and> systemd_init args = Ret (Some c)
    \<and> dget args ''name'' = PStr (sd_name c) \<and> kolla_path ''nova'' = kolla_path (sd_name c)"
proof -
  obtain r h where run: "main sample_env nova_removal nova_host = (r, h)"
    by (cases "main sample_env nova_removal nova_host")
  then have "unit_files h (kolla_path ''nova'') \<noteq> unit_files nova_host (kolla_path ''nova'')"
    using nova_removed by (simp add: nova_host_def)
  from module_run_own_unit [OF run this] show ?thesis by blast
qed

theorem host_units_rendered_witness:
  "unit_files (snd (main sample_env nova_removal nova_host)) ''/etc/hosts'' = Some ''hosts''"
proof -
  let ?h = "snd (main sample_env nova_removal nova_host)"
  have "host_runs nova_host ?h"
    by (rule host_runs.step [OF host_runs.start]) (rule host_step.run_module, simp add: prod_eq_iff)
  from host_units_rendered [OF this] have "(\<forall>name. ''/etc/hosts'' \<noteq> kolla_path name) \<longrightarrow>
      unit_files ?h ''/etc/hosts'' = unit_files nova_host ''/etc/hosts''" by blast
  then show ?thesis by (simp add: kolla_path_def sysdir_def nova_host_def)
qed

end
