(* ===== verification/Container_Machine.thy ===== *)
theory Container_Machine
  imports Host_Runs
begin

text \<open>
  An abstract machine that knows of every container only whether it is there and whether it is up, what
  the actions of \<open>kolla_container\<close> promise on it (\<open>lifecycle\<close>), the documented behaviour of systemd on that
  view (\<open>systemd_calls\<close>), and the rules by which commands are shown to keep such promises: triples of a
  precondition, what holds on return, and what holds on failure. The locale \<open>engine_worker\<close> is the contract
  of a worker on that view; \<open>Container_Lifecycle\<close> and \<open>Podman_Lifecycle\<close> interpret it for the two engines.
\<close>

section \<open>The abstract machine\<close>

datatype cstate = Absent | Up | Exited | Other

type_synonym machine = "string \<Rightarrow> cstate"

text \<open>What an action that returns has done to its container, in the state \<open>x\<close> before and \<open>y\<close> after. A container with a unit file is stopped
  through systemd, and \<open>stop_container\<close> does not look at whether systemd has stopped it in time: only
  the engine's own stop (\<open>direct\<close>) is known to have worked.\<close>

definition lifecycle :: "string \<Rightarrow> bool \<Rightarrow> cstate \<Rightarrow> cstate \<Rightarrow> bool" where
  "lifecycle a direct x y \<longleftrightarrow>
     (if a \<in> {''start_container'', ''restart_container''} then y = Up
      else if a = ''stop_container'' then (y = Absent \<longleftrightarrow> x = Absent) \<and> (direct \<longrightarrow> y \<noteq> Up)
      else if a \<in> {''remove_container'', ''stop_and_remove_container''} then y = Absent
      else if a = ''recreate_or_restart_container'' then y = Up \<or> (x \<noteq> Absent \<and> y = x)
      else y = x)"

lemma lifecycle_direct:
  "lifecycle a False x y \<Longrightarrow> (a = ''stop_container'' \<Longrightarrow> direct \<Longrightarrow> y \<noteq> Up) \<Longrightarrow> lifecycle a direct x y"
  by (simp add: lifecycle_def split: if_splits)

section \<open>The laws of systemd\<close>

definition others :: "('w \<Rightarrow> machine) \<Rightarrow> string \<Rightarrow> 'w \<Rightarrow> 'w \<Rightarrow> bool" where
  "others V n w w' \<longleftrightarrow> (\<forall>m. m \<noteq> n \<longrightarrow> V w' m = V w m)"

definition presence :: "('w \<Rightarrow> machine) \<Rightarrow> string \<Rightarrow> 'w \<Rightarrow> 'w \<Rightarrow> bool" where
  "presence V n w w' \<longleftrightarrow> others V n w w' \<and> (V w' n = Absent \<longleftrightarrow> V w n = Absent)"

definition kolla_service :: "string \<Rightarrow> string" where
  "kolla_service n = ''kolla-'' @ n @ ''-container.service''"

text \<open>
  Reloading and enabling unit files leaves the containers alone; what systemd is asked to start or stop,
  and the passing of time, neither creates nor deletes a container (and nobody else acts on the others
  meanwhile); a unit listed as running has its container up.
\<close>

definition systemd_calls :: "'w systemd_api \<Rightarrow> ('w \<Rightarrow> machine) \<Rightarrow> string \<Rightarrow> bool" where
  "systemd_calls A V n \<longleftrightarrow>
     keeps V (mgr_list_units A) \<and> (\<forall>k w. presence V n w (mgr_sleep A k w))
     \<and> (\<forall>files f. effect (presence V n) (mgr_call A files f [PStr (kolla_service n), job_mode]))
     \<and> (\<forall>files args. keeps V (mgr_call A files ''Reload'' args) \<and> keeps V (mgr_call A files ''EnableUnitFiles'' args))
     \<and> (\<forall>w us w'. mgr_list_units A w = (Ret us, w') \<longrightarrow> map_of us (kolla_service n) = Some ''running'' \<longrightarrow> V w n = Up)"

section \<open>Triples\<close>

text \<open>From a state with \<open>P\<close> the command returns \<open>a\<close> in one with \<open>Q a\<close>, or fails in one with \<open>E\<close>.\<close>

definition triple :: "('s \<Rightarrow> bool) \<Rightarrow> ('s, 'a) cmd \<Rightarrow> ('a \<Rightarrow> 's \<Rightarrow> bool) \<Rightarrow> ('s \<Rightarrow> bool) \<Rightarrow> bool" where
  "triple P m Q E \<longleftrightarrow>
     (\<forall>s. P s \<longrightarrow> (case m s of (Ret a, t) \<Rightarrow> Q a t | (Raise e, t) \<Rightarrow> E t | (Exit k d, t) \<Rightarrow> E t))"

named_theorems triples \<open>what the commands do to the abstract machine\<close>

lemma triple_Ret: "triple P m Q E \<Longrightarrow> P s \<Longrightarrow> m s = (Ret a, t) \<Longrightarrow> Q a t"
  by (auto simp: triple_def dest!: spec [where x = s])

lemma triple_fail: "triple P m Q E \<Longrightarrow> P s \<Longrightarrow> m s = (r, t) \<Longrightarrow> \<forall>a. r \<noteq> Ret a \<Longrightarrow> E t"
  by (cases r) (auto simp: triple_def dest!: spec [where x = s])

lemma tripleI:
  assumes "\<And>s a t. P s \<Longrightarrow> m s = (Ret a, t) \<Longrightarrow> Q a t"
    and "\<And>s r t. P s \<Longrightarrow> m s = (r, t) \<Longrightarrow> \<forall>a. r \<noteq> Ret a \<Longrightarrow> E t"
  shows "triple P m Q E"
  using assms by (auto simp: triple_def split: prod.splits outcome.splits)

lemma triple_bnd: "triple P m R E \<Longrightarrow> (\<And>a. triple (R a) (f a) Q E) \<Longrightarrow> triple P (bnd m f) Q E"
  by (rule tripleI) (auto simp: bnd_def dest: triple_Ret triple_fail split: prod.splits outcome.splits)

lemma triple_seqc: "triple P m (\<lambda>_. R) E \<Longrightarrow> triple R m' Q E \<Longrightarrow> triple P (seqc m m') Q E"
  unfolding seqc_def by (rule triple_bnd)

lemma triple_whenc: "(b \<Longrightarrow> triple P m (\<lambda>_. Q) E) \<Longrightarrow> (\<And>s. \<not> b \<Longrightarrow> P s \<Longrightarrow> Q s) \<Longrightarrow> triple P (whenc b m) (\<lambda>_. Q) E"
  by (cases b) (auto simp: triple_def)

lemma triple_if: "(b \<Longrightarrow> triple P m Q E) \<Longrightarrow> (\<not> b \<Longrightarrow> triple P m' Q E) \<Longrightarrow> triple P (if b then m else m') Q E"
  by simp

lemma triple_ret: "(\<And>s. P s \<Longrightarrow> Q a s) \<Longrightarrow> triple P (ret a) Q E"
  by (simp add: triple_def)

lemma triple_raise: "(\<And>s. P s \<Longrightarrow> E s) \<Longrightarrow> triple P (raise e) Q E"
  by (simp add: triple_def)

lemma triple_weaken:
  "triple P' m Q' E \<Longrightarrow> (\<And>s. P s \<Longrightarrow> P' s) \<Longrightarrow> (\<And>a s. Q' a s \<Longrightarrow> Q a s) \<Longrightarrow> triple P m Q E"
  by (fastforce simp: triple_def split: prod.splits outcome.splits)

lemma triple_ex: "(\<And>y. triple (P y) m Q E) \<Longrightarrow> triple (\<lambda>s. \<exists>y. P y s) m Q E"
  by (rule tripleI) (auto dest: triple_Ret triple_fail)

lemma triple_pure: "(A \<Longrightarrow> triple P m Q E) \<Longrightarrow> triple (\<lambda>s. P s \<and> A) m Q E"
  by (auto simp: triple_def)

section \<open>The state as the machine sees it\<close>

text \<open>The worker's parameters name the container, which is detached and has a restart policy.\<close>

definition named :: "pydict \<Rightarrow> pydict" where
  "named p = filter (\<lambda>kv. fst kv = ''name'') p"

definition service_params :: "string \<Rightarrow> pydict \<Rightarrow> bool" where
  "service_params n p \<longleftrightarrow>
     named p = [(''name'', PStr n)] \<and> dget p ''restart_policy'' \<noteq> PStr ''oneshot'' \<and> truthy (dget p ''detach'')"

lemma named_value: "named p = [(''name'', v)] \<Longrightarrow> dget p ''name'' = v"
proof -
  have "map_of p ''name'' = map_of (named p) ''name''" unfolding named_def by (induction p) auto
  then show "named p = [(''name'', v)] \<Longrightarrow> dget p ''name'' = v" by (simp add: dget_def dget_or_def)
qed

lemma service_name: "service_params n p \<Longrightarrow> dget p ''name'' = PStr n"
  by (simp add: service_params_def named_value)

lemma named_other [simp]:
  "k \<noteq> ''name'' \<Longrightarrow> named (AList.update k v p) = named p" "k \<noteq> ''name'' \<Longrightarrow> named (AList.delete k p) = named p"
  unfolding named_def by (induction p) (auto simp: AList.delete_eq)

definition off :: "('w \<Rightarrow> machine) \<Rightarrow> string \<Rightarrow> machine \<Rightarrow> 'w wstate \<Rightarrow> bool" where
  "off V n f s \<longleftrightarrow> service_params n (w_params s) \<and> (\<forall>m. m \<noteq> n \<longrightarrow> V (world (w_host s)) m = f m)"

definition at :: "('w \<Rightarrow> machine) \<Rightarrow> string \<Rightarrow> machine \<Rightarrow> cstate \<Rightarrow> 'w wstate \<Rightarrow> bool" where
  "at V n f x s \<longleftrightarrow> off V n f s \<and> V (world (w_host s)) n = x"

definition kept_params :: "pydict \<Rightarrow> pydict \<times> pyval \<times> pyval" where
  "kept_params p = (named p, dget p ''restart_policy'', dget p ''detach'')"

definition seen :: "('w \<Rightarrow> machine) \<Rightarrow> 'w wstate \<Rightarrow> (pydict \<times> pyval \<times> pyval) \<times> machine" where
  "seen V s = (kept_params (w_params s), V (world (w_host s)))"

lemma kept_params_other [simp]:
  assumes "k \<notin> {''name'', ''restart_policy'', ''detach''}"
  shows "kept_params (AList.update k v p) = kept_params p" "kept_params (AList.delete k p) = kept_params p"
  using assms by (auto simp: kept_params_def dget_def dget_or_def update_conv' delete_conv')

lemma seen_at: "seen V t = seen V s \<Longrightarrow> at V n f x t = at V n f x s" "seen V t = seen V s \<Longrightarrow> off V n f t = off V n f s"
  by (auto simp: seen_def kept_params_def at_def off_def service_params_def)

lemma at_off: "at V n f x s \<Longrightarrow> off V n f s"
  by (simp add: at_def)

lemma triple_keeps [triples]: "keeps (seen V) m \<Longrightarrow> triple (at V n f x) m (\<lambda>_. at V n f x) (off V n f)"
  by (rule tripleI) (metis keepsD seen_at(1), metis keepsD seen_at at_off)

lemma at_param: "triple (at V n f x) (param k) (\<lambda>a s. at V n f x s \<and> a = dget (w_params s) k) (off V n f)"
  by (simp add: triple_def param_def)

lemma at_name: "at V n f x s \<Longrightarrow> dget (w_params s) ''name'' = PStr n"
  by (simp add: at_def off_def service_name)

lemma triple_name: "triple (at V n f x) (g (PStr n)) Q (off V n f) \<Longrightarrow> triple (at V n f x) (bnd (param ''name'') g) Q (off V n f)"
  using at_name [of V n f x] by (simp add: triple_def param_def)

lemma triple_params:
  assumes "\<And>p. service_params n p \<Longrightarrow> triple (at V n f x) (g p) Q (off V n f)"
  shows "triple (at V n f x) (bnd (gets w_params) g) Q (off V n f)"
  unfolding triple_def
proof (intro allI impI)
  fix s assume s: "at V n f x s"
  then have "triple (at V n f x) (g (w_params s)) Q (off V n f)" using assms by (simp add: at_def off_def)
  with s show "case bnd (gets w_params) g s of (Ret a, t) \<Rightarrow> Q a t | (Raise e, t) \<Rightarrow> off V n f t | (Exit k d, t) \<Rightarrow> off V n f t"
    by (simp add: triple_def)
qed

lemma triple_oneshot: "triple (at V n f x) (g False) Q (off V n f) \<Longrightarrow> triple (at V n f x) (bnd oneshot g) Q (off V n f)"
  by (auto simp: triple_def oneshot_def param_def at_def off_def service_params_def bnd_def)

lemma triple_detach:
  "(\<And>v. truthy v \<Longrightarrow> triple (at V n f x) (g v) Q (off V n f)) \<Longrightarrow> triple (at V n f x) (bnd (param ''detach'') g) Q (off V n f)"
  by (auto simp: triple_def param_def at_def off_def service_params_def)

lemma keeps_seen_own [frame]:
  "keeps (seen V) (set_changed b)" "keeps (seen V) (or_changed b)" "keeps (seen V) (set_result k v)"
  unfolding set_changed_def or_changed_def set_result_def
  by (auto intro!: keeps_modify simp: seen_def)

text \<open>A command on the host, the world and the engine.\<close>

lemma at_host: "at V n f x s \<Longrightarrow> others V n (world (w_host s)) (world h) \<Longrightarrow> at V n f (V (world h) n) (s\<lparr>w_host := h\<rparr>)"
  by (simp add: at_def off_def others_def)

lemma keeps_seen_host: "keeps (V \<circ> world) m \<Longrightarrow> keeps (seen V) (on_host m)"
  by (auto simp: keeps_def on_host_def zoom_def seen_def split: prod.splits) (metis snd_conv)

lemma keeps_seen_world: "keeps V m \<Longrightarrow> keeps (V \<circ> world) (on_world m)"
  by (auto simp: keeps_def on_world_def zoom_def split: prod.splits) (metis snd_conv)

lemma keeps_seen_engine [frame]: "keeps V m \<Longrightarrow> keeps (seen V) (on_engine m)"
  unfolding on_engine_def by (intro keeps_seen_host keeps_seen_world)

section \<open>What systemd does\<close>

definition presence_host :: "('w \<Rightarrow> machine) \<Rightarrow> string \<Rightarrow> 'w host \<Rightarrow> 'w host \<Rightarrow> bool" where
  "presence_host V n h h' \<longleftrightarrow> presence V n (world h) (world h')"

interpretation ph: effect_order "presence_host V n" for V n
  by unfold_locales (auto simp: presence_host_def presence_def others_def)

lemma ph_on_world: "effect (presence V n) m \<Longrightarrow> effect (presence_host V n) (on_world m)"
  by (auto simp: effect_def presence_host_def on_world_def zoom_def split: prod.splits) (metis snd_conv)

lemma ph_kept: "keeps (V \<circ> world) m \<Longrightarrow> effect (presence_host V n) m"
  by (auto simp: keeps_def effect_def presence_host_def presence_def others_def)

lemma systemd_quiet:
  assumes "systemd_calls A V n"
  shows "keeps (V \<circ> world) (create_unit_file A c)" "keeps (V \<circ> world) (remove_unit_file A c)"
    "keeps (V \<circ> world) (get_unit_state A c)"
proof -
  have act: "keeps (V \<circ> world) (systemd_reload A c)" "keeps (V \<circ> world) (systemd_enable A c)"
    using assms unfolding systemd_reload_def systemd_enable_def perform_action_def systemd_calls_def
    by (intro frame keeps_seen_world; simp)+
  show "keeps (V \<circ> world) (create_unit_file A c)" "keeps (V \<circ> world) (remove_unit_file A c)"
    "keeps (V \<circ> world) (get_unit_state A c)"
    using assms unfolding create_unit_file_def remove_unit_file_def get_unit_state_def check_unit_change_def check_unit_file_def
      systemd_calls_def
    by (intro frame act keeps_modify keeps_seen_world; simp)+
qed

lemma wait_presence: "systemd_calls A V n \<Longrightarrow> presence_host V n h (snd (wait_loop A c t st e h))"
proof (induction A c t st e h rule: wait_loop.induct)
  case (1 A c t st e h)
  obtain r h1 where g: "get_unit_state A c h = (r, h1)" by (rule prod.exhaust)
  then have h1: "presence_host V n h h1"
    using ph_kept [OF systemd_quiet(3) [OF "1.prems"], of n c] by (metis effect_def snd_conv)
  have "presence_host V n h1 (sleep_host A 5 h1)"
    using "1.prems" by (simp add: systemd_calls_def presence_host_def sleep_host_def)
  with h1 have sl: "presence_host V n h (sleep_host A 5 h1)" by (rule ph.R_trans)
  show ?case
    using h1 "1.IH" [OF g [symmetric] _ _ _ "1.prems"] ph.R_trans [OF sl] g
    by (subst wait_loop.simps) (auto split: outcome.splits)
qed

lemma unit_action_presence:
  assumes "systemd_calls A V n" and service: "sd_service_name c = kolla_service n"
  shows "effect (presence_host V n) (unit_action A c f st)"
proof -
  have "effect (presence_host V n) (wait_for_unit A c v st)" for v
    using wait_presence [OF assms(1)] by (auto simp: wait_for_unit_def effect_def ph.R_refl split: option.splits)
  moreover have "effect (presence_host V n) (perform_action A f [PStr (kolla_service n), job_mode])"
    using assms(1) unfolding perform_action_def systemd_calls_def by (intro ph.steps ph_on_world) simp
  ultimately show ?thesis unfolding unit_action_def service by (intro ph.steps)
qed

lemma unit_action_up:
  assumes "systemd_calls A V n" and "sd_service_name c = kolla_service n" and "unit_action A c f ''running'' h = (Ret True, h')"
  shows "V (world h') n = Up"
proof -
  obtain u where u: "get_unit_state A c u = (Ret (Some ''running''), h')" using unit_action_True [OF assms(3)] by blast
  then obtain us where "mgr_list_units A (world u) = (Ret us, world h')" "map_of us (sd_service_name c) = Some ''running''"
    by (auto simp: get_unit_state_def on_world_def returns_simps)
  then have "V (world u) n = Up" using assms(1,2) unfolding systemd_calls_def by metis
  moreover have "V (world h') = V (world u)" using keepsD [OF systemd_quiet(3) [OF assms(1)] u] by simp
  ultimately show ?thesis by simp
qed

text \<open>A call of the engine that concerns the container, and a command on its unit.\<close>

lemma engine_call:
  assumes "effect (others V n) m" and "\<And>w a w'. m w = (Ret a, w') \<Longrightarrow> R (V w n) (V w' n)"
  shows "triple (at V n f x) (on_engine m) (\<lambda>_ s. \<exists>y. at V n f y s \<and> R x y) (off V n f)"
proof (rule tripleI)
  fix s a t assume s: "at V n f x s" and run: "on_engine m s = (Ret a, t)"
  then obtain w where w: "m (world (w_host s)) = (Ret a, w)" "t = s\<lparr>w_host := (w_host s)\<lparr>world := w\<rparr>\<rparr>"
    by (auto simp: on_engine_def on_host_def on_world_def returns_simps)
  moreover have "others V n (world (w_host s)) w" using assms(1) w by (metis effect_def snd_conv)
  ultimately have "at V n f (V w n) t" using at_host [OF s, of "(w_host s)\<lparr>world := w\<rparr>"] by simp
  moreover have "R x (V w n)" using assms(2) [OF w(1)] s by (simp add: at_def)
  ultimately show "\<exists>y. at V n f y t \<and> R x y" by blast
next
  fix s r t assume s: "at V n f x s" and run: "on_engine m s = (r, t)" "\<forall>a. r \<noteq> Ret a"
  then obtain r' w where w: "m (world (w_host s)) = (r', w)" "t = s\<lparr>w_host := (w_host s)\<lparr>world := w\<rparr>\<rparr>"
    by (auto simp: on_engine_def on_host_def on_world_def zoom_def split: prod.splits)
  moreover have "others V n (world (w_host s)) w" using assms(1) w by (metis effect_def snd_conv)
  ultimately show "off V n f t" using at_host [OF s, of "(w_host s)\<lparr>world := w\<rparr>"] at_off by simp
qed

lemma host_call:
  assumes "effect (presence_host V n) m"
  shows "triple (at V n f x) (on_host m) (\<lambda>a s. \<exists>y. at V n f y s \<and> (y = Absent \<longleftrightarrow> x = Absent) \<and> (\<exists>h. m h = (Ret a, w_host s)))
    (off V n f)"
proof (rule tripleI)
  fix s a t assume s: "at V n f x s" and run: "on_host m s = (Ret a, t)"
  then obtain h where h: "m (w_host s) = (Ret a, h)" "t = s\<lparr>w_host := h\<rparr>" by (auto simp: on_host_def returns_simps)
  have p: "presence V n (world (w_host s)) (world h)" using assms h by (metis effect_def presence_host_def snd_conv)
  then have "at V n f (V (world h) n) t" using at_host [OF s, of h] h by (simp add: presence_def)
  moreover have "V (world h) n = Absent \<longleftrightarrow> x = Absent" using p s by (simp add: presence_def at_def)
  ultimately show "\<exists>y. at V n f y t \<and> (y = Absent \<longleftrightarrow> x = Absent) \<and> (\<exists>h. m h = (Ret a, w_host t))" using h by auto
next
  fix s r t assume s: "at V n f x s" and run: "on_host m s = (r, t)"
  then obtain r' h where h: "m (w_host s) = (r', h)" "t = s\<lparr>w_host := h\<rparr>" by (auto simp: on_host_def zoom_def split: prod.splits)
  then have "others V n (world (w_host s)) (world h)" using assms by (metis effect_def presence_host_def presence_def snd_conv)
  then show "off V n f t" using at_host [OF s, of h] h at_off by blast
qed

lemma systemd_up:
  assumes "systemd_calls A V n" and "sd_service_name c = kolla_service n"
    and action: "action = systemd_start \<or> action = systemd_restart"
  shows "triple (at V n f x) (on_host (action A c)) (\<lambda>b s. \<exists>y. at V n f y s \<and> (b \<longrightarrow> y = Up)) (off V n f)"
proof -
  obtain g where g: "action A c = unit_action A c g ''running''"
    using action by (auto simp: systemd_start_def systemd_restart_def)
  show ?thesis
    unfolding g by (rule triple_weaken [OF host_call [OF unit_action_presence [OF assms(1,2)]]])
      (use unit_action_up [OF assms(1,2)] in \<open>fastforce simp: at_def\<close>)+
qed

lemma triple_off: "(\<And>x. triple (at V n f x) m Q (off V n f)) \<Longrightarrow> triple (off V n f) m Q (off V n f)"
  by (simp add: triple_def at_def)

lemma triple_catch:
  assumes "triple P m Q E" "\<And>st cl tx. triple E (h st cl tx) Q E"
  shows "triple P (catch_api m h) Q E"
proof -
  have err: "E t" if "P s" "m s = (Raise (APIError st cl tx), t)" for s st cl tx t
    using triple_fail [OF assms(1) that] by simp
  show ?thesis
  proof (rule tripleI)
    fix s a t assume "P s" "catch_api m h s = (Ret a, t)"
    then show "Q a t" using triple_Ret [OF assms(1)] triple_Ret [OF assms(2)] err by (metis catch_api_returns)
  next
    fix s r t assume s: "P s" and run: "catch_api m h s = (r, t)" and r: "\<forall>a. r \<noteq> Ret a"
    show "E t"
    proof (cases "\<exists>st cl tx u. m s = (Raise (APIError st cl tx), u)")
      case True
      then obtain st cl tx u where u: "m s = (Raise (APIError st cl tx), u)" by blast
      then have "h st cl tx u = (r, t)" using run by simp
      with r show ?thesis using triple_fail [OF assms(2) err [OF s u]] by blast
    next
      case False
      then have "m s = (r, t)" using run by (auto simp: catch_api_def split: prod.splits outcome.splits exn.splits)
      with r show ?thesis using triple_fail [OF assms(1) s] by blast
    qed
  qed
qed

lemmas still = triple_bnd [OF triple_keeps] triple_seqc [OF triple_keeps]


abbreviation same_presence :: "('w \<Rightarrow> machine) \<Rightarrow> string \<Rightarrow> machine \<Rightarrow> cstate \<Rightarrow> 'w wstate \<Rightarrow> bool" where
  "same_presence V n f x s \<equiv> \<exists>y. at V n f y s \<and> (y = Absent \<longleftrightarrow> x = Absent)"

abbreviation up_or_same :: "('w \<Rightarrow> machine) \<Rightarrow> string \<Rightarrow> machine \<Rightarrow> cstate \<Rightarrow> 'w wstate \<Rightarrow> bool" where
  "up_or_same V n f x s \<equiv> \<exists>y. at V n f y s \<and> (y = Up \<or> (x \<noteq> Absent \<and> y = x))"

lemma triple_pair: "(\<And>a b. triple P (g a b) Q E) \<Longrightarrow> triple P (case v of (a, b) \<Rightarrow> g a b) Q E"
  by (cases v) simp

lemma triple_lift:
  "(\<And>a. r = Ret a \<Longrightarrow> triple (at V n f x) (g a) Q (off V n f)) \<Longrightarrow> triple (at V n f x) (bnd (lift r) g) Q (off V n f)"
  by (cases r) (simp_all, simp_all add: triple_def bnd_def at_off)

lemma no_result_triple: "triple P m (\<lambda>_. Q) E \<Longrightarrow> triple P (no_result m) (\<lambda>_. Q) E"
  unfolding no_result_def by (rule triple_bnd, assumption) (rule triple_ret)

text \<open>Actions that keep the abstract state, and actions after which it is known.\<close>

abbreviation does :: "string \<Rightarrow> ('w \<Rightarrow> machine) \<Rightarrow> string \<Rightarrow> machine \<Rightarrow> cstate \<Rightarrow> 'w wstate \<Rightarrow> bool" where
  "does a V n f x s \<equiv> \<exists>y. at V n f y s \<and> lifecycle a False x y"

lemma quiet_action:
  "keeps (seen V) m \<Longrightarrow> lifecycle a False x x \<Longrightarrow> triple (at V n f x) m (\<lambda>_. does a V n f x) (off V n f)"
  by (rule triple_weaken [OF triple_keeps]) blast+

lemma sure_action:
  "triple Q m (\<lambda>_. at V n f z) (off V n f) \<Longrightarrow> lifecycle a False x z \<Longrightarrow> triple Q m (\<lambda>_. does a V n f x) (off V n f)"
  by (erule triple_weaken) blast+

lemma up_action: "triple Q m (\<lambda>_. at V n f Up) (off V n f) \<Longrightarrow> triple Q m (\<lambda>_. up_or_same V n f x) (off V n f)"
  by (erule triple_weaken) blast+

text \<open>What the triples say of a run.\<close>

lemma action_run:
  assumes "service_params n (w_params s)" and run: "m s = (r, t)"
    and tr: "\<And>f x. triple (at V n f x) m (\<lambda>_. does a V n f x) (off V n f)"
  shows "(\<forall>k. k \<noteq> n \<longrightarrow> V (world (w_host t)) k = V (world (w_host s)) k)
    \<and> (\<forall>b. r = Ret b \<longrightarrow> lifecycle a False (V (world (w_host s)) n) (V (world (w_host t)) n))"
proof -
  let ?f = "V (world (w_host s))"
  have s: "at V n ?f (?f n) s" using assms(1) by (simp add: at_def off_def)
  have "off V n ?f t" using triple_Ret [OF tr s] triple_fail [OF tr s run] run by (cases r) (auto simp: at_def)
  moreover have "does a V n ?f (?f n) t" if "r = Ret b" for b using triple_Ret [OF tr s] run that by blast
  ultimately show ?thesis by (auto simp: at_def off_def)
qed

text \<open>The unit of the worker that the module builds for a container.\<close>

lemma module_unit_service:
  assumes "dget args ''name'' = PStr n" and "systemd_init args = Ret u" and "n \<noteq> []"
  shows "\<exists>c. u = Some c \<and> sd_service_name c = kolla_service n \<and> unit_path c = kolla_path n"
  using assms
  by (auto simp: systemd_init_def Let_def unit_path_def kolla_path_def kolla_service_def split: if_splits)

section \<open>What an engine's worker promises\<close>

text \<open>
  The contract that the actions of both workers rest on: \<open>check_container\<close> shows the container, stopping it
  leaves it there or not as it was, removing it leaves it absent, and creating it touches no other. From it
  follow, once for the two engines, \<open>stop_and_remove_container\<close>, the part of \<open>ensure_container\<close> after the
  comparison, and the way a container is replaced. The contract is that of a worker which is \<open>ready\<close>: its
  engine obeys its laws and its unit is the one of the container.
\<close>

locale engine_worker =
  fixes ready :: bool and V :: "'w \<Rightarrow> machine" and n :: string
    and display :: "cstate \<Rightarrow> 'd \<Rightarrow> bool" and present :: "'d \<Rightarrow> bool"
    and check :: "('w wstate, 'd) cmd" and stop :: "('w wstate, unit) cmd" and remove :: "('w wstate, unit) cmd"
    and create :: "('w wstate, 'c) cmd"
  assumes present_shown: "display x d \<Longrightarrow> present d \<longleftrightarrow> x \<noteq> Absent"
    and check_shows: "ready \<Longrightarrow> triple (at V n f x) check (\<lambda>d s. at V n f x s \<and> display x d) (off V n f)"
    and stop_presence: "ready \<Longrightarrow> triple (at V n f x) stop (\<lambda>_. same_presence V n f x) (off V n f)"
    and remove_absent: "ready \<Longrightarrow> triple (at V n f x) remove (\<lambda>_. at V n f Absent) (off V n f)"
    and create_alone: "ready \<Longrightarrow> triple (at V n f x) create (\<lambda>_ s. \<exists>y. at V n f y s) (off V n f)"
begin

lemmas checked = triple_bnd [OF check_shows triple_pure]

lemma replace:
  assumes "ready" and "triple (at V n f Absent) m Q (off V n f)"
  shows "triple (at V n f x) (seqc stop (seqc remove m)) Q (off V n f)"
  by (rule triple_seqc [OF stop_presence [OF assms(1)]], rule triple_ex, rule triple_pure,
      rule triple_seqc [OF remove_absent [OF assms(1)] assms(2)])

lemma stop_remove:
  assumes "ready"
  shows "triple (at V n f x) (bnd check (\<lambda>d. whenc (present d) (seqc stop remove))) (\<lambda>_. at V n f Absent) (off V n f)"
proof (rule checked [OF assms], rule triple_whenc)
  show "triple (at V n f x) (seqc stop remove) (\<lambda>_. at V n f Absent) (off V n f)"
    by (rule triple_seqc [OF stop_presence [OF assms]], rule triple_ex, rule triple_pure, rule remove_absent [OF assms])
qed (auto dest: present_shown)

lemma checks: "ready \<Longrightarrow> triple (at V n f y) check (\<lambda>d s. \<exists>y. at V n f y s \<and> display y d) (off V n f)"
  by (rule triple_weaken [OF check_shows]) blast+

lemma ensured:
  assumes "ready" and "\<And>d. keeps (seen V) (differs d)"
  shows "triple (at V n f x) (bnd check (\<lambda>d0. bnd (differs d0) (\<lambda>b.
      bnd (if b then seqc stop (seqc remove check) else ret d0) (\<lambda>d. if \<not> present d then seqc create check else ret d))))
    (\<lambda>d s. \<exists>y. at V n f y s \<and> display y d) (off V n f)"
proof (rule checked [OF assms(1)], rule still(1) [OF assms(2)])
  let ?Q = "\<lambda>d s. \<exists>y. at V n f y s \<and> display y d"
  have made: "triple (at V n f y) (seqc create check) ?Q (off V n f)" for y
    unfolding seqc_def by (rule triple_bnd [OF create_alone [OF assms(1)]], rule triple_ex, rule checks [OF assms(1)])
  show "triple (at V n f x) (bnd (if b then seqc stop (seqc remove check) else ret d0)
      (\<lambda>d. if \<not> present d then seqc create check else ret d)) ?Q (off V n f)" if "display x d0" for d0 b
  proof (rule triple_bnd [where R = ?Q])
    show "triple (at V n f x) (if b then seqc stop (seqc remove check) else ret d0) ?Q (off V n f)"
      using that by (auto intro!: triple_if replace [OF assms(1)] checks [OF assms(1)] triple_ret)
    show "triple (?Q d) (if \<not> present d then seqc create check else ret d) ?Q (off V n f)" for d
      by (rule triple_ex, rule triple_pure, rule triple_if, rule made, rule triple_ret) blast
  qed
qed

end

section \<open>A machine that computes\<close>

text \<open>A world that is a list of containers and their states, and a systemd that starts and stops one of them.\<close>

type_synonym lab = "(string \<times> cstate) list"

definition lab_view :: "lab \<Rightarrow> machine" where
  "lab_view w m = (case map_of w m of None \<Rightarrow> Absent | Some x \<Rightarrow> x)"

definition lab_set :: "pyval \<Rightarrow> cstate \<Rightarrow> (lab, unit) cmd" where
  "lab_set v x = (case v of PStr m \<Rightarrow> modify (\<lambda>w. if lab_view w m = Absent then w else AList.update m x w) | _ \<Rightarrow> raise TypeError)"

definition lab_systemd :: "string \<Rightarrow> lab systemd_api" where
  "lab_systemd n =
    \<lparr>mgr_call = (\<lambda>files f args. bnd (gets (\<lambda>w. lab_view w n)) (\<lambda>x. whenc (x \<noteq> Absent)
        (if f = ''StartUnit'' \<or> f = ''RestartUnit'' then lab_set (PStr n) Up
         else whenc (f = ''StopUnit'') (lab_set (PStr n) Exited)))),
     mgr_list_units = gets (\<lambda>w. [(kolla_service n, if lab_view w n = Up then ''running'' else ''dead'')]),
     mgr_sleep = (\<lambda>k w. w)\<rparr>"

lemma lab_view_update [simp]: "lab_view (AList.update m x w) k = (if k = m then x else lab_view w k)"
  by (simp add: lab_view_def update_conv')

lemma lab_others: "effect (others lab_view n) (lab_set (PStr n) x)"
  by (auto simp: effect_def others_def lab_set_def)

lemma lab_systemd_laws: "systemd_calls (lab_systemd n) lab_view n"
  unfolding systemd_calls_def
  by (auto simp: lab_systemd_def effect_def keeps_def presence_def others_def lab_set_def whenc_def kolla_service_def)

end
