(* ===== verification/Container_Lifecycle.thy ===== *)
theory Container_Lifecycle
  imports Container_Machine
begin

text \<open>
  What the actions of the Docker worker (\<open>kolla_docker_worker.py\<close>) promise, on an abstract machine that
  knows of every container only whether it is there and whether it is up. \<open>docker_laws\<close> states the
  documented behaviour of the calls of Docker and systemd on that view; under it every action refines
  its specification \<open>lifecycle\<close>, and no other container is affected, however the run ends.
\<close>

section \<open>The laws of the engine\<close>

text \<open>What the list of containers shows of a container.\<close>

definition shown :: "cstate \<Rightarrow> pyval \<Rightarrow> bool" where
  "shown x d \<longleftrightarrow>
     (if x = Absent then d = PNone
      else truthy d \<and> status_starts d ''Up '' = Ret (x = Up) \<and> status_starts d ''Exited '' = Ret (x = Exited))"

definition quiet_calls :: "'w docker_client \<Rightarrow> ('w \<Rightarrow> machine) \<Rightarrow> bool" where
  "quiet_calls C V \<longleftrightarrow>
     (\<forall>kw. keeps V (dc_images C kw)) \<and> keeps V (dc_volumes C) \<and> keeps V (dc_containers C)
     \<and> (\<forall>x. keeps V (dc_inspect_container C x)) \<and> (\<forall>x cmd. keeps V (dc_exec_create C x cmd))
     \<and> (\<forall>x. keeps V (dc_exec_start C x)) \<and> (\<forall>x. keeps V (dc_exec_inspect C x))
     \<and> (\<forall>kw. keeps V (dc_login C kw)) \<and> (\<forall>x t. keeps V (dc_pull C x t))
     \<and> (\<forall>x. keeps V (dc_create_volume C x)) \<and> (\<forall>x. keeps V (dc_remove_volume C x))
     \<and> (\<forall>x. keeps V (dc_remove_image C x))"

definition container_calls :: "'w docker_client \<Rightarrow> ('w \<Rightarrow> machine) \<Rightarrow> string \<Rightarrow> bool" where
  "container_calls C V n \<longleftrightarrow>
     effect (others V n) (dc_remove_container C (PStr n)) \<and> effect (others V n) (dc_start C (PStr n))
     \<and> (\<forall>t. effect (presence V n) (dc_stop C (PStr n) t))
     \<and> (\<forall>opts. dget opts ''name'' = PStr n \<longrightarrow> effect (others V n) (dc_create_container C opts))
     \<and> (\<forall>w cs w'. dc_containers C w = (Ret cs, w') \<longrightarrow>
          (\<exists>xs d. cs = PList xs \<and> find_container (''/'' @ n) xs = Ret d \<and> shown (V w n) d))
     \<and> (\<forall>w u w'. dc_remove_container C (PStr n) w = (Ret u, w') \<longrightarrow> V w' n = Absent)
     \<and> (\<forall>t w u w'. dc_stop C (PStr n) t w = (Ret u, w') \<longrightarrow> V w' n \<noteq> Up)"

text \<open>
  The calls that read, log in, pull, or work on images and volumes leave all containers alone, as do
  systemd's reload and enabling of unit files; the calls on a container affect no other one; what
  systemd is asked to start or stop, and the passing of time, neither creates nor deletes a container
  (and nobody else acts on the others meanwhile). The container list shows the container as it is; a
  unit listed as running has its container up; what was removed is gone and what the engine stopped is
  not up.
\<close>

definition docker_laws :: "'w docker \<Rightarrow> ('w \<Rightarrow> machine) \<Rightarrow> string \<Rightarrow> bool" where
  "docker_laws D V n \<longleftrightarrow>
     quiet_calls (dk_client D) V \<and> container_calls (dk_client D) V n \<and> systemd_calls (dk_systemd D) V n"

section \<open>The calls of the Docker worker\<close>

lemma quiet_reads:
  assumes "docker_laws D V n"
  shows "docker_reads (seen V) D"
  using assms by unfold_locales (auto simp: docker_laws_def quiet_calls_def reads_keep_def intro!: keeps_seen_engine)

lemmas quiet = docker_reads.keeps_check_image [OF quiet_reads] docker_reads.keeps_check_volume [OF quiet_reads]
  docker_reads.keeps_check_container [OF quiet_reads] docker_reads.keeps_get_container_info [OF quiet_reads]
  docker_reads.keeps_get_image_id [OF quiet_reads] docker_reads.keeps_compare_image [OF quiet_reads]
  docker_reads.keeps_container_differs [OF quiet_reads]

lemma quiet_images:
  assumes "docker_laws D V n"
  shows "keeps (seen V) (docker_pull_image D)" "keeps (seen V) (docker_ensure_image D)" "keeps (seen V) (docker_remove_image D)"
    "keeps (seen V) (docker_create_volume D)" "keeps (seen V) (docker_remove_volume D)"
    "keeps (seen V) (docker_compare_config D)"
proof -
  have "quiet_calls (dk_client D) V" using assms by (simp add: docker_laws_def)
  then have calls: "keeps (seen V) (on_engine (dc_login (dk_client D) kw))" "keeps (seen V) (on_engine (dc_pull (dk_client D) i t))"
    "keeps (seen V) (on_engine (dc_create_volume (dk_client D) v))" "keeps (seen V) (on_engine (dc_remove_volume (dk_client D) v))"
    "keeps (seen V) (on_engine (dc_remove_image (dk_client D) v))" "keeps (seen V) (on_engine (dc_exec_create (dk_client D) v cmd))"
    "keeps (seen V) (on_engine (dc_exec_start (dk_client D) v))" "keeps (seen V) (on_engine (dc_exec_inspect (dk_client D) v))"
    for kw i t v cmd by (auto simp: quiet_calls_def intro!: keeps_seen_engine)
  show pull: "keeps (seen V) (docker_pull_image D)"
    unfolding docker_pull_image_def by (intro frame calls quiet [OF assms]) (auto intro!: frame calls quiet [OF assms])
  show "keeps (seen V) (docker_ensure_image D)"
    unfolding docker_ensure_image_def by (intro frame quiet [OF assms] pull)
  show "keeps (seen V) (docker_remove_image D)" "keeps (seen V) (docker_create_volume D)" "keeps (seen V) (docker_remove_volume D)"
    unfolding docker_remove_image_def docker_create_volume_def docker_remove_volume_def
    by (intro frame calls quiet [OF assms])+
  show "keeps (seen V) (docker_compare_config D)"
    unfolding docker_compare_config_def by (intro frame calls) (auto intro!: frame calls split: option.splits prod.splits)
qed

text \<open>What \<open>check_container\<close> answers shows the state of the container.\<close>

lemma check_container_shows:
  assumes "docker_laws D V n"
  shows "triple (at V n f x) (docker_check_container D) (\<lambda>d s. at V n f x s \<and> shown x d) (off V n f)"
proof (rule tripleI)
  fix s d t assume s: "at V n f x s" and run: "docker_check_container D s = (Ret d, t)"
  from run s obtain cs h where "dc_containers (dk_client D) (world (w_host s)) = (Ret cs, h)"
    and "obind (py_iter cs) (find_container (''/'' @ n)) = Ret d"
    by (auto simp: docker_check_container_def param_def at_def off_def service_name on_engine_def on_host_def on_world_def
        returns_simps)
  then have "shown (V (world (w_host s)) n) d" using assms unfolding docker_laws_def container_calls_def by fastforce
  then show "at V n f x t \<and> shown x d"
    using s triple_Ret [OF triple_keeps [OF quiet(3) [OF assms]] s run] by (simp add: at_def)
next
  fix s r t assume "at V n f x s" "docker_check_container D s = (r, t)" "\<forall>a. r \<noteq> Ret a"
  then show "off V n f t" by (rule triple_fail [OF triple_keeps [OF quiet(3) [OF assms]]])
qed

section \<open>Removing and stopping\<close>

lemma calls:
  assumes "docker_laws D V n"
  shows "container_calls (dk_client D) V n" "systemd_calls (dk_systemd D) V n"
  using assms by (simp_all add: docker_laws_def)

lemma unit_quiet:
  assumes "docker_laws D V n" and "dk_unit D = Some c"
  shows "keeps (seen V) (docker_unit D create_unit_file)" "keeps (seen V) (docker_unit D remove_unit_file)"
    "keeps (seen V) (docker_unit D (\<lambda>api. check_unit_file))"
  using systemd_quiet [OF calls(2) [OF assms(1)]] unfolding docker_unit_run [OF assms(2)] check_unit_file_def
  by (auto intro!: keeps_seen_host frame)

lemmas check = triple_bnd [OF check_container_shows triple_pure]
lemma do_remove:
  assumes laws: "docker_laws D V n" and unit: "dk_unit D = Some c"
  shows "triple (at V n f x) (docker_do_remove D) (\<lambda>_. at V n f Absent) (off V n f)"
  unfolding docker_do_remove_def
proof (rule triple_catch)
  have gone: "triple (at V n f y) (on_engine (dc_remove_container (dk_client D) (PStr n))) (\<lambda>_. at V n f Absent) (off V n f)" for y
    by (rule triple_weaken [OF engine_call [where R = "\<lambda>_ z. z = Absent"]])
      (use calls(1) [OF laws] in \<open>auto simp: container_calls_def\<close>)
  show "triple (at V n f x) (bnd (param ''name'') (\<lambda>name. seqc (on_engine (dc_remove_container (dk_client D) name))
      (seqc (docker_unit D remove_unit_file) (ret ())))) (\<lambda>_. at V n f Absent) (off V n f)"
    by (rule triple_name, rule triple_seqc [OF gone], rule still [OF unit_quiet(2) [OF assms]]) (rule triple_ret)
next
  fix st cl tx
  show "triple (off V n f) (bnd (docker_check_container D) (\<lambda>c. if truthy c then raise (APIError st cl tx) else ret ()))
      (\<lambda>_. at V n f Absent) (off V n f)"
    by (rule triple_off, rule check [OF laws], rule triple_if)
      (auto intro!: triple_ret triple_raise simp: at_off shown_def split: if_splits)
qed

lemma remove:
  assumes laws: "docker_laws D V n" and unit: "dk_unit D = Some c"
  shows "triple (at V n f x) (docker_remove_container D) (\<lambda>_. at V n f Absent) (off V n f)"
  unfolding docker_remove_container_def
  by (rule still [OF unit_quiet(2) [OF assms]], rule still [OF keeps_seen_own(2)], rule check [OF laws], rule triple_whenc)
    (rule still [OF keeps_seen_own(1)], rule do_remove [OF assms], auto simp: shown_def split: if_splits)

lemma engine_stop:
  assumes "docker_laws D V n"
  shows "triple (at V n f x) (on_engine (dc_stop (dk_client D) (PStr n) t))
      (\<lambda>_ s. \<exists>y. at V n f y s \<and> y \<noteq> Up \<and> (y = Absent \<longleftrightarrow> x = Absent)) (off V n f)"
proof -
  have stop: "effect (presence V n) (dc_stop (dk_client D) (PStr n) t)"
    "\<And>w u w'. dc_stop (dk_client D) (PStr n) t w = (Ret u, w') \<Longrightarrow> V w' n \<noteq> Up"
    using calls(1) [OF assms] by (auto simp: container_calls_def)
  have "V w' n = Absent \<longleftrightarrow> V w n = Absent" if "dc_stop (dk_client D) (PStr n) t w = (Ret u, w')" for w u w'
    using stop(1) that by (metis effect_def presence_def snd_conv)
  moreover have "effect (others V n) (dc_stop (dk_client D) (PStr n) t)" using stop(1) by (simp add: effect_def presence_def)
  ultimately show ?thesis
    using stop(2) engine_call [where R = "\<lambda>x y. y \<noteq> Up \<and> (y = Absent \<longleftrightarrow> x = Absent)"] by blast
qed

lemma stop:
  assumes laws: "docker_laws D V n" and unit: "dk_unit D = Some c" and service: "sd_service_name c = kolla_service n"
  shows "triple (at V n f x) (docker_stop_container D) (\<lambda>_. same_presence V n f x) (off V n f)"
  unfolding docker_stop_container_def
proof (rule triple_name, rule still [OF keeps_oneshot(2)], rule check [OF laws], rule triple_if)
  fix t container
  assume "\<not> truthy container" "shown x container"
  show "triple (at V n f x) (bnd (param ''ignore_missing'') (\<lambda>ignore_missing.
      whenc (\<not> truthy ignore_missing) (lift (fail_json (no_such_container (PStr n) '' to stop''))))) (\<lambda>_. same_presence V n f x) (off V n f)"
    by (intro still keeps_param triple_whenc) (auto simp: triple_def fail_json_def at_off)
next
  fix t container
  assume "shown x container" "\<not> \<not> truthy container"
  show "triple (at V n f x) (bnd (lift (status_starts container ''Exited '')) (\<lambda>exited. whenc (\<not> exited)
      (seqc (set_changed True) (bnd (docker_unit D (\<lambda>api. check_unit_file)) (\<lambda>unit_file.
         if \<not> unit_file then on_engine (dc_stop (dk_client D) (PStr n) t)
         else seqc (docker_unit D systemd_stop) (ret ())))))) (\<lambda>_. same_presence V n f x) (off V n f)"
  proof (intro still(1) [OF keeps_basic(3)] triple_whenc still(2) [OF keeps_seen_own(1)] still(1) [OF unit_quiet(3) [OF laws unit]] triple_if)
    show "triple (at V n f x) (on_engine (dc_stop (dk_client D) (PStr n) t)) (\<lambda>_. same_presence V n f x) (off V n f)"
      by (rule triple_weaken [OF engine_stop [OF laws]]) blast+
    show "triple (at V n f x) (seqc (docker_unit D systemd_stop) (ret ())) (\<lambda>_. same_presence V n f x) (off V n f)"
      unfolding docker_unit_run [OF unit] systemd_stop_def
      by (rule triple_seqc [where R = "same_presence V n f x"], rule triple_weaken [OF host_call [OF unit_action_presence [OF calls(2) [OF laws] service]]])
        (blast intro: triple_ret)+
  qed blast
qed

section \<open>Creating and starting\<close>

lemma keeps_inject_seen: "keeps (seen V) inject_env_var"
  unfolding inject_env_var_def
  by (intro frame) (auto intro!: frame keeps_modify simp: seen_def Let_def split: pyval.splits)

lemma keeps_build_options: "keeps (seen V) (docker_build_container_options D)"
  unfolding docker_build_container_options_def format_env_vars_def
  by (intro frame) (auto intro!: frame keeps_inject_seen simp: Let_def split: prod.splits option.splits)

lemma healthcheck_only: "parse_healthcheck v = Ret (Some h) \<Longrightarrow> \<exists>hc. h = [(''healthcheck'', hc)]"
  by (auto simp: parse_healthcheck_def Let_def unsupported_exit_def fail_json_def split: if_splits)

lemma triple_healthcheck:
  "(\<And>h. h = None \<or> (\<exists>hc. h = Some [(''healthcheck'', hc)]) \<Longrightarrow> triple (at V n f x) (g h) Q (off V n f))
    \<Longrightarrow> triple (at V n f x) (bnd (lift (parse_healthcheck v)) g) Q (off V n f)"
  by (rule triple_lift) (metis healthcheck_only not_None_eq)

lemma build_options:
  "triple (at V n f x) (docker_build_container_options D) (\<lambda>opts s. at V n f x s \<and> dget opts ''name'' = PStr n) (off V n f)"
  unfolding docker_build_container_options_def format_env_vars_def Let_def
  by (rule still, intro frame, rule triple_pair, intro triple_params triple_healthcheck triple_ret still frame keeps_inject_seen)
    (auto simp: dget_def dget_or_def dict_update_def dest: service_name)

lemma create:
  assumes laws: "docker_laws D V n" and unit: "dk_unit D = Some c"
  shows "triple (at V n f x) (docker_create_container D) (\<lambda>_ s. \<exists>y. at V n f y s) (off V n f)"
proof -
  have engine: "triple (at V n f x) (on_engine (dc_create_container (dk_client D) opts)) (\<lambda>_ s. \<exists>y. at V n f y s) (off V n f)"
    if "dget opts ''name'' = PStr n" for opts
    by (rule triple_weaken [OF engine_call [where R = "\<lambda>_ _. True"]]) (use that calls(1) [OF laws] in \<open>auto simp: container_calls_def\<close>)
  show ?thesis
    unfolding docker_create_container_def
    by (rule still(2) [OF keeps_seen_own(1)], rule triple_bnd [OF build_options triple_pure], rule triple_seqc [OF engine triple_ex], assumption,
        rule triple_oneshot, rule triple_whenc, rule still(1) [OF unit_quiet(1) [OF assms]],
        rule triple_weaken [OF triple_keeps [OF keeps_seen_own(2)]]) blast+
qed

lemma unit_up:
  assumes laws: "docker_laws D V n" and unit: "dk_unit D = Some c" and service: "sd_service_name c = kolla_service n"
    and action: "action = systemd_start \<or> action = systemd_restart"
  shows "triple (at V n f x) (docker_unit D action) (\<lambda>b s. \<exists>y. at V n f y s \<and> (b \<longrightarrow> y = Up)) (off V n f)"
  unfolding docker_unit_run [OF unit] using action by (rule systemd_up [OF calls(2) [OF laws] service])

text \<open>Either systemd has shown the unit running or the module fails.\<close>

lemma up_or_fail:
  assumes laws: "docker_laws D V n" and unit: "dk_unit D = Some c" and service: "sd_service_name c = kolla_service n"
    and action: "action = systemd_start \<or> action = systemd_restart"
  shows "triple (at V n f x) (seqc (docker_unit D create_unit_file) (bnd (docker_unit D action) (\<lambda>started.
      whenc (\<not> started) (bnd (docker_check_container D) (\<lambda>c. lift (fail_changed ''Container timed out'' c))))))
    (\<lambda>_. at V n f Up) (off V n f)"
proof (rule still(2) [OF unit_quiet(1) [OF laws unit]], rule triple_bnd [OF unit_up [OF assms]], rule triple_ex, rule triple_whenc)
  fix started y assume "\<not> started"
  show "triple (\<lambda>s. at V n f y s \<and> (started \<longrightarrow> y = Up)) (bnd (docker_check_container D) (\<lambda>c. lift (fail_changed ''Container timed out'' c)))
      (\<lambda>_. at V n f Up) (off V n f)"
    by (rule triple_pure, rule check [OF laws]) (auto simp: triple_def at_off split: outcome.splits)
qed auto

text \<open>The worker meets the contract, and what follows from it.\<close>

definition docker_ready :: "'w docker \<Rightarrow> ('w \<Rightarrow> machine) \<Rightarrow> string \<Rightarrow> bool" where
  "docker_ready D V n \<longleftrightarrow> docker_laws D V n \<and> (\<exists>c. dk_unit D = Some c \<and> sd_service_name c = kolla_service n)"

lemma shown_present: "shown x d \<Longrightarrow> truthy d \<longleftrightarrow> x \<noteq> Absent"
  by (auto simp: shown_def split: if_splits)

interpretation docker_engine: engine_worker "docker_ready D V n" V n shown truthy "docker_check_container D"
  "docker_stop_container D" "docker_remove_container D" "docker_create_container D" for D V n
  unfolding docker_ready_def
  by unfold_locales (rule shown_present, auto intro: check_container_shows stop remove create)

lemma ready: "docker_laws D V n \<Longrightarrow> dk_unit D = Some c \<Longrightarrow> sd_service_name c = kolla_service n \<Longrightarrow> docker_ready D V n"
  by (auto simp: docker_ready_def)

lemma stop_and_remove: "docker_ready D V n \<Longrightarrow>
    triple (at V n f x) (docker_stop_and_remove_container D) (\<lambda>_. at V n f Absent) (off V n f)"
  unfolding docker_stop_and_remove_container_def by (rule docker_engine.stop_remove)

lemma ensure:
  assumes "docker_ready D V n"
  shows "triple (at V n f x) (docker_ensure_container D) (\<lambda>d s. \<exists>y. at V n f y s \<and> shown y d) (off V n f)"
proof -
  have laws: "docker_laws D V n" using assms by (simp add: docker_ready_def)
  show ?thesis
    unfolding docker_ensure_container_def
    by (rule still(1) [OF quiet(1) [OF laws]], rule still(2), intro frame quiet_images [OF laws], rule docker_engine.ensured [OF assms])
      (intro frame quiet [OF laws])
qed

lemma bring_up:
  assumes laws: "docker_laws D V n" and unit: "dk_unit D = Some c" and service: "sd_service_name c = kolla_service n"
    and "shown x d"
  shows "triple (at V n f x) (docker_bring_up D d) (\<lambda>_. at V n f Up) (off V n f)"
  unfolding docker_bring_up_def
proof (rule triple_lift, rule triple_whenc)
  fix up
  show "triple (at V n f x) (seqc (set_changed True) (bnd oneshot (\<lambda>once.
      if once then bnd (param ''name'') (\<lambda>name. on_engine (dc_start (dk_client D) name))
      else seqc (docker_unit D create_unit_file) (bnd (docker_unit D systemd_start) (\<lambda>started.
        whenc (\<not> started) (bnd (docker_check_container D) (\<lambda>c. lift (fail_changed ''Container timed out'' c))))))))
      (\<lambda>_. at V n f Up) (off V n f)"
    by (rule still(2) [OF keeps_seen_own(1)], rule triple_oneshot) (use up_or_fail [OF laws unit service] in simp)
next
  fix up s
  assume "status_starts d ''Up '' = Ret up" "\<not> \<not> up" "at V n f x s"
  then show "at V n f Up s" using \<open>shown x d\<close> by (auto simp: shown_def status_starts_def split: if_splits)
qed

lemma start:
  assumes laws: "docker_laws D V n" and unit: "dk_unit D = Some c" and service: "sd_service_name c = kolla_service n"
  shows "triple (at V n f x) (docker_start_container D) (\<lambda>_. at V n f Up) (off V n f)"
  unfolding docker_start_container_def
  by (rule triple_bnd [OF ensure [OF ready [OF assms]]], rule triple_ex, rule triple_pure, rule triple_seqc [OF bring_up [OF assms]], assumption,
      rule triple_detach) (simp add: triple_ret)

lemma restart:
  assumes laws: "docker_laws D V n" and unit: "dk_unit D = Some c" and service: "sd_service_name c = kolla_service n"
  shows "triple (at V n f x) (docker_restart_container D) (\<lambda>_. at V n f Up) (off V n f)"
  unfolding docker_restart_container_def
proof (rule triple_name, rule still(1) [OF keeps_oneshot(2)], rule still(1) [OF quiet(4) [OF laws]], rule triple_if)
  fix t info
  show "triple (at V n f x) (lift (fail_json (no_such_container (PStr n) []))) (\<lambda>_. at V n f Up) (off V n f)"
    by (simp add: triple_def fail_json_def at_off)
  show "triple (at V n f x) (seqc (set_changed True) (bnd oneshot (\<lambda>once.
      if \<not> once then seqc (docker_unit D create_unit_file) (bnd (docker_unit D systemd_restart) (\<lambda>restarted.
        whenc (\<not> restarted) (bnd (docker_check_container D) (\<lambda>c. lift (fail_changed ''Container timed out'' c)))))
      else seqc (on_engine (dc_stop (dk_client D) (PStr n) t)) (on_engine (dc_start (dk_client D) (PStr n))))))
      (\<lambda>_. at V n f Up) (off V n f)"
    by (rule still(2) [OF keeps_seen_own(1)], rule triple_oneshot) (use up_or_fail [OF laws unit service] in simp)
qed

lemma recreate:
  assumes laws: "docker_laws D V n" and unit: "dk_unit D = Some c" and service: "sd_service_name c = kolla_service n"
  shows "triple (at V n f x) (docker_recreate_or_restart_container D) (\<lambda>_. up_or_same V n f x) (off V n f)"
proof -
  have again: "triple (at V n f x) (bnd (docker_check_image D) (\<lambda>img. seqc (whenc (\<not> truthy img) (docker_pull_image D))
      (seqc (docker_stop_container D) (seqc (docker_remove_container D) (docker_start_container D))))) (\<lambda>_. at V n f Up) (off V n f)"
    by (rule still(1) [OF quiet(1) [OF laws]], rule still(2), intro frame quiet_images [OF laws],
        rule docker_engine.replace [OF ready [OF assms] start [OF assms]])
  show ?thesis
    unfolding docker_recreate_or_restart_container_def
    apply (rule still(2) [OF keeps_seen_own(1)], rule check [OF laws], rule still(1), intro frame, rule triple_if)
     apply (rule up_action [OF start [OF assms]])
    apply (rule still(1), intro frame quiet [OF laws], rule triple_if, rule up_action [OF again], rule triple_whenc, rule up_action [OF restart [OF assms]])
    apply (auto simp: shown_def split: if_splits)
    done
qed

section \<open>The refinement\<close>

text \<open>The actions that do not act on the container.\<close>

lemma quiet_actions:
  assumes laws: "docker_laws D V n" and unit: "dk_unit D = Some c"
  shows "keeps (seen V) (compare_container (docker_ops D))" "keeps (seen V) (docker_compare_image D v)"
    "keeps (seen V) (get_container_env (docker_ops D))" "keeps (seen V) (get_container_state (docker_ops D))"
proof -
  have ops: "op_container_exists (docker_ops D) = bnd (docker_check_container D) (\<lambda>c. ret (truthy c))"
    "op_compare_config (docker_ops D) = docker_compare_config D"
    by (simp_all add: docker_ops_def)
  show "keeps (seen V) (compare_container (docker_ops D))"
    unfolding compare_container_def ops
    by (intro frame quiet [OF laws]) (simp add: quiet [OF laws] quiet_images [OF laws] frame)
  show "keeps (seen V) (docker_compare_image D v)" by (rule quiet(6) [OF laws])
  show "keeps (seen V) (get_container_env (docker_ops D))" "keeps (seen V) (get_container_state (docker_ops D))"
    unfolding get_container_env_def get_container_state_def by (intro frame; simp add: docker_ops_def quiet [OF laws])+
qed

lemma action_triple:
  assumes laws: "docker_laws D V n" and unit: "dk_unit D = Some c" and service: "sd_service_name c = kolla_service n"
  shows "\<forall>(a, m) \<in> set (docker_actions D). triple (at V n f x) m (\<lambda>_. does a V n f x) (off V n f)"
proof -
  note acts = sure_action [OF start [OF assms]] sure_action [OF restart [OF assms]]
    sure_action [OF remove [OF laws unit]] sure_action [OF stop_and_remove [OF ready [OF assms]]]
  have more: "triple (at V n f x) (docker_stop_container D) (\<lambda>_. does ''stop_container'' V n f x) (off V n f)"
    "triple (at V n f x) (docker_recreate_or_restart_container D) (\<lambda>_. does ''recreate_or_restart_container'' V n f x) (off V n f)"
    by (rule triple_weaken [OF stop [OF assms]]; simp add: lifecycle_def)
      (rule triple_weaken [OF recreate [OF assms]]; simp add: lifecycle_def)
  show ?thesis
    unfolding docker_actions_def
    by (simp add: no_result_triple more)
      (intro conjI no_result_triple acts quiet_action quiet_images [OF laws] quiet_actions [OF laws unit]; simp add: lifecycle_def)
qed

text \<open>The engine's own stop has worked when it returns.\<close>

lemma stop_direct:
  assumes laws: "docker_laws D V n" and unit: "dk_unit D = Some c"
    and s: "at V n f x s" and none: "unit_files (w_host s) (unit_path c) = None" and run: "docker_stop_container D s = (Ret u, t)"
  shows "V (world (w_host t)) n \<noteq> Up"
proof -
  have name: "dget (w_params s) ''name'' = PStr n" using s by (simp add: at_def off_def service_name)
  obtain d s1 where d: "docker_check_container D s = (Ret d, s1)"
    using run by (auto simp: docker_stop_container_def returns_simps param_def graceful_timeout_def)
  have s1: "at V n f x s1" "shown x d" using triple_Ret [OF check_container_shows [OF laws] s d] by blast+
  note cases = docker_stop_container_cases [OF d unit]
  consider "\<not> truthy d" | "truthy d" "x = Exited" | "truthy d" "x = Up \<or> x = Other"
    using s1(2) by (cases x) (auto simp: shown_def)
  then show ?thesis
  proof cases
    case 1
    then have "t = s1" "x = Absent" using cases run s1(2) by (auto simp: shown_def split: if_splits)
    then show ?thesis using s1(1) by (simp add: at_def)
  next
    case 2
    then have "t = s1" using cases run s1(2) by (auto simp: shown_def)
    then show ?thesis using s1(1) 2 by (simp add: at_def)
  next
    case 3
    then have "docker_stop_container D s = on_engine (dc_stop (dk_client D) (PStr n)
        (if truthy (dget (w_params s) ''graceful_timeout'') then dget (w_params s) ''graceful_timeout'' else PInt 10)) (s1\<lparr>w_changed := True\<rparr>)"
      using cases none s1(2) name by (auto simp: shown_def)
    moreover have "at V n f x (s1\<lparr>w_changed := True\<rparr>)" using s1(1) by (simp add: at_def off_def)
    ultimately show ?thesis using triple_Ret [OF engine_stop [OF laws]] run by (fastforce simp: at_def)
  qed
qed

text \<open>Every action of the Docker worker refines its specification on the abstract machine, and none
  affects another container, however it ends.\<close>

lemma docker_actions_lifecycle:
  assumes laws: "docker_laws D V n" and unit: "dk_unit D = Some c" "sd_service_name c = kolla_service n"
    and params: "service_params n (w_params s)" and act: "map_of (docker_actions D) a = Some m" and run: "m s = (r, t)"
  shows "(\<forall>k. k \<noteq> n \<longrightarrow> V (world (w_host t)) k = V (world (w_host s)) k)
    \<and> (\<forall>b. r = Ret b \<longrightarrow>
        lifecycle a (unit_files (w_host s) (unit_path c) = None) (V (world (w_host s)) n) (V (world (w_host t)) n))"
proof -
  let ?f = "V (world (w_host s))"
  have s: "at V n ?f (?f n) s" using params by (simp add: at_def off_def)
  have down: "V (world (w_host t)) n \<noteq> Up" if "r = Ret b" "a = ''stop_container''" "unit_files (w_host s) (unit_path c) = None" for b
  proof -
    have "m = no_result (docker_stop_container D)" using act that(2) by (simp add: docker_actions_def)
    then have "docker_stop_container D s = (Ret (), t)" using run that(1) by (auto simp: no_result_def bnd_returns)
    from stop_direct [OF laws unit(1) s that(3) this] show ?thesis .
  qed
  have "triple (at V n f x) m (\<lambda>_. does a V n f x) (off V n f)" for f x
    using action_triple [OF laws unit] map_of_SomeD [OF act] by blast
  note acted = action_run [where m = m and s = s, OF params run this]
  show ?thesis
  proof (intro conjI allI impI)
    fix b assume b: "r = Ret b"
    show "lifecycle a (unit_files (w_host s) (unit_path c) = None) (?f n) (V (world (w_host t)) n)"
      using conjunct2 [OF acted, rule_format, OF b] down [OF b] by (rule lifecycle_direct)
  qed (rule conjunct1 [OF acted, rule_format])
qed

section \<open>A run of the module\<close>

text \<open>Up to the action the module has only built its client.\<close>

lemma docker_run_acts:
  assumes args: "dget args ''name'' = PStr n" "n \<noteq> []" "dget args ''action'' = PStr a"
    and client: "new_docker E (docker_options args) (world h) = (Ret (C, v), w)"
    and run: "docker_run E (start_state args h) = (r, t)"
  shows "(w_host t = h \<or> w_host t = h\<lparr>world := w\<rparr>) \<and> (\<forall>b. r \<noteq> Ret b)
    \<or> (\<exists>D c m. dk_client D = C \<and> dk_systemd D = systemd E \<and> dk_unit D = Some c \<and> sd_service_name c = kolla_service n
        \<and> unit_path c = kolla_path n \<and> map_of (docker_actions D) a = Some m
        \<and> m (start_state args (h\<lparr>world := w\<rparr>)) = (r, t))"
proof (cases "systemd_init args")
  case (Ret u)
  then obtain c where c: "u = Some c" "sd_service_name c = kolla_service n" "unit_path c = kolla_path n"
    using module_unit_service args by blast
  let ?s = "start_state args (h\<lparr>world := w\<rparr>)"
  have build: "docker_worker_actions E (start_state args h)
      = bnd (lift (docker_init C (systemd E) v args)) (\<lambda>D. ret (docker_actions D)) ?s"
    using Ret client by (simp add: docker_worker_actions_def with_params_def start_state_def bnd_def on_engine_def on_host_def
        on_world_def zoom_def)
  show ?thesis
  proof (cases "docker_init C (systemd E) v args")
    case D: (Ret D)
    then have fields: "dk_client D = C" "dk_systemd D = systemd E" "dk_unit D = Some c"
      using Ret c by (auto simp: docker_init_def)
    have "docker_run E (start_state args h) = run_action (docker_actions D) ?s"
      using build D by (simp add: docker_run_def bnd_def)
    also have "\<dots> = (case map_of (docker_actions D) a of None \<Rightarrow> raise AttributeError | Some m \<Rightarrow> m) ?s"
      using args(3) by (simp add: run_action_def param_def start_state_def)
    finally show ?thesis
      using run fields c by (cases "map_of (docker_actions D) a") (auto simp: start_state_def)
  qed (use run build in \<open>auto simp: docker_run_def bnd_def start_state_def\<close>)
qed (use run in \<open>auto simp: docker_run_def docker_worker_actions_def with_params_def bnd_def start_state_def\<close>)

lemma docker_run_lifecycle:
  assumes args: "dget args ''action'' = PStr a" and params: "service_params n args" "n \<noteq> []"
    and client: "new_docker E (docker_options args) (world h) = (Ret (C, v), w)" "V w = V (world h)"
    and laws: "quiet_calls C V" "container_calls C V n" "systemd_calls (systemd E) V n"
    and run: "docker_run E (start_state args h) = (r, t)"
  shows "(\<forall>k. k \<noteq> n \<longrightarrow> V (world (w_host t)) k = V (world h) k)
    \<and> (\<forall>b. r = Ret b \<longrightarrow> lifecycle a (unit_files h (kolla_path n) = None) (V (world h) n) (V (world (w_host t)) n))"
proof -
  have name: "dget args ''name'' = PStr n" using params(1) by (rule service_name)
  let ?s = "start_state args (h\<lparr>world := w\<rparr>)"
  have s: "service_params n (w_params ?s)" "V (world (w_host ?s)) = V (world h)" "unit_files (w_host ?s) = unit_files h"
    using params(1) client(2) by (simp_all add: start_state_def)
  from docker_run_acts [OF name params(2) args client(1) run] show ?thesis
  proof (elim disjE exE conjE)
    fix D c m
    assume D: "dk_client D = C" "dk_systemd D = systemd E" "dk_unit D = Some c" "sd_service_name c = kolla_service n"
      "unit_path c = kolla_path n" "map_of (docker_actions D) a = Some m" "m ?s = (r, t)"
    have "docker_laws D V n" using laws D(1,2) by (simp add: docker_laws_def)
    from docker_actions_lifecycle [OF this D(3,4) s(1) D(6,7)] show ?thesis unfolding s D(5) .
  qed (use client(2) in auto)
qed

text \<open>C2: a run of the module \<open>kolla_container\<close> with Docker does to the containers what its action promises:
  when the action returns, the module exits as a success that reports \<open>changed\<close>, and the named container
  has made the change of state of \<open>lifecycle\<close>; whatever happens, every other container is as it was.
  The task is one for a detached container whose restart policy is not \<open>oneshot\<close> (\<open>service_params\<close>).
\<close>

theorem module_run_lifecycle:
  assumes args: "generate_module params = Ret args" "dget args ''container_engine'' = PStr ''docker''" "dget args ''action'' = PStr a"
    and params: "service_params n args" "n \<noteq> []"
    and client: "new_docker E (docker_options args) (world h) = (Ret (C, v), w)" "V w = V (world h)"
    and laws: "quiet_calls C V" "container_calls C V n" "systemd_calls (systemd E) V n"
    and run: "docker_run E (start_state args h) = (r, t)"
  shows "(\<forall>k. k \<noteq> n \<longrightarrow> V (world (w_host t)) k = V (world h) k)
    \<and> (\<forall>b. r = Ret b \<longrightarrow>
        main E params h = (Exit ExitJson ([(''changed'', PBool (w_changed t)), (''result'', PBool b)] @ w_result t), w_host t)
        \<and> lifecycle a (unit_files h (kolla_path n) = None) (V (world h) n) (V (world (w_host t)) n))"
proof -
  have "main E params h = (Exit ExitJson ([(''changed'', PBool (w_changed t)), (''result'', PBool b)] @ w_result t), w_host t)"
    if "r = Ret b" for b
    unfolding main_docker_run [OF args(1,2)] run that by simp
  with docker_run_lifecycle [OF args(3) params client laws run] show ?thesis by blast
qed

section \<open>An engine with the laws\<close>

text \<open>The engine of the machine \<open>lab\<close>, whose world is a list of containers and their states.\<close>

fun lab_status :: "cstate \<Rightarrow> string" where
  "lab_status Up = ''Up 5 minutes''"
| "lab_status Exited = ''Exited (0) 5 minutes ago''"
| "lab_status _ = ''Created''"

definition lab_list :: "lab \<Rightarrow> string list \<Rightarrow> pyval list" where
  "lab_list w ms = map (\<lambda>m. sample_container m (lab_status (lab_view w m))) ms"

definition lab_client :: "lab docker_client" where
  "lab_client =
    \<lparr>dc_images = (\<lambda>kw. ret (PList [nova_image])), dc_volumes = ret (PDict [(''Volumes'', PNone)]),
     dc_containers = gets (\<lambda>w. PList (lab_list w (filter (\<lambda>m. lab_view w m \<noteq> Absent) (map fst w)))),
     dc_inspect_container = (\<lambda>v. ret nova_info),
     dc_exec_create = (\<lambda>v cmd. ret (PStr ''job'')), dc_exec_start = (\<lambda>job. ret (PStr ''output'')),
     dc_exec_inspect = (\<lambda>job. ret (PDict [(''ExitCode'', PInt 0)])),
     dc_login = (\<lambda>kw. ret ()), dc_pull = (\<lambda>name tag. ret []),
     dc_remove_container = (\<lambda>v. lab_set v Absent),
     dc_create_host_config = Ret,
     dc_create_container = (\<lambda>opts. modify (AList.update (py_str (dget opts ''name'')) Other)),
     dc_start = (\<lambda>v. lab_set v Up), dc_stop = (\<lambda>v t. bnd (gets (\<lambda>w. lab_view w (py_str v))) (\<lambda>x. whenc (x = Up) (lab_set v Exited))),
     dc_wait = (\<lambda>v. ret (PDict [(''StatusCode'', PInt 0)])), dc_logs = (\<lambda>v out err. ret (PStr ''log'')),
     dc_create_volume = (\<lambda>v. ret ()), dc_remove_volume = (\<lambda>v. ret ()), dc_remove_image = (\<lambda>v. ret ()),
     dk_parse_repository_tag = Ret, dk_ulimit = (\<lambda>k soft hard. Ret PNone), dk_log_config_none = Ret PNone\<rparr>"

definition lab_env :: "lab module_env" where
  "lab_env = \<lparr>new_docker = (\<lambda>options. ret (lab_client, ''1.41'')), new_podman = raise (APIError 500 False ''no podman''),
     systemd = lab_systemd ''nova'', format_exc = (\<lambda>e. ''Traceback'')\<rparr>"

lemma lab_status_shown:
  "starts_with (lab_status Up) ''Up ''" "\<not> starts_with (lab_status Up) ''Exited ''"
  "starts_with (lab_status Exited) ''Exited ''" "\<not> starts_with (lab_status Exited) ''Up ''"
  "\<not> starts_with (lab_status Other) ''Up ''" "\<not> starts_with (lab_status Other) ''Exited ''"
  by code_simp+

lemma lab_container_shown: "x \<noteq> Absent \<Longrightarrow> shown x (sample_container m (lab_status x))"
  using lab_status_shown by (cases x) (simp_all add: shown_def sample_container_def status_starts_def)

lemma lab_find: "find_container (''/'' @ n) (lab_list w ms) = Ret (if n \<in> set ms then sample_container n (lab_status (lab_view w n)) else PNone)"
  by (induction ms) (auto simp: lab_list_def sample_container_def mem_eq_def)

lemma lab_shows:
  "\<exists>d. find_container (''/'' @ n) (lab_list w (filter (\<lambda>m. lab_view w m \<noteq> Absent) (map fst w))) = Ret d \<and> shown (lab_view w n) d"
proof -
  have "n \<in> fst ` set w" if "lab_view w n \<noteq> Absent"
    using that by (auto simp: lab_view_def dest: map_of_SomeD split: option.splits intro: rev_image_eqI)
  then show ?thesis
    using lab_container_shown unfolding lab_find by (cases "lab_view w n = Absent") (auto simp: shown_def)
qed

lemma lab_laws:
  "quiet_calls lab_client lab_view" "container_calls lab_client lab_view ''nova''"
proof -
  show "quiet_calls lab_client lab_view" unfolding quiet_calls_def lab_client_def by (simp add: frame)
  show "container_calls lab_client lab_view ''nova''"
    unfolding container_calls_def using lab_shows [of "''nova''"]
    by (auto simp: lab_client_def effect_def others_def presence_def lab_set_def whenc_def)
qed

text \<open>A task that stops and removes \<open>nova\<close> on a host where \<open>glance\<close> runs as well.\<close>

definition lab_task :: pydict where
  "lab_task = [(''common_options'', PDict [(''container_engine'', PStr ''docker'')]), (''container_engine'', PNone),
     (''name'', PStr ''nova''), (''action'', PStr ''stop_and_remove_container''), (''detach'', PBool True)]"

definition lab_host :: "lab host" where
  "lab_host = \<lparr>unit_files = (\<lambda>f. None), world = [(''glance'', Up), (''nova'', Up)]\<rparr>"

lemma lab_run:
  "case generate_module lab_task of
     Ret args \<Rightarrow> dget args ''container_engine'' = PStr ''docker'' \<and> dget args ''action'' = PStr ''stop_and_remove_container''
       \<and> service_params ''nova'' args \<and> fst (docker_run lab_env (start_state args lab_host)) = Ret False
   | _ \<Rightarrow> False"
  by code_simp

theorem module_run_lifecycle_witness:
  "let w = world (snd (main lab_env lab_task lab_host)) in lab_view w ''nova'' = Absent \<and> lab_view w ''glance'' = Up"
proof -
  obtain args where args: "generate_module lab_task = Ret args" "dget args ''container_engine'' = PStr ''docker''"
    "dget args ''action'' = PStr ''stop_and_remove_container''" "service_params ''nova'' args"
    and ret: "fst (docker_run lab_env (start_state args lab_host)) = Ret False"
    using lab_run by (auto split: outcome.splits)
  then obtain t where run: "docker_run lab_env (start_state args lab_host) = (Ret False, t)" by (metis prod.collapse)
  have client: "new_docker lab_env (docker_options args) (world lab_host) = (Ret (lab_client, ''1.41''), world lab_host)"
    by (simp add: lab_env_def)
  have laws: "systemd_calls (systemd lab_env) lab_view ''nova''" using lab_systemd_laws by (simp add: lab_env_def)
  from module_run_lifecycle [OF args(1-4) _ client refl lab_laws(1,2) laws run]
  have "w_host t = snd (main lab_env lab_task lab_host)" "lab_view (world (w_host t)) ''nova'' = Absent"
    "lab_view (world (w_host t)) ''glance'' = lab_view (world lab_host) ''glance''"
    by (auto simp: lifecycle_def)
  then show ?thesis by (simp add: lab_host_def lab_view_def)
qed

end
