(* ===== verification/Podman_Lifecycle.thy ===== *)
theory Podman_Lifecycle
  imports Container_Machine
begin

text \<open>
  The actions of the Podman worker (\<open>kolla_podman_worker.py\<close>) refine the same specification
  \<open>lifecycle\<close>, under the documented behaviour of the calls of Podman (\<open>podman_laws\<close>). This worker always
  stops a service container through its unit, so a stop never is direct.
\<close>

section \<open>The laws of the engine\<close>

text \<open>What looking a container up shows of it.\<close>

definition shown_object :: "string \<Rightarrow> cstate \<Rightarrow> podman_container option \<Rightarrow> bool" where
  "shown_object n x d \<longleftrightarrow>
     (case d of
        None \<Rightarrow> x = Absent
      | Some c \<Rightarrow> x \<noteq> Absent \<and> pc_name c = PStr n \<and> (pc_status c = PStr ''running'' \<longleftrightarrow> x = Up))"

text \<open>
  The calls that read, pull, execute a command or work on images and volumes leave all containers alone;
  creating or removing a container affects no other one. Listing the containers and reloading them
  shows the container as it is, and what was removed is gone.
\<close>

definition podman_calls :: "'w podman_client \<Rightarrow> ('w \<Rightarrow> machine) \<Rightarrow> string \<Rightarrow> bool" where
  "podman_calls C V n \<longleftrightarrow>
     (let lookup = bnd (pd_list C) (find_reloaded C (PStr n)) in
      (\<forall>x. keeps V (pd_images_get C x)) \<and> (\<forall>args. keeps V (pd_images_pull C args)) \<and> (\<forall>x. keeps V (pd_image_remove C x))
      \<and> (\<forall>x. keeps V (pd_volumes_get C x)) \<and> (\<forall>args. keeps V (pd_volumes_create C args)) \<and> (\<forall>x. keeps V (pd_volumes_remove C x))
      \<and> keeps V (pd_list C) \<and> (\<forall>x. keeps V (pd_get C x)) \<and> (\<forall>c. keeps V (pd_reload C c))
      \<and> (\<forall>c cmd. keeps V (pd_exec_run C c cmd))
      \<and> (\<forall>args. dget args ''name'' = PStr n \<longrightarrow> effect (others V n) (pd_create C args))
      \<and> (\<forall>c. pc_name c = PStr n \<longrightarrow> effect (others V n) (pd_remove C c)
           \<and> (\<forall>w u w'. pd_remove C c w = (Ret u, w') \<longrightarrow> V w' n = Absent))
      \<and> (\<forall>w d w'. lookup w = (Ret d, w') \<longrightarrow> shown_object n (V w n) d))"

definition podman_laws :: "'w podman \<Rightarrow> ('w \<Rightarrow> machine) \<Rightarrow> string \<Rightarrow> bool" where
  "podman_laws P V n \<longleftrightarrow> podman_calls (pm_client P) V n \<and> systemd_calls (pm_systemd P) V n"

section \<open>Queries, images and volumes\<close>

lemma keeps_find_reloaded:
  assumes "\<And>c. keeps V (pd_reload C c)"
  shows "keeps V (find_reloaded C name cs)"
  using assms by (induction cs) (auto intro!: frame)

lemma podman_quiet_reads:
  assumes "podman_laws P V n"
  shows "podman_reads (seen V) P"
  using assms
  by unfold_locales (auto simp: podman_laws_def podman_calls_def Let_def keeps_lookups_def intro!: keeps_seen_engine keeps_bnd keeps_find_reloaded)

lemmas podman_quiet = podman_reads.keeps_check_image [OF podman_quiet_reads] podman_reads.keeps_check_volume [OF podman_quiet_reads]
  podman_reads.keeps_check_container [OF podman_quiet_reads] podman_reads.keeps_get_container_info [OF podman_quiet_reads]
  podman_reads.keeps_compare_image [OF podman_quiet_reads] podman_reads.keeps_container_differs [OF podman_quiet_reads]

lemma podman_quiet_images:
  assumes "podman_laws P V n"
  shows "keeps (seen V) (podman_pull_image P)" "keeps (seen V) (podman_ensure_image P)" "keeps (seen V) (podman_remove_image P)"
    "keeps (seen V) (podman_create_volume P)" "keeps (seen V) (podman_remove_volume P)" "keeps (seen V) (podman_compare_config P)"
proof -
  have calls: "keeps (seen V) (on_engine (pd_images_pull (pm_client P) args))" "keeps (seen V) (on_engine (pd_images_get (pm_client P) x))"
    "keeps (seen V) (on_engine (pd_image_remove (pm_client P) y))" "keeps (seen V) (on_engine (pd_volumes_create (pm_client P) args))"
    "keeps (seen V) (on_engine (pd_volumes_remove (pm_client P) x))" "keeps (seen V) (on_engine (pd_get (pm_client P) x))"
    "keeps (seen V) (on_engine (pd_reload (pm_client P) c))" "keeps (seen V) (on_engine (pd_exec_run (pm_client P) c cmd))"
    for args x y c cmd using assms by (auto simp: podman_laws_def podman_calls_def Let_def intro!: keeps_seen_engine)
  have result: "keeps (seen V) (modify (\<lambda>s. s\<lparr>w_result := r\<rparr>))" for r by (rule keeps_modify) (simp add: seen_def)
  show pull: "keeps (seen V) (podman_pull_image P)"
    unfolding podman_pull_image_def by (intro frame calls podman_quiet [OF assms])
  show "keeps (seen V) (podman_ensure_image P)"
    unfolding podman_ensure_image_def by (intro frame podman_quiet [OF assms] pull)
  show "keeps (seen V) (podman_remove_image P)" "keeps (seen V) (podman_create_volume P)" "keeps (seen V) (podman_remove_volume P)"
    unfolding podman_remove_image_def podman_create_volume_def podman_remove_volume_def
    by (intro frame calls result podman_quiet [OF assms])+
  show "keeps (seen V) (podman_compare_config P)"
    unfolding podman_compare_config_def by (intro frame calls) (auto intro!: frame calls split: option.splits prod.splits)
qed

lemma podman_shows:
  assumes "podman_laws P V n"
  shows "triple (at V n f x) (podman_check_container P) (\<lambda>d s. at V n f x s \<and> shown_object n x d) (off V n f)"
proof (rule tripleI)
  fix s d t assume s: "at V n f x s" and run: "podman_check_container P s = (Ret d, t)"
  from run at_name [OF s] obtain w where "bnd (pd_list (pm_client P)) (find_reloaded (pm_client P) (PStr n)) (world (w_host s)) = (Ret d, w)"
    by (auto simp: podman_check_container_def param_def on_engine_def on_host_def on_world_def zoom_returns)
  then have "shown_object n (V (world (w_host s)) n) d" using assms unfolding podman_laws_def podman_calls_def Let_def by blast
  then show "at V n f x t \<and> shown_object n x d"
    using s triple_Ret [OF triple_keeps [OF podman_quiet(3) [OF assms]] s run] by (simp add: at_def)
next
  fix s r t assume "at V n f x s" "podman_check_container P s = (r, t)" "\<forall>a. r \<noteq> Ret a"
  then show "off V n f t" by (rule triple_fail [OF triple_keeps [OF podman_quiet(3) [OF assms]]])
qed

lemmas podman_check = triple_bnd [OF podman_shows triple_pure]

section \<open>The calls on a container\<close>

lemma podman_systemd: "podman_laws P V n \<Longrightarrow> systemd_calls (pm_systemd P) V n"
  by (simp add: podman_laws_def)

lemma podman_unit_run: "pm_unit P = Some c \<Longrightarrow> podman_unit P f = on_host (f (pm_systemd P) c)"
  by (simp add: podman_unit_def with_unit_def)

lemma podman_unit_quiet:
  assumes "podman_laws P V n" and "pm_unit P = Some c"
  shows "keeps (seen V) (podman_unit P create_unit_file)" "keeps (seen V) (podman_unit P remove_unit_file)"
  using systemd_quiet [OF podman_systemd [OF assms(1)]] unfolding podman_unit_run [OF assms(2)]
  by (auto intro!: keeps_seen_host)

lemma podman_remove:
  assumes laws: "podman_laws P V n" and unit: "pm_unit P = Some c"
  shows "triple (at V n f x) (podman_remove_container P) (\<lambda>_. at V n f Absent) (off V n f)"
  unfolding podman_remove_container_def
proof (rule still [OF podman_unit_quiet(2) [OF assms]], rule still [OF keeps_seen_own(2)], rule podman_check [OF laws])
  fix container assume shown: "shown_object n x container"
  show "triple (at V n f x) (case container of None \<Rightarrow> ret () | Some c \<Rightarrow> podman_do_remove P c) (\<lambda>_. at V n f Absent) (off V n f)"
  proof (cases container)
    case None
    then show ?thesis using shown by (auto intro!: triple_ret simp: shown_object_def)
  next
    case (Some d)
    then have "pc_name d = PStr n" using shown by (simp add: shown_object_def)
    then have "triple (at V n f x) (on_engine (pd_remove (pm_client P) d)) (\<lambda>_. at V n f Absent) (off V n f)"
      by (intro triple_weaken [OF engine_call [where R = "\<lambda>_ z. z = Absent"]]) (use laws in \<open>auto simp: podman_laws_def podman_calls_def Let_def\<close>)
    moreover have "triple (off V n f) (bnd (podman_check_container P) (\<lambda>c'. if c' \<noteq> None then raise (APIError st cl tx) else ret ()))
        (\<lambda>_. at V n f Absent) (off V n f)" for st cl tx
      by (rule triple_off, rule podman_check [OF laws], rule triple_if)
        (auto intro!: triple_ret triple_raise simp: at_off shown_object_def)
    ultimately show ?thesis unfolding Some option.case podman_do_remove_def by (rule triple_catch)
  qed
qed

lemma podman_stop:
  assumes laws: "podman_laws P V n" and unit: "pm_unit P = Some c" and service: "sd_service_name c = kolla_service n"
  shows "triple (at V n f x) (podman_stop_container P) (\<lambda>_. same_presence V n f x) (off V n f)"
  unfolding podman_stop_container_def
proof (rule triple_name, rule still(1) [OF keeps_oneshot(2)], rule podman_check [OF laws])
  fix t container
  have missing: "triple (at V n f x) (bnd (param ''ignore_missing'') (\<lambda>ignore_missing.
      whenc (\<not> truthy ignore_missing) (lift (fail_json (no_such_container (PStr n) '' to stop''))))) (\<lambda>_. same_presence V n f x) (off V n f)"
    by (intro still keeps_param triple_whenc) (auto simp: triple_def fail_json_def at_off)
  have stopping: "triple (at V n f x) (whenc b (seqc (set_changed True) (bnd oneshot (\<lambda>once.
      if \<not> once then seqc (podman_unit P create_unit_file) (seqc (podman_unit P systemd_stop) (ret ()))
      else on_engine (pd_stop (pm_client P) d (py_str t)))))) (\<lambda>_. same_presence V n f x) (off V n f)" for b d
  proof (rule triple_whenc, rule still(2) [OF keeps_seen_own(1)], rule triple_oneshot)
    show "triple (at V n f x) (if \<not> False then seqc (podman_unit P create_unit_file) (seqc (podman_unit P systemd_stop) (ret ()))
        else on_engine (pd_stop (pm_client P) d (py_str t))) (\<lambda>_. same_presence V n f x) (off V n f)"
      unfolding podman_unit_run [OF unit] systemd_stop_def not_False_eq_True if_True
      by (rule still(2) [OF podman_unit_quiet(1) [OF laws unit, unfolded podman_unit_run [OF unit]]],
          rule triple_seqc [where R = "same_presence V n f x"],
          rule triple_weaken [OF host_call [OF unit_action_presence [OF podman_systemd [OF laws] service]]])
        (blast intro: triple_ret)+
  qed blast
  show "triple (at V n f x) (case container of
        None \<Rightarrow> bnd (param ''ignore_missing'') (\<lambda>ignore_missing.
          whenc (\<not> truthy ignore_missing) (lift (fail_json (no_such_container (PStr n) '' to stop''))))
      | Some c \<Rightarrow> whenc (\<not> (pc_status c = PStr ''exited'' \<or> pc_status c = PStr ''stopped'')) (seqc (set_changed True) (bnd oneshot (\<lambda>once.
          if \<not> once then seqc (podman_unit P create_unit_file) (seqc (podman_unit P systemd_stop) (ret ()))
          else on_engine (pd_stop (pm_client P) c (py_str t)))))) (\<lambda>_. same_presence V n f x) (off V n f)"
    using missing stopping by (cases container) simp_all
qed

section \<open>Creating and starting\<close>

lemma keeps_params_other [frame]:
  assumes "k \<notin> {''name'', ''restart_policy'', ''detach''}"
  shows "keeps (seen V) (set_param k v)" "keeps (seen V) (pop_param k)"
  using assms unfolding set_param_def pop_param_def by (auto intro!: keeps_modify simp: seen_def)

lemma podman_args_quiet:
  "keeps (seen V) args_command" "keeps (seen V) (args_volumes a)" "keeps (seen V) args_environment"
  "keeps (seen V) (args_healthcheck a)" "keeps (seen V) (args_dimensions a)" "keeps (seen V) (args_cap_add a)"
proof -
  show "keeps (seen V) args_command" "keeps (seen V) args_environment"
    unfolding args_command_def args_environment_def by (intro frame; simp)+
  show "keeps (seen V) (args_volumes a)" unfolding args_volumes_def by (intro frame) (auto intro!: frame split: prod.splits)
  show "keeps (seen V) (args_healthcheck a)" unfolding args_healthcheck_def by (intro frame; simp add: frame split: option.splits)
  show "keeps (seen V) (args_dimensions a)" unfolding args_dimensions_def by (intro frame) (auto intro!: frame split: prod.splits)
  show "keeps (seen V) (args_cap_add a)" unfolding args_cap_add_def by (intro frame; simp add: frame split: pyval.splits)
qed

lemma map_of_dict_update_last: "map_of (dict_update d e) k = (case map_of (rev e) k of None \<Rightarrow> map_of d k | Some v \<Rightarrow> Some v)"
  by (induction e arbitrary: d) (auto simp: dict_update_def map_add_def split: option.splits)

lemma record_args_name:
  assumes "service_params n p"
  shows "dget (AList.delete ''restart_policy'' (record_args p a)) ''name'' = PStr n"
proof -
  let ?P = "\<lambda>(k, v). k \<in> set CONTAINER_PARAMS \<and> v \<noteq> PNone"
  have "''name'' \<in> set CONTAINER_PARAMS" by (simp add: CONTAINER_PARAMS_def)
  moreover have "named p = [(''name'', PStr n)]" using assms by (simp add: service_params_def)
  moreover have "named (filter ?P p) = filter ?P (named p)" unfolding named_def by (simp add: conj_commute)
  ultimately have name: "named (filter ?P p) = [(''name'', PStr n)]" by simp
  have last: "map_of (rev q) ''name'' = map_of (rev (named q)) ''name''" for q :: pydict
    unfolding named_def by (induction q) (auto simp: map_add_def split: option.splits)
  have "map_of (rev (filter ?P p)) ''name'' = Some (PStr n)" by (subst last) (simp add: name)
  then have "map_of (record_args p a) ''name'' = Some (PStr n)" by (simp add: record_args_def map_of_dict_update_last)
  then show ?thesis by (simp add: dget_def dget_or_def delete_conv')
qed

lemma podman_args:
  "triple (at V n f x) prepare_container_args (\<lambda>args s. at V n f x s \<and> dget args ''name'' = PStr n) (off V n f)"
  unfolding prepare_container_args_def
  by (rule still(2) [OF podman_args_quiet(1)], rule still(1) [OF podman_args_quiet(2)], rule still(2) [OF podman_args_quiet(3)],
      rule still(1) [OF podman_args_quiet(4)], rule still(1) [OF podman_args_quiet(5)], rule still(2), rule keeps_params_other, simp,
      rule still(1) [OF podman_args_quiet(6)], intro triple_params triple_ret) (simp add: record_args_name)

lemma podman_create:
  assumes laws: "podman_laws P V n" and unit: "pm_unit P = Some c"
  shows "triple (at V n f x) (podman_create_container P) (\<lambda>_ s. \<exists>y. at V n f y s) (off V n f)"
proof -
  have engine: "triple (at V n f x) (on_engine (pd_create (pm_client P) args)) (\<lambda>_ s. \<exists>y. at V n f y s) (off V n f)"
    if "dget args ''name'' = PStr n" for args
    by (rule triple_weaken [OF engine_call [where R = "\<lambda>_ _. True"]]) (use that laws in \<open>auto simp: podman_laws_def podman_calls_def Let_def\<close>)
  have rest: "keeps (seen V) (seqc (if pc_attrs d = [] then bnd (lift (pd_to_dict (pm_client P) d)) (\<lambda>data. lift (fail_creation data))
      else bnd (podman_unit P create_unit_file) or_changed) (ret d))" for d
    by (intro frame podman_unit_quiet(1) [OF assms])
  show ?thesis
    unfolding podman_create_container_def
    by (rule triple_bnd [OF podman_args triple_pure], rule triple_bnd [OF engine triple_ex], assumption,
        rule triple_weaken [OF triple_keeps [OF rest]]) blast+
qed

lemma podman_unit_up:
  assumes laws: "podman_laws P V n" and unit: "pm_unit P = Some c" and service: "sd_service_name c = kolla_service n"
    and action: "action = systemd_start \<or> action = systemd_restart"
  shows "triple (at V n f x) (podman_unit P action) (\<lambda>b s. \<exists>y. at V n f y s \<and> (b \<longrightarrow> y = Up)) (off V n f)"
  unfolding podman_unit_run [OF unit] using action by (rule systemd_up [OF podman_systemd [OF laws] service])

text \<open>Either systemd has shown the unit running or the module fails.\<close>

lemma podman_up_or_fail:
  assumes "podman_laws P V n" and "pm_unit P = Some c" and "sd_service_name c = kolla_service n"
    and "action = systemd_start \<or> action = systemd_restart"
    and quiet: "\<And>t. keeps (seen V) (g t)" and fails: "\<And>s t. g False s \<noteq> (Ret (), t)"
  shows "triple (at V n f x) (seqc (podman_unit P create_unit_file) (bnd (podman_unit P action) (\<lambda>b. whenc (\<not> b) (g b))))
    (\<lambda>_. at V n f Up) (off V n f)"
  by (rule still(2) [OF podman_unit_quiet(1) [OF assms(1,2)]], rule triple_bnd [OF podman_unit_up [OF assms(1-4)]], rule triple_ex, rule triple_whenc)
    (auto intro!: triple_pure tripleI dest: triple_fail [OF triple_keeps [OF quiet]] simp: fails)

text \<open>The worker meets the contract, and what follows from it.\<close>

definition podman_ready :: "'w podman \<Rightarrow> ('w \<Rightarrow> machine) \<Rightarrow> string \<Rightarrow> bool" where
  "podman_ready P V n \<longleftrightarrow> podman_laws P V n \<and> (\<exists>c. pm_unit P = Some c \<and> sd_service_name c = kolla_service n)"

lemma object_present: "shown_object n x d \<Longrightarrow> d \<noteq> None \<longleftrightarrow> x \<noteq> Absent"
  by (auto simp: shown_object_def split: option.splits)

interpretation podman_engine: engine_worker "podman_ready P V n" V n "shown_object n" "\<lambda>d. d \<noteq> None" "podman_check_container P"
  "podman_stop_container P" "podman_remove_container P" "podman_create_container P" for P V n
  unfolding podman_ready_def
  by unfold_locales (rule object_present, auto intro: podman_shows podman_stop podman_remove podman_create)

lemma podman_is_ready:
  "podman_laws P V n \<Longrightarrow> pm_unit P = Some c \<Longrightarrow> sd_service_name c = kolla_service n \<Longrightarrow> podman_ready P V n"
  by (auto simp: podman_ready_def)

lemma podman_stop_and_remove: "podman_ready P V n \<Longrightarrow>
    triple (at V n f x) (podman_stop_and_remove_container P) (\<lambda>_. at V n f Absent) (off V n f)"
  unfolding podman_stop_and_remove_container_def by (rule podman_engine.stop_remove)

lemma podman_ensure:
  assumes "podman_ready P V n"
  shows "triple (at V n f x) (podman_ensure_container P) (\<lambda>d s. \<exists>y. at V n f y s \<and> shown_object n y d) (off V n f)"
proof -
  have laws: "podman_laws P V n" using assms by (simp add: podman_ready_def)
  show ?thesis
    unfolding podman_ensure_container_def
    by (rule still(2) [OF podman_quiet_images(2) [OF laws]], rule podman_engine.ensured [OF assms, unfolded not_not])
      (intro frame podman_quiet [OF laws])
qed

lemma podman_bring_up:
  assumes laws: "podman_laws P V n" and unit: "pm_unit P = Some c" and service: "sd_service_name c = kolla_service n"
    and "shown_object n x (Some d)"
  shows "triple (at V n f x) (podman_bring_up P d) (\<lambda>_. at V n f Up) (off V n f)"
  unfolding podman_bring_up_def
proof (rule triple_whenc, rule still(2) [OF keeps_seen_own(1)], rule triple_oneshot)
  let ?timeout = "bnd (podman_check_container P) (of_container (\<lambda>c. lift (fail_changed ''Container timed out'' (PDict (pc_attrs c)))))"
  have "keeps (seen V) ?timeout"
    by (intro frame podman_quiet [OF laws]) (simp add: of_container_def frame split: option.splits)
  moreover have "?timeout s \<noteq> (Ret (), t)" for s t
    by (auto simp: of_container_def bnd_returns split: option.splits)
  ultimately show "triple (at V n f x) (if False then bnd (podman_check_container P) (of_container (\<lambda>c. on_engine (pd_start (pm_client P) c)))
      else seqc (podman_unit P create_unit_file) (bnd (podman_unit P systemd_start) (\<lambda>started. whenc (\<not> started) ?timeout)))
      (\<lambda>_. at V n f Up) (off V n f)"
    using podman_up_or_fail [OF laws unit service, of systemd_start "\<lambda>_. ?timeout"] by simp
next
  fix s assume "\<not> pc_status d \<noteq> PStr ''running''" "at V n f x s"
  then show "at V n f Up s" using assms(4) by (auto simp: shown_object_def)
qed

lemma podman_start:
  assumes laws: "podman_laws P V n" and unit: "pm_unit P = Some c" and service: "sd_service_name c = kolla_service n"
  shows "triple (at V n f x) (podman_start_container P) (\<lambda>_. at V n f Up) (off V n f)"
  unfolding podman_start_container_def
proof (rule triple_bnd [OF podman_ensure [OF podman_is_ready [OF assms]]], rule triple_ex, rule triple_pure)
  fix d y assume shown: "shown_object n y d"
  show "triple (at V n f y) (of_container (\<lambda>container. seqc (podman_bring_up P container)
      (bnd (param ''detach'') (\<lambda>detach. whenc (\<not> truthy detach) (podman_wait_for_exit P)))) d) (\<lambda>_. at V n f Up) (off V n f)"
  proof (cases d)
    case (Some e)
    show ?thesis
      unfolding Some of_container_def option.case
      by (rule triple_seqc [OF podman_bring_up [OF assms shown [unfolded Some]]], rule triple_detach) (simp add: triple_ret)
  qed (simp add: of_container_def triple_raise at_off)
qed

lemma podman_restart:
  assumes laws: "podman_laws P V n" and unit: "pm_unit P = Some c" and service: "sd_service_name c = kolla_service n"
  shows "triple (at V n f x) (podman_restart_container P) (\<lambda>_. at V n f Up) (off V n f)"
  unfolding podman_restart_container_def
proof (rule podman_check [OF laws])
  fix d assume "shown_object n x d"
  show "triple (at V n f x) (case d of
        None \<Rightarrow> bnd (param ''name'') (\<lambda>name. lift (fail_json (no_such_container name [])))
      | Some c \<Rightarrow> seqc (set_changed True) (seqc (podman_unit P create_unit_file) (bnd (podman_unit P systemd_restart) (\<lambda>restarted.
          whenc (\<not> restarted) (lift (fail_changed ''Container timed out'' (PDict (pc_attrs c)))))))) (\<lambda>_. at V n f Up) (off V n f)"
  proof (cases d)
    case None
    then show ?thesis by (simp, intro triple_name) (simp add: triple_def fail_json_def at_off)
  next
    case (Some e)
    show ?thesis
      unfolding Some option.case
      by (rule still(2) [OF keeps_seen_own(1)], rule podman_up_or_fail [OF assms]) (auto simp: frame)
  qed
qed

lemma podman_recreate_lifecycle:
  assumes laws: "podman_laws P V n" and unit: "pm_unit P = Some c" and service: "sd_service_name c = kolla_service n"
  shows "triple (at V n f x) (podman_recreate_or_restart_container P) (\<lambda>_. up_or_same V n f x) (off V n f)"
proof -
  have again: "triple (at V n f x) (podman_recreate P) (\<lambda>_. at V n f Up) (off V n f)"
    unfolding podman_recreate_def
    by (rule still(2) [OF podman_quiet_images(2) [OF laws]],
        rule podman_engine.replace [OF podman_is_ready [OF assms] podman_start [OF assms]])
  have there: "triple (at V n f x) (bnd (podman_get_container_info P) (\<lambda>info. if \<not> truthy info then podman_start_container P else g info))
      (\<lambda>_. up_or_same V n f x) (off V n f)"
    if "x \<noteq> Absent \<Longrightarrow> \<forall>info. triple (at V n f x) (g info) (\<lambda>_. up_or_same V n f x) (off V n f)" for g
    unfolding podman_get_container_info_def
    using that up_action [OF podman_start [OF assms]]
    by (auto simp: bnd_assoc shown_object_def intro!: podman_check [OF laws] split: option.splits)
  show ?thesis
    unfolding podman_recreate_or_restart_container_def
    apply (rule still(1), intro frame, rule there, intro allI)
    apply (rule still(1), intro frame podman_quiet [OF laws], rule triple_if, rule up_action [OF again], rule triple_whenc, rule up_action [OF again])
    apply auto
    done
qed

section \<open>The refinement\<close>

lemma podman_quiet_actions:
  assumes laws: "podman_laws P V n"
  shows "keeps (seen V) (compare_container (podman_ops P))" "keeps (seen V) (podman_compare_image P v)"
    "keeps (seen V) (get_container_env (podman_ops P))" "keeps (seen V) (get_container_state (podman_ops P))"
proof -
  have ops: "op_container_exists (podman_ops P) = bnd (podman_check_container P) (\<lambda>c. ret (c \<noteq> None))"
    "op_compare_config (podman_ops P) = podman_compare_config P"
    by (simp_all add: podman_ops_def)
  show "keeps (seen V) (compare_container (podman_ops P))"
    unfolding compare_container_def ops
    by (intro frame podman_quiet [OF laws]) (simp add: podman_quiet [OF laws] podman_quiet_images [OF laws] frame)
  show "keeps (seen V) (podman_compare_image P v)" by (rule podman_quiet(5) [OF laws])
  show "keeps (seen V) (get_container_env (podman_ops P))" "keeps (seen V) (get_container_state (podman_ops P))"
    unfolding get_container_env_def get_container_state_def by (intro frame; simp add: podman_ops_def podman_quiet [OF laws])+
qed

lemma podman_action_triple:
  assumes laws: "podman_laws P V n" and unit: "pm_unit P = Some c" and service: "sd_service_name c = kolla_service n"
  shows "\<forall>(a, m) \<in> set (podman_actions P). triple (at V n f x) m (\<lambda>_. does a V n f x) (off V n f)"
proof -
  note acts = sure_action [OF podman_start [OF assms]] sure_action [OF podman_restart [OF assms]]
    sure_action [OF podman_remove [OF laws unit]] sure_action [OF podman_stop_and_remove [OF podman_is_ready [OF assms]]]
  have more: "triple (at V n f x) (podman_stop_container P) (\<lambda>_. does ''stop_container'' V n f x) (off V n f)"
    "triple (at V n f x) (podman_recreate_or_restart_container P) (\<lambda>_. does ''recreate_or_restart_container'' V n f x) (off V n f)"
    by (rule triple_weaken [OF podman_stop [OF assms]]; simp add: lifecycle_def)
      (rule triple_weaken [OF podman_recreate_lifecycle [OF assms]]; simp add: lifecycle_def)
  show ?thesis
    unfolding podman_actions_def
    by (simp add: no_result_triple more)
      (intro conjI no_result_triple acts quiet_action podman_quiet_images [OF laws] podman_quiet_actions [OF laws]; simp add: lifecycle_def)
qed

lemma podman_actions_lifecycle:
  assumes "podman_laws P V n" and "pm_unit P = Some c" "sd_service_name c = kolla_service n"
    and "service_params n (w_params s)" and "map_of (podman_actions P) a = Some m" and "m s = (r, t)"
  shows "(\<forall>k. k \<noteq> n \<longrightarrow> V (world (w_host t)) k = V (world (w_host s)) k)
    \<and> (\<forall>b. r = Ret b \<longrightarrow> lifecycle a False (V (world (w_host s)) n) (V (world (w_host t)) n))"
  using podman_action_triple [OF assms(1-3)] map_of_SomeD [OF assms(5)] by (intro action_run [where m = m and s = s, OF assms(4,6)]) blast

section \<open>A run of the module\<close>

definition podman_run :: "'w module_env \<Rightarrow> ('w wstate, bool) cmd" where
  "podman_run E = bnd (podman_worker_actions E) run_action"

text \<open>Reporting the outcome leaves the host as the action left it.\<close>

lemma main_podman_host:
  assumes "generate_module params = Ret args" and "dget args ''container_engine'' \<noteq> PStr ''docker''"
  shows "snd (main E params h) = w_host (snd (podman_run E (start_state args h)))"
proof -
  let ?s = "start_state args h"
  obtain r t where run: "podman_run E ?s = (r, t)" by (rule prod.exhaust)
  have "\<not> dget (w_params ?s) ''container_engine'' = PStr ''docker''" using assms(2) by (simp add: start_state_def)
  then have "snd (module_body E ?s) = t"
    using run unfolding podman_run_def
    by (auto simp: module_body_def catch_all_def bnd_def param_def split: outcome.splits prod.splits)
  then have "snd (main E params h) = w_host t" using assms(1) by (auto simp: main_def start_state_def split: prod.splits)
  with run show ?thesis by simp
qed

lemma podman_run_acts:
  assumes args: "dget args ''name'' = PStr n" "n \<noteq> []" "dget args ''action'' = PStr a"
    and client: "new_podman E (world h) = (Ret C, w)"
    and run: "podman_run E (start_state args h) = (r, t)"
  shows "(w_host t = h \<or> w_host t = h\<lparr>world := w\<rparr>) \<and> (\<forall>b. r \<noteq> Ret b)
    \<or> (\<exists>P c m. pm_client P = C \<and> pm_systemd P = systemd E \<and> pm_unit P = Some c \<and> sd_service_name c = kolla_service n
        \<and> map_of (podman_actions P) a = Some m \<and> m (start_state args (h\<lparr>world := w\<rparr>)) = (r, t))"
proof (cases "systemd_init args")
  case (Ret u)
  then obtain c where c: "u = Some c" "sd_service_name c = kolla_service n" using module_unit_service args by blast
  then have "\<exists>P. podman_init C (systemd E) args = Ret P \<and> pm_client P = C \<and> pm_systemd P = systemd E \<and> pm_unit P = Some c"
    using Ret by (auto simp: podman_init_def)
  then obtain P where P: "podman_init C (systemd E) args = Ret P" "pm_client P = C" "pm_systemd P = systemd E" "pm_unit P = Some c"
    by blast
  let ?s = "start_state args (h\<lparr>world := w\<rparr>)"
  have "podman_run E (start_state args h) = run_action (podman_actions P) ?s"
    using Ret client P(1) by (simp add: podman_run_def podman_worker_actions_def with_params_def start_state_def bnd_def
        on_engine_def on_host_def on_world_def zoom_def)
  also have "\<dots> = (case map_of (podman_actions P) a of None \<Rightarrow> raise AttributeError | Some m \<Rightarrow> m) ?s"
    using args(3) by (simp add: run_action_def param_def start_state_def)
  finally show ?thesis
    using run c(2) P(2-4) by (cases "map_of (podman_actions P) a") (auto simp: start_state_def)
qed (use run in \<open>auto simp: podman_run_def podman_worker_actions_def with_params_def bnd_def start_state_def\<close>)

lemma podman_run_lifecycle:
  assumes args: "dget args ''action'' = PStr a" and params: "service_params n args" "n \<noteq> []"
    and client: "new_podman E (world h) = (Ret C, w)" "V w = V (world h)"
    and laws: "podman_calls C V n" "systemd_calls (systemd E) V n"
    and run: "podman_run E (start_state args h) = (r, t)"
  shows "(\<forall>k. k \<noteq> n \<longrightarrow> V (world (w_host t)) k = V (world h) k)
    \<and> (\<forall>b. r = Ret b \<longrightarrow> lifecycle a False (V (world h) n) (V (world (w_host t)) n))"
proof -
  have name: "dget args ''name'' = PStr n" using params(1) by (rule service_name)
  from podman_run_acts [OF name params(2) args client(1) run] show ?thesis
  proof (elim disjE exE conjE)
    fix P c m
    assume P: "pm_client P = C" "pm_systemd P = systemd E" "pm_unit P = Some c" "sd_service_name c = kolla_service n"
      "map_of (podman_actions P) a = Some m" "m (start_state args (h\<lparr>world := w\<rparr>)) = (r, t)"
    have "podman_laws P V n" using laws P(1,2) by (simp add: podman_laws_def)
    from podman_actions_lifecycle [OF this P(3,4) _ P(5,6)] show ?thesis
      using params(1) client(2) by (simp add: start_state_def)
  qed (use client(2) in auto)
qed

text \<open>C3: A run of the module with Podman does to the containers what its action promises: however the
  module ends, every container but the named one is as it was, and when the action returns, the named
  one has made the change of state of \<open>lifecycle\<close>, as with Docker and for the same tasks: a detached
  container whose restart policy is not \<open>oneshot\<close>.\<close>

theorem podman_module_lifecycle:
  assumes args: "generate_module params = Ret args" "dget args ''container_engine'' \<noteq> PStr ''docker''" "dget args ''action'' = PStr a"
    and params: "service_params n args" "n \<noteq> []"
    and client: "new_podman E (world h) = (Ret C, w)" "V w = V (world h)"
    and laws: "podman_calls C V n" "systemd_calls (systemd E) V n"
  shows "(\<forall>k. k \<noteq> n \<longrightarrow> V (world (snd (main E params h))) k = V (world h) k)
    \<and> (\<forall>b. fst (podman_run E (start_state args h)) = Ret b \<longrightarrow>
        lifecycle a False (V (world h) n) (V (world (snd (main E params h))) n))"
proof -
  obtain r t where run: "podman_run E (start_state args h) = (r, t)" by (rule prod.exhaust)
  from podman_run_lifecycle [OF args(3) params client laws run] show ?thesis
    unfolding main_podman_host [OF args(1,2)] run by simp
qed

section \<open>An engine with the laws\<close>

definition lab_pod :: "lab \<Rightarrow> string \<Rightarrow> podman_container" where
  "lab_pod w m =
     \<lparr>pc_name = PStr m,
      pc_status = PStr (case lab_view w m of Up \<Rightarrow> ''running'' | Exited \<Rightarrow> ''exited'' | _ \<Rightarrow> ''created''),
      pc_attrs = [(''Id'', PStr m)]\<rparr>"

definition lab_pods :: "lab podman_client" where
  "lab_pods =
    \<lparr>pd_images_get = (\<lambda>n. ret [(''Id'', PStr ''image'')]), pd_images_pull = (\<lambda>args. ret [(''Id'', PStr ''image'')]),
     pd_image_remove = (\<lambda>a. ret ()),
     pd_volumes_get = (\<lambda>n. ret []), pd_volumes_create = (\<lambda>a. ret []), pd_volumes_remove = (\<lambda>n. ret ()),
     pd_list = gets (\<lambda>w. map (lab_pod w) (filter (\<lambda>m. lab_view w m \<noteq> Absent) (map fst w))),
     pd_get = (\<lambda>n. raise (APIError 404 True ''no such container'')),
     pd_reload = ret,
     pd_exec_run = (\<lambda>c cmd. ret (PInt 0, [])),
     pd_create = (\<lambda>args w. (Ret (lab_pod [] (py_str (dget args ''name''))), AList.update (py_str (dget args ''name'')) Other w)),
     pd_to_dict = (\<lambda>c. Ret (PDict [])),
     pd_start = (\<lambda>c. lab_set (pc_name c) Up), pd_stop = (\<lambda>c t. lab_set (pc_name c) Exited),
     pd_remove = (\<lambda>c. lab_set (pc_name c) Absent),
     pd_wait = (\<lambda>c. ret (PInt 0)), pd_logs = (\<lambda>c out err. ret []),
     pd_str_error = (\<lambda>st tx. tx)\<rparr>"

lemma lab_pods_find:
  "find_reloaded lab_pods (PStr n) (map (lab_pod v) ms) w = (Ret (if n \<in> set ms then Some (lab_pod v n) else None), w)"
  by (induction ms) (auto simp: lab_pods_def lab_pod_def bnd_def)

lemma lab_pod_shown: "lab_view w n \<noteq> Absent \<Longrightarrow> shown_object n (lab_view w n) (Some (lab_pod w n))"
  by (cases "lab_view w n") (auto simp: shown_object_def lab_pod_def)

lemma lab_pods_laws: "podman_calls lab_pods lab_view n"
proof -
  have listed: "n \<in> fst ` set w" if "lab_view w n \<noteq> Absent" for w
    using that by (auto simp: lab_view_def dest: map_of_SomeD split: option.splits intro: rev_image_eqI)
  have "bnd (pd_list lab_pods) (find_reloaded lab_pods (PStr n)) w
      = (Ret (if n \<in> set (filter (\<lambda>m. lab_view w m \<noteq> Absent) (map fst w)) then Some (lab_pod w n) else None), w)" for w
    unfolding bnd_def lab_pods_find [symmetric] by (simp add: lab_pods_def)
  then have shows_it: "\<forall>w d w'. bnd (pd_list lab_pods) (find_reloaded lab_pods (PStr n)) w = (Ret d, w')
      \<longrightarrow> shown_object n (lab_view w n) d"
    using lab_pod_shown listed by (auto simp: shown_object_def)
  show ?thesis
    unfolding podman_calls_def Let_def using shows_it lab_others
    by (simp add: lab_pods_def frame) (auto simp: effect_def others_def lab_set_def)
qed

text \<open>A task that restarts the stopped container \<open>nova\<close> on a host where \<open>glance\<close> runs as well.\<close>

definition lab_podman_env :: "lab module_env" where
  "lab_podman_env = \<lparr>new_docker = (\<lambda>options. raise (APIError 500 False ''no docker'')), new_podman = ret lab_pods,
     systemd = lab_systemd ''nova'', format_exc = (\<lambda>e. ''Traceback'')\<rparr>"

definition lab_restart :: pydict where
  "lab_restart = [(''common_options'', PDict [(''container_engine'', PStr ''podman'')]), (''container_engine'', PNone),
     (''name'', PStr ''nova''), (''action'', PStr ''restart_container''), (''detach'', PBool True)]"

definition lab_stopped :: "lab host" where
  "lab_stopped = \<lparr>unit_files = (\<lambda>f. None), world = [(''glance'', Up), (''nova'', Exited)]\<rparr>"

lemma lab_restarts:
  "case generate_module lab_restart of
     Ret args \<Rightarrow> dget args ''container_engine'' \<noteq> PStr ''docker'' \<and> dget args ''action'' = PStr ''restart_container''
       \<and> service_params ''nova'' args \<and> fst (podman_run lab_podman_env (start_state args lab_stopped)) = Ret False
   | _ \<Rightarrow> False"
  by code_simp

theorem podman_module_lifecycle_witness:
  "let w = world (snd (main lab_podman_env lab_restart lab_stopped)) in lab_view w ''nova'' = Up \<and> lab_view w ''glance'' = Up"
proof -
  obtain args where args: "generate_module lab_restart = Ret args" "dget args ''container_engine'' \<noteq> PStr ''docker''"
    "dget args ''action'' = PStr ''restart_container''" "service_params ''nova'' args"
    and ret: "fst (podman_run lab_podman_env (start_state args lab_stopped)) = Ret False"
    using lab_restarts by (auto split: outcome.splits)
  have client: "new_podman lab_podman_env (world lab_stopped) = (Ret lab_pods, world lab_stopped)" by (simp add: lab_podman_env_def)
  have laws: "systemd_calls (systemd lab_podman_env) lab_view ''nova''" using lab_systemd_laws by (simp add: lab_podman_env_def)
  note run = podman_module_lifecycle [OF args _ client refl lab_pods_laws laws]
  have "lab_view (world (snd (main lab_podman_env lab_restart lab_stopped))) ''nova'' = Up"
    using conjunct2 [OF run, rule_format, OF _ ret] by (simp add: lifecycle_def)
  moreover have "lab_view (world (snd (main lab_podman_env lab_restart lab_stopped))) ''glance'' = lab_view (world lab_stopped) ''glance''"
    using conjunct1 [OF run, rule_format, of "''glance''"] by simp
  ultimately show ?thesis by (simp add: lab_stopped_def lab_view_def)
qed

end
