(* ===== verification/Task_Runs.thy ===== *)
theory Task_Runs
  imports Container_Lifecycle Podman_Lifecycle
begin

text \<open>
  Tasks in sequence: runs of the module \<open>kolla_container\<close>, each with its own clients and either engine,
  on the same host. The refinement of one run (\<open>Container_Lifecycle\<close>, \<open>Podman_Lifecycle\<close>) and the frame of
  its unit files (\<open>Host_Runs\<close>) compose: tasks for different containers do not get in each other's way.
\<close>

section \<open>Tasks\<close>

text \<open>The container a task is for, the clients of its run, and the parameters.\<close>

type_synonym 'w container_task = "string \<times> 'w module_env \<times> pydict"

fun run_tasks :: "'w container_task list \<Rightarrow> 'w host \<Rightarrow> 'w host" where
  "run_tasks [] h = h"
| "run_tasks ((n, E, params) # ts) h = run_tasks ts (snd (main E params h))"

definition uses_docker :: "pydict \<Rightarrow> bool" where
  "uses_docker args \<longleftrightarrow> dget args ''container_engine'' = PStr ''docker''"

definition worker_run :: "'w module_env \<Rightarrow> pydict \<Rightarrow> ('w wstate, bool) cmd" where
  "worker_run E args = (if uses_docker args then docker_run E else podman_run E)"

definition returns :: "'w module_env \<Rightarrow> pydict \<Rightarrow> 'w host \<Rightarrow> bool" where
  "returns E args h \<longleftrightarrow> (case fst (worker_run E args (start_state args h)) of Ret b \<Rightarrow> True | _ \<Rightarrow> False)"

text \<open>Connecting leaves the containers alone, and whatever client it gives has the laws of its engine.\<close>

definition lawful :: "'w module_env \<Rightarrow> ('w \<Rightarrow> machine) \<Rightarrow> string \<Rightarrow> bool" where
  "lawful E V n \<longleftrightarrow>
     (\<forall>options. keeps V (new_docker E options)) \<and> keeps V (new_podman E)
     \<and> (\<forall>options w C v w'. new_docker E options w = (Ret (C, v), w') \<longrightarrow> quiet_calls C V \<and> container_calls C V n)
     \<and> (\<forall>w C w'. new_podman E w = (Ret C, w') \<longrightarrow> podman_calls C V n)
     \<and> systemd_calls (systemd E) V n"

definition task_ok :: "('w \<Rightarrow> machine) \<Rightarrow> 'w container_task \<Rightarrow> bool" where
  "task_ok V t \<longleftrightarrow>
     (case t of (n, E, params) \<Rightarrow> n \<noteq> [] \<and> lawful E V n
        \<and> (case generate_module params of
             Ret args \<Rightarrow> service_params n args \<and> (\<exists>a. dget args ''action'' = PStr a)
           | _ \<Rightarrow> True))"

section \<open>One task\<close>

lemma main_worker_host:
  assumes "generate_module params = Ret args"
  shows "snd (main E params h) = w_host (snd (worker_run E args (start_state args h)))"
proof (cases "uses_docker args")
  case True
  then show ?thesis
    unfolding worker_run_def uses_docker_def
    by (simp add: main_docker_run [OF assms] split: prod.splits outcome.splits)
next
  case False
  then show ?thesis using main_podman_host [OF assms] by (simp add: worker_run_def uses_docker_def)
qed

text \<open>When there is no client the run has raised or exited before it acted.\<close>

lemma no_client:
  assumes "\<And>C v w. new_docker E (docker_options args) (world h) \<noteq> (Ret (C, v), w)"
    and run: "docker_run E (start_state args h) = (r, t)"
  shows "(\<forall>b. r \<noteq> Ret b) \<and> w_host t \<in> {h, h\<lparr>world := snd (new_docker E (docker_options args) (world h))\<rparr>}"
proof -
  obtain q w where c: "new_docker E (docker_options args) (world h) = (q, w)" by (rule prod.exhaust)
  with assms(1) have "\<forall>p. q \<noteq> Ret p" by (metis prod.exhaust)
  with c run show ?thesis
    by (cases "systemd_init args"; cases q)
      (auto simp: docker_run_def docker_worker_actions_def with_params_def bnd_def start_state_def on_engine_def on_host_def
        on_world_def zoom_def)
qed

lemma no_podman_client:
  assumes "\<And>C w. new_podman E (world h) \<noteq> (Ret C, w)" and run: "podman_run E (start_state args h) = (r, t)"
  shows "(\<forall>b. r \<noteq> Ret b) \<and> w_host t \<in> {h, h\<lparr>world := snd (new_podman E (world h))\<rparr>}"
proof -
  obtain q w where c: "new_podman E (world h) = (q, w)" by (rule prod.exhaust)
  with assms(1) have "\<forall>p. q \<noteq> Ret p" by metis
  with c run show ?thesis
    by (cases "systemd_init args"; cases q)
      (auto simp: podman_run_def podman_worker_actions_def with_params_def bnd_def start_state_def on_engine_def on_host_def
        on_world_def zoom_def)
qed

lemma worker_run_lifecycle:
  assumes args: "dget args ''action'' = PStr a" and params: "service_params n args" "n \<noteq> []" and laws: "lawful E V n"
    and run: "worker_run E args (start_state args h) = (r, t)"
  shows "(\<forall>k. k \<noteq> n \<longrightarrow> V (world (w_host t)) k = V (world h) k)
    \<and> (\<forall>b. r = Ret b \<longrightarrow>
        lifecycle a (uses_docker args \<and> unit_files h (kolla_path n) = None) (V (world h) n) (V (world (w_host t)) n))"
proof (cases "uses_docker args")
  case True
  then have docker: "docker_run E (start_state args h) = (r, t)" using run by (simp add: worker_run_def)
  have kept: "V (snd (new_docker E (docker_options args) (world h))) = V (world h)"
    using laws by (auto simp: lawful_def keeps_def)
  show ?thesis
  proof (cases "\<exists>C v w. new_docker E (docker_options args) (world h) = (Ret (C, v), w)")
    case client: True
    then obtain C v w where C: "new_docker E (docker_options args) (world h) = (Ret (C, v), w)" by blast
    then have V: "V w = V (world h)" and Cl: "quiet_calls C V" "container_calls C V n" "systemd_calls (systemd E) V n"
      using kept laws unfolding lawful_def by fastforce+
    from docker_run_lifecycle [OF args params C V Cl docker] show ?thesis using True by simp
  next
    case False
    with no_client [OF _ docker] kept show ?thesis by auto
  qed
next
  case False
  then have podman: "podman_run E (start_state args h) = (r, t)" using run by (simp add: worker_run_def)
  have kept: "V (snd (new_podman E (world h))) = V (world h)" using laws by (auto simp: lawful_def keeps_def)
  show ?thesis
  proof (cases "\<exists>C w. new_podman E (world h) = (Ret C, w)")
    case client: True
    then obtain C w where C: "new_podman E (world h) = (Ret C, w)" by blast
    then have V: "V w = V (world h)" and Cl: "podman_calls C V n" "systemd_calls (systemd E) V n"
      using kept laws unfolding lawful_def by fastforce+
    from podman_run_lifecycle [OF args params C V Cl podman] show ?thesis using False by simp
  next
    case none: False
    with no_podman_client [OF _ podman] kept show ?thesis by auto
  qed
qed

lemma main_lifecycle:
  assumes ok: "task_ok V (n, E, params)"
  shows "k \<noteq> n \<Longrightarrow> V (world (snd (main E params h))) k = V (world h) k"
    and "p \<noteq> kolla_path n \<Longrightarrow> unit_files (snd (main E params h)) p = unit_files h p"
    and "\<lbrakk>generate_module params = Ret args; dget args ''action'' = PStr a; returns E args h\<rbrakk> \<Longrightarrow>
      lifecycle a (uses_docker args \<and> unit_files h (kolla_path n) = None) (V (world h) n) (V (world (snd (main E params h))) n)"
proof -
  have each: "(\<forall>k. k \<noteq> n \<longrightarrow> V (world (snd (main E params h))) k = V (world h) k)
      \<and> (returns E args h \<longrightarrow>
          lifecycle a (uses_docker args \<and> unit_files h (kolla_path n) = None) (V (world h) n) (V (world (snd (main E params h))) n))"
    if g: "generate_module params = Ret args" "dget args ''action'' = PStr a" for args a
  proof -
    obtain r t where run: "worker_run E args (start_state args h) = (r, t)" by (rule prod.exhaust)
    have "n \<noteq> []" "lawful E V n" "service_params n args" using ok g by (simp_all add: task_ok_def)
    from worker_run_lifecycle [OF g(2) this(3,1,2) run] show ?thesis
      unfolding main_worker_host [OF g(1)] run returns_def by (auto split: outcome.splits)
  qed
  show "V (world (snd (main E params h))) k = V (world h) k" if "k \<noteq> n"
  proof (cases "generate_module params")
    case (Ret args)
    then obtain a where "dget args ''action'' = PStr a" using ok by (auto simp: task_ok_def)
    with each [OF Ret] that show ?thesis by blast
  qed (simp_all add: main_def)
  show "unit_files (snd (main E params h)) p = unit_files h p" if "p \<noteq> kolla_path n"
  proof (rule ccontr)
    assume changed: "unit_files (snd (main E params h)) p \<noteq> unit_files h p"
    obtain r h' where run: "main E params h = (r, h')" by (rule prod.exhaust)
    from module_run_unit [OF run, of p] changed run
    have "\<exists>args m. generate_module params = Ret args \<and> dget args ''name'' = PStr m \<and> p = kolla_path m" by auto
    then obtain args m where g: "generate_module params = Ret args" "dget args ''name'' = PStr m" "p = kolla_path m" by blast
    have "service_params n args" using ok g(1) by (simp add: task_ok_def)
    from service_name [OF this] g that show False by simp
  qed
  show "lifecycle a (uses_docker args \<and> unit_files h (kolla_path n) = None) (V (world h) n) (V (world (snd (main E params h))) n)"
    if "generate_module params = Ret args" "dget args ''action'' = PStr a" "returns E args h"
    using each [OF that(1,2)] that(3) by blast
qed

section \<open>Tasks in sequence\<close>

lemma run_tasks_append: "run_tasks (ts @ us) h = run_tasks us (run_tasks ts h)"
  by (induction ts h rule: run_tasks.induct) simp_all

lemma run_tasks_others:
  assumes "\<forall>t \<in> set ts. task_ok V t"
  shows "k \<notin> fst ` set ts \<Longrightarrow> V (world (run_tasks ts h)) k = V (world h) k"
    and "p \<notin> kolla_path ` fst ` set ts \<Longrightarrow> unit_files (run_tasks ts h) p = unit_files h p"
  using assms
  by (induction ts h rule: run_tasks.induct) (auto simp: main_lifecycle)

text \<open>C4: tasks for different containers of a host do not get in each other's way, whichever engines they
  use and however each of them ends: a container without a task is as it was, and so is every unit file
  but those of the named containers; and a container whose task has returned has in the end made the
  change of state that the action of its task promises, from its state before the first task. The tasks
  are for detached containers whose restart policy is not \<open>oneshot\<close> (part of \<open>task_ok\<close>).
\<close>

theorem tasks_lifecycle:
  assumes ok: "\<forall>t \<in> set ts. task_ok V t" and names: "distinct (map fst ts)"
  shows "(\<forall>k. k \<notin> fst ` set ts \<longrightarrow> V (world (run_tasks ts h)) k = V (world h) k)
    \<and> (\<forall>p. p \<notin> kolla_path ` fst ` set ts \<longrightarrow> unit_files (run_tasks ts h) p = unit_files h p)
    \<and> (\<forall>us n E params vs args a.
         ts = us @ (n, E, params) # vs \<and> generate_module params = Ret args \<and> dget args ''action'' = PStr a
         \<and> returns E args (run_tasks us h) \<longrightarrow>
         lifecycle a (uses_docker args \<and> unit_files h (kolla_path n) = None) (V (world h) n) (V (world (run_tasks ts h)) n))"
proof (intro conjI allI impI; (elim conjE)?)
  fix us n E params vs args a
  assume split: "ts = us @ (n, E, params) # vs"
    and g: "generate_module params = Ret args" "dget args ''action'' = PStr a" "returns E args (run_tasks us h)"
  let ?h = "run_tasks us h"
  have okn: "task_ok V (n, E, params)" and oku: "\<forall>t \<in> set us. task_ok V t" and okv: "\<forall>t \<in> set vs. task_ok V t"
    using ok split by simp_all
  have n: "n \<notin> fst ` set us" "n \<notin> fst ` set vs" using names split by auto
  then have p: "kolla_path n \<notin> kolla_path ` fst ` set us" by (metis imageE kolla_path_inject)
  have "run_tasks ts h = run_tasks vs (snd (main E params ?h))" by (simp add: split run_tasks_append)
  then have "V (world (run_tasks ts h)) n = V (world (snd (main E params ?h))) n"
    using run_tasks_others(1) [OF okv n(2)] by simp
  then show "lifecycle a (uses_docker args \<and> unit_files h (kolla_path n) = None) (V (world h) n) (V (world (run_tasks ts h)) n)"
    using main_lifecycle(3) [OF okn g] run_tasks_others(1) [OF oku n(1)] run_tasks_others(2) [OF oku p] by metis
qed (use run_tasks_others [OF ok] in blast)+

section \<open>Starting again\<close>

lemma docker_run_action:
  assumes "dget args ''action'' = PStr a" and "new_docker E (docker_options args) (world h) = (Ret (C, v), w)"
    and "docker_init C (systemd E) v args = Ret D" and "map_of (docker_actions D) a = Some m"
  shows "docker_run E (start_state args h) = m (start_state args (h\<lparr>world := w\<rparr>))"
proof -
  obtain u where u: "systemd_init args = Ret u" using assms(3) by (cases "systemd_init args") (simp_all add: docker_init_def)
  have "docker_worker_actions E (start_state args h) = (Ret (docker_actions D), start_state args (h\<lparr>world := w\<rparr>))"
    using u assms(2,3) by (simp add: docker_worker_actions_def with_params_def start_state_def bnd_def on_engine_def on_host_def
        on_world_def zoom_def)
  then show ?thesis
    using assms(1,4) by (simp add: docker_run_def run_action_def bnd_def param_def start_state_def)
qed

text \<open>C5: starting is idempotent across runs of the module: after a run of \<open>start_container\<close> with Docker
  that has returned, the container is up, and a second run with the same parameters, to which the image
  is there and the container as requested, ends as a success with \<open>changed\<close> false; it touches no unit
  file and leaves all containers as they are. The container is a detached one whose restart policy is
  not \<open>oneshot\<close>.
\<close>

theorem start_again:
  assumes args: "generate_module params = Ret args" "dget args ''container_engine'' = PStr ''docker''"
      "dget args ''action'' = PStr ''start_container''"
    and params: "service_params n args" "n \<noteq> []" and laws: "lawful E V n"
    and first: "returns E args h" "h1 = snd (main E params h)"
    and client: "new_docker E (docker_options args) (world h1) = (Ret (C, v), w)" "docker_init C (systemd E) v args = Ret D"
    and image: "docker_check_image D (start_state args (h1\<lparr>world := w\<rparr>)) = (Ret img, s1)" "truthy img"
    and same: "docker_check_container D s1 = (Ret container, s2)" "check_container_differs (docker_ops D) s2 = (Ret False, s3)"
  shows "V (world h1) n = Up
    \<and> main E params h1 = (Exit ExitJson [(''changed'', PBool False), (''result'', PBool False)], w_host s3)
    \<and> unit_files (w_host s3) = unit_files h1 \<and> V (world (w_host s3)) = V (world h1)"
proof -
  let ?s = "start_state args (h1\<lparr>world := w\<rparr>)"
  have up: "V (world h1) n = Up"
    using main_lifecycle(3) [of V n E params args "''start_container''" h] args params laws first
    by (simp add: task_ok_def lifecycle_def)
  have "keeps V (new_docker E (docker_options args))" using laws by (simp add: lawful_def)
  then have Vw: "V w = V (world h1)" using client(1) by (rule keepsD)
  have D: "dk_client D = C" "dk_systemd D = systemd E"
    using client(2) by (auto simp: docker_init_def)
  have "quiet_calls C V" "container_calls C V n" "systemd_calls (systemd E) V n"
    using laws client(1) unfolding lawful_def by fastforce+
  then have dl: "docker_laws D V n" by (simp add: docker_laws_def D)
  have at: "at V n (V (world h1)) Up ?s" using params(1) up Vw by (simp add: at_def off_def start_state_def)
  have s1: "at V n (V (world h1)) Up s1" using triple_Ret [OF triple_keeps [OF quiet(1) [OF dl]] at image(1)] .
  from triple_Ret [OF check_container_shows [OF dl] this same(1)] have "shown Up container" by blast
  then have c: "truthy container" "status_starts container ''Up '' = Ret True" by (simp_all add: shown_def)
  have "truthy (dget (w_params ?s) ''detach'')" using params(1) by (simp add: start_state_def service_params_def)
  from docker_start_container_noop [OF image same(1) c(1) same(2) c(2) this]
  have noop: "docker_start_container D ?s = (Ret (), s3)" and l: "local_state s3 = local_state ?s" by blast+
  have "map_of (docker_actions D) ''start_container'' = Some (no_result (docker_start_container D))"
    by (simp add: docker_actions_def)
  from docker_run_action [OF args(3) client this] noop
  have "docker_run E (start_state args h1) = (Ret False, s3)" by (simp add: no_result_def)
  then have "main E params h1 = (Exit ExitJson ([(''changed'', PBool (w_changed s3)), (''result'', PBool False)] @ w_result s3), w_host s3)"
    unfolding main_docker_run [OF args(1,2)] by simp
  moreover have "w_changed s3 = False" "w_result s3 = []" "unit_files (w_host s3) = unit_files h1"
    using l by (simp_all add: local_state_def start_state_def)
  moreover have "seen V s3 = seen V ?s"
    using keepsD [OF quiet(1) [OF dl] image(1)] keepsD [OF quiet(3) [OF dl] same(1)] keepsD [OF quiet(7) [OF dl] same(2)] by simp
  then have "V (world (w_host s3)) = V (world h1)" using Vw by (simp add: seen_def start_state_def)
  ultimately show ?thesis using up by simp
qed

section \<open>Two tasks with different engines\<close>

text \<open>\<open>db\<close> is restarted through Podman and \<open>nova\<close> removed through Docker, on a host where \<open>glance\<close> runs.\<close>

definition restart_env :: "lab module_env" where
  "restart_env = lab_podman_env\<lparr>systemd := lab_systemd ''db''\<rparr>"

definition restart_db :: pydict where
  "restart_db = [(''common_options'', PDict [(''container_engine'', PStr ''podman'')]), (''container_engine'', PNone),
     (''name'', PStr ''db''), (''action'', PStr ''restart_container''), (''detach'', PBool True)]"

definition two_tasks :: "lab container_task list" where
  "two_tasks = [(''db'', restart_env, restart_db), (''nova'', lab_env, lab_task)]"

definition busy_host :: "lab host" where
  "busy_host = \<lparr>unit_files = (\<lambda>f. None), world = [(''glance'', Up), (''nova'', Up), (''db'', Exited)]\<rparr>"

lemma two_tasks_return:
  "case (generate_module restart_db, generate_module lab_task) of
     (Ret a, Ret b) \<Rightarrow> service_params ''db'' a \<and> service_params ''nova'' b \<and> dget a ''action'' = PStr ''restart_container''
       \<and> dget b ''action'' = PStr ''stop_and_remove_container'' \<and> returns restart_env a busy_host
       \<and> returns lab_env b (run_tasks [(''db'', restart_env, restart_db)] busy_host)
   | _ \<Rightarrow> False"
  by code_simp

theorem tasks_lifecycle_witness:
  "let V = lab_view (world (run_tasks two_tasks busy_host)) in V ''glance'' = Up \<and> V ''db'' = Up \<and> V ''nova'' = Absent"
proof -
  obtain a b where g: "generate_module restart_db = Ret a" "generate_module lab_task = Ret b"
    and names: "service_params ''db'' a" "service_params ''nova'' b"
    and actions: "dget a ''action'' = PStr ''restart_container''" "dget b ''action'' = PStr ''stop_and_remove_container''"
    and ret: "returns restart_env a busy_host" "returns lab_env b (run_tasks [(''db'', restart_env, restart_db)] busy_host)"
    using two_tasks_return by (auto split: outcome.splits)
  have laws: "lawful restart_env lab_view ''db''" "lawful lab_env lab_view ''nova''"
    unfolding lawful_def using lab_laws lab_systemd_laws lab_pods_laws
    by (simp_all add: restart_env_def lab_podman_env_def lab_env_def frame)
  have ok: "\<forall>t \<in> set two_tasks. task_ok lab_view t"
    using g names actions laws by (simp add: two_tasks_def task_ok_def)
  note all = tasks_lifecycle [OF ok, of busy_host]
  have ts: "two_tasks = [] @ (''db'', restart_env, restart_db) # [(''nova'', lab_env, lab_task)]"
    "two_tasks = [(''db'', restart_env, restart_db)] @ (''nova'', lab_env, lab_task) # []" by (simp_all add: two_tasks_def)
  have distinct: "distinct (map fst two_tasks)" by (simp add: two_tasks_def)
  let ?V = "lab_view (world (run_tasks two_tasks busy_host))"
  have "?V ''glance'' = lab_view (world busy_host) ''glance''"
    using conjunct1 [OF all [OF distinct], rule_format, of "''glance''"] by (simp add: two_tasks_def)
  moreover have "?V ''db'' = Up"
    using all [OF distinct, THEN conjunct2, THEN conjunct2, rule_format, OF conjI [OF ts(1) conjI [OF g(1) conjI [OF actions(1)]]]] ret(1)
    by (simp add: lifecycle_def)
  moreover have "?V ''nova'' = Absent"
    using all [OF distinct, THEN conjunct2, THEN conjunct2, rule_format, OF conjI [OF ts(2) conjI [OF g(2) conjI [OF actions(2)]]]] ret(2)
    by (simp add: lifecycle_def)
  ultimately show ?thesis by (simp add: busy_host_def lab_view_def)
qed

section \<open>A start and a second one\<close>

definition start_nova :: pydict where
  "start_nova = [(''common_options'', PDict [(''container_engine'', PStr ''docker'')]), (''container_engine'', PNone),
     (''name'', PStr ''nova''), (''action'', PStr ''start_container'')] @ filter (\<lambda>(k, v). k \<noteq> ''name'') nova_params"

definition empty_host :: "lab host" where
  "empty_host = \<lparr>unit_files = (\<lambda>f. None), world = [(''glance'', Up)]\<rparr>"

definition second_start :: "pydict \<Rightarrow> bool" where
  "second_start args =
     (case docker_init lab_client (lab_systemd ''nova'') ''1.41'' args of
        Ret D \<Rightarrow>
          (case docker_check_image D (start_state args (snd (main lab_env start_nova empty_host))) of
             (Ret img, s1) \<Rightarrow> truthy img
               \<and> (case docker_check_container D s1 of
                    (Ret c, s2) \<Rightarrow> fst (check_container_differs (docker_ops D) s2) = Ret False
                  | _ \<Rightarrow> False)
           | _ \<Rightarrow> False)
      | _ \<Rightarrow> False)"

lemma second_start_calls:
  assumes "second_start args"
  shows "\<exists>D img s1 container s2 s3. docker_init lab_client (lab_systemd ''nova'') ''1.41'' args = Ret D
    \<and> docker_check_image D (start_state args (snd (main lab_env start_nova empty_host))) = (Ret img, s1) \<and> truthy img
    \<and> docker_check_container D s1 = (Ret container, s2) \<and> check_container_differs (docker_ops D) s2 = (Ret False, s3)"
proof -
  note calls = assms [unfolded second_start_def]
  obtain D where D: "docker_init lab_client (lab_systemd ''nova'') ''1.41'' args = Ret D"
    using calls by (cases "docker_init lab_client (lab_systemd ''nova'') ''1.41'' args") simp_all
  obtain q s1 where q: "docker_check_image D (start_state args (snd (main lab_env start_nova empty_host))) = (q, s1)"
    by (rule prod.exhaust)
  obtain img where img: "q = Ret img" "truthy img" using calls D q by (cases q) simp_all
  obtain q' s2 where q': "docker_check_container D s1 = (q', s2)" by (rule prod.exhaust)
  obtain container where c: "q' = Ret container" using calls D q img q' by (cases q') simp_all
  obtain q'' s3 where q'': "check_container_differs (docker_ops D) s2 = (q'', s3)" by (rule prod.exhaust)
  have "q'' = Ret False" using calls D q img q' c q'' by simp
  with D q img q' c q'' show ?thesis by blast
qed

lemma start_nova_returns:
  "case generate_module start_nova of
     Ret args \<Rightarrow> dget args ''container_engine'' = PStr ''docker'' \<and> dget args ''action'' = PStr ''start_container''
       \<and> service_params ''nova'' args \<and> returns lab_env args empty_host \<and> second_start args
   | _ \<Rightarrow> False"
  by code_simp

theorem start_again_witness:
  "let h1 = snd (main lab_env start_nova empty_host) in
     lab_view (world h1) ''nova'' = Up
     \<and> (\<exists>h2. main lab_env start_nova h1 = (Exit ExitJson [(''changed'', PBool False), (''result'', PBool False)], h2)
          \<and> unit_files h2 = unit_files h1 \<and> lab_view (world h2) = lab_view (world h1))"
proof -
  obtain args where args: "generate_module start_nova = Ret args" "dget args ''container_engine'' = PStr ''docker''"
      "dget args ''action'' = PStr ''start_container''" and params: "service_params ''nova'' args"
    and first: "returns lab_env args empty_host" and second: "second_start args"
    using start_nova_returns by (auto split: outcome.splits)
  let ?h1 = "snd (main lab_env start_nova empty_host)"
  have client: "new_docker lab_env (docker_options args) (world ?h1) = (Ret (lab_client, ''1.41''), world ?h1)"
    by (simp add: lab_env_def)
  have env: "systemd lab_env = lab_systemd ''nova''" by (simp add: lab_env_def)
  have "?h1\<lparr>world := world ?h1\<rparr> = ?h1" by simp
  with second_start_calls [OF second] obtain D img s1 container s2 s3 where D: "docker_init lab_client (systemd lab_env) ''1.41'' args = Ret D"
    and image: "docker_check_image D (start_state args (?h1\<lparr>world := world ?h1\<rparr>)) = (Ret img, s1)" "truthy img"
    and same: "docker_check_container D s1 = (Ret container, s2)" "check_container_differs (docker_ops D) s2 = (Ret False, s3)"
    unfolding env by metis
  have laws: "lawful lab_env lab_view ''nova''"
    unfolding lawful_def using lab_laws lab_systemd_laws by (simp add: lab_env_def frame)
  from start_again [OF args params _ laws first refl client D image same] show ?thesis by auto
qed

end
