(* ===== verification/Module_Args.thy ===== *)
theory Module_Args
  imports Kolla_Container
begin

text \<open>
  The argument specification of the module \<open>kolla_container\<close> (\<open>generate_module\<close> in
  \<open>ansible/library/kolla_container.py\<close>). Ansible checks the parameters against it before the code
  runs; \<open>accepted\<close> states what its documentation promises of the parameters that pass. The theorem says
  that such parameters, merged with common options of the right types, are all a worker needs.
\<close>

section \<open>The specification\<close>

datatype arg_type = ArgStr | ArgInt | ArgBool | ArgDict | ArgList

record arg_spec =
  arg_required :: bool
  arg_type :: arg_type
  arg_default :: pyval
  arg_choices :: "string list"
  arg_no_log :: bool

definition arg :: "arg_type \<Rightarrow> arg_spec" where
  "arg t = \<lparr>arg_required = False, arg_type = t, arg_default = PNone, arg_choices = [], arg_no_log = False\<rparr>"

definition argument_spec :: "(string \<times> arg_spec) list" where
  "argument_spec =
    [(''common_options'', (arg ArgDict)\<lparr>arg_default := PDict []\<rparr>),
     (''action'', (arg ArgStr)\<lparr>arg_required := True,
        arg_choices := [''compare_container'', ''compare_image'', ''create_volume'', ''ensure_image'',
          ''get_container_env'', ''get_container_state'', ''pull_image'', ''recreate_or_restart_container'',
          ''remove_container'', ''remove_image'', ''remove_volume'', ''restart_container'',
          ''start_container'', ''stop_container'', ''stop_and_remove_container'']\<rparr>),
     (''api_version'', arg ArgStr), (''auth_email'', arg ArgStr),
     (''auth_password'', (arg ArgStr)\<lparr>arg_no_log := True\<rparr>),
     (''auth_registry'', arg ArgStr), (''auth_username'', arg ArgStr),
     (''command'', arg ArgStr), (''container_engine'', arg ArgStr),
     (''detach'', (arg ArgBool)\<lparr>arg_default := PBool True\<rparr>),
     (''labels'', (arg ArgDict)\<lparr>arg_default := PDict []\<rparr>),
     (''name'', arg ArgStr), (''environment'', arg ArgDict), (''healthcheck'', arg ArgDict),
     (''image'', arg ArgStr),
     (''ipc_mode'', (arg ArgStr)\<lparr>arg_choices := [[], ''host'', ''private'', ''shareable'']\<rparr>),
     (''cap_add'', (arg ArgList)\<lparr>arg_default := PList []\<rparr>),
     (''security_opt'', (arg ArgList)\<lparr>arg_default := PList []\<rparr>),
     (''pid_mode'', (arg ArgStr)\<lparr>arg_choices := [[], ''host'', ''private'']\<rparr>),
     (''cgroupns_mode'', (arg ArgStr)\<lparr>arg_choices := [''private'', ''host'']\<rparr>),
     (''privileged'', (arg ArgBool)\<lparr>arg_default := PBool False\<rparr>),
     (''graceful_timeout'', arg ArgInt),
     (''remove_on_exit'', (arg ArgBool)\<lparr>arg_default := PBool True\<rparr>),
     (''restart_policy'', (arg ArgStr)\<lparr>arg_choices := [''no'', ''on-failure'', ''oneshot'', ''always'', ''unless-stopped'']\<rparr>),
     (''restart_retries'', arg ArgInt),
     (''state'', (arg ArgStr)\<lparr>arg_default := PStr ''running'', arg_choices := [''running'', ''exited'', ''paused'']\<rparr>),
     (''tls_verify'', (arg ArgBool)\<lparr>arg_default := PBool False\<rparr>),
     (''tls_cert'', arg ArgStr), (''tls_key'', arg ArgStr), (''tls_cacert'', arg ArgStr),
     (''tmpfs'', arg ArgList), (''volumes'', arg ArgList), (''volumes_from'', arg ArgList),
     (''dimensions'', (arg ArgDict)\<lparr>arg_default := PDict []\<rparr>),
     (''tty'', (arg ArgBool)\<lparr>arg_default := PBool False\<rparr>),
     (''client_timeout'', arg ArgInt),
     (''ignore_missing'', (arg ArgBool)\<lparr>arg_default := PBool False\<rparr>)]"

definition required_if :: "(string \<times> string \<times> string list) list" where
  "required_if =
    [(''action'', ''pull_image'', [''image'']),
     (''action'', ''start_container'', [''image'', ''name'']),
     (''action'', ''compare_container'', [''name'']),
     (''action'', ''compare_image'', [''name'']),
     (''action'', ''create_volume'', [''name'']),
     (''action'', ''ensure_image'', [''image'']),
     (''action'', ''get_container_env'', [''name'']),
     (''action'', ''get_container_state'', [''name'']),
     (''action'', ''recreate_or_restart_container'', [''name'']),
     (''action'', ''remove_container'', [''name'']),
     (''action'', ''remove_image'', [''image'']),
     (''action'', ''remove_volume'', [''name'']),
     (''action'', ''restart_container'', [''name'']),
     (''action'', ''stop_container'', [''name'']),
     (''action'', ''stop_and_remove_container'', [''name''])]"

section \<open>What Ansible promises of the parameters\<close>

fun has_type :: "arg_type \<Rightarrow> pyval \<Rightarrow> bool" where
  "has_type ArgStr (PStr s) = True"
| "has_type ArgInt (PInt i) = True"
| "has_type ArgBool (PBool b) = True"
| "has_type ArgDict (PDict d) = True"
| "has_type ArgList (PList xs) = True"
| "has_type _ _ = False"

definition allowed :: "arg_spec \<Rightarrow> pyval \<Rightarrow> bool" where
  "allowed s v \<longleftrightarrow>
     (if v = PNone then \<not> arg_required s
      else has_type (arg_type s) v \<and> (arg_choices s = [] \<or> v \<in> PStr ` set (arg_choices s)))"

text \<open>Every argument of the specification is there, of its type and among its choices, or \<open>None\<close> where
  it is not required; what \<open>required_if\<close> asks for the action is set.\<close>

definition accepted :: "pydict \<Rightarrow> bool" where
  "accepted params \<longleftrightarrow>
     wf_dict params \<and> set (map fst params) = set (map fst argument_spec)
     \<and> list_all (\<lambda>(k, s). allowed s (dget params k)) argument_spec
     \<and> list_all (\<lambda>(k, v, names). dget params k = PStr v \<longrightarrow> list_all (\<lambda>n. dget params n \<noteq> PNone) names) required_if"

text \<open>A common option is one of the arguments and of its type. An integer may come as a string of digits when
  the option has a default.\<close>

definition common_option_ok :: "string \<times> pyval \<Rightarrow> bool" where
  "common_option_ok kv \<longleftrightarrow>
     (case map_of argument_spec (fst kv) of
        None \<Rightarrow> False
      | Some s \<Rightarrow>
          (case snd kv of
             PStr t \<Rightarrow>
               arg_type s = ArgStr
               \<or> arg_type s = ArgInt \<and> has_key common_options_defaults (fst kv) \<and> t \<noteq> [] \<and> list_all is_decimal t
           | v \<Rightarrow> has_type (arg_type s) v))"

text \<open>The common option \<open>k\<close> is the text \<open>t\<close> that the merge takes for a number: the module does not set it, it
  has a default, and \<open>str.isdigit\<close> holds. That the argument is a text does not matter.\<close>

definition turned_number :: "pydict \<Rightarrow> pydict \<Rightarrow> string \<Rightarrow> string \<Rightarrow> bool" where
  "turned_number params common k t \<longleftrightarrow>
     has_key common_options_defaults k \<and> dget params k = PNone
     \<and> map_of common k = Some (PStr t) \<and> t \<noteq> [] \<and> list_all is_digit t"

section \<open>Types of the merged parameters\<close>

lemma spec_lookup [simp]:
  "map_of argument_spec ''environment'' = Some (arg ArgDict)"
  "map_of argument_spec ''common_options'' = Some ((arg ArgDict)\<lparr>arg_default := PDict []\<rparr>)"
  "map_of argument_spec ''client_timeout'' = Some (arg ArgInt)"
  "map_of argument_spec ''restart_retries'' = Some (arg ArgInt)"
  "map_of argument_spec ''graceful_timeout'' = Some (arg ArgInt)"
  "map_of argument_spec ''name'' = Some (arg ArgStr)"
  "map_of argument_spec ''image'' = Some (arg ArgStr)"
  "map_of argument_spec ''api_version'' = Some (arg ArgStr)"
  "map_of argument_spec ''container_engine'' = Some (arg ArgStr)"
  "map_of argument_spec ''action'' = Some (snd (argument_spec ! 1))"
  by (simp_all add: argument_spec_def)

lemma arg_simps [simp]:
  "arg_required (arg t) = False" "arg_type (arg t) = t" "arg_default (arg t) = PNone" "arg_choices (arg t) = []"
  by (simp_all add: arg_def)

lemma digits_val_decimal: "list_all is_decimal s \<Longrightarrow> \<exists>n. digits_val a s = Some n"
  by (induction a s rule: digits_val.induct) auto

lemma digits_number:
  assumes "t \<noteq> []" "list_all is_decimal t"
  shows "int_of_str t \<noteq> None"
proof -
  obtain c cs where t: "t = c # cs" using assms(1) by (cases t) auto
  have "\<not> is_space (hd t)" "\<not> is_space (last t)"
    using assms t by (auto simp: list_all_iff intro!: is_decimal_not_space)
  then have "str_strip t = t" using assms(1) by (simp add: str_strip_id)
  moreover have "c \<noteq> CHR ''-''" "c \<noteq> CHR ''+''" using assms(2) not_decimal_sign by (auto simp: t)
  moreover obtain n where "digits_val (digit_val c) cs = Some n" using digits_val_decimal assms(2) by (auto simp: t)
  ultimately show ?thesis
    using assms by (simp add: int_of_str_def nat_of_str_def t)
qed

lemma digits_text:
  "t \<noteq> [] \<Longrightarrow> list_all is_digit t \<Longrightarrow>
    digits_to_int (PStr t) = (case int_of_str t of None \<Rightarrow> Raise ValueError | Some n \<Rightarrow> Ret (PInt n))"
  by (simp add: digits_to_int_def split: option.splits)

lemma not_digits: "(\<And>t. w = PStr t \<Longrightarrow> \<not> (t \<noteq> [] \<and> list_all is_digit t)) \<Longrightarrow> digits_to_int w = Ret w"
  by (cases w) (auto simp: digits_to_int_def)

lemma common_value:
  assumes "common_option_ok (k, w)"
  obtains s where "map_of argument_spec k = Some s"
    and "has_type (arg_type s) w \<or> has_key common_options_defaults k \<and> (\<exists>t. w = PStr t \<and> t \<noteq> [] \<and> list_all is_digit t \<and> int_of_str t \<noteq> None)"
proof -
  obtain s where s: "map_of argument_spec k = Some s"
    using assms by (auto simp: common_option_ok_def split: option.splits)
  show thesis
  proof (rule that [OF s], cases "\<exists>t. w = PStr t")
    case True
    then obtain t where w: "w = PStr t" ..
    show "has_type (arg_type s) w \<or> has_key common_options_defaults k \<and> (\<exists>t. w = PStr t \<and> t \<noteq> [] \<and> list_all is_digit t \<and> int_of_str t \<noteq> None)"
      using assms s digits_number [of t] by (auto simp: common_option_ok_def w is_digit_def list_all_iff)
  next
    case False
    then show "has_type (arg_type s) w \<or> has_key common_options_defaults k \<and> (\<exists>t. w = PStr t \<and> t \<noteq> [] \<and> list_all is_digit t \<and> int_of_str t \<noteq> None)"
      using assms s by (cases w) (auto simp: common_option_ok_def)
  qed
qed

lemma common_dict:
  "common_option_ok (k, w) \<Longrightarrow> map_of argument_spec k = Some s \<Longrightarrow> arg_type s = ArgDict \<Longrightarrow> has_type ArgDict w"
  by (cases w) (auto simp: common_option_ok_def)

lemma accepted_arg:
  assumes "accepted params" "map_of argument_spec k = Some s"
  shows "allowed s (dget params k)"
  using assms by (auto simp: accepted_def list_all_iff dest!: map_of_SomeD)

lemma accepted_key: "accepted params \<Longrightarrow> map_of params k = None \<longleftrightarrow> map_of argument_spec k = None"
  by (simp add: accepted_def map_of_eq_None_iff)

lemma defaults_typed:
  "list_all (\<lambda>(k, v). v = PNone \<or> (case map_of argument_spec k of Some s \<Rightarrow> has_type (arg_type s) v | None \<Rightarrow> False))
    common_options_defaults"
  by (simp add: common_options_defaults_def)

lemma default_typed:
  assumes "dget common_options_defaults k \<noteq> PNone"
  shows "\<exists>s. map_of argument_spec k = Some s \<and> has_type (arg_type s) (dget common_options_defaults k)"
proof -
  obtain v where v: "map_of common_options_defaults k = Some v" "v \<noteq> PNone"
    using assms by (auto simp: dget_def dget_or_def split: option.splits)
  from defaults_typed map_of_SomeD [OF v(1)] v(2) show ?thesis
    by (auto simp: list_all_iff dget_def dget_or_def v(1) split: option.splits)
qed

text \<open>The type of what the merge takes: a number where a text of digits was turned into one, else the type
  of the argument.\<close>

definition merged_type :: "pydict \<Rightarrow> pydict \<Rightarrow> string \<Rightarrow> pyval \<Rightarrow> bool" where
  "merged_type params common k v \<longleftrightarrow>
     (\<exists>s. map_of argument_spec k = Some s
        \<and> ((\<exists>t. turned_number params common k t \<and> v = PInt (the (int_of_str t)))
           \<or> (\<nexists>t. turned_number params common k t) \<and> has_type (arg_type s) v))"

definition convertible_numbers :: "pydict \<Rightarrow> pydict \<Rightarrow> bool" where
  "convertible_numbers params common \<longleftrightarrow> (\<nexists>k t. turned_number params common k t \<and> int_of_str t = None)"

lemma effective_typed:
  assumes params: "accepted params" and common: "list_all common_option_ok common" and conv: "convertible_numbers params common"
    and eff: "effective params common k = Some v"
  shows "merged_type params common k v"
proof -
  have ok: "common_option_ok (k, w)" if "map_of common k = Some w" for w
    using common map_of_SomeD [OF that] by (auto simp: list_all_iff)
  obtain u where u: "map_of params k = Some u"
  proof (cases "map_of params k")
    case None
    then have "map_of common k = Some v" using eff by (simp add: effective_def)
    then show thesis using ok None accepted_key [OF params] by (auto elim: common_value)
  qed
  obtain s where s: "map_of argument_spec k = Some s" using u accepted_key [OF params] by (metis not_Some_eq)
  have du: "dget params k = u" using u by (simp add: dget_def dget_or_def)
  have al: "allowed s u" using accepted_arg [OF params s] du by simp
  show ?thesis
  proof (cases "u = PNone")
    case False
    then have "u = v" using eff u by (simp add: effective_def)
    with al False s du show ?thesis by (auto simp: allowed_def merged_type_def turned_number_def)
  next
    case True
    show ?thesis
    proof (cases "map_of common k")
      case None
      then have "v = dget common_options_defaults k" "v \<noteq> PNone"
        using eff u True by (auto simp: effective_def split: if_splits)
      then show ?thesis using default_typed [of k] None by (auto simp: merged_type_def turned_number_def)
    next
      case (Some w)
      from ok [OF this] have w: "has_type (arg_type s) w \<or> has_key common_options_defaults k
          \<and> (\<exists>t. w = PStr t \<and> t \<noteq> [] \<and> list_all is_digit t \<and> int_of_str t \<noteq> None)"
        using s by (elim common_value) simp
      have v: "v = (if has_key common_options_defaults k then digits_value w else w)"
        using eff u True Some by (auto simp: effective_def split: if_splits)
      show ?thesis
      proof (cases "\<exists>t. turned_number params common k t")
        case True
        then obtain t where t: "turned_number params common k t" ..
        then obtain n where n: "int_of_str t = Some n" using conv by (auto simp: convertible_numbers_def)
        have "w = PStr t" "v = PInt n"
          using t n v Some digits_text [of t] by (auto simp: turned_number_def digits_value_def)
        then show ?thesis using s t n by (auto simp: merged_type_def)
      next
        case False
        then have "v = w" "has_type (arg_type s) w"
          using v w Some True du not_digits [of w] by (auto simp: turned_number_def digits_value_def)
        then show ?thesis using s False by (simp add: merged_type_def)
      qed
    qed
  qed
qed

lemma merge_params_return:
  assumes "wf_dict ps"
    and "\<And>k w. (k, PNone) \<in> set ps \<Longrightarrow> has_key common_options_defaults k \<Longrightarrow> map_of acc k = Some w \<Longrightarrow>
      \<exists>w'. digits_to_int w = Ret w'"
  shows "\<exists>r. ofold merge_param ps acc = Ret r"
  using assms
proof (induction ps arbitrary: acc)
  case (Cons kv ps)
  obtain k v where kv: "kv = (k, v)" by (cases kv)
  have "\<exists>acc'. merge_param (k, v) acc = Ret acc'"
    using Cons.prems(2) [of k] by (fastforce simp: merge_param_def kv has_key_def split: option.splits)
  then obtain acc' where a: "merge_param (k, v) acc = Ret acc'" ..
  have "\<exists>w'. digits_to_int w = Ret w'"
    if "(x, PNone) \<in> set ps" "has_key common_options_defaults x" "map_of acc' x = Some w" for x w
  proof -
    have "x \<noteq> k" using that(1) Cons.prems(1) by (force simp: kv)
    then have "map_of acc x = Some w" using that(3) merge_param_step [OF a] by simp
    with that(1,2) show ?thesis by (intro Cons.prems(2) [of x w]) (simp_all add: kv)
  qed
  then have "\<exists>r. ofold merge_param ps acc' = Ret r" using Cons.IH Cons.prems(1) by (simp add: kv)
  then show ?case using a by (simp add: kv)
qed simp

lemma merge_param_cases:
  "(\<exists>acc'. merge_param kv acc = Ret acc') \<or> merge_param kv acc = Raise ValueError"
  by (auto simp: merge_param_def digits_to_int_def case_prod_beta split: option.splits pyval.splits)

lemma merge_params_fail:
  assumes "wf_dict ps" "(k, PNone) \<in> set ps" "has_key common_options_defaults k" "map_of acc k = Some (PStr t)"
    and t: "t \<noteq> []" "list_all is_digit t" "int_of_str t = None"
  shows "ofold merge_param ps acc = Raise ValueError"
  using assms(1,2,4)
proof (induction ps arbitrary: acc)
  case (Cons kv ps)
  show ?case
  proof (cases "kv = (k, PNone)")
    case True
    then show ?thesis
      using Cons.prems(3) assms(3) digits_text [OF t(1,2)] t(3) by (auto simp: merge_param_def has_key_def)
  next
    case False
    then have rest: "(k, PNone) \<in> set ps" "fst kv \<noteq> k" using Cons.prems(1,2) by (cases kv; force)+
    show ?thesis
    proof (cases "merge_param kv acc")
      case (Ret acc')
      then have "map_of acc' k = Some (PStr t)"
        using merge_param_step [of "fst kv" "snd kv" acc acc'] rest(2) Cons.prems(3) by simp
      then show ?thesis using Ret Cons.IH rest(1) Cons.prems(1) by (cases kv) simp
    qed (use merge_param_cases [of kv acc] in auto)
  qed
qed simp

section \<open>The parameters a worker gets\<close>

lemma actions_implemented:
  "list_all (\<lambda>a. map_of (docker_actions D) a \<noteq> None \<and> map_of (podman_actions P) a \<noteq> None)
    (arg_choices (snd (argument_spec ! 1)))"
  by (simp add: argument_spec_def docker_actions_def podman_actions_def)

lemma accepted_action:
  assumes "accepted params"
  obtains a where "map_of params ''action'' = Some (PStr a)" "a \<in> set (arg_choices (snd (argument_spec ! 1)))"
proof -
  let ?s = "snd (argument_spec ! 1)"
  have s: "map_of argument_spec ''action'' = Some ?s" "arg_required ?s" "arg_choices ?s \<noteq> []"
    by simp (simp_all add: argument_spec_def)
  from accepted_arg [OF assms s(1)] s(2,3) obtain a where "dget params ''action'' = PStr a" "a \<in> set (arg_choices ?s)"
    by (auto simp: allowed_def split: if_splits)
  then show thesis using that by (auto simp: dget_def dget_or_def split: option.splits)
qed

lemma required_names: "(x, v, names) \<in> set required_if \<Longrightarrow> set names \<subseteq> {''image'', ''name''}"
  by (auto simp: required_if_def)

lemma has_type_int: "has_type ArgInt v \<longleftrightarrow> (\<exists>i. v = PInt i)"
  by (cases v) auto

lemma has_type_str: "has_type ArgStr v \<longleftrightarrow> (\<exists>s. v = PStr s)"
  by (cases v) auto

lemma systemd_init_typed:
  assumes "map_of args ''client_timeout'' = Some (PInt t)" "map_of args ''restart_retries'' = Some (PInt r)"
    and "map_of args ''name'' = None \<or> map_of args ''name'' = Some (PStr n)" and "r \<noteq> 0"
  shows "\<exists>u. systemd_init args = Ret u"
  using assms by (auto simp: systemd_init_def Let_def py_floordiv_def dget_def dget_or_def)

text \<open>What the merge of accepted parameters with well-typed common options gives.\<close>

definition merged_args :: "pydict \<Rightarrow> pydict \<Rightarrow> pydict \<Rightarrow> bool" where
  "merged_args params common args \<longleftrightarrow> accepted params \<and> given_dict params ''common_options'' common
     \<and> list_all common_option_ok common \<and> convertible_numbers params common \<and> generate_module params = Ret args"

lemma accepted_environment:
  assumes "accepted params"
  obtains env where "given_dict params ''environment'' env"
proof -
  have "allowed (arg ArgDict) (dget params ''environment'')" by (rule accepted_arg [OF assms]) simp
  then show ?thesis using that by (cases "dget params ''environment''") (auto simp: allowed_def given_dict_def)
qed

lemma common_environment:
  assumes "list_all common_option_ok common"
  obtains env where "given_dict common ''environment'' env"
proof (cases "map_of common ''environment''")
  case None
  then show ?thesis using that by (simp add: given_dict_def dget_def dget_or_def)
next
  case (Some w)
  then have "common_option_ok (''environment'', w)" using assms map_of_SomeD [OF Some] by (auto simp: list_all_iff)
  then show ?thesis using that Some by (cases w) (auto simp: common_option_ok_def given_dict_def dget_def dget_or_def)
qed

lemma accepted_merge:
  assumes params: "accepted params" and given: "given_dict params ''common_options'' common"
    and common: "list_all common_option_ok common" and conv: "convertible_numbers params common"
  obtains args where "merged_args params common args"
proof -
  let ?ps = "AList.delete ''environment'' (AList.delete ''common_options'' params)"
  have wf: "wf_dict params" using params by (simp add: accepted_def)
  obtain env where e: "given_dict params ''environment'' env" by (rule accepted_environment [OF params])
  obtain common_env where ce: "given_dict common ''environment'' common_env" by (rule common_environment [OF common])
  have ok: "common_option_ok (k, w)" if "map_of common k = Some w" for k w
    using common map_of_SomeD [OF that] by (auto simp: list_all_iff)
  have "\<exists>w'. digits_to_int w = Ret w'"
    if "(k, PNone) \<in> set ?ps" "has_key common_options_defaults k" "map_of common k = Some w" for k w
  proof -
    have "(k, PNone) \<in> set params" using that(1) by (auto simp: AList.delete_eq)
    then have "dget params k = PNone" using map_of_in_wf [OF wf, of k PNone] by (simp add: dget_def dget_or_def)
    then show ?thesis
      using conv that(2,3) digits_text not_digits [of w] by (fastforce simp: convertible_numbers_def turned_number_def split: option.splits)
  qed
  then have "\<exists>r. ofold merge_param ?ps common = Ret r"
    using wf by (intro merge_params_return) simp_all
  then obtain new where new: "ofold merge_param ?ps common = Ret new" ..
  have "map_of new ''environment'' = map_of common ''environment''"
    using merge_params [OF new, of "''environment''"] wf by (simp add: effective_def)
  then have "dict_of (dget new ''environment'') = Ret common_env"
    using dict_of_given [OF ce] by (simp add: dget_def dget_or_def)
  then show ?thesis
    using that new dict_of_given [OF given] dict_of_given [OF e] assms by (simp add: merged_args_def generate_module_def)
qed

lemma accepted_merge_fails:
  assumes params: "accepted params" and given: "given_dict params ''common_options'' common"
    and common: "list_all common_option_ok common"
    and t: "turned_number params common k t" "int_of_str t = None"
  shows "generate_module params = Raise ValueError"
proof -
  have wf: "wf_dict params" using params by (simp add: accepted_def)
  obtain env where e: "given_dict params ''environment'' env" by (rule accepted_environment [OF params])
  obtain common_env where ce: "given_dict common ''environment'' common_env" by (rule common_environment [OF common])
  have k: "has_key common_options_defaults k" "dget params k = PNone" "map_of common k = Some (PStr t)" "t \<noteq> []" "list_all is_digit t"
    using t(1) by (simp_all add: turned_number_def)
  have other: "k \<noteq> ''environment''" "k \<noteq> ''common_options''"
    using ce k(1,3) by (auto simp: given_dict_def dget_def dget_or_def has_key_def common_options_defaults_def)
  obtain s where "map_of argument_spec k = Some s"
    using common map_of_SomeD [OF k(3)] by (fastforce simp: list_all_iff elim: common_value)
  then obtain u where "map_of params k = Some u" using accepted_key [OF params] by (metis not_Some_eq)
  then have "map_of params k = Some PNone" using k(2) by (simp add: dget_def dget_or_def)
  then have "map_of (AList.delete ''environment'' (AList.delete ''common_options'' params)) k = Some PNone"
    using other by (simp add: delete_conv')
  note mem = map_of_SomeD [OF this]
  have "ofold merge_param (AList.delete ''environment'' (AList.delete ''common_options'' params)) common = Raise ValueError"
    using wf by (intro merge_params_fail [OF _ mem k(1,3,4,5) t(2)]) simp
  then show ?thesis using dict_of_given [OF given] dict_of_given [OF e] by (simp add: generate_module_def)
qed

lemma merged_lookup:
  assumes m: "merged_args params common args"
  shows "k \<noteq> ''environment'' \<Longrightarrow> map_of args k =
    (if k \<in> {''pid_mode'', ''ipc_mode''}
     then (case effective (own_options params) common k of Some v \<Rightarrow> if truthy v then Some v else None | None \<Rightarrow> None)
     else effective (own_options params) common k)"
    and "\<exists>env. map_of args ''environment'' = Some (PDict env)"
proof -
  have p: "accepted params" "given_dict params ''common_options'' common" "list_all common_option_ok common" "generate_module params = Ret args"
    using m by (simp_all add: merged_args_def)
  obtain env where e: "given_dict params ''environment'' env" by (rule accepted_environment [OF p(1)])
  obtain common_env where ce: "given_dict common ''environment'' common_env" by (rule common_environment [OF p(3)])
  have "wf_dict params" using p(1) by (simp add: accepted_def)
  note look = generate_module_lookup [OF p(4) this p(2) e ce]
  show "map_of args k =
    (if k \<in> {''pid_mode'', ''ipc_mode''}
     then (case effective (own_options params) common k of Some v \<Rightarrow> if truthy v then Some v else None | None \<Rightarrow> None)
     else effective (own_options params) common k)" if "k \<noteq> ''environment''"
    using that by (simp add: look)
  show "\<exists>env. map_of args ''environment'' = Some (PDict env)" using look [of "''environment''"] by simp
qed

lemma merged_own:
  "merged_args params common args \<Longrightarrow> k \<notin> {''common_options'', ''environment'', ''pid_mode'', ''ipc_mode''} \<Longrightarrow>
    map_of args k = effective params common k"
  by (simp add: merged_lookup(1) effective_own)

lemma merged_typed:
  assumes m: "merged_args params common args" and k: "map_of args k = Some v"
  shows "merged_type params common k v"
proof (cases "k = ''environment''")
  case True
  have "\<nexists>t. turned_number params common ''environment'' t"
  proof -
    have "list_all common_option_ok common" using m by (simp add: merged_args_def)
    from common_environment [OF this] obtain env where "given_dict common ''environment'' env" .
    then show ?thesis by (auto simp: turned_number_def given_dict_def dget_def dget_or_def)
  qed
  then show ?thesis using merged_lookup(2) [OF m] k True by (auto simp: merged_type_def)
next
  case False
  have p: "accepted params" "list_all common_option_ok common" "convertible_numbers params common" using m by (simp_all add: merged_args_def)
  have eff: "effective (own_options params) common k = Some v"
    using k merged_lookup(1) [OF m, of k] False by (auto split: if_splits option.splits)
  show ?thesis
  proof (cases "k = ''common_options''")
    case True
    then have "map_of common k = Some v" using eff by (simp add: effective_def own_options_def)
    then have "common_option_ok (k, v)" using p(2) map_of_SomeD by (fastforce simp: list_all_iff)
    then show ?thesis using common_dict [of k v] True
      by (auto simp: merged_type_def turned_number_def has_key_def common_options_defaults_def)
  qed (use False eff effective_typed [OF p] effective_own in simp)
qed

lemma merged_given:
  "merged_args params common args \<Longrightarrow> map_of params k = Some u \<Longrightarrow> u \<noteq> PNone \<Longrightarrow>
    k \<notin> {''common_options'', ''environment'', ''pid_mode'', ''ipc_mode''} \<Longrightarrow> map_of args k = Some u"
  by (simp add: merged_own effective_def)

lemma merged_default:
  assumes m: "merged_args params common args"
    and k: "k \<in> {''restart_retries'', ''api_version'', ''graceful_timeout'', ''client_timeout'', ''container_engine''}"
  shows "has_key args k"
proof -
  have key: "map_of argument_spec k \<noteq> None" "k \<notin> {''common_options'', ''environment'', ''pid_mode'', ''ipc_mode''}"
    using k by (elim insertE; simp)+
  have dflt: "has_key common_options_defaults k \<and> dget common_options_defaults k \<noteq> PNone"
    using k by (elim insertE; simp add: common_options_defaults_def has_key_def dget_def dget_or_def)
  have "accepted params" using m by (simp add: merged_args_def)
  then obtain u where "map_of params k = Some u" using key(1) accepted_key by (metis not_Some_eq)
  then have "\<exists>v. effective params common k = Some v"
    using dflt by (cases "map_of common k") (simp_all add: effective_def)
  then show ?thesis using merged_own [OF m key(2)] by (simp add: has_key_def)
qed

lemma merged_required:
  assumes m: "merged_args params common args" and a: "map_of params ''action'' = Some (PStr a)"
    and n: "(''action'', a, names) \<in> set required_if" "n \<in> set names"
  shows "has_key args n"
proof -
  have "dget params n \<noteq> PNone"
    using m n a by (force simp: merged_args_def accepted_def list_all_iff dget_def dget_or_def)
  then obtain u where "map_of params n = Some u" "u \<noteq> PNone" by (auto simp: dget_def dget_or_def split: option.splits)
  moreover have "n \<in> {''image'', ''name''}" using n required_names by blast
  ultimately show ?thesis using merged_given [OF m, of n u] by (auto simp: has_key_def)
qed

lemma merged_kinds:
  assumes "merged_type params common k v" and "map_of argument_spec k = Some s"
  shows "arg_type s = ArgInt \<Longrightarrow> \<exists>i. v = PInt i"
    and "arg_type s = ArgStr \<Longrightarrow> \<not> has_key common_options_defaults k \<Longrightarrow> \<exists>t. v = PStr t"
  using assms by (auto simp: merged_type_def has_type_int has_type_str turned_number_def)

lemma merged_unit:
  assumes m: "merged_args params common args" and "dget args ''restart_retries'' \<noteq> PInt 0"
  shows "\<exists>u. systemd_init args = Ret u"
proof -
  note typed = merged_typed [OF m]
  have int: "\<exists>i. map_of args k = Some (PInt i)"
    if k: "k \<in> {''restart_retries'', ''api_version'', ''graceful_timeout'', ''client_timeout'', ''container_engine''}"
      "map_of argument_spec k = Some (arg ArgInt)" for k
  proof -
    obtain v where v: "map_of args k = Some v" using merged_default [OF m k(1)] by (auto simp: has_key_def)
    then show ?thesis using merged_kinds(1) [OF typed [OF v] k(2)] by auto
  qed
  obtain r t where "map_of args ''restart_retries'' = Some (PInt r)" "map_of args ''client_timeout'' = Some (PInt t)"
    using int [of "''restart_retries''"] int [of "''client_timeout''"] by auto
  moreover have "map_of args ''name'' = None \<or> (\<exists>n. map_of args ''name'' = Some (PStr n))"
  proof (cases "map_of args ''name''")
    case (Some v)
    have "\<not> has_key common_options_defaults ''name''" by (simp add: has_key_def common_options_defaults_def)
    then show ?thesis using merged_kinds(2) [OF typed [OF Some]] Some by auto
  qed simp
  ultimately show ?thesis using systemd_init_typed assms(2) by (fastforce simp: dget_def dget_or_def)
qed

text \<open>C9: what becomes of parameters that pass the specification and of common options of the right types.
  A common option that the module does not set, that has a default and that consists of digits becomes a
  number, whatever its type: a registry password \<open>123456\<close> reaches the worker as an integer; when it has
  digits that are no decimal ones, such as a superscript, the merge raises \<open>ValueError\<close>. Otherwise it
  succeeds; every other parameter the worker sees is an argument of the specification, set and of its
  type; the options with a default are there, the action is one that both workers have, and what it
  requires is set; and with restart retries other than zero the unit of the container can be made.\<close>

theorem accepted_params_typed:
  assumes params: "accepted params" and given: "given_dict params ''common_options'' common"
    and common: "list_all common_option_ok common"
  shows "if \<exists>k t. turned_number params common k t \<and> int_of_str t = None
    then generate_module params = Raise ValueError
    else \<exists>args. generate_module params = Ret args
      \<and> (\<forall>k v. map_of args k = Some v \<longrightarrow>
            (\<exists>s. map_of argument_spec k = Some s
               \<and> ((\<exists>t. turned_number params common k t \<and> v = PInt (the (int_of_str t)))
                  \<or> (\<nexists>t. turned_number params common k t) \<and> has_type (arg_type s) v)))
      \<and> (\<forall>k \<in> {''restart_retries'', ''api_version'', ''graceful_timeout'', ''client_timeout'', ''container_engine''}. has_key args k)
      \<and> (\<exists>a. map_of args ''action'' = Some (PStr a)
          \<and> map_of (docker_actions D) a \<noteq> None \<and> map_of (podman_actions P) a \<noteq> None
          \<and> (\<forall>names. (''action'', a, names) \<in> set required_if \<longrightarrow> (\<forall>n \<in> set names. has_key args n)))
      \<and> (dget args ''restart_retries'' \<noteq> PInt 0 \<longrightarrow> (\<exists>u. systemd_init args = Ret u))"
proof (cases "convertible_numbers params common")
  case False
  then obtain k t where k: "turned_number params common k t" "int_of_str t = None" by (auto simp: convertible_numbers_def)
  moreover have "generate_module params = Raise ValueError" by (rule accepted_merge_fails [OF assms k])
  ultimately show ?thesis by auto
next
  case True
  obtain args where m: "merged_args params common args" by (rule accepted_merge [OF assms True])
  obtain a where a: "map_of params ''action'' = Some (PStr a)" "a \<in> set (arg_choices (snd (argument_spec ! 1)))"
    by (rule accepted_action [OF params])
  have types: "\<forall>k v. map_of args k = Some v \<longrightarrow>
      (\<exists>s. map_of argument_spec k = Some s
         \<and> ((\<exists>t. turned_number params common k t \<and> v = PInt (the (int_of_str t)))
            \<or> (\<nexists>t. turned_number params common k t) \<and> has_type (arg_type s) v))"
    using merged_typed [OF m] unfolding merged_type_def by blast
  have act: "\<exists>a. map_of args ''action'' = Some (PStr a)
      \<and> map_of (docker_actions D) a \<noteq> None \<and> map_of (podman_actions P) a \<noteq> None
      \<and> (\<forall>names. (''action'', a, names) \<in> set required_if \<longrightarrow> (\<forall>n \<in> set names. has_key args n))"
    using merged_given [OF m a(1)] actions_implemented [of D P] a(2) merged_required [OF m a(1)]
    by (intro exI [of _ a]) (auto simp: list_all_iff)
  have "generate_module params = Ret args" "\<not> (\<exists>k t. turned_number params common k t \<and> int_of_str t = None)"
    using m True by (simp_all add: merged_args_def convertible_numbers_def)
  then show ?thesis using types act merged_default [OF m] merged_unit [OF m] by (simp only: if_False) blast
qed

text \<open>The parameters of a task, the rest as the specification defaults them.\<close>

definition with_defaults :: "pydict \<Rightarrow> pydict" where
  "with_defaults task = map (\<lambda>(k, s). (k, dget_or task k (arg_default s))) argument_spec"

definition nova_common :: pydict where
  "nova_common = [(''auth_username'', PStr ''kolla''), (''auth_password'', PStr ''123456''), (''restart_policy'', PStr ''unless-stopped''),
     (''restart_retries'', PStr ''10''), (''environment'', PDict [(''KOLLA_CONFIG_STRATEGY'', PStr ''COPY_ALWAYS'')])]"

definition nova_task :: pydict where
  "nova_task = [(''action'', PStr ''start_container''), (''name'', PStr ''nova''), (''image'', PStr ''nova:1''),
     (''common_options'', PDict nova_common)]"

lemma spec_keys: "distinct (map fst argument_spec)"
  by (simp add: argument_spec_def)

lemma with_defaults_key: "(k, s) \<in> set argument_spec \<Longrightarrow> dget (with_defaults task) k = dget_or task k (arg_default s)"
proof -
  assume "(k, s) \<in> set argument_spec"
  then have "(k, dget_or task k (arg_default s)) \<in> set (with_defaults task)" by (force simp: with_defaults_def)
  moreover have "wf_dict (with_defaults task)" using spec_keys by (simp add: with_defaults_def wf_dict_def comp_def case_prod_beta)
  ultimately show ?thesis by (simp add: dget_def dget_or_def map_of_is_SomeI wf_dict_def)
qed

lemma with_defaults_lookup:
  "map_of argument_spec k = Some s \<Longrightarrow> dget (with_defaults task) k = dget_or task k (arg_default s)"
  by (rule with_defaults_key) (rule map_of_SomeD)

theorem accepted_params_typed_witness:
  "\<exists>args. generate_module (with_defaults nova_task) = Ret args \<and> has_key args ''client_timeout''
    \<and> (\<forall>v. map_of args ''auth_password'' = Some v \<longrightarrow> v = PInt 123456)"
proof -
  have "list_all (\<lambda>(k, s). allowed s (dget_or nova_task k (arg_default s))) argument_spec"
    by (simp add: argument_spec_def arg_def nova_task_def dget_or_def allowed_def)
  then have "list_all (\<lambda>(k, s). allowed s (dget (with_defaults nova_task) k)) argument_spec"
    by (auto simp: list_all_iff with_defaults_key)
  moreover have "dget (with_defaults nova_task) ''action'' = PStr ''start_container''"
      "dget (with_defaults nova_task) ''image'' = PStr ''nova:1''" "dget (with_defaults nova_task) ''name'' = PStr ''nova''"
    by (simp_all add: with_defaults_lookup nova_task_def dget_or_def)
  then have "list_all (\<lambda>(k, v, names). dget (with_defaults nova_task) k = PStr v \<longrightarrow>
      list_all (\<lambda>n. dget (with_defaults nova_task) n \<noteq> PNone) names) required_if"
    by (simp add: required_if_def)
  ultimately have acc: "accepted (with_defaults nova_task)"
    using spec_keys by (simp add: accepted_def with_defaults_def wf_dict_def comp_def case_prod_beta)
  have given: "given_dict (with_defaults nova_task) ''common_options'' nova_common"
    by (simp add: given_dict_def with_defaults_lookup nova_task_def dget_or_def)
  have common: "list_all common_option_ok nova_common" by code_simp
  have digits: "t = ''123456'' \<or> t = ''10''" if t: "turned_number (with_defaults nova_task) nova_common k t" for k t
  proof -
    have "(k, PStr t) \<in> set nova_common" "list_all is_digit t"
      using t by (auto simp: turned_number_def dest: map_of_SomeD)
    moreover have "list_all (\<lambda>(k, v). case v of PStr t \<Rightarrow> list_all is_digit t \<longrightarrow> t = ''123456'' \<or> t = ''10'' | _ \<Rightarrow> True) nova_common"
      by code_simp
    ultimately show ?thesis by (fastforce simp: list_all_iff [of _ nova_common])
  qed
  have "nat_str 123456 = ''123456''" "nat_str 10 = ''10''"
    by (simp_all add: nat_str.simps digit_char_def char_of_def bit_0)
  then have numbers: "int_of_str ''123456'' = Some 123456" "int_of_str ''10'' = Some 10"
    using int_of_str_nat_str [of 123456] int_of_str_nat_str [of 10] by simp_all
  have password: "turned_number (with_defaults nova_task) nova_common ''auth_password'' t \<longleftrightarrow> t = ''123456''" for t
  proof -
    have "map_of nova_common ''auth_password'' = Some (PStr ''123456'')" "has_key common_options_defaults ''auth_password''"
      "list_all is_digit ''123456''" by code_simp+
    moreover have "map_of argument_spec ''auth_password'' = Some ((arg ArgStr)\<lparr>arg_no_log := True\<rparr>)" by (simp add: argument_spec_def)
    then have "dget (with_defaults nova_task) ''auth_password'' = PNone"
      by (simp add: with_defaults_lookup nova_task_def dget_or_def arg_def)
    ultimately show ?thesis by (auto simp: turned_number_def)
  qed
  let ?task = "with_defaults nova_task"
  have conv: "\<not> (\<exists>k t. turned_number ?task nova_common k t \<and> int_of_str t = None)"
    using digits numbers by fastforce
  from accepted_params_typed [OF acc given common, of "sample_docker [] []" sample_podman, unfolded if_not_P [OF conv]]
  show ?thesis
  proof (elim exE conjE)
    fix args
    assume gen: "generate_module ?task = Ret args"
      and types: "\<forall>k v. map_of args k = Some v \<longrightarrow> (\<exists>s. map_of argument_spec k = Some s
        \<and> ((\<exists>t. turned_number ?task nova_common k t \<and> v = PInt (the (int_of_str t)))
           \<or> (\<nexists>t. turned_number ?task nova_common k t) \<and> has_type (arg_type s) v))"
      and keys: "\<forall>k \<in> {''restart_retries'', ''api_version'', ''graceful_timeout'', ''client_timeout'', ''container_engine''}. has_key args k"
    have "v = PInt 123456" if v: "map_of args ''auth_password'' = Some v" for v
    proof -
      from types [rule_format, OF v] obtain t where "turned_number ?task nova_common ''auth_password'' t" "v = PInt (the (int_of_str t))"
        by (auto simp only: password)
      then show ?thesis using numbers(1) by (simp add: password)
    qed
    moreover have "has_key args ''client_timeout''" by (rule bspec [OF keys]) simp
    ultimately show ?thesis using gen by blast
  qed
qed

end
