(* ===== verification/Py_Regex.thy ===== *)
theory Py_Regex
  imports Py_Values
begin

text \<open>
  The part of Python's \<open>re\<close> that the modules use: sequences of literals, repeated character classes
  and named groups. An expression is a list of items and \<open>rx\<close> is the backtracking matcher at the
  start of the text (\<open>match\<close>): each repetition is tried from its longest match down.
\<close>

section \<open>Expressions and the matcher\<close>

datatype rx_item =
    Chr char
  | OptChr char                      \<comment> \<open>\<open>c?\<close>\<close>
  | Run "char \<Rightarrow> bool"              \<comment> \<open>\<open>[...]+\<close>\<close>
  | Group string "char \<Rightarrow> bool"     \<comment> \<open>\<open>(?P<name>[...]+)\<close>\<close>
  | OptGroup string "char \<Rightarrow> bool"  \<comment> \<open>\<open>(?P<name>[...]+)?\<close>\<close>
  | AnyGroup string                  \<comment> \<open>\<open>(?P<name>.*)\<close> with \<open>DOTALL\<close>\<close>
  | LineEnd                          \<comment> \<open>\<open>$\<close> with \<open>MULTILINE\<close>\<close>
  | TextEnd                          \<comment> \<open>\<open>$\<close>: the end, or the newline before it\<close>

type_synonym rx_groups = "(string \<times> string option) list"

definition newline :: char where
  "newline = CHR 0x0A"

definition run_lengths :: "(char \<Rightarrow> bool) \<Rightarrow> string \<Rightarrow> nat list" where
  "run_lengths P s = rev [1 ..< Suc (length (takeWhile P s))]"

fun first_some :: "('a \<Rightarrow> 'b option) \<Rightarrow> 'a list \<Rightarrow> 'b option" where
  "first_some f [] = None"
| "first_some f (x # xs) = (case f x of None \<Rightarrow> first_some f xs | Some y \<Rightarrow> Some y)"

lemma first_some_cong [fundef_cong]:
  "xs = ys \<Longrightarrow> (\<And>x. x \<in> set ys \<Longrightarrow> f x = g x) \<Longrightarrow> first_some f xs = first_some g ys"
  by (induction xs arbitrary: ys) (auto split: option.splits)

fun rx :: "rx_item list \<Rightarrow> string \<Rightarrow> rx_groups option" where
  rx_Nil: "rx [] s = Some []"
| rx_Chr: "rx (Chr c # r) s = (case s of [] \<Rightarrow> None | x # xs \<Rightarrow> if x = c then rx r xs else None)"
| rx_OptChr: "rx (OptChr c # r) s =
     (case s of
        [] \<Rightarrow> rx r s
      | x # xs \<Rightarrow> if x = c then (case rx r xs of Some g \<Rightarrow> Some g | None \<Rightarrow> rx r s) else rx r s)"
| rx_Run: "rx (Run P # r) s = first_some (\<lambda>k. rx r (drop k s)) (run_lengths P s)"
| rx_Group: "rx (Group n P # r) s =
     first_some (\<lambda>k. map_option (\<lambda>g. (n, Some (take k s)) # g) (rx r (drop k s))) (run_lengths P s)"
| rx_OptGroup: "rx (OptGroup n P # r) s =
     (case first_some (\<lambda>k. map_option (\<lambda>g. (n, Some (take k s)) # g) (rx r (drop k s))) (run_lengths P s) of
        Some g \<Rightarrow> Some g
      | None \<Rightarrow> map_option (\<lambda>g. (n, None) # g) (rx r s))"
| rx_AnyGroup: "rx (AnyGroup n # r) s =
     first_some (\<lambda>k. map_option (\<lambda>g. (n, Some (take k s)) # g) (rx r (drop k s))) (rev [0 ..< Suc (length s)])"
| rx_LineEnd: "rx (LineEnd # r) s = (if s = [] \<or> hd s = newline then rx r s else None)"
| rx_TextEnd: "rx (TextEnd # r) s = (if s = [] \<or> s = [newline] then rx r s else None)"

text \<open>\<open>m.groupdict()\<close>.\<close>

definition group_dict :: "rx_groups \<Rightarrow> pydict" where
  "group_dict g = map (\<lambda>(n, v). (n, case v of None \<Rightarrow> PNone | Some s \<Rightarrow> PStr s)) g"

definition literal :: "string \<Rightarrow> rx_item list" where
  "literal s = map Chr s"

text \<open>\<open>\w\<close> and \<open>\d\<close> on the characters up to code 255.\<close>

definition word_char :: "char \<Rightarrow> bool" where
  "word_char c \<longleftrightarrow>
     (let n = code_of c in
      48 \<le> n \<and> n \<le> 57 \<or> 65 \<le> n \<and> n \<le> 90 \<or> n = 95 \<or> 97 \<le> n \<and> n \<le> 122
      \<or> n \<in> {170, 178, 179, 181, 185, 186, 188, 189, 190} \<or> 192 \<le> n \<and> n \<noteq> 215 \<and> n \<noteq> 247)"

section \<open>Runs that cannot be shortened\<close>

lemma first_some_last:
  "\<forall>k \<in> set ks. f k = None \<Longrightarrow> first_some f ks = None"
  by (induction ks) auto

lemma run_lengths_append:
  assumes "xs \<noteq> []" and "\<forall>c \<in> set xs. P c" and "\<not> (\<exists>c cs. rest = c # cs \<and> P c)"
  shows "run_lengths P (xs @ rest) = length xs # rev [1 ..< length xs]"
proof -
  have "takeWhile P (xs @ rest) = xs" using assms(2,3) by (cases rest) (auto simp: takeWhile_append_stop takeWhile_eq_all_conv)
  moreover have "[1 ..< Suc (length xs)] = [1 ..< length xs] @ [length xs]"
    using assms(1) by (intro upt_Suc_append) (cases xs, auto)
  ultimately show ?thesis by (simp add: run_lengths_def del: upt_Suc)
qed

text \<open>An expression that cannot start with a character of a class.\<close>

definition refuses :: "(char \<Rightarrow> bool) \<Rightarrow> rx_item list \<Rightarrow> bool" where
  "refuses P r \<longleftrightarrow> (\<forall>c cs. P c \<longrightarrow> rx r (c # cs) = None)"

lemma refuses_items [simp]:
  "\<not> P c \<Longrightarrow> refuses P (Chr c # r)"
  "\<forall>c. P c \<longrightarrow> \<not> Q c \<Longrightarrow> refuses P (Run Q # r)"
  "\<forall>c. P c \<longrightarrow> \<not> Q c \<Longrightarrow> refuses P (Group n Q # r)"
  by (auto simp: refuses_def run_lengths_def)

lemma shorter_refused:
  assumes "refuses P r" and "\<forall>c \<in> set xs. P c" and "k < length xs"
  shows "rx r (drop k (xs @ rest)) = None"
proof -
  have "drop k (xs @ rest) = xs ! k # (drop (Suc k) xs @ rest)" using assms(3) by (simp add: Cons_nth_drop_Suc)
  then show ?thesis using assms by (simp add: refuses_def)
qed

text \<open>A run and a group take the whole run when what follows them cannot start inside it.\<close>

lemma rx_run:
  assumes "xs \<noteq> []" and "\<forall>c \<in> set xs. P c" and "\<not> (\<exists>c cs. rest = c # cs \<and> P c)"
    and "refuses P r \<or> rx r rest \<noteq> None"
  shows "rx (Run P # r) (xs @ rest) = rx r rest"
proof -
  have "first_some (\<lambda>k. rx r (drop k (xs @ rest))) (rev [1 ..< length xs]) = None" if "refuses P r"
    using shorter_refused [OF that assms(2)] by (intro first_some_last) auto
  then show ?thesis
    using assms(4) by (auto simp: run_lengths_append [OF assms(1-3)] split: option.splits)
qed

lemma rx_group:
  assumes "xs \<noteq> []" and "\<forall>c \<in> set xs. P c" and "\<not> (\<exists>c cs. rest = c # cs \<and> P c)" and "refuses P r"
  shows "rx (Group n P # r) (xs @ rest) = map_option (\<lambda>g. (n, Some xs) # g) (rx r rest)"
proof -
  have "first_some (\<lambda>k. map_option (\<lambda>g. (n, Some (take k (xs @ rest))) # g) (rx r (drop k (xs @ rest)))) (rev [1 ..< length xs]) = None"
    using shorter_refused [OF assms(4,2)] by (intro first_some_last) auto
  then show ?thesis by (auto simp: run_lengths_append [OF assms(1-3)] split: option.splits)
qed

declare rx_Run [simp del] rx_Group [simp del] rx_OptGroup [simp del] rx_AnyGroup [simp del]

lemma rx_literal: "rx (literal w @ r) (w @ rest) = rx r rest"
  by (induction w) (simp_all add: literal_def)

lemma rx_any_end: "rx [AnyGroup n, LineEnd] s = Some [(n, Some s)]"
  by (simp add: rx_AnyGroup)

end
