(* ===== verification/Kolla_Toolbox.thy ===== *)
theory Kolla_Toolbox
  imports Docker_Worker Py_Regex
begin

text \<open>
  \<open>ansible/library/kolla_toolbox.py\<close>: an Ansible module is run inside the running \<open>kolla_toolbox\<close>
  container and its result is read from what it printed. The engine clients are parameters, and so
  are \<open>json.loads\<close>, \<open>json.dumps\<close>, \<open>ast.literal_eval\<close> and the UTF-8 decoder (\<open>parsers\<close>);
  \<open>shlex.split\<close>, \<open>StrictVersion\<close> and the regular expressions are modelled.
\<close>

section \<open>The library and the state\<close>

text \<open>What an engine returns of an exec job: nothing, bytes or text.\<close>

datatype raw_output = NoOutput | Bytes string | Text string

record parsers =
  json_loads :: "raw_output \<Rightarrow> pyval outcome"
  json_dumps :: "pyval \<Rightarrow> string"
  literal_eval :: "pyval \<Rightarrow> pyval outcome"
  utf8_decode :: "string \<Rightarrow> string outcome"

record 'w toolbox_state =
  tb_engine :: 'w
  tb_log :: "string list"

record 'w toolbox_docker =
  td_connect :: "pyval \<Rightarrow> pyval \<Rightarrow> ('w, string) cmd"  \<comment> \<open>the API version of the client\<close>
  td_containers :: "pydict \<Rightarrow> ('w, pyval list) cmd"
  td_exec_create :: "pyval \<Rightarrow> pyval list \<Rightarrow> pydict \<Rightarrow> ('w, pyval) cmd"
  td_exec_start_demux :: "pyval \<Rightarrow> ('w, raw_output \<times> raw_output) cmd"
  td_exec_start :: "pyval \<Rightarrow> ('w, raw_output) cmd"

record 'w toolbox_podman =
  tp_list :: "('w, string list) cmd"
  tp_reload :: "string \<Rightarrow> ('w, string \<times> string) cmd"  \<comment> \<open>name and status of the container\<close>
  tp_exec_run :: "string \<Rightarrow> pyval list \<Rightarrow> pydict \<Rightarrow> ('w, string) cmd"

definition on_client :: "('w, 'a) cmd \<Rightarrow> ('w toolbox_state, 'a) cmd" where
  "on_client m = zoom tb_engine (\<lambda>w s. s\<lparr>tb_engine := w\<rparr>) m"

definition module_log :: "string \<Rightarrow> ('w toolbox_state, unit) cmd" where
  "module_log m = modify (\<lambda>s. s\<lparr>tb_log := tb_log s @ [m]\<rparr>)"

definition fail_msg :: "string \<Rightarrow> 'a outcome" where
  "fail_msg m = fail_json [(''msg'', PStr m)]"

definition syntax_error :: exn where
  "syntax_error = PyError ''SyntaxError''"

definition unbound_local :: exn where
  "unbound_local = PyError ''UnboundLocalError''"

section \<open>The command line\<close>

text \<open>\<open>"{}='{}'".format(key, value)\<close> joined by blanks; \<open>' '.join(list)\<close>.\<close>

definition key_value_text :: "string \<times> pyval \<Rightarrow> string" where
  "key_value_text kv = fst kv @ ''='' @ [CHR 0x27] @ py_str (snd kv) @ [CHR 0x27]"

definition str_element :: "pyval \<Rightarrow> string outcome" where
  "str_element v = (case v of PStr s \<Rightarrow> Ret s | _ \<Rightarrow> Raise TypeError)"

definition args_text :: "pyval \<Rightarrow> pyval outcome" where
  "args_text module_args =
     (case module_args of
        PDict d \<Rightarrow> Ret (PStr (join_with '' '' (map key_value_text d)))
      | PList xs \<Rightarrow> obind (omap str_element xs) (\<lambda>ss. Ret (PStr (join_with '' '' ss)))
      | v \<Rightarrow> Ret v)"

definition eval_args :: "parsers \<Rightarrow> string \<Rightarrow> pyval \<Rightarrow> pyval outcome" where
  "eval_args P ansible_version raw =
     obind (parse_strict_version ansible_version) (\<lambda>v.
     obind (parse_strict_version ''2.11.0'') (\<lambda>w.
       if v < w then Ret raw
       else case literal_eval P raw of
         Raise e \<Rightarrow>
           (if e \<noteq> syntax_error then Raise e
            else case raw of
              PStr s \<Rightarrow> obind (py_shlex_split raw) (\<lambda>ws. Ret (PList (map PStr ws)))
            | _ \<Rightarrow> Raise e)
       | r \<Rightarrow> r))"

definition gen_commandline :: "parsers \<Rightarrow> string \<Rightarrow> pydict \<Rightarrow> pyval list outcome" where
  "gen_commandline P ansible_version params =
     (let command = [PStr ''ansible'', PStr ''localhost''];
          m = (if truthy (dget params ''module_name'') then [PStr ''-m'', dget params ''module_name''] else [])
      in obind (if truthy (dget params ''module_args'')
                then obind (eval_args P ansible_version (dget params ''module_args'')) (\<lambda>v.
                     obind (args_text v) (\<lambda>a. Ret [PStr ''-a'', a]))
                else Ret []) (\<lambda>a.
         let extra = dget params ''module_extra_vars'';
             e = (if truthy extra
                  then [PStr ''--extra-vars'', case extra of PDict d \<Rightarrow> PStr (json_dumps P extra) | _ \<Rightarrow> extra]
                  else [])
         in Ret (command @ m @ a @ e)))"

section \<open>Reading the result\<close>

text \<open>\<open>'%s' % v\<close> of an output, with the representation of bytes.\<close>

definition repr_byte :: "char \<Rightarrow> char \<Rightarrow> string" where
  "repr_byte q c =
     (if code_of c \<ge> 127 then [CHR 0x5C, CHR ''x'', hex_digit (code_of c div 16), hex_digit (code_of c mod 16)]
      else repr_char q c)"

definition repr_bytes :: "string \<Rightarrow> string" where
  "repr_bytes s =
     (let q = (if CHR 0x27 \<in> set s \<and> CHR 0x22 \<notin> set s then CHR 0x22 else CHR 0x27)
      in ''b'' @ q # concat (map (repr_byte q) s) @ [q])"

fun output_text :: "raw_output \<Rightarrow> string" where
  "output_text NoOutput = ''None''"
| "output_text (Bytes s) = repr_bytes s"
| "output_text (Text s) = s"

fun has_output :: "raw_output \<Rightarrow> bool" where
  "has_output NoOutput = False"
| "has_output (Bytes s) = (s \<noteq> [])"
| "has_output (Text s) = (s \<noteq> [])"

text \<open>\<open>v[0]\<close>.\<close>

fun py_first :: "pyval \<Rightarrow> pyval outcome" where
  "py_first (PList []) = Raise IndexError"
| "py_first (PList (x # xs)) = Ret x"
| "py_first (PStr []) = Raise IndexError"
| "py_first (PStr (c # cs)) = Ret (PStr [c])"
| "py_first (PDict d) = Raise (KeyError ''0'')"
| "py_first _ = Raise TypeError"

text \<open>\<open>output['plays'][0]['tasks'][0]['hosts']['localhost']\<close>.\<close>

definition inner_result :: "pyval \<Rightarrow> pyval outcome" where
  "inner_result output =
     obind (py_item output ''plays'') (\<lambda>plays. obind (py_first plays) (\<lambda>play.
     obind (py_item play ''tasks'') (\<lambda>tasks. obind (py_first tasks) (\<lambda>t.
     obind (py_item t ''hosts'') (\<lambda>hosts. py_item hosts ''localhost'')))))"

fun lookup_error :: "exn \<Rightarrow> bool" where
  "lookup_error (KeyError k) = True"
| "lookup_error IndexError = True"
| "lookup_error _ = False"

definition inner_result_or_fail :: "pyval \<Rightarrow> pyval outcome" where
  "inner_result_or_fail output =
     (case inner_result output of
        Raise e \<Rightarrow> if lookup_error e then fail_msg (''Ansible JSON output has unexpected format: '' @ py_str output) else Raise e
      | r \<Rightarrow> r)"

text \<open>\<open>ret.pop('_ansible_no_log', None)\<close>.\<close>

definition pop_no_log :: "pyval \<Rightarrow> pyval outcome" where
  "pop_no_log v =
     (case v of
        PDict d \<Rightarrow> Ret (PDict (AList.delete ''_ansible_no_log'' d))
      | PList _ \<Rightarrow> Raise TypeError
      | _ \<Rightarrow> Raise AttributeError)"

definition cannot_parse :: "raw_output \<Rightarrow> 'a outcome" where
  "cannot_parse out = fail_msg (''Can not parse the inner module output: '' @ output_text out)"

definition json_result :: "parsers \<Rightarrow> raw_output \<Rightarrow> pyval outcome" where
  "json_result P json_output =
     (case json_loads P json_output of
        Raise e \<Rightarrow> cannot_parse json_output
      | r \<Rightarrow> obind r (\<lambda>output. obind (inner_result_or_fail output) pop_no_log))"

text \<open>The two formats of the default callback, for Docker API versions without an environment.\<close>

definition JSON_REG :: "rx_item list" where
  "JSON_REG = [Group ''host'' word_char] @ literal '' | '' @ [Group ''status'' word_char, OptChr CHR ''!'']
     @ literal '' =>'' @ [AnyGroup ''stdout'', LineEnd]"

definition NON_JSON_REG :: "rx_item list" where
  "NON_JSON_REG = [Group ''host'' word_char] @ literal '' | '' @ [Group ''status'' word_char, OptChr CHR ''!'']
     @ literal '' | rc='' @ [Group ''exit_code'' is_decimal] @ literal '' >>'' @ [Chr newline, AnyGroup ''stdout'', Chr newline, LineEnd]"

definition plain_result :: "parsers \<Rightarrow> string \<Rightarrow> string \<Rightarrow> pyval outcome" where
  "plain_result P inner_output status =
     (case json_loads P (Text inner_output) of
        Raise ValueError \<Rightarrow>
          Ret (PDict [(''stdout'', PStr inner_output),
                      if status \<noteq> ''SUCCESS'' then (''failed'', PBool True) else (''changed'', PBool True)])
      | r \<Rightarrow> r)"

definition regex_result :: "parsers \<Rightarrow> raw_output \<Rightarrow> pyval outcome" where
  "regex_result P output =
     (case output of
        Text s \<Rightarrow>
          (case first_some (\<lambda>reg. rx reg s) [JSON_REG, NON_JSON_REG] of
             None \<Rightarrow> cannot_parse output
           | Some g \<Rightarrow> plain_result P (case map_of g ''stdout'' of Some (Some t) \<Rightarrow> t | _ \<Rightarrow> [])
                        (case map_of g ''status'' of Some (Some t) \<Rightarrow> t | _ \<Rightarrow> []))
      | _ \<Rightarrow> Raise TypeError)"

section \<open>The engines\<close>

definition toolbox_environment :: "string \<times> pyval" where
  "toolbox_environment =
     (''environment'', PDict [(''ANSIBLE_STDOUT_CALLBACK'', PStr ''json''), (''ANSIBLE_LOAD_CALLBACK_PLUGINS'', PStr ''True'')])"

definition user_kwargs :: "pydict \<Rightarrow> pydict" where
  "user_kwargs params = (if has_key params ''user'' then [(''user'', dget params ''user'')] else [])"

definition not_running :: "'a outcome" where
  "not_running = fail_msg ''kolla_toolbox container is not running.''"

definition docker_supports_environment_in_exec :: "string \<Rightarrow> bool outcome" where
  "docker_supports_environment_in_exec api_version =
     obind (parse_strict_version api_version) (\<lambda>docker_version.
     obind (parse_strict_version ''1.25'') (\<lambda>v. Ret (v \<le> docker_version)))"

definition use_docker :: "parsers \<Rightarrow> 'w toolbox_docker \<Rightarrow> string \<Rightarrow> pydict \<Rightarrow> ('w toolbox_state, pyval) cmd" where
  "use_docker P D ansible_version params =
     bnd (on_client (td_connect D (dget params ''api_version'') (dget params ''timeout''))) (\<lambda>api_version.
     bnd (lift (gen_commandline P ansible_version params)) (\<lambda>command_line.
     bnd (on_client (td_containers D [(''name'', PStr ''kolla_toolbox''), (''status'', PStr ''running'')])) (\<lambda>containers.
       case containers of
         [] \<Rightarrow> lift not_running
       | kolla_toolbox # _ \<Rightarrow>
           bnd (lift (docker_supports_environment_in_exec api_version)) (\<lambda>json_callback.
             if json_callback
             then bnd (on_client (td_exec_create D kolla_toolbox command_line (toolbox_environment # user_kwargs params))) (\<lambda>job.
                  bnd (on_client (td_exec_start_demux D job)) (\<lambda>(json_output, error).
                  seqc (whenc (has_output error) (module_log (''Inner module stderr: '' @ output_text error)))
                       (lift (json_result P json_output))))
             else bnd (on_client (td_exec_create D kolla_toolbox command_line (user_kwargs params))) (\<lambda>job.
                  bnd (on_client (td_exec_start D job)) (\<lambda>output. lift (regex_result P output)))))))"

text \<open>The first container of that name that is running; every container is reloaded before it is looked at.\<close>

primrec find_toolbox :: "'w toolbox_podman \<Rightarrow> string list \<Rightarrow> ('w toolbox_state, string option) cmd" where
  "find_toolbox D [] = ret None"
| "find_toolbox D (cont # conts) =
     bnd (on_client (tp_reload D cont)) (\<lambda>(name, status).
       if name = ''kolla_toolbox'' \<and> status = ''running'' then ret (Some cont) else find_toolbox D conts)"

definition get_kolla_toolbox :: "'w toolbox_podman \<Rightarrow> ('w toolbox_state, string option) cmd" where
  "get_kolla_toolbox D = bnd (on_client (tp_list D)) (find_toolbox D)"

definition podman_output :: "parsers \<Rightarrow> 'w toolbox_podman \<Rightarrow> string \<Rightarrow> pydict \<Rightarrow> ('w toolbox_state, string) cmd" where
  "podman_output P D ansible_version params =
     bnd (get_kolla_toolbox D) (\<lambda>kolla_toolbox.
       case kolla_toolbox of
         None \<Rightarrow> lift not_running
       | Some cont \<Rightarrow>
           bnd (lift (gen_commandline P ansible_version params)) (\<lambda>command_line.
             on_client (tp_exec_run D cont command_line (toolbox_environment # (''tty'', PBool True) # user_kwargs params))))"

text \<open>
  When the bytes cannot be decoded, the handler formats \<open>json_output\<close>, which has no value yet.
\<close>

definition podman_result :: "parsers \<Rightarrow> string \<Rightarrow> pyval outcome" where
  "podman_result P raw_output =
     (case utf8_decode P raw_output of
        Raise e \<Rightarrow> Raise unbound_local
      | r \<Rightarrow> obind r (\<lambda>s. json_result P (Text s)))"

definition use_podman :: "parsers \<Rightarrow> 'w toolbox_podman \<Rightarrow> string \<Rightarrow> pydict \<Rightarrow> ('w toolbox_state, pyval) cmd" where
  "use_podman P D ansible_version params =
     bnd (catch_api (podman_output P D ansible_version params)
            (\<lambda>st cl tx. lift (fail_msg (''Encountered Podman API error: '' @ tx))))
       (\<lambda>raw_output. lift (podman_result P raw_output))"

definition exit_with :: "pyval \<Rightarrow> 'a outcome" where
  "exit_with result = (case result of PDict d \<Rightarrow> exit_json d | _ \<Rightarrow> Raise TypeError)"

definition toolbox_main :: "parsers \<Rightarrow> 'w toolbox_docker \<Rightarrow> 'w toolbox_podman \<Rightarrow> string \<Rightarrow> pydict \<Rightarrow> ('w toolbox_state, unit) cmd" where
  "toolbox_main P D Q ansible_version params =
     (case dget params ''container_engine'' of
        PStr e \<Rightarrow>
          bnd (if str_lower e = ''docker'' then use_docker P D ansible_version params
               else if str_lower e = ''podman'' then use_podman P Q ansible_version params
               else lift (fail_msg ''Missing or invalid container engine.''))
            (\<lambda>result. lift (exit_with result))
      | _ \<Rightarrow> lift (Raise AttributeError))"

section \<open>The command line reads back\<close>

lemma code_single_quote: "code_of CHR 0x27 = 39"
  by (simp add: code_of_def)

lemma quote_class: "sx_quote CHR 0x27" "\<not> sx_white CHR 0x27" "CHR 0x27 \<noteq> sx_backslash"
  by (simp_all add: sx_quote_def sx_white_def sx_backslash_def code_single_quote)

lemma shlex_go_quoted:
  assumes "CHR 0x27 \<notin> set w"
  shows "shlex_go (SxQuote CHR 0x27) True tok (w @ CHR 0x27 # rest) = shlex_go SxWord True (tok @ w) rest"
  using assms by (induction w arbitrary: tok) (auto simp: code_single_quote)

lemma sx_plain_eq: "sx_plain k \<Longrightarrow> sx_plain (k @ ''='')"
  by (auto simp: sx_plain_def sx_white_def sx_quote_def sx_backslash_def code_of_def)

lemma shlex_go_open:
  assumes "sx_plain k"
  shows "shlex_go SxStart False [] (k @ ''='' @ CHR 0x27 # rest) = shlex_go (SxQuote CHR 0x27) True (k @ ''='') rest"
  using shlex_go_plain [OF sx_plain_eq [OF assms], of "CHR 0x27 # rest"] by (simp add: quote_class)

lemma shlex_go_key_value:
  assumes "sx_plain k" and "CHR 0x27 \<notin> set (py_str v)"
  shows "shlex_go SxStart False [] (key_value_text (k, v) @ rest) = shlex_go SxWord True (k @ ''='' @ py_str v) rest"
  using shlex_go_open [OF assms(1), of "py_str v @ CHR 0x27 # rest"] shlex_go_quoted [OF assms(2)]
  by (simp add: key_value_text_def)

definition splittable :: "pydict \<Rightarrow> bool" where
  "splittable d \<longleftrightarrow> (\<forall>kv \<in> set d. sx_plain (fst kv) \<and> CHR 0x27 \<notin> set (py_str (snd kv)))"

lemma shlex_split_key_values:
  "splittable d \<Longrightarrow>
   shlex_split (join_with '' '' (map key_value_text d)) = Some (map (\<lambda>kv. fst kv @ ''='' @ py_str (snd kv)) d)"
  unfolding shlex_split_def
proof (induction d rule: induct_list012)
  case (2 kv)
  then show ?case using shlex_go_key_value [of "fst kv" "snd kv" "[]"] by (simp add: splittable_def)
next
  case (3 kv kw d)
  then show ?case
    using shlex_go_key_value [of "fst kv" "snd kv" "'' '' @ join_with '' '' (map key_value_text (kw # d))"]
    by (simp add: splittable_def sx_white_space)
qed simp

lemma shlex_split_stray_quote:
  assumes "sx_plain k" and "CHR 0x27 \<notin> set x" and "sx_plain y \<or> y = []"
  shows "shlex_split (key_value_text (k, PStr (x @ CHR 0x27 # y))) = None"
proof -
  have "shlex_go SxWord True t (y @ [CHR 0x27]) = None" for t
    using shlex_go_word [of y True t "[CHR 0x27]"] assms(3) by (auto simp: sx_plain_def quote_class)
  then show ?thesis
    using shlex_go_open [OF assms(1), of "x @ CHR 0x27 # y @ [CHR 0x27]"] shlex_go_quoted [OF assms(2)]
    by (simp add: shlex_split_def key_value_text_def)
qed

text \<open>C35: the arguments given as a dictionary read back, split the way a shell does, as one word
  \<open>key=value\<close> per item, in order and whatever blanks the values hold; a list becomes its words, a
  text that is no Python literal the words it splits into; a single quote inside a value leaves the
  quotes unbalanced, and any other error of \<open>literal_eval\<close> than a syntax error escapes.
\<close>

theorem gen_commandline_arguments:
  assumes v: "parse_strict_version ansible_version = Ret v" "StrictVersion 2 11 0 None \<le> v"
    and args: "dget params ''module_args'' = PStr raw" "raw \<noteq> []"
    and m: "dget params ''module_name'' = PStr name" "name \<noteq> []" "\<not> truthy (dget params ''module_extra_vars'')"
  shows "(literal_eval P (PStr raw) = Ret (PDict d) \<and> splittable d \<longrightarrow>
       (\<exists>a. gen_commandline P ansible_version params = Ret (map PStr [''ansible'', ''localhost'', ''-m'', name, ''-a'', a])
          \<and> shlex_split a = Some (map (\<lambda>kv. fst kv @ ''='' @ py_str (snd kv)) d)))
     \<and> (literal_eval P (PStr raw) = Raise syntax_error \<and> shlex_split raw = Some ws \<longrightarrow>
       gen_commandline P ansible_version params
         = Ret (map PStr [''ansible'', ''localhost'', ''-m'', name, ''-a'', join_with '' '' ws]))
     \<and> (literal_eval P (PStr raw) = Raise e \<and> e \<noteq> syntax_error \<longrightarrow> gen_commandline P ansible_version params = Raise e)
     \<and> (literal_eval P (PStr raw) = Ret (PDict [(k, PStr (x @ CHR 0x27 # y))]) \<and> sx_plain k \<and> CHR 0x27 \<notin> set x
          \<and> (sx_plain y \<or> y = []) \<longrightarrow>
       (\<exists>a. gen_commandline P ansible_version params = Ret (map PStr [''ansible'', ''localhost'', ''-m'', name, ''-a'', a])
          \<and> shlex_split a = None))"
proof -
  have new: "parse_strict_version ''2.11.0'' = Ret (StrictVersion 2 11 0 None)" by code_simp
  have "\<not> v < StrictVersion 2 11 0 None" using v(2) by simp
  then have eval: "eval_args P ansible_version (PStr raw) =
      (case literal_eval P (PStr raw) of
         Raise e \<Rightarrow> if e \<noteq> syntax_error then Raise e else obind (py_shlex_split (PStr raw)) (\<lambda>ws. Ret (PList (map PStr ws)))
       | r \<Rightarrow> r)"
    by (simp add: eval_args_def v(1) new split: outcome.splits)
  have gen: "gen_commandline P ansible_version params =
      obind (eval_args P ansible_version (PStr raw)) (\<lambda>v. obind (args_text v) (\<lambda>a.
        Ret (map PStr [''ansible'', ''localhost'', ''-m'', name, ''-a''] @ [a])))"
    using args m by (simp add: gen_commandline_def Let_def obind_assoc)
  have words: "omap str_element (map PStr ws) = Ret ws" for ws
    by (induction ws) (simp_all add: str_element_def)
  show ?thesis
    using shlex_split_key_values [of d] shlex_split_stray_quote [of k x y]
    by (auto simp: gen eval args_text_def words py_shlex_split_def)
qed

definition sample_parsers :: parsers where
  "sample_parsers =
     \<lparr>json_loads = (\<lambda>out. case out of
         Bytes s \<Rightarrow> if s = ''{}'' then Ret (PDict []) else if s = ''ok'' then Ret (PDict [(''plays'', PList [PDict [(''tasks'', PList [PDict
             [(''hosts'', PDict [(''localhost'', PDict [(''changed'', PBool True), (''_ansible_no_log'', PBool False)])])]])]])]) else Raise ValueError
       | Text s \<Rightarrow> if s = ''ok'' then Ret (PDict [(''plays'', PList [PDict [(''tasks'', PList [PDict
             [(''hosts'', PDict [(''localhost'', PDict [(''changed'', PBool True), (''_ansible_no_log'', PBool False)])])]])]])]) else Raise ValueError
       | NoOutput \<Rightarrow> Raise TypeError),
      json_dumps = (\<lambda>v. ''{}''),
      literal_eval = (\<lambda>v. if v = PStr ''dict'' then Ret (PDict [(''name'', PStr ''a b''), (''state'', PStr ''absent'')])
         else if v = PStr ''quote'' then Ret (PDict [(''name'', PStr [CHR ''a'', CHR 0x27, CHR ''b''])])
         else if v = PStr ''path=/tmp/a state=absent'' then Raise syntax_error else Raise ValueError),
      utf8_decode = (\<lambda>s. if list_all (\<lambda>c. code_of c < 128) s then Ret s else Raise (PyError ''UnicodeDecodeError''))\<rparr>"

definition sample_args :: "string \<Rightarrow> pydict" where
  "sample_args raw = [(''container_engine'', PStr ''Docker''), (''module_name'', PStr ''file''), (''module_args'', PStr raw), (''user'', PNone)]"

theorem gen_commandline_arguments_witness:
  "(\<exists>a. gen_commandline sample_parsers ''2.15.0'' (sample_args ''dict'') = Ret (map PStr [''ansible'', ''localhost'', ''-m'', ''file'', ''-a'', a])
       \<and> shlex_split a = Some [''name=a b'', ''state=absent''])
   \<and> (\<exists>a. gen_commandline sample_parsers ''2.15.0'' (sample_args ''quote'') = Ret (map PStr [''ansible'', ''localhost'', ''-m'', ''file'', ''-a'', a])
       \<and> shlex_split a = None)
   \<and> gen_commandline sample_parsers ''2.15.0'' (sample_args ''whoami'') = Raise ValueError
   \<and> gen_commandline sample_parsers ''2.15.0'' (sample_args ''path=/tmp/a state=absent'')
      = Ret (map PStr [''ansible'', ''localhost'', ''-m'', ''file'', ''-a'', ''path=/tmp/a state=absent''])"
proof -
  have v: "parse_strict_version ''2.15.0'' = Ret (StrictVersion 2 15 0 None)" by code_simp
  have le: "StrictVersion 2 11 0 None \<le> StrictVersion 2 15 0 None" by code_simp
  have plain: "sx_plain ''name''" "sx_plain ''state''" "sx_plain ''b''" by code_simp+
  have words: "shlex_split ''path=/tmp/a state=absent'' = Some [''path=/tmp/a'', ''state=absent'']" by code_simp
  have sx: "syntax_error \<noteq> ValueError" by (simp add: syntax_error_def)
  have params: "dget (sample_args raw) ''module_args'' = PStr raw" "dget (sample_args raw) ''module_name'' = PStr ''file''"
    "\<not> truthy (dget (sample_args raw) ''module_extra_vars'')" for raw
    by (simp_all add: sample_args_def dget_def dget_or_def)
  note law = gen_commandline_arguments [OF v le params(1) _ params(2) _ params(3), where P = sample_parsers]
  have split: "splittable [(''name'', PStr ''a b''), (''state'', PStr ''absent'')]" using plain by (auto simp: splittable_def)
  show ?thesis
    using law [of "''dict''" "[(''name'', PStr ''a b''), (''state'', PStr ''absent'')]" "[]" ValueError "[]" "[]" "[]"] split
      law [of "''quote''" "[]" "[]" ValueError "''name''" "''a''" "''b''"] plain
      law [of "''whoami''" "[]" "[]" ValueError "[]" "[]" "[]"] sx
      law [of "''path=/tmp/a state=absent''" "[]" "[''path=/tmp/a'', ''state=absent'']" ValueError "[]" "[]" "[]"] words
    by (simp add: sample_parsers_def)
qed

section \<open>The result of the inner module\<close>

lemma on_client_run: "on_client m s = (case m (tb_engine s) of (r, w) \<Rightarrow> (r, s\<lparr>tb_engine := w\<rparr>))"
  by (simp add: on_client_def zoom_def)

text \<open>
  A Docker run that finds the container and prints \<open>out\<close>, and one of Podman: the calls in their
  order, from the state \<open>w\<close>.
\<close>

definition docker_prints ::
    "'w toolbox_docker \<Rightarrow> pydict \<Rightarrow> pyval list \<Rightarrow> 'w \<Rightarrow> raw_output \<Rightarrow> bool" where
  "docker_prints D params command_line w out \<longleftrightarrow>
     (\<exists>api w1 c cs w2 job w3 err w4.
        td_connect D (dget params ''api_version'') (dget params ''timeout'') w = (Ret api, w1)
        \<and> docker_supports_environment_in_exec api = Ret True
        \<and> td_containers D [(''name'', PStr ''kolla_toolbox''), (''status'', PStr ''running'')] w1 = (Ret (c # cs), w2)
        \<and> td_exec_create D c command_line (toolbox_environment # user_kwargs params) w2 = (Ret job, w3)
        \<and> td_exec_start_demux D job w3 = (Ret (out, err), w4))"

definition podman_prints ::
    "'w toolbox_podman \<Rightarrow> pydict \<Rightarrow> pyval list \<Rightarrow> 'w toolbox_state \<Rightarrow> string \<Rightarrow> bool" where
  "podman_prints Q params command_line s out \<longleftrightarrow>
     (\<exists>c s1 w2. get_kolla_toolbox Q s = (Ret (Some c), s1)
        \<and> tp_exec_run Q c command_line (toolbox_environment # (''tty'', PBool True) # user_kwargs params) (tb_engine s1) = (Ret out, w2))"

lemma use_docker_prints:
  assumes "gen_commandline P version params = Ret command_line" and "docker_prints D params command_line (tb_engine s) out"
  shows "fst (use_docker P D version params s) = json_result P out"
proof -
  from assms(2) obtain api w1 c cs w2 job w3 err w4 where steps:
    "td_connect D (dget params ''api_version'') (dget params ''timeout'') (tb_engine s) = (Ret api, w1)"
    "docker_supports_environment_in_exec api = Ret True"
    "td_containers D [(''name'', PStr ''kolla_toolbox''), (''status'', PStr ''running'')] w1 = (Ret (c # cs), w2)"
    "td_exec_create D c command_line (toolbox_environment # user_kwargs params) w2 = (Ret job, w3)"
    "td_exec_start_demux D job w3 = (Ret (out, err), w4)"
    unfolding docker_prints_def by blast
  show ?thesis
    by (simp add: use_docker_def assms(1) on_client_run steps bnd_def seqc_def whenc_def module_log_def)
qed

lemma use_podman_prints:
  assumes "gen_commandline P version params = Ret command_line" and "podman_prints Q params command_line s out"
  shows "fst (use_podman P Q version params s) = podman_result P out"
proof -
  from assms(2) obtain c s1 w2 where steps: "get_kolla_toolbox Q s = (Ret (Some c), s1)"
    "tp_exec_run Q c command_line (toolbox_environment # (''tty'', PBool True) # user_kwargs params) (tb_engine s1) = (Ret out, w2)"
    unfolding podman_prints_def by blast
  show ?thesis
    by (simp add: use_podman_def podman_output_def steps assms(1) on_client_run bnd_def catch_api_def)
qed

definition with_engine :: "string \<Rightarrow> pydict \<Rightarrow> bool" where
  "with_engine e params \<longleftrightarrow> (\<exists>name. dget params ''container_engine'' = PStr name \<and> str_lower name = e)"

lemma toolbox_main_engine:
  "with_engine ''docker'' params \<Longrightarrow> fst (toolbox_main P D Q v params s) = obind (fst (use_docker P D v params s)) exit_with"
  "with_engine ''podman'' params \<Longrightarrow> fst (toolbox_main P D Q v params s) = obind (fst (use_podman P Q v params s)) exit_with"
  by (auto simp: with_engine_def toolbox_main_def bnd_def split: prod.splits outcome.splits)

text \<open>C34: with either engine the module ends in \<open>exit_json\<close> with exactly the result that the inner
  Ansible reports for \<open>localhost\<close>, without its internal field, when the bytes it printed are its JSON;
  when they are not JSON, or JSON of another shape, it ends in \<open>fail_json\<close>.
\<close>

theorem toolbox_main_reports:
  assumes cmd: "gen_commandline P version params = Ret command_line"
    and run: "with_engine ''docker'' params \<and> docker_prints D params command_line (tb_engine s) (Bytes printed)
      \<or> with_engine ''podman'' params \<and> podman_prints Q params command_line s printed"
    and decode: "utf8_decode P printed = Ret decoded" and same: "json_loads P (Text decoded) = json_loads P (Bytes printed)"
  shows "(\<forall>v r. json_loads P (Bytes printed) = Ret v \<and> inner_result v = Ret (PDict r) \<longrightarrow>
        fst (toolbox_main P D Q version params s) = Exit ExitJson (AList.delete ''_ansible_no_log'' r))
     \<and> (\<forall>v e. json_loads P (Bytes printed) = Ret v \<and> inner_result v = Raise e \<and> lookup_error e \<longrightarrow>
        (\<exists>msg. fst (toolbox_main P D Q version params s) = Exit FailJson [(''msg'', PStr msg)]))
     \<and> (\<forall>e. json_loads P (Bytes printed) = Raise e \<longrightarrow>
        (\<exists>msg. fst (toolbox_main P D Q version params s) = Exit FailJson [(''msg'', PStr msg)]))"
proof -
  have podman: "podman_result P printed = json_result P (Text decoded)" by (simp add: podman_result_def decode)
  obtain out where main: "fst (toolbox_main P D Q version params s) = obind (json_result P out) exit_with"
    and loads: "json_loads P out = json_loads P (Bytes printed)"
  proof (cases "with_engine ''docker'' params \<and> docker_prints D params command_line (tb_engine s) (Bytes printed)")
    case True
    then show ?thesis using that [of "Bytes printed"] by (simp add: toolbox_main_engine use_docker_prints [OF cmd conjunct2 [OF True]])
  next
    case False
    with run have e: "with_engine ''podman'' params" and prints: "podman_prints Q params command_line s printed" by auto
    then show ?thesis using that [of "Text decoded"] same e by (simp add: toolbox_main_engine use_podman_prints [OF cmd prints] podman)
  qed
  show ?thesis
    unfolding main
    by (auto simp: loads [symmetric] json_result_def cannot_parse_def inner_result_or_fail_def fail_msg_def fail_json_def
        pop_no_log_def exit_with_def exit_json_def)
qed

definition sample_docker_toolbox :: "string \<Rightarrow> raw_output \<Rightarrow> pyval list \<Rightarrow> unit toolbox_docker" where
  "sample_docker_toolbox api out found =
     \<lparr>td_connect = (\<lambda>v t. ret api), td_containers = (\<lambda>f. ret found),
      td_exec_create = (\<lambda>c cmd kw. ret (PStr ''job'')), td_exec_start_demux = (\<lambda>j. ret (out, NoOutput)),
      td_exec_start = (\<lambda>j. ret out)\<rparr>"

definition sample_podman_toolbox :: "string \<Rightarrow> string list \<Rightarrow> unit toolbox_podman" where
  "sample_podman_toolbox out names =
     \<lparr>tp_list = ret names, tp_reload = (\<lambda>c. ret (if c = ''c1'' then (''kolla_toolbox'', ''running'') else (''kolla_toolbox'', ''exited''))),
      tp_exec_run = (\<lambda>c cmd kw. ret out)\<rparr>"

definition sample_toolbox_state :: "unit toolbox_state" where
  "sample_toolbox_state = \<lparr>tb_engine = (), tb_log = []\<rparr>"

definition toolbox_params :: "string \<Rightarrow> pydict" where
  "toolbox_params engine = [(''container_engine'', PStr engine), (''module_name'', PStr ''ping'')]"

theorem toolbox_main_reports_witness:
  "fst (toolbox_main sample_parsers (sample_docker_toolbox ''1.41'' (Bytes ''ok'') [PStr ''c1'']) (sample_podman_toolbox ''ok'' [])
        ''2.15.0'' (toolbox_params ''Docker'') sample_toolbox_state) = Exit ExitJson [(''changed'', PBool True)]
   \<and> fst (toolbox_main sample_parsers (sample_docker_toolbox ''1.41'' (Bytes ''ok'') []) (sample_podman_toolbox ''ok'' [''c0'', ''c1''])
        ''2.15.0'' (toolbox_params ''podman'') sample_toolbox_state) = Exit ExitJson [(''changed'', PBool True)]"
proof -
  let ?cmd = "map PStr [''ansible'', ''localhost'', ''-m'', ''ping'']"
  let ?v = "PDict [(''plays'', PList [PDict [(''tasks'', PList [PDict
             [(''hosts'', PDict [(''localhost'', PDict [(''changed'', PBool True), (''_ansible_no_log'', PBool False)])])]])]])]"
  have cmd: "gen_commandline sample_parsers ''2.15.0'' (toolbox_params e) = Ret ?cmd" for e
    by (simp add: gen_commandline_def toolbox_params_def dget_def dget_or_def)
  have engines: "with_engine ''docker'' (toolbox_params ''Docker'')" "with_engine ''podman'' (toolbox_params ''podman'')"
    unfolding with_engine_def toolbox_params_def by (simp_all add: dget_def dget_or_def) code_simp+
  have api: "docker_supports_environment_in_exec ''1.41'' = Ret True" by code_simp
  have docker: "docker_prints (sample_docker_toolbox ''1.41'' (Bytes ''ok'') [PStr ''c1'']) (toolbox_params e) ?cmd
      (tb_engine sample_toolbox_state) (Bytes ''ok'')" for e
    by (simp add: docker_prints_def sample_docker_toolbox_def api)
  have podman: "podman_prints (sample_podman_toolbox ''ok'' [''c0'', ''c1'']) (toolbox_params e) ?cmd sample_toolbox_state ''ok''" for e
    by (simp add: podman_prints_def sample_podman_toolbox_def get_kolla_toolbox_def on_client_run bnd_def)
  have loads: "json_loads sample_parsers (Bytes ''ok'') = Ret ?v" "json_loads sample_parsers (Text ''ok'') = Ret ?v"
    "utf8_decode sample_parsers ''ok'' = Ret ''ok''"
    by (simp_all add: sample_parsers_def code_of_def)
  have inner: "inner_result ?v = Ret (PDict [(''changed'', PBool True), (''_ansible_no_log'', PBool False)])"
    by (simp add: inner_result_def)
  show ?thesis
    using toolbox_main_reports [OF cmd disjI1 loads(3), OF conjI, OF engines(1) docker, of "sample_podman_toolbox ''ok'' []"]
      toolbox_main_reports [OF cmd disjI2 loads(3), OF conjI, OF engines(2) podman, of "sample_docker_toolbox ''1.41'' (Bytes ''ok'') []"]
      loads(1,2) inner by simp
qed

section \<open>Failures\<close>

lemma find_toolbox_running:
  "find_toolbox Q conts s = (Ret (Some c), t) \<Longrightarrow>
   c \<in> set conts \<and> (\<exists>w w'. tp_reload Q c w = (Ret (''kolla_toolbox'', ''running''), w'))"
proof (induction conts arbitrary: s)
  case (Cons d conts)
  then show ?case
    by (fastforce simp: bnd_def on_client_run split: prod.splits outcome.splits if_splits)
qed simp

text \<open>C36: nothing is executed unless a running container of that name was found: the module fails right
  after the query, and with Podman the container it uses was seen running. Two failures are not
  reported as such: bytes that cannot be decoded raise \<open>UnboundLocalError\<close> in the handler meant for
  them, and on a Docker API before 1.25 a client that returns bytes raises \<open>TypeError\<close>.
\<close>

theorem toolbox_failures:
  "(with_engine ''docker'' params \<and> td_connect D (dget params ''api_version'') (dget params ''timeout'') (tb_engine s) = (Ret api, w1)
      \<and> gen_commandline P version params = Ret command_line
      \<and> td_containers D [(''name'', PStr ''kolla_toolbox''), (''status'', PStr ''running'')] w1 = (Ret [], w2) \<longrightarrow>
      toolbox_main P D Q version params s = (not_running, s\<lparr>tb_engine := w2\<rparr>))
   \<and> (with_engine ''podman'' params \<and> get_kolla_toolbox Q s = (Ret None, t) \<longrightarrow>
      toolbox_main P D Q version params s = (not_running, t))
   \<and> (get_kolla_toolbox Q s = (Ret (Some c), t) \<longrightarrow> (\<exists>w w'. tp_reload Q c w = (Ret (''kolla_toolbox'', ''running''), w')))
   \<and> (with_engine ''podman'' params \<and> gen_commandline P version params = Ret command_line
      \<and> podman_prints Q params command_line s printed \<and> utf8_decode P printed = Raise e \<longrightarrow>
      fst (toolbox_main P D Q version params s) = Raise unbound_local)
   \<and> regex_result P (Bytes printed) = Raise TypeError"
proof -
  have found: "\<exists>w w'. tp_reload Q c w = (Ret (''kolla_toolbox'', ''running''), w')" if run: "get_kolla_toolbox Q s = (Ret (Some c), t)"
  proof -
    from run obtain conts s1 where "find_toolbox Q conts s1 = (Ret (Some c), t)"
      by (auto simp: get_kolla_toolbox_def bnd_returns)
    from find_toolbox_running [OF this] show ?thesis by simp
  qed
  have undecoded: "fst (toolbox_main P D Q version params s) = Raise unbound_local"
    if "with_engine ''podman'' params" "gen_commandline P version params = Ret command_line"
      "podman_prints Q params command_line s printed" "utf8_decode P printed = Raise e"
    using that use_podman_prints [OF that(2,3)] by (simp add: toolbox_main_engine podman_result_def)
  show ?thesis
    using found undecoded
    by (auto simp: regex_result_def with_engine_def toolbox_main_def use_docker_def use_podman_def podman_output_def
        on_client_run bnd_def catch_api_def not_running_def fail_msg_def fail_json_def)
qed

section \<open>The formats of the default callback\<close>

definition word :: "string \<Rightarrow> bool" where
  "word w \<longleftrightarrow> w \<noteq> [] \<and> list_all word_char w"

lemma not_word_char [simp]: "\<not> word_char CHR '' ''" "\<not> word_char CHR ''!''"
  by (simp_all add: word_char_def code_of_def)

lemma rx_word:
  assumes "word w"
  shows "rx (Group n word_char # literal (CHR '' '' # t) @ r) (w @ CHR '' '' # rest)
      = map_option (\<lambda>g. (n, Some w) # g) (rx (literal (CHR '' '' # t) @ r) (CHR '' '' # rest))"
  using assms by (intro rx_group) (auto simp: word_def list_all_iff literal_def)

lemma rx_status:
  assumes "word w" "bang = [] \<or> bang = ''!''"
  shows "rx (Group n word_char # OptChr CHR ''!'' # literal (CHR '' '' # t) @ r) (w @ bang @ CHR '' '' # rest)
      = map_option (\<lambda>g. (n, Some w) # g) (rx (literal (CHR '' '' # t) @ r) (CHR '' '' # rest))"
proof -
  have "rx (OptChr CHR ''!'' # literal (CHR '' '' # t) @ r) (c # cs) = None" if "word_char c" for c cs
    using that by (auto simp: literal_def)
  then have "refuses word_char (OptChr CHR ''!'' # literal (CHR '' '' # t) @ r)" by (simp add: refuses_def)
  then have "rx (Group n word_char # OptChr CHR ''!'' # literal (CHR '' '' # t) @ r) (w @ bang @ CHR '' '' # rest)
      = map_option (\<lambda>g. (n, Some w) # g) (rx (OptChr CHR ''!'' # literal (CHR '' '' # t) @ r) (bang @ CHR '' '' # rest))"
    using assms by (intro rx_group) (auto simp: word_def list_all_iff)
  also have "rx (OptChr CHR ''!'' # literal (CHR '' '' # t) @ r) (bang @ CHR '' '' # rest)
      = rx (literal (CHR '' '' # t) @ r) (CHR '' '' # rest)"
    using assms(2) by (auto simp: literal_def split: option.splits)
  finally show ?thesis .
qed

lemma JSON_REG_match:
  assumes "word host" "word status" "bang = [] \<or> bang = ''!''"
  shows "rx JSON_REG (host @ '' | '' @ status @ bang @ CHR '' '' # rest)
      = map_option (\<lambda>g. (''host'', Some host) # (''status'', Some status) # g) (rx (literal '' =>'' @ [AnyGroup ''stdout'', LineEnd]) (CHR '' '' # rest))"
  unfolding JSON_REG_def
  using rx_word [OF assms(1), of "''host''" "''| ''" "[Group ''status'' word_char, OptChr CHR ''!''] @ literal '' =>'' @ [AnyGroup ''stdout'', LineEnd]"
      "''| '' @ status @ bang @ CHR '' '' # rest"]
    rx_literal [of "'' | ''" "[Group ''status'' word_char, OptChr CHR ''!''] @ literal '' =>'' @ [AnyGroup ''stdout'', LineEnd]" "status @ bang @ CHR '' '' # rest"]
    rx_status [OF assms(2,3), of "''status''" "''=>''" "[AnyGroup ''stdout'', LineEnd]" rest]
  by (simp add: option.map_comp comp_def)

lemma NON_JSON_REG_match:
  assumes "word host" "word status" "bang = [] \<or> bang = ''!''" "code \<noteq> []" "list_all is_decimal code"
  shows "rx NON_JSON_REG (host @ '' | '' @ status @ bang @ '' | rc='' @ code @ '' >>'' @ newline # out @ [newline])
      = Some [(''host'', Some host), (''status'', Some status), (''exit_code'', Some code), (''stdout'', Some out)]"
proof -
  let ?stop = "[Chr newline, AnyGroup ''stdout'', Chr newline, LineEnd]"
  let ?code = "Group ''exit_code'' is_decimal # literal '' >>'' @ ?stop"
  have "refuses is_decimal (literal '' >>'' @ ?stop)" by (simp add: literal_def is_decimal_def code_of_def)
  then have code: "rx ?code (code @ '' >>'' @ newline # out @ [newline])
      = map_option (\<lambda>g. (''exit_code'', Some code) # g) (rx (literal '' >>'' @ ?stop) ('' >>'' @ newline # out @ [newline]))"
    using assms(4,5) by (intro rx_group) (auto simp: list_all_iff is_decimal_def code_of_def)
  have any: "rx [AnyGroup ''stdout'', Chr newline, LineEnd] (out @ [newline]) = Some [(''stdout'', Some out)]"
    by (simp add: rx_AnyGroup)
  show ?thesis
    unfolding NON_JSON_REG_def
    using rx_word [OF assms(1), of "''host''" "''| ''" "[Group ''status'' word_char, OptChr CHR ''!''] @ literal '' | rc='' @ ?code"
        "''| '' @ status @ bang @ '' | rc='' @ code @ '' >>'' @ newline # out @ [newline]"]
      rx_literal [of "'' | ''" "[Group ''status'' word_char, OptChr CHR ''!''] @ literal '' | rc='' @ ?code"
        "status @ bang @ '' | rc='' @ code @ '' >>'' @ newline # out @ [newline]"]
      rx_status [OF assms(2,3), of "''status''" "''| rc=''" ?code "''| rc='' @ code @ '' >>'' @ newline # out @ [newline]"]
      rx_literal [of "'' | rc=''" ?code "code @ '' >>'' @ newline # out @ [newline]"]
      rx_literal [of "'' >>''" ?stop "newline # out @ [newline]"] code any
    by simp
qed

text \<open>on the old Docker API both formats of Ansible's output are read: the host line with the
  result, and the line with the exit code before the output; the text between the line and the last
  newline is the result when it is JSON, and otherwise the standard output, failed unless the status
  is \<open>SUCCESS\<close>.
\<close>

theorem regex_result_formats:
  assumes "word host" "word status" "bang = [] \<or> bang = ''!''" "code \<noteq> []" "list_all is_decimal code"
    and "text = host @ '' | '' @ status @ bang @ '' =>'' @ out
      \<or> text = host @ '' | '' @ status @ bang @ '' | rc='' @ code @ '' >>'' @ newline # out @ [newline]"
  shows "(\<forall>v. json_loads P (Text out) = Ret v \<longrightarrow> regex_result P (Text text) = Ret v)
    \<and> (json_loads P (Text out) = Raise ValueError \<longrightarrow>
        regex_result P (Text text) = Ret (PDict [(''stdout'', PStr out),
          if status = ''SUCCESS'' then (''changed'', PBool True) else (''failed'', PBool True)]))"
proof -
  have "regex_result P (Text text) = plain_result P out status"
  proof (cases "text = host @ '' | '' @ status @ bang @ '' =>'' @ out")
    case True
    then show ?thesis
      using JSON_REG_match [OF assms(1-3), of "''=>'' @ out"] rx_literal [of "'' =>''" "[AnyGroup ''stdout'', LineEnd]" out]
      by (simp add: regex_result_def rx_any_end)
  next
    case False
    with assms(6) have t: "text = host @ '' | '' @ status @ bang @ '' | rc='' @ code @ '' >>'' @ newline # out @ [newline]" by blast
    have "rx JSON_REG text = None"
      using JSON_REG_match [OF assms(1-3), of "''| rc='' @ code @ '' >>'' @ newline # out @ [newline]"]
      by (simp add: t literal_def)
    then show ?thesis using NON_JSON_REG_match [OF assms(1-5), of out] by (simp add: regex_result_def t)
  qed
  then show ?thesis by (simp add: plain_result_def)
qed

theorem regex_result_formats_witness:
  "regex_result sample_parsers (Text ''localhost | SUCCESS => x'') = Ret (PDict [(''stdout'', PStr '' x''), (''changed'', PBool True)])
   \<and> regex_result sample_parsers (Text (''localhost | FAILED! | rc=2 >>'' @ [newline] @ ''no such file'' @ [newline]))
     = Ret (PDict [(''stdout'', PStr ''no such file''), (''failed'', PBool True)])"
proof -
  have words: "word ''localhost''" "word ''SUCCESS''" "word ''FAILED''" "list_all is_decimal ''2''" by code_simp+
  have "json_loads sample_parsers (Text '' x'') = Raise ValueError" "json_loads sample_parsers (Text ''no such file'') = Raise ValueError"
    by (simp_all add: sample_parsers_def)
  then show ?thesis
    using regex_result_formats [OF words(1,2), of "[]" "''2''" "''localhost | SUCCESS => x''" "'' x''" sample_parsers]
      regex_result_formats [OF words(1,3), of "''!''" "''2''" "''localhost | FAILED! | rc=2 >>'' @ [newline] @ ''no such file'' @ [newline]"
        "''no such file''" sample_parsers] words(4)
    by simp
qed

theorem toolbox_failures_witness:
  "toolbox_main sample_parsers (sample_docker_toolbox ''1.41'' (Bytes ''ok'') []) (sample_podman_toolbox ''ok'' [])
        ''2.15.0'' (toolbox_params ''docker'') sample_toolbox_state = (not_running, sample_toolbox_state)
   \<and> toolbox_main sample_parsers (sample_docker_toolbox ''1.41'' (Bytes ''ok'') []) (sample_podman_toolbox ''ok'' [''c0''])
        ''2.15.0'' (toolbox_params ''podman'') sample_toolbox_state = (not_running, sample_toolbox_state)
   \<and> fst (toolbox_main sample_parsers (sample_docker_toolbox ''1.41'' (Bytes ''ok'') []) (sample_podman_toolbox [CHR 0xFF] [''c1''])
        ''2.15.0'' (toolbox_params ''podman'') sample_toolbox_state) = Raise unbound_local"
proof -
  let ?cmd = "map PStr [''ansible'', ''localhost'', ''-m'', ''ping'']"
  let ?D = "sample_docker_toolbox ''1.41'' (Bytes ''ok'') []" and ?s = "sample_toolbox_state"
  have cmd: "gen_commandline sample_parsers ''2.15.0'' (toolbox_params e) = Ret ?cmd" for e
    by (simp add: gen_commandline_def toolbox_params_def dget_def dget_or_def)
  have engines: "with_engine ''docker'' (toolbox_params ''docker'')" "with_engine ''podman'' (toolbox_params ''podman'')"
    unfolding with_engine_def toolbox_params_def by (simp_all add: dget_def dget_or_def) code_simp+
  have none: "get_kolla_toolbox (sample_podman_toolbox ''ok'' [''c0'']) ?s = (Ret None, ?s)"
    by (simp add: sample_podman_toolbox_def get_kolla_toolbox_def on_client_run bnd_def sample_toolbox_state_def)
  have prints: "podman_prints (sample_podman_toolbox [CHR 0xFF] [''c1'']) (toolbox_params e) ?cmd ?s [CHR 0xFF]" for e
    by (simp add: podman_prints_def sample_podman_toolbox_def get_kolla_toolbox_def on_client_run bnd_def)
  have bad: "utf8_decode sample_parsers [CHR 0xFF] = Raise (PyError ''UnicodeDecodeError'')"
    by (simp add: sample_parsers_def code_of_def)
  have same: "?s\<lparr>tb_engine := ()\<rparr> = ?s" by (simp add: sample_toolbox_state_def)
  show ?thesis
    using toolbox_failures [of "toolbox_params ''docker''" ?D ?s "''1.41''" "()" sample_parsers "''2.15.0''" ?cmd "()" "sample_podman_toolbox ''ok'' []"]
      toolbox_failures [of "toolbox_params ''podman''" ?D ?s "[]" "()" sample_parsers "''2.15.0''" ?cmd "()" "sample_podman_toolbox ''ok'' [''c0'']" ?s]
      toolbox_failures [of "toolbox_params ''podman''" ?D ?s "[]" "()" sample_parsers "''2.15.0''" ?cmd "()"
        "sample_podman_toolbox [CHR 0xFF] [''c1'']" ?s "[]" "[CHR 0xFF]" "PyError ''UnicodeDecodeError''"]
      engines cmd none prints bad same
    by (simp add: sample_docker_toolbox_def)
qed

end
