(* ===== verification/Container_Facts.thy ===== *)
theory Container_Facts
  imports Py_Monad
begin

text \<open>
  \<open>ansible/library/kolla_container_facts.py\<close> and \<open>ansible/library/kolla_container_volume_facts.py\<close>:
  what the engine knows about the containers and volumes of the given names. The clients are
  parameters; a result is a dictionary with the reserved keys \<open>changed\<close> and the list of all facts.
\<close>

section \<open>Collecting facts\<close>

text \<open>\<open>results[key].append(info)\<close>.\<close>

definition append_to :: "string \<Rightarrow> pyval \<Rightarrow> pydict \<Rightarrow> pydict outcome" where
  "append_to key info results =
     (case map_of results key of
        None \<Rightarrow> Raise (KeyError key)
      | Some (PList xs) \<Rightarrow> Ret (AList.update key (PList (xs @ [info])) results)
      | Some v \<Rightarrow> Raise AttributeError)"

text \<open>\<open>results[name] = info\<close>; the names are strings.\<close>

definition store_fact :: "pyval \<Rightarrow> pyval \<Rightarrow> pydict \<Rightarrow> pydict outcome" where
  "store_fact name info results =
     (case name of PStr n \<Rightarrow> Ret (AList.update n info results) | _ \<Rightarrow> Raise TypeError)"

text \<open>\<open>names and not isinstance(names, list)\<close>; \<open>names and name not in names\<close>.\<close>

definition name_list :: "pyval \<Rightarrow> pyval list" where
  "name_list names = (if \<not> truthy names then [] else case names of PList xs \<Rightarrow> xs | v \<Rightarrow> [v])"

definition skipped :: "pyval list \<Rightarrow> pyval \<Rightarrow> bool" where
  "skipped names name \<longleftrightarrow> names \<noteq> [] \<and> \<not> mem_eq name names"

definition add_fact :: "string \<Rightarrow> pyval list \<Rightarrow> pyval \<Rightarrow> pyval \<Rightarrow> pydict \<Rightarrow> pydict outcome" where
  "add_fact key names info name results =
     (if skipped names name then Ret results
      else obind (append_to key info results) (store_fact name info))"

definition no_facts :: "string \<Rightarrow> pydict" where
  "no_facts key = [(''changed'', PBool False), (key, PList [])]"

section \<open>Containers\<close>

text \<open>\<open>name[1:]\<close>.\<close>

definition without_slash :: "pyval \<Rightarrow> pyval outcome" where
  "without_slash name =
     (case name of PStr s \<Rightarrow> Ret (PStr (tl s)) | PList xs \<Rightarrow> Ret (PList (tl xs)) | _ \<Rightarrow> Raise TypeError)"

definition docker_container_facts :: "pyval list \<Rightarrow> pyval \<Rightarrow> pydict \<Rightarrow> pydict outcome" where
  "docker_container_facts names container results =
     obind (py_item container ''Names'') (\<lambda>v. obind (py_iter v) (\<lambda>container_names.
       ofold (\<lambda>name results. obind (without_slash name) (\<lambda>n. add_fact ''_containers'' names container n results))
         container_names results))"

record 'w facts_client =
  fc_docker_containers :: "pyval \<Rightarrow> ('w, pyval list) cmd"  \<comment> \<open>connecting and listing\<close>
  fc_docker_volumes :: "pyval \<Rightarrow> ('w, pyval) cmd"
  fc_podman_containers :: "('w, string list) cmd"
  fc_podman_reload :: "string \<Rightarrow> ('w, pyval) cmd"          \<comment> \<open>the attributes of the container\<close>
  fc_podman_volumes :: "('w, pyval list) cmd"               \<comment> \<open>the attributes of the volumes\<close>

definition facts_docker :: "'w facts_client \<Rightarrow> pydict \<Rightarrow> pydict \<Rightarrow> ('w, pydict) cmd" where
  "facts_docker C params results =
     bnd (fc_docker_containers C (dget params ''api_version'')) (\<lambda>containers.
       lift (ofold (docker_container_facts (name_list (dget params ''name''))) containers results))"

primrec facts_podman_containers :: "'w facts_client \<Rightarrow> pyval list \<Rightarrow> string list \<Rightarrow> pydict \<Rightarrow> ('w, pydict) cmd" where
  "facts_podman_containers C names [] results = ret results"
| "facts_podman_containers C names (container # containers) results =
     bnd (fc_podman_reload C container) (\<lambda>attrs.
     bnd (lift (obind (py_item attrs ''Name'') (\<lambda>name. add_fact ''_containers'' names attrs name results)))
       (facts_podman_containers C names containers))"

definition facts_podman :: "'w facts_client \<Rightarrow> pydict \<Rightarrow> pydict \<Rightarrow> ('w, pydict) cmd" where
  "facts_podman C params results =
     bnd (catch_api (fc_podman_containers C)
            (\<lambda>st cl tx. lift (fail_json [(''failed'', PBool True), (''msg'', PStr (''Internal error: '' @ tx))])))
       (\<lambda>containers. facts_podman_containers C (name_list (dget params ''name'')) containers results)"

definition container_facts_main :: "'w facts_client \<Rightarrow> pydict \<Rightarrow> ('w, unit) cmd" where
  "container_facts_main C params =
     bnd (lift (py_item (PDict params) ''container_engine'')) (\<lambda>engine.
     bnd (if engine = PStr ''podman'' then facts_podman C params (no_facts ''_containers'')
          else facts_docker C params (no_facts ''_containers''))
       (\<lambda>results. lift (exit_json results)))"

section \<open>Volumes\<close>

definition volume_facts :: "pyval list \<Rightarrow> pyval \<Rightarrow> pydict \<Rightarrow> pydict outcome" where
  "volume_facts names volume results =
     obind (py_item volume ''Name'') (\<lambda>name. add_fact ''_volumes'' names volume name results)"

definition get_docker_volumes :: "'w facts_client \<Rightarrow> pyval \<Rightarrow> ('w, pyval list) cmd" where
  "get_docker_volumes C api_version =
     bnd (fc_docker_volumes C api_version) (\<lambda>r. lift (obind (py_item r ''Volumes'') py_iter))"

definition volume_facts_main :: "'w facts_client \<Rightarrow> pydict \<Rightarrow> ('w, unit) cmd" where
  "volume_facts_main C params =
     bnd (if dget params ''container_engine'' = PStr ''docker''
          then get_docker_volumes C (dget params ''api_version'') else fc_podman_volumes C) (\<lambda>volumes.
     bnd (lift (ofold (volume_facts (name_list (dget params ''name''))) volumes (no_facts ''_volumes'')))
       (\<lambda>results. lift (exit_json results)))"

section \<open>The facts collected\<close>

text \<open>
  \<open>facts key fs\<close>: the result for the named facts \<open>fs\<close>, all of them in the list under \<open>key\<close>, and the
  last one of each name under that name.
\<close>

definition facts :: "string \<Rightarrow> (string \<times> pyval) list \<Rightarrow> pydict" where
  "facts key fs = (''changed'', PBool False) # (key, PList (map snd fs)) # dict_update [] fs"

definition wanted :: "pyval list \<Rightarrow> string \<Rightarrow> bool" where
  "wanted names n \<longleftrightarrow> names = [] \<or> mem_eq (PStr n) names"

definition free_names :: "string \<Rightarrow> (string \<times> pyval) list \<Rightarrow> bool" where
  "free_names key fs \<longleftrightarrow> (\<forall>(n, c) \<in> set fs. n \<noteq> ''changed'' \<and> n \<noteq> key)"

lemma dict_update_append: "dict_update d (e @ f) = dict_update (dict_update d e) f"
  by (simp add: dict_update_def)

lemma no_facts_facts: "no_facts key = facts key []"
  by (simp add: no_facts_def facts_def dict_update_def)

lemma add_fact_facts:
  assumes "key \<noteq> ''changed''" and "n \<noteq> ''changed''" "n \<noteq> key"
  shows "add_fact key names info (PStr n) (facts key fs)
         = Ret (facts key (if wanted names n then fs @ [(n, info)] else fs))"
  using assms
  by (simp add: add_fact_def skipped_def wanted_def append_to_def store_fact_def facts_def dict_update_append)
     (simp add: dict_update_def)

lemma ofold_add_facts:
  assumes "key \<noteq> ''changed''" and "free_names key (new x)"
    and "\<And>r. step x r = ofold (\<lambda>(n, c). add_fact key names c (PStr n)) (new x) r"
  shows "step x (facts key fs) = Ret (facts key (fs @ filter (wanted names \<circ> fst) (new x)))"
proof -
  have "ofold (\<lambda>(n, c). add_fact key names c (PStr n)) es (facts key fs) = Ret (facts key (fs @ filter (wanted names \<circ> fst) es))"
    if "free_names key es" for es
    using that
  proof (induction es arbitrary: fs)
    case (Cons e es)
    then show ?case
      using add_fact_facts [OF assms(1), of "fst e" names "snd e" fs] by (cases e) (auto simp: free_names_def)
  qed simp
  with assms(2,3) show ?thesis by simp
qed

text \<open>The facts a loop collects, when each of its steps adds those of one element.\<close>

lemma collect_facts:
  assumes "\<forall>x \<in> set xs. \<forall>fs. step x (facts key fs) = Ret (facts key (fs @ new x))"
  shows "ofold step xs (facts key fs) = Ret (facts key (fs @ concat (map new xs)))"
  using assms by (induction xs arbitrary: fs) auto

text \<open>A container of Docker with its names, each written with a slash; a container of Podman or a volume with its name.\<close>

definition docker_container :: "string list \<Rightarrow> pydict \<Rightarrow> pyval" where
  "docker_container ns info = PDict ((''Names'', PList (map (\<lambda>n. PStr (''/'' @ n)) ns)) # info)"

definition named :: "string \<Rightarrow> pydict \<Rightarrow> pyval" where
  "named n info = PDict ((''Name'', PStr n) # info)"

definition docker_facts_of :: "(string list \<times> pydict) list \<Rightarrow> (string \<times> pyval) list" where
  "docker_facts_of cs = concat (map (\<lambda>(ns, info). map (\<lambda>n. (n, docker_container ns info)) ns) cs)"

definition named_facts_of :: "(string \<times> pydict) list \<Rightarrow> (string \<times> pyval) list" where
  "named_facts_of cs = map (\<lambda>(n, info). (n, named n info)) cs"

lemma ofold_map_cong:
  assumes "\<And>x a. f (g x) a = f' (g' x) a"
  shows "ofold f (map g xs) = ofold f' (map g' xs)"
proof -
  have "(\<lambda>x. f (g x)) = (\<lambda>x. f' (g' x))" by (intro ext) (rule assms)
  then show ?thesis by (simp add: ofold_map)
qed

lemma docker_container_step:
  assumes "free_names ''_containers'' (map (\<lambda>n. (n, c)) ns)" and c: "c = docker_container ns info"
  shows "docker_container_facts names c (facts ''_containers'' fs)
         = Ret (facts ''_containers'' (fs @ filter (wanted names \<circ> fst) (map (\<lambda>n. (n, c)) ns)))"
proof (rule ofold_add_facts [where new = "\<lambda>c. map (\<lambda>n. (n, c)) ns"])
  have "ofold (\<lambda>name results. obind (without_slash name) (\<lambda>n. add_fact ''_containers'' names c n results))
      (map (\<lambda>n. PStr (''/'' @ n)) ns) r = ofold (\<lambda>(n, c). add_fact ''_containers'' names c (PStr n)) (map (\<lambda>n. (n, c)) ns) r" for r
    by (rule fun_cong [OF ofold_map_cong]) (simp add: without_slash_def)
  then show "docker_container_facts names c r = ofold (\<lambda>(n, c). add_fact ''_containers'' names c (PStr n)) (map (\<lambda>n. (n, c)) ns) r" for r
    by (simp add: docker_container_facts_def c docker_container_def)
qed (use assms(1) in simp_all)

lemma named_step:
  assumes "key \<noteq> ''changed''" "n \<noteq> ''changed''" "n \<noteq> key"
  shows "obind (py_item (named n info) ''Name'') (\<lambda>name. add_fact key names (named n info) name (facts key fs))
         = Ret (facts key (fs @ filter (wanted names \<circ> fst) [(n, named n info)]))"
  using add_fact_facts [OF assms, of names "named n info" fs] by (simp add: named_def)

definition free_containers :: "(string list \<times> pydict) list \<Rightarrow> bool" where
  "free_containers cs \<longleftrightarrow> list_all (\<lambda>(ns, info). ''changed'' \<notin> set ns \<and> ''_containers'' \<notin> set ns) cs"

definition free_named :: "string \<Rightarrow> (string \<times> pydict) list \<Rightarrow> bool" where
  "free_named key cs \<longleftrightarrow> list_all (\<lambda>(n, info). n \<noteq> ''changed'' \<and> n \<noteq> key) cs"

lemma docker_facts_collected:
  assumes "free_containers cs"
  shows "ofold (docker_container_facts names) (map (\<lambda>(ns, info). docker_container ns info) cs) (no_facts ''_containers'')
         = Ret (facts ''_containers'' (filter (wanted names \<circ> fst) (docker_facts_of cs)))"
proof -
  let ?new = "\<lambda>(ns, info). filter (wanted names \<circ> fst) (map (\<lambda>n. (n, docker_container ns info)) ns)"
  have "ofold (\<lambda>(ns, info). docker_container_facts names (docker_container ns info)) cs (facts ''_containers'' [])
      = Ret (facts ''_containers'' ([] @ concat (map ?new cs)))"
    using assms by (intro collect_facts) (auto simp: free_containers_def free_names_def list_all_iff intro!: docker_container_step)
  moreover have "concat (map ?new cs) = filter (wanted names \<circ> fst) (docker_facts_of cs)"
    by (auto simp: docker_facts_of_def filter_concat comp_def intro!: arg_cong [of _ _ concat])
  moreover have "ofold (docker_container_facts names) (map (\<lambda>(ns, info). docker_container ns info) cs)
      = ofold (\<lambda>(ns, info). docker_container_facts names (docker_container ns info)) (map (\<lambda>c. c) cs)"
    by (rule ofold_map_cong) (simp add: case_prod_beta)
  ultimately show ?thesis by (simp add: no_facts_facts)
qed

lemma named_facts_collected:
  assumes "free_named key cs" and "key \<noteq> ''changed''"
  shows "ofold (\<lambda>(n, info) r. obind (py_item (named n info) ''Name'') (\<lambda>name. add_fact key names (named n info) name r))
           cs (no_facts key)
         = Ret (facts key (filter (wanted names \<circ> fst) (named_facts_of cs)))"
proof -
  let ?new = "\<lambda>(n, info). filter (wanted names \<circ> fst) [(n, named n info)]"
  have "ofold (\<lambda>(n, info) r. obind (py_item (named n info) ''Name'') (\<lambda>name. add_fact key names (named n info) name r))
           cs (facts key []) = Ret (facts key ([] @ concat (map ?new cs)))"
    using assms by (intro collect_facts) (auto simp: free_named_def list_all_iff named_step simp del: filter.simps)
  moreover have "concat (map ?new cs) = filter (wanted names \<circ> fst) (named_facts_of cs)"
    by (induction cs) (auto simp: named_facts_of_def)
  ultimately show ?thesis by (simp add: no_facts_facts)
qed

lemma podman_facts_collected:
  assumes "\<forall>x \<in> set ids. \<forall>w. fc_podman_reload C x w = (Ret (named (fst (f x)) (snd (f x))), w)"
  shows "facts_podman_containers C names ids r w
     = (ofold (\<lambda>(n, info) r. obind (py_item (named n info) ''Name'') (\<lambda>name. add_fact ''_containers'' names (named n info) name r))
          (map f ids) r, w)"
  using assms
proof (induction ids arbitrary: r)
  case (Cons x ids)
  then show ?case
    by (cases "obind (py_item (named (fst (f x)) (snd (f x))) ''Name'') (\<lambda>name. add_fact ''_containers'' names (named (fst (f x)) (snd (f x))) name r)")
       (auto simp: bnd_def case_prod_beta)
qed simp

text \<open>C37: both modules end in \<open>exit_json\<close> with the facts of exactly the wanted names (all names when none
  are given): every one in the list, in the engine's order and once for each name of a container, and
  under each name the last one, for the containers and for the volumes of either engine, as long as
  no container or volume has one of the reserved names. The volumes of Docker are those under \<open>Volumes\<close> in
  the engine's reply; a reply without that key ends the module with a \<open>KeyError\<close>, and one where it is
  null, instead of the empty list, with a \<open>TypeError\<close>.
\<close>

theorem container_facts_correct:
  assumes names: "names = name_list (dget params ''name'')" and engine: "map_of params ''container_engine'' = Some (PStr e)"
  shows "(e \<noteq> ''podman'' \<and> free_containers cs
       \<and> fc_docker_containers C (dget params ''api_version'') w = (Ret (map (\<lambda>(ns, info). docker_container ns info) cs), w') \<longrightarrow>
       container_facts_main C params w = (Exit ExitJson (facts ''_containers'' (filter (wanted names \<circ> fst) (docker_facts_of cs))), w'))
     \<and> (e = ''podman'' \<and> fc_podman_containers C w = (Ret ids, w')
       \<and> (\<forall>x \<in> set ids. \<forall>w. fc_podman_reload C x w = (Ret (named (fst (f x)) (snd (f x))), w)) \<and> free_named ''_containers'' (map f ids) \<longrightarrow>
       container_facts_main C params w = (Exit ExitJson (facts ''_containers'' (filter (wanted names \<circ> fst) (named_facts_of (map f ids)))), w'))
     \<and> (e \<noteq> ''docker'' \<and> fc_podman_volumes C w = (Ret (map (\<lambda>(n, info). named n info) vs), w') \<and> free_named ''_volumes'' vs \<longrightarrow>
       volume_facts_main C params w = (Exit ExitJson (facts ''_volumes'' (filter (wanted names \<circ> fst) (named_facts_of vs))), w'))
     \<and> (e = ''docker'' \<and> fc_docker_volumes C (dget params ''api_version'') w = (Ret (PDict reply), w') \<longrightarrow>
         (map_of reply ''Volumes'' = Some (PList (map (\<lambda>(n, info). named n info) vs)) \<and> free_named ''_volumes'' vs \<longrightarrow>
            volume_facts_main C params w = (Exit ExitJson (facts ''_volumes'' (filter (wanted names \<circ> fst) (named_facts_of vs))), w'))
         \<and> (map_of reply ''Volumes'' = None \<longrightarrow> volume_facts_main C params w = (Raise (KeyError ''Volumes''), w'))
         \<and> (map_of reply ''Volumes'' = Some PNone \<longrightarrow> volume_facts_main C params w = (Raise TypeError, w')))"
proof -
  have volumes: "ofold (volume_facts names) (map (\<lambda>(n, info). named n info) vs) (no_facts ''_volumes'')
      = Ret (facts ''_volumes'' (filter (wanted names \<circ> fst) (named_facts_of vs)))" if "free_named ''_volumes'' vs"
  proof -
    have "ofold (volume_facts names) (map (\<lambda>(n, info). named n info) vs)
        = ofold (\<lambda>(n, info) r. obind (py_item (named n info) ''Name'') (\<lambda>name. add_fact ''_volumes'' names (named n info) name r)) (map (\<lambda>c. c) vs)"
      by (rule ofold_map_cong) (simp add: case_prod_beta volume_facts_def)
    then show ?thesis using named_facts_collected [OF that] by simp
  qed
  have "dget params ''container_engine'' = PStr e" using engine by (simp add: dget_def dget_or_def)
  then show ?thesis
    using engine docker_facts_collected [of cs names] volumes
      podman_facts_collected [of ids C f names] named_facts_collected [of "''_containers''" "map f ids" names]
    by (auto simp: container_facts_main_def volume_facts_main_def get_docker_volumes_def facts_docker_def facts_podman_def names [symmetric]
        bnd_def catch_api_def exit_json_def)
qed

definition sample_facts_client :: "unit facts_client" where
  "sample_facts_client =
     \<lparr>fc_docker_containers = (\<lambda>v. ret (map (\<lambda>(ns, info). docker_container ns info) [([''nova'', ''web/nova''], []), ([''db''], [])])),
      fc_docker_volumes = (\<lambda>v. ret (PDict [(''Volumes'', PList (map (\<lambda>(n, info). named n info) [(''glance'', [])]))])),
      fc_podman_containers = ret [''1'', ''2''],
      fc_podman_reload = (\<lambda>c. ret (named (if c = ''1'' then ''nova'' else ''db'') [(''Id'', PStr c)])),
      fc_podman_volumes = ret (map (\<lambda>(n, info). named n info) [(''mariadb'', [])])\<rparr>"

theorem container_facts_correct_witness:
  "container_facts_main sample_facts_client [(''container_engine'', PStr ''docker''), (''name'', PList [PStr ''nova''])] ()
      = (Exit ExitJson [(''changed'', PBool False), (''_containers'', PList [docker_container [''nova'', ''web/nova''] []]),
           (''nova'', docker_container [''nova'', ''web/nova''] [])], ())
   \<and> container_facts_main sample_facts_client [(''container_engine'', PStr ''podman'')] ()
      = (Exit ExitJson [(''changed'', PBool False), (''_containers'', PList [named ''nova'' [(''Id'', PStr ''1'')], named ''db'' [(''Id'', PStr ''2'')]]),
           (''nova'', named ''nova'' [(''Id'', PStr ''1'')]), (''db'', named ''db'' [(''Id'', PStr ''2'')])], ())
   \<and> volume_facts_main sample_facts_client [(''container_engine'', PStr ''podman'')] ()
      = (Exit ExitJson [(''changed'', PBool False), (''_volumes'', PList [named ''mariadb'' []]), (''mariadb'', named ''mariadb'' [])], ())
   \<and> volume_facts_main sample_facts_client [(''container_engine'', PStr ''docker''), (''name'', PList [PStr ''nova''])] ()
      = (Exit ExitJson [(''changed'', PBool False), (''_volumes'', PList [])], ())"
proof -
  let ?cs = "[([''nova'', ''web/nova''], []), ([''db''], [])]"
  let ?f = "\<lambda>c. (if c = ''1'' then ''nova'' else ''db'', [(''Id'', PStr c)])"
  let ?docker = "[(''container_engine'', PStr ''docker''), (''name'', PList [PStr ''nova''])]"
  let ?podman = "[(''container_engine'', PStr ''podman'')]"
  have clients: "fc_docker_containers sample_facts_client v () = (Ret (map (\<lambda>(ns, info). docker_container ns info) ?cs), ())"
    "fc_podman_containers sample_facts_client () = (Ret [''1'', ''2''], ())"
    "fc_podman_reload sample_facts_client c w = (Ret (named (fst (?f c)) (snd (?f c))), w)"
    "fc_podman_volumes sample_facts_client () = (Ret (map (\<lambda>(n, info). named n info) [(''mariadb'', [])]), ())"
    "fc_docker_volumes sample_facts_client v () = (Ret (PDict [(''Volumes'', PList (map (\<lambda>(n, info). named n info) [(''glance'', [])]))]), ())" for v c w
    by (simp_all add: sample_facts_client_def)
  have free: "free_containers ?cs" "free_named ''_containers'' (map ?f [''1'', ''2''])" "free_named ''_volumes'' [(''mariadb'', [])]" "free_named ''_volumes'' [(''glance'', [])]"
    by (simp_all add: free_containers_def free_named_def)
  have names: "name_list (dget ?docker ''name'') = [PStr ''nova'']" "name_list (dget ?podman ''name'') = []"
    by (simp_all add: name_list_def dget_def dget_or_def)
  show ?thesis
    using container_facts_correct [OF names(1) [symmetric], of "''docker''" ?cs sample_facts_client "()" "()" "[]" ?f "[(''glance'', [])]" "[(''Volumes'', PList (map (\<lambda>(n, info). named n info) [(''glance'', [])]))]"]
      container_facts_correct [OF names(2) [symmetric], of "''podman''" ?cs sample_facts_client "()" "()" "[''1'', ''2'']" ?f "[(''mariadb'', [])]"]
      clients free
    by (simp add: facts_def docker_facts_of_def named_facts_of_def wanted_def mem_eq_def dict_update_def)
qed

end
