(* ===== verification/Library_Args.thy ===== *)
theory Library_Args
  imports Module_Args Kolla_Toolbox Container_Facts
begin

text \<open>
  The argument specifications of the other modules (\<open>main\<close> in \<open>ansible/library/kolla_toolbox.py\<close>,
  \<open>kolla_container_facts.py\<close> and \<open>kolla_container_volume_facts.py\<close>), and what they give the code that
  runs on the parameters.
\<close>

text \<open>An argument of the type \<open>json\<close> reaches the module as text.\<close>

definition toolbox_specs :: "(string \<times> arg_spec) list" where
  "toolbox_specs =
    [(''container_engine'', (arg ArgStr)\<lparr>arg_required := True\<rparr>),
     (''module_name'', (arg ArgStr)\<lparr>arg_required := True\<rparr>),
     (''module_args'', arg ArgStr),
     (''module_extra_vars'', arg ArgStr),
     (''api_version'', (arg ArgStr)\<lparr>arg_default := PStr ''auto''\<rparr>),
     (''timeout'', (arg ArgInt)\<lparr>arg_default := PInt 180\<rparr>),
     (''user'', arg ArgStr)]"

definition container_facts_specs :: "(string \<times> arg_spec) list" where
  "container_facts_specs =
    [(''name'', (arg ArgList)\<lparr>arg_default := PList []\<rparr>),
     (''api_version'', (arg ArgStr)\<lparr>arg_default := PStr ''auto''\<rparr>),
     (''container_engine'', (arg ArgStr)\<lparr>arg_required := True\<rparr>)]"

definition volume_facts_specs :: "(string \<times> arg_spec) list" where
  "volume_facts_specs =
    [(''name'', (arg ArgList)\<lparr>arg_default := PList []\<rparr>),
     (''api_version'', (arg ArgStr)\<lparr>arg_default := PStr ''auto''\<rparr>),
     (''container_engine'', (arg ArgStr)\<lparr>arg_required := True\<rparr>)]"

text \<open>Every argument is there, of its type, or \<open>None\<close> where it is not required.\<close>

definition passes :: "(string \<times> arg_spec) list \<Rightarrow> pydict \<Rightarrow> bool" where
  "passes specs params \<longleftrightarrow>
     wf_dict params \<and> set (map fst params) = set (map fst specs)
     \<and> list_all (\<lambda>(k, s). allowed s (dget params k)) specs"

lemma passes_required:
  assumes "passes specs params" and "(k, (arg ArgStr)\<lparr>arg_required := True\<rparr>) \<in> set specs"
  shows "\<exists>e. map_of params k = Some (PStr e)"
proof -
  have "allowed ((arg ArgStr)\<lparr>arg_required := True\<rparr>) (dget params k)"
    using assms by (auto simp: passes_def list_all_iff)
  then have "dget params k \<noteq> PNone" "has_type ArgStr (dget params k)" by (auto simp: allowed_def split: if_splits)
  then show ?thesis by (cases "dget params k") (auto simp: dget_def dget_or_def split: option.splits)
qed

text \<open>
  The facts modules read \<open>container_engine\<close> as it is: a name other than \<open>docker\<close> and \<open>podman\<close> makes one
  ask Docker for the containers and the other one Podman for the volumes.
\<close>

lemma facts_engines:
  assumes "passes container_facts_specs params" and "map_of params ''container_engine'' \<notin> {Some (PStr ''docker''), Some (PStr ''podman'')}"
  shows "container_facts_main C params
      = bnd (facts_docker C params (no_facts ''_containers'')) (\<lambda>results. lift (exit_json results))"
    and "volume_facts_main C params
      = bnd (fc_podman_volumes C) (\<lambda>volumes.
        bnd (lift (ofold (volume_facts (name_list (dget params ''name''))) volumes (no_facts ''_volumes'')))
          (\<lambda>results. lift (exit_json results)))"
proof -
  obtain e where e: "map_of params ''container_engine'' = Some (PStr e)"
    using passes_required [OF assms(1), of "''container_engine''"] by (auto simp: container_facts_specs_def)
  then have "dget params ''container_engine'' = PStr e" "e \<noteq> ''docker''" "e \<noteq> ''podman''"
    using assms(2) by (auto simp: dget_def dget_or_def)
  with e show "container_facts_main C params
      = bnd (facts_docker C params (no_facts ''_containers'')) (\<lambda>results. lift (exit_json results))"
    and "volume_facts_main C params
      = bnd (fc_podman_volumes C) (\<lambda>volumes.
        bnd (lift (ofold (volume_facts (name_list (dget params ''name''))) volumes (no_facts ''_volumes'')))
          (\<lambda>results. lift (exit_json results)))"
    by (simp_all add: container_facts_main_def volume_facts_main_def bnd_def)
qed

text \<open>With parameters that pass, the toolbox module never ends in an \<open>AttributeError\<close> over its engine.\<close>

lemma toolbox_engine:
  assumes "passes toolbox_specs params"
  shows "\<exists>e. dget params ''container_engine'' = PStr e"
  using passes_required [OF assms, of "''container_engine''"] by (auto simp: toolbox_specs_def dget_def dget_or_def)

end
