(* ===== verification/J2lint.thy ===== *)
theory J2lint
  imports Py_Monad "HOL-Library.Word"
begin

text \<open>
  \<open>tests/j2lint.py\<close>, the syntax check of the Jinja templates. Jinja is the parameter \<open>jinja\<close>: whether the
  source of a template compiles, given the filters the environment has. What the tool hands to
  \<open>sys.exit\<close> is a sum over the templates, of which the process keeps eight bits (\<open>exit_status\<close>).
\<close>

section \<open>Templates\<close>

text \<open>The files as the loader sees them; a file that cannot be read or decoded raises.\<close>

record disk =
  disk_exists :: "string \<Rightarrow> bool"
  disk_mtime :: "string \<Rightarrow> int"
  disk_read :: "string \<Rightarrow> exn + string"

datatype template_error =
    TemplateNotFound
  | TemplateSyntaxError string string int  \<comment> \<open>message, file name, line\<close>
  | OtherError exn

text \<open>\<open>AbsolutePathLoader.get_source\<close>: the source, its name, and the time the last part of the tuple compares with.\<close>

definition get_source :: "disk \<Rightarrow> string \<Rightarrow> template_error + string \<times> string \<times> int" where
  "get_source d template =
     (if \<not> disk_exists d template then Inl TemplateNotFound
      else case disk_read d template of
             Inl e \<Rightarrow> Inl (OtherError e)
           | Inr source \<Rightarrow> Inr (source, template, disk_mtime d template))"

definition up_to_date :: "disk \<Rightarrow> string \<times> string \<times> int \<Rightarrow> bool" where
  "up_to_date d r \<longleftrightarrow> snd (snd r) = disk_mtime d (fst (snd r))"

definition lint_filters :: "string list" where
  "lint_filters = [''basename'', ''bool'', ''hash'', ''to_json'', ''password_hash'', ''kolla_address'', ''put_address_in_context'']"

text \<open>\<open>env.get_template\<close>: Jinja asks the loader for the source and compiles it with the filters it has by
  then, its own and the added ones.\<close>

type_synonym jinja = "string list \<Rightarrow> string \<Rightarrow> string \<Rightarrow> template_error + unit"

definition get_template :: "jinja \<Rightarrow> disk \<Rightarrow> string \<Rightarrow> template_error + unit" where
  "get_template J d template =
     (case get_source d template of
        Inl e \<Rightarrow> Inl e
      | Inr (source, file_name, mtime) \<Rightarrow> J lint_filters source file_name)"

section \<open>The tool\<close>

record streams =
  std_out :: "string list"
  std_err :: "string list"

definition print_out :: "string \<Rightarrow> (streams, unit) cmd" where
  "print_out l = modify (\<lambda>s. s\<lparr>std_out := std_out s @ [l]\<rparr>)"

definition print_err :: "string \<Rightarrow> (streams, unit) cmd" where
  "print_err l = modify (\<lambda>s. s\<lparr>std_err := std_err s @ [l]\<rparr>)"

definition lint_check :: "jinja \<Rightarrow> disk \<Rightarrow> string \<Rightarrow> (streams, int) cmd" where
  "lint_check J d template =
     (case get_template J d template of
        Inr u \<Rightarrow> seqc (print_out (template @ '': Syntax OK'' @ [nl])) (ret 0)
      | Inl TemplateNotFound \<Rightarrow> seqc (print_err (template @ '': File not found'' @ [nl])) (ret 2)
      | Inl (TemplateSyntaxError message file_name lineno) \<Rightarrow>
          seqc (print_err (template @ '': Syntax check failed: '' @ message @ '' in '' @ file_name @ '' at ''
                  @ int_str lineno @ [nl])) (ret 1)
      | Inl (OtherError e) \<Rightarrow> raise e)"

text \<open>\<open>reduce(lambda r, fn: r + check(fn, ...), sys.argv[1:], 0)\<close>.\<close>

primrec lint_all :: "jinja \<Rightarrow> disk \<Rightarrow> string list \<Rightarrow> int \<Rightarrow> (streams, int) cmd" where
  "lint_all J d [] r = ret r"
| "lint_all J d (fn # fns) r = bnd (lint_check J d fn) (\<lambda>c. lint_all J d fns (r + c))"

text \<open>What the process ends with: the argument of \<open>sys.exit\<close>, or 0 when \<open>main\<close> returns after the usage
  line. Slicing the arguments raises no \<open>IndexError\<close>, so the line appears only for one from Jinja.\<close>

definition lint_main :: "jinja \<Rightarrow> disk \<Rightarrow> string list \<Rightarrow> (streams, int) cmd" where
  "lint_main J d argv =
     catch_all (lint_all J d (tl argv) 0)
       (\<lambda>e. if e = IndexError
            then seqc (print_out (''Usage: j2lint.py filename [filename ...]'' @ [nl])) (ret 0)
            else raise e)"

text \<open>The system keeps the low eight bits of the status; an exception ends the interpreter with 1.\<close>

fun exit_status :: "int outcome \<Rightarrow> 8 word" where
  "exit_status (Ret n) = word_of_int n"
| "exit_status _ = 1"

section \<open>What the exit status says\<close>

definition missing :: "jinja \<Rightarrow> disk \<Rightarrow> string list \<Rightarrow> nat" where
  "missing J d fns = length (filter (\<lambda>fn. get_template J d fn = Inl TemplateNotFound) fns)"

definition broken :: "jinja \<Rightarrow> disk \<Rightarrow> string list \<Rightarrow> nat" where
  "broken J d fns = length (filter (\<lambda>fn. \<exists>m f l. get_template J d fn = Inl (TemplateSyntaxError m f l)) fns)"

definition good :: "jinja \<Rightarrow> disk \<Rightarrow> string \<Rightarrow> bool" where
  "good J d fn \<longleftrightarrow> \<not> isl (get_template J d fn)"

definition readable :: "jinja \<Rightarrow> disk \<Rightarrow> string \<Rightarrow> bool" where
  "readable J d fn \<longleftrightarrow> (case get_template J d fn of Inl (OtherError e) \<Rightarrow> False | _ \<Rightarrow> True)"

lemma lint_all_sum:
  assumes "list_all (readable J d) fns"
  shows "\<exists>err. lint_all J d fns r s = (Ret (r + int (2 * missing J d fns + broken J d fns)),
    s\<lparr>std_out := std_out s @ map (\<lambda>fn. fn @ '': Syntax OK'' @ [nl]) (filter (good J d) fns), std_err := std_err s @ err\<rparr>)"
  using assms
proof (induction fns arbitrary: r s)
  case Nil
  have "s = s\<lparr>std_err := std_err s @ []\<rparr>" by simp
  then show ?case by (auto simp: missing_def broken_def intro!: exI [of _ "[]"])
next
  case (Cons fn fns)
  then have "readable J d fn" "list_all (readable J d) fns" by simp_all
  then show ?case
  proof (cases "get_template J d fn")
    case (Inr u)
    then have "lint_all J d (fn # fns) r s = lint_all J d fns r (s\<lparr>std_out := std_out s @ [fn @ '': Syntax OK'' @ [nl]]\<rparr>)"
      by (simp add: lint_check_def print_out_def bnd_def seqc_def)
    with Cons.IH [OF \<open>list_all (readable J d) fns\<close>, of r "s\<lparr>std_out := std_out s @ [fn @ '': Syntax OK'' @ [nl]]\<rparr>"] Inr
    show ?thesis by (auto simp: missing_def broken_def good_def)
  next
    case (Inl e)
    then obtain l c where step: "lint_all J d (fn # fns) r s = lint_all J d fns (r + c) (s\<lparr>std_err := std_err s @ [l]\<rparr>)"
      and c: "c = int (2 * missing J d [fn] + broken J d [fn])"
      using \<open>readable J d fn\<close>
      by (cases e) (simp_all add: lint_check_def print_err_def bnd_def seqc_def readable_def missing_def broken_def)
    have "missing J d (fn # fns) = missing J d [fn] + missing J d fns" "broken J d (fn # fns) = broken J d [fn] + broken J d fns"
      by (simp_all add: missing_def broken_def)
    with Cons.IH [OF \<open>list_all (readable J d) fns\<close>, of "r + c" "s\<lparr>std_err := std_err s @ [l]\<rparr>"] Inl step c
    show ?thesis by (auto simp: good_def algebra_simps)
  qed
qed

lemma few_bad: "missing J d fns + broken J d fns \<le> length fns"
  unfolding missing_def broken_def by (induction fns) auto

text \<open>C40: when every template can be read, j2lint reports each good one on its output, in order, and exits
  with twice the number of missing files plus the number of those with syntax errors. The system keeps
  that modulo 256: with fewer than 128 templates the status is 0 exactly when all are good, but any
  multiple of 256, for instance 128 missing files, counts as success too.
\<close>

theorem lint_exit_status:
  assumes "list_all (readable J d) fns"
  shows "fst (lint_main J d (prog # fns) s) = Ret (int (2 * missing J d fns + broken J d fns))
    \<and> std_out (snd (lint_main J d (prog # fns) s))
        = std_out s @ map (\<lambda>fn. fn @ '': Syntax OK'' @ [nl]) (filter (good J d) fns)
    \<and> (exit_status (fst (lint_main J d (prog # fns) s)) = 0 \<longleftrightarrow> 256 dvd 2 * missing J d fns + broken J d fns)
    \<and> (length fns < 128 \<longrightarrow>
        (exit_status (fst (lint_main J d (prog # fns) s)) = 0 \<longleftrightarrow> list_all (good J d) fns))"
proof -
  let ?n = "2 * missing J d fns + broken J d fns"
  obtain err where run: "lint_main J d (prog # fns) s = (Ret (int ?n),
      s\<lparr>std_out := std_out s @ map (\<lambda>fn. fn @ '': Syntax OK'' @ [nl]) (filter (good J d) fns), std_err := std_err s @ err\<rparr>)"
    using lint_all_sum [OF assms, of 0 s] by (auto simp: lint_main_def catch_all_def)
  have status: "exit_status (Ret (int ?n)) = 0 \<longleftrightarrow> 256 dvd ?n"
    using word_of_nat_eq_0_iff [where 'a = 8, of ?n] by simp
  have "list_all (good J d) fns \<longleftrightarrow> ?n = 0"
    using assms unfolding missing_def broken_def
    by (induction fns) (auto simp: good_def readable_def isl_def split: sum.splits template_error.splits)
  moreover have "256 dvd ?n \<longleftrightarrow> ?n = 0" if "length fns < 128"
    using few_bad [of J d fns] that by (auto dest!: dvd_imp_le)
  ultimately show ?thesis unfolding run fst_conv snd_conv status by simp
qed

text \<open>128 missing files.\<close>

definition no_files :: disk where
  "no_files = \<lparr>disk_exists = (\<lambda>f. False), disk_mtime = (\<lambda>f. 0), disk_read = (\<lambda>f. Inr [])\<rparr>"

definition any_template :: jinja where
  "any_template filters source file_name = Inr ()"

theorem lint_exit_status_witness:
  "exit_status (fst (lint_main any_template no_files (''j2lint.py'' # replicate 128 ''a.j2'') \<lparr>std_out = [], std_err = []\<rparr>)) = 0"
proof -
  have "get_template any_template no_files fn = Inl TemplateNotFound" for fn
    by (simp add: get_template_def get_source_def no_files_def)
  then have "list_all (readable any_template no_files) (replicate 128 ''a.j2'')"
    "missing any_template no_files (replicate 128 ''a.j2'') = 128" "broken any_template no_files (replicate 128 ''a.j2'') = 0"
    by (simp_all add: readable_def missing_def broken_def list_all_iff)
  with lint_exit_status [OF this(1), of "''j2lint.py''" "\<lparr>std_out = [], std_err = []\<rparr>"] show ?thesis by simp
qed

end
