(* ===== verification/Start_Liveness.thy ===== *)
theory Start_Liveness
  imports Docker_Container
begin

text \<open>
  Starting a container makes progress: what the wait for the unit (\<open>wait_for_unit\<close> of
  \<open>kolla_systemd_worker.py\<close>) means for \<open>start_container\<close> of \<open>kolla_docker_worker.py\<close>. Whatever systemd and
  the engine do between the polls, the container is started exactly when one of the polls within the
  timeout finds its unit running.
\<close>

text \<open>A unit action that systemd takes: it succeeds when the state is seen in time, at the first such poll.\<close>

lemma unit_action_live:
  assumes act: "perform_action api f [PStr (sd_service_name c), job_mode] h = (Ret True, h1)"
    and obs: "\<And>k. fst (get_unit_state api c (nth_poll api c k h1)) = Ret (obs k)"
    and time: "sd_restart_timeout c = PInt t"
  obtains k where "k \<le> last_poll t" "\<forall>j < k. obs j \<noteq> Some st" "obs k = Some st \<or> k = last_poll t"
    "unit_action api c f st h = (Ret (obs k = Some st), snd (get_unit_state api c (nth_poll api c k h1)))"
proof -
  obtain k where "k \<le> last_poll t" "\<forall>j < k. obs j \<noteq> Some st" "obs k = Some st \<or> k = last_poll t"
    "wait_loop api c t st (5 * int 0) (nth_poll api c 0 h1) = (Ret (obs k = Some st), snd (get_unit_state api c (nth_poll api c k h1)))"
    using wait_loop_polls [of api c h1 obs 0 t st] obs by auto
  then show thesis
    using act time by (intro that [of k]) (simp_all add: unit_action_def wait_for_unit_def bnd_def)
qed

lemma bring_up_run:
  assumes "status_starts container ''Up '' = Ret False" "dget (w_params s) ''restart_policy'' \<noteq> PStr ''oneshot''"
    and "dk_unit D = Some c" "create_unit_file (dk_systemd D) c (w_host s) = (Ret b, h1)"
    and "systemd_start (dk_systemd D) c h1 = (Ret started, h2)"
  shows "docker_bring_up D container s =
    (let t = s\<lparr>w_changed := True, w_host := h2\<rparr> in
     if started then (Ret (), t)
     else bnd (docker_check_container D) (\<lambda>c. lift (fail_changed ''Container timed out'' c)) t)"
  using assms by (simp add: docker_bring_up_def set_changed_def oneshot_def param_def docker_unit_run on_host_run bnd_def seqc_def
      whenc_def Let_def)

text \<open>C6: \<open>start_container\<close> makes progress. When the container that should run is there but down, its unit
  file can be written and systemd takes the order to start it, then the module returns with the
  container started (and \<open>changed\<close> set) at the first poll that finds the unit running, if one of the
  polls up to the timeout does; and if none does it never reports success.\<close>

theorem docker_start_live:
  assumes there: "docker_ensure_container D s = (Ret container, w)" and down: "status_starts container ''Up '' = Ret False"
    and params: "dget (w_params s) ''restart_policy'' \<noteq> PStr ''oneshot''" "truthy (dget (w_params s) ''detach'')"
    and unit: "dk_unit D = Some c" "sd_restart_timeout c = PInt t"
    and wrote: "create_unit_file (dk_systemd D) c (w_host w) = (Ret b, h1)"
    and act: "perform_action (dk_systemd D) ''StartUnit'' [PStr (sd_service_name c), job_mode] h1 = (Ret True, h2)"
    and obs: "\<And>k. fst (get_unit_state (dk_systemd D) c (nth_poll (dk_systemd D) c k h2)) = Ret (obs k)"
  shows "(\<forall>i \<le> last_poll t. obs i = Some ''running'' \<longrightarrow>
      (\<exists>k \<le> i. obs k = Some ''running'' \<and> (\<forall>j < k. obs j \<noteq> Some ''running'')
        \<and> docker_start_container D s
          = (Ret (), w\<lparr>w_changed := True, w_host := snd (get_unit_state (dk_systemd D) c (nth_poll (dk_systemd D) c k h2))\<rparr>)))
    \<and> ((\<forall>i \<le> last_poll t. obs i \<noteq> Some ''running'') \<longrightarrow> (\<forall>u. fst (docker_start_container D s) \<noteq> Ret u))"
proof -
  obtain k where k: "k \<le> last_poll t" "\<forall>j < k. obs j \<noteq> Some ''running''" "obs k = Some ''running'' \<or> k = last_poll t"
    and start: "systemd_start (dk_systemd D) c h1
      = (Ret (obs k = Some ''running''), snd (get_unit_state (dk_systemd D) c (nth_poll (dk_systemd D) c k h2)))" (is "_ = (_, ?h)")
    unfolding systemd_start_def by (rule unit_action_live [OF act obs unit(2)])
  let ?t = "w\<lparr>w_changed := True, w_host := ?h\<rparr>"
  have p: "dget (w_params w) n = dget (w_params s) n" if "n \<noteq> ''environment''" for n
    using fixed_params_dget [OF keepsD [OF docker_fixed.keeps_ensure there] that] .
  have up: "docker_bring_up D container w = (if obs k = Some ''running'' then (Ret (), ?t)
      else bnd (docker_check_container D) (\<lambda>c. lift (fail_changed ''Container timed out'' c)) ?t)"
    using bring_up_run [OF down _ unit(1) wrote start] params(1) p by (simp add: Let_def)
  show ?thesis
  proof (cases "obs k = Some ''running''")
    case True
    then have "docker_start_container D s = (Ret (), ?t)"
      using there up params(2) p by (simp add: docker_start_container_def bnd_def seqc_def param_def)
    moreover have "k \<le> i" if "obs i = Some ''running''" for i using that k(2) not_le by blast
    ultimately show ?thesis using True k by blast
  next
    case False
    then have "fst (docker_bring_up D container w) \<noteq> Ret u" for u
      unfolding up by (simp add: bnd_def split: prod.splits outcome.splits)
    then have "fst (docker_start_container D s) \<noteq> Ret u" for u
      using there by (auto simp: docker_start_container_def bnd_def seqc_def split: prod.splits outcome.splits)
    moreover have "obs i \<noteq> Some ''running''" if "i \<le> last_poll t" for i
      using False k that by (metis le_neq_implies_less)
    ultimately show ?thesis by blast
  qed
qed

text \<open>A container that was stopped; systemd starts it at once.\<close>

theorem docker_start_live_witness:
  "\<exists>t. docker_start_container (sample_docker [nova_image] [])
      (sample_state nova_params [sample_container ''nova'' ''Exited (0) 1 second ago'']) = (Ret (), t) \<and> w_changed t"
proof -
  let ?D = "sample_docker [nova_image] []" and ?c = "sample_container ''nova'' ''Exited (0) 1 second ago''"
  let ?s = "sample_state nova_params [?c]"
  let ?api = "sample_systemd ''kolla-nova-container.service''"
  let ?h1 = "\<lparr>unit_files = [unit_path sample_conf \<mapsto> rendered_unit sample_conf], world = [?c]\<rparr>"
  let ?h2 = "?h1\<lparr>world := sample_status ''Up 1 second'' [?c]\<rparr>"
  have "truthy nova_image" "truthy ?c" by (simp_all add: nova_image_def sample_container_def)
  then have there: "docker_ensure_container ?D ?s = (Ret ?c, ?s)"
    by (simp add: docker_ensure_container_def bnd_def seqc_def sample_image sample_check_container sample_unchanged)
  have down: "status_starts ?c ''Up '' = Ret False" by (simp add: sample_status_starts) code_simp
  have params: "dget (w_params ?s) ''restart_policy'' \<noteq> PStr ''oneshot''" "truthy (dget (w_params ?s) ''detach'')"
    by (simp_all add: sample_state_def nova_params_def dget_def dget_or_def)
  have api: "dk_systemd ?D = ?api" "dk_unit ?D = Some sample_conf" by (simp_all add: sample_docker_def)
  have wrote: "create_unit_file ?api sample_conf (w_host ?s) = (Ret True, ?h1)"
    by (simp add: create_unit_file_def generate_unit_file_rendered check_unit_change_run sample_state_def
        systemd_reload_def systemd_enable_def perform_action_def on_world_def zoom_def sample_systemd_def
        bnd_def seqc_def catch_all_def)
  have act: "perform_action ?api ''StartUnit'' [PStr (sd_service_name sample_conf), job_mode] ?h1 = (Ret True, ?h2)"
    by (simp add: perform_action_def on_world_def zoom_def sample_systemd_def bnd_def seqc_def catch_all_def)
  have get: "get_unit_state ?api sample_conf ?h2 = (Ret (Some ''running''), ?h2)"
    by (simp add: get_unit_state_def on_world_def zoom_def sample_systemd_def sample_conf_def bnd_def sample_status_def sample_container_def)
  have sleep: "sleep_host ?api 5 ?h2 = ?h2" by (simp add: sleep_host_def sample_systemd_def)
  have "nth_poll ?api sample_conf k ?h2 = ?h2" for k
    by (induction k) (simp_all only: nth_poll.simps get sleep snd_conv)
  then have obs: "fst (get_unit_state (dk_systemd ?D) sample_conf (nth_poll (dk_systemd ?D) sample_conf k ?h2)) = Ret (Some ''running'')" for k
    unfolding api by (simp only: get \<open>nth_poll ?api sample_conf k ?h2 = ?h2\<close> fst_conv)
  from docker_start_live [OF there down params api(2) _ wrote [folded api] act [folded api] obs, of 120]
  show ?thesis by (auto simp: sample_conf_def)
qed

end
