(* ===== verification/Py_Argparse.thy ===== *)
theory Py_Argparse
  imports Py_Values
begin

text \<open>
  The part of Python's \<open>argparse\<close> that the command-line tools use: parsers whose arguments are all
  options, with one value or none. A word is classified as \<open>_parse_optional\<close> does (exact names, the form
  with an equals sign, unambiguous prefixes, values glued to a one-letter option, negative numbers), then
  the words are consumed from left to right; \<open>--help\<close> ends the program with status 0 when it is
  reached, every error with status 2.
\<close>

section \<open>Parsers\<close>

datatype cli_kind = Store | StoreTrue | Help

datatype cli_type = CliStr | CliInt

record cli_option =
  co_names :: "string list"
  co_dest :: string
  co_kind :: cli_kind
  co_type :: cli_type
  co_required :: bool
  co_default :: pyval

type_synonym cli_parser = "cli_option list"

definition help_option :: cli_option where
  "help_option = \<lparr>co_names = [''-h'', ''--help''], co_dest = ''help'', co_kind = Help, co_type = CliStr,
     co_required = False, co_default = PNone\<rparr>"

definition takes_value :: "cli_option \<Rightarrow> bool" where
  "takes_value opt \<longleftrightarrow> co_kind opt = Store"

definition option_table :: "cli_parser \<Rightarrow> (string \<times> cli_option) list" where
  "option_table p = concat (map (\<lambda>opt. map (\<lambda>n. (n, opt)) (co_names opt)) p)"

section \<open>Classifying the words\<close>

text \<open>An option with the name that was recognised, whether an equals sign was there, and the value in the
  same word. \<open>Named None\<close> is an option the parser does not have.\<close>

datatype cli_word =
    Value
  | Dashes
  | Named "cli_option option" string bool "string option"
  | Ambiguous

definition negative_number :: "string \<Rightarrow> bool" where
  "negative_number s \<longleftrightarrow>
     (case s of
        [] \<Rightarrow> False
      | c # r \<Rightarrow>
          c = CHR ''-'' \<and>
          (let digits = (if r \<noteq> [] \<and> last r = CHR 0x0A then butlast r else r);
               frac = dropWhile is_decimal digits
           in digits \<noteq> [] \<and> (frac = []
                \<or> (hd frac = CHR ''.'' \<and> tl frac \<noteq> [] \<and> list_all is_decimal (tl frac)))))"

definition option_matches :: "cli_parser \<Rightarrow> string \<Rightarrow> cli_word list" where
  "option_matches p s =
     (if hd (tl s) = CHR ''-''
      then (let (prefix, sep, e) =
              (case split_first (CHR ''='') s of None \<Rightarrow> (s, False, None) | Some (a, b) \<Rightarrow> (a, True, Some b))
            in map (\<lambda>(n, opt). Named (Some opt) n sep e) (filter (\<lambda>(n, opt). starts_with n prefix) (option_table p)))
      else List.map_filter (\<lambda>(n, opt).
             if n = take 2 s then Some (Named (Some opt) n False (Some (drop 2 s)))
             else if starts_with n s then Some (Named (Some opt) n False None) else None) (option_table p))"

definition classify :: "cli_parser \<Rightarrow> string \<Rightarrow> cli_word" where
  "classify p s =
     (if s = [] \<or> hd s \<noteq> CHR ''-'' then Value
      else case map_of (option_table p) s of
        Some opt \<Rightarrow> Named (Some opt) s False None
      | None \<Rightarrow>
          if length s = 1 then Value
          else case (case split_first (CHR ''='') s of
                       None \<Rightarrow> None
                     | Some (n, v) \<Rightarrow> map_option (\<lambda>opt. Named (Some opt) n True (Some v)) (map_of (option_table p) n)) of
            Some w \<Rightarrow> w
          | None \<Rightarrow>
              (case option_matches p s of
                 [w] \<Rightarrow> w
               | _ # _ # _ \<Rightarrow> Ambiguous
               | [] \<Rightarrow> if negative_number s \<or> CHR '' '' \<in> set s then Value else Named None s False None))"

fun classify_all :: "cli_parser \<Rightarrow> string list \<Rightarrow> (string \<times> cli_word) list" where
  "classify_all p [] = []"
| "classify_all p (s # argv) =
     (if s = ''--'' then (s, Dashes) # map (\<lambda>x. (x, Value)) argv
      else (s, classify p s) # classify_all p argv)"

section \<open>Consuming the words\<close>

datatype cli_stop = HelpShown | UsageError

text \<open>The options in one word with their values, what is left over of it, and whether the next word was
  taken as a value.\<close>

function option_word ::
    "cli_parser \<Rightarrow> cli_option \<Rightarrow> string \<Rightarrow> bool \<Rightarrow> string option \<Rightarrow> (string \<times> cli_word) list
      \<Rightarrow> cli_stop + ((cli_option \<times> string list) list \<times> string list \<times> bool)" where
  "option_word p opt n sep None rest =
     (if \<not> takes_value opt then Inr ([(opt, [])], [], False)
      else case rest of
        (s, Value) # _ \<Rightarrow> Inr ([(opt, [s])], [], True)
      | _ \<Rightarrow> Inl UsageError)"
| "option_word p opt n sep (Some e) rest =
     (if takes_value opt then Inr ([(opt, [e])], [], False)
      else if e = [] \<or> hd (tl n) = CHR ''-'' \<or> sep \<or> hd e = CHR ''-'' then Inl UsageError
      else case map_of (option_table p) [CHR ''-'', hd e] of
        None \<Rightarrow> Inr ([(opt, [])], [CHR ''-'' # e], False)
      | Some opt' \<Rightarrow>
          (case (case tl e of
              [] \<Rightarrow> option_word p opt' [CHR ''-'', hd e] False None rest
            | c # r \<Rightarrow>
                if c = CHR ''='' then option_word p opt' [CHR ''-'', hd e] True (Some r) rest
                else option_word p opt' [CHR ''-'', hd e] False (Some (c # r)) rest) of
             Inl stop \<Rightarrow> Inl stop
           | Inr (acts, extras, taken) \<Rightarrow> Inr ((opt, []) # acts, extras, taken)))"
  by pat_completeness auto
termination
  by (relation "measure (\<lambda>(p, opt, n, sep, e, rest). case e of None \<Rightarrow> 0 | Some s \<Rightarrow> Suc (length s))")
    (auto simp: neq_Nil_conv)

text \<open>\<open>take_action\<close>: converting the value and storing it. The namespace comes with the destinations seen.\<close>

fun convert :: "cli_type \<Rightarrow> string \<Rightarrow> pyval option" where
  "convert CliStr s = Some (PStr s)"
| "convert CliInt s = map_option PInt (int_of_str s)"

fun take_action :: "cli_option \<times> string list \<Rightarrow> pydict \<times> string list \<Rightarrow> cli_stop + (pydict \<times> string list)" where
  "take_action (opt, args) (ns, seen) =
     (case co_kind opt of
        Help \<Rightarrow> Inl HelpShown
      | StoreTrue \<Rightarrow> Inr (AList.update (co_dest opt) (PBool True) ns, co_dest opt # seen)
      | Store \<Rightarrow>
          (case args of
             [s] \<Rightarrow> (case convert (co_type opt) s of
                       None \<Rightarrow> Inl UsageError
                     | Some v \<Rightarrow> Inr (AList.update (co_dest opt) v ns, co_dest opt # seen))
           | _ \<Rightarrow> Inl UsageError))"

fun take_actions :: "(cli_option \<times> string list) list \<Rightarrow> pydict \<times> string list \<Rightarrow> cli_stop + (pydict \<times> string list)" where
  "take_actions [] st = Inr st"
| "take_actions (a # acts) st = (case take_action a st of Inl stop \<Rightarrow> Inl stop | Inr st' \<Rightarrow> take_actions acts st')"

text \<open>The namespace, what has been seen, and the words nobody wanted.\<close>

function consume ::
    "cli_parser \<Rightarrow> (string \<times> cli_word) list \<Rightarrow> (pydict \<times> string list) \<times> string list
      \<Rightarrow> cli_stop + ((pydict \<times> string list) \<times> string list)" where
  "consume p [] st = Inr st"
| "consume p ((s, Named (Some opt) n sep e) # rest) (st, extras) =
     (case option_word p opt n sep e rest of
        Inl stop \<Rightarrow> Inl stop
      | Inr (acts, left, taken) \<Rightarrow>
          (case take_actions acts st of
             Inl stop \<Rightarrow> Inl stop
           | Inr st' \<Rightarrow> consume p (if taken then tl rest else rest) (st', extras @ left)))"
| "consume p ((s, Named None n sep e) # rest) (st, extras) = consume p rest (st, extras @ [s])"
| "consume p ((s, Value) # rest) (st, extras) = consume p rest (st, extras @ [s])"
| "consume p ((s, Dashes) # rest) (st, extras) = consume p rest (st, extras @ [s])"
| "consume p ((s, Ambiguous) # rest) (st, extras) = Inl UsageError"
  by pat_completeness auto
termination
  by (relation "measure (\<lambda>(p, ws, st). length ws)") (auto simp: neq_Nil_conv)

definition initial_namespace :: "cli_parser \<Rightarrow> pydict" where
  "initial_namespace p = map (\<lambda>opt. (co_dest opt, co_default opt)) (filter (\<lambda>opt. co_kind opt \<noteq> Help) p)"

definition parse_args :: "cli_parser \<Rightarrow> string list \<Rightarrow> cli_stop + pydict" where
  "parse_args p argv =
     (let ws = classify_all p argv in
      if list_ex (\<lambda>w. snd w = Ambiguous) ws then Inl UsageError
      else case consume p ws ((initial_namespace p, []), []) of
        Inl stop \<Rightarrow> Inl stop
      | Inr ((ns, seen), extras) \<Rightarrow>
          if list_all (\<lambda>opt. co_required opt \<longrightarrow> co_dest opt \<in> set seen) p \<and> extras = [] then Inr ns
          else Inl UsageError)"

section \<open>Settings read back\<close>

text \<open>A setting is an option, the name it is given by, its value (none for a flag) and whether the value is
  in the same word, after an equals sign.\<close>

type_synonym cli_setting = "cli_option \<times> string \<times> string option \<times> bool"

fun setting_words :: "cli_setting \<Rightarrow> string list" where
  "setting_words (opt, n, None, joined) = [n]"
| "setting_words (opt, n, Some v, joined) = (if joined then [n @ CHR ''='' # v] else [n, v])"

fun setting_value :: "cli_setting \<Rightarrow> pyval" where
  "setting_value (opt, n, None, joined) = PBool True"
| "setting_value (opt, n, Some v, joined) = (case convert (co_type opt) v of Some x \<Rightarrow> x | None \<Rightarrow> PNone)"

definition setting_entry :: "cli_setting \<Rightarrow> string \<times> pyval" where
  "setting_entry s = (co_dest (fst s), setting_value s)"

definition plain_name :: "string \<Rightarrow> bool" where
  "plain_name n \<longleftrightarrow> n \<noteq> [] \<and> hd n = CHR ''-'' \<and> n \<noteq> ''--'' \<and> CHR ''='' \<notin> set n"

definition plain_names :: "cli_parser \<Rightarrow> bool" where
  "plain_names p \<longleftrightarrow> list_all (\<lambda>x. plain_name (fst x)) (option_table p)"

fun fits :: "cli_parser \<Rightarrow> cli_setting \<Rightarrow> bool" where
  "fits p (opt, n, v, joined) \<longleftrightarrow>
     map_of (option_table p) n = Some opt
     \<and> (case v of
          None \<Rightarrow> co_kind opt = StoreTrue
        | Some s \<Rightarrow> co_kind opt = Store \<and> convert (co_type opt) s \<noteq> None \<and> (joined \<or> (s \<noteq> ''--'' \<and> classify p s = Value)))"

lemma plain_option: "plain_names p \<Longrightarrow> map_of (option_table p) n = Some opt \<Longrightarrow> plain_name n"
  by (auto simp: plain_names_def list_all_iff dest!: map_of_SomeD)

lemma classify_plain: "s = [] \<or> hd s \<noteq> CHR ''-'' \<Longrightarrow> classify p s = Value"
  by (simp add: classify_def)

lemma classify_name:
  assumes "plain_names p" "map_of (option_table p) n = Some opt"
  shows "classify p n = Named (Some opt) n False None"
  using plain_option [OF assms] assms(2) by (simp add: classify_def plain_name_def)

lemma classify_joined:
  assumes "plain_names p" "map_of (option_table p) n = Some opt"
  shows "classify p (n @ CHR ''='' # v) = Named (Some opt) n True (Some v)"
proof -
  let ?s = "n @ CHR ''='' # v"
  have n: "n \<noteq> []" "hd n = CHR ''-''" "CHR ''='' \<notin> set n"
    using plain_option [OF assms] by (simp_all add: plain_name_def)
  have "map_of (option_table p) ?s = None"
    using plain_option [OF assms(1), of ?s] by (cases "map_of (option_table p) ?s") (auto simp: plain_name_def)
  then show ?thesis using n assms(2) by (simp add: classify_def)
qed

text \<open>The classified words of a setting, and what consuming them does.\<close>

fun setting_tokens :: "cli_setting \<Rightarrow> (string \<times> cli_word) list" where
  "setting_tokens (opt, n, None, joined) = [(n, Named (Some opt) n False None)]"
| "setting_tokens (opt, n, Some v, joined) =
     (if joined then [(n @ CHR ''='' # v, Named (Some opt) n True (Some v))]
      else [(n, Named (Some opt) n False None), (v, Value)])"

lemma classify_setting:
  assumes "plain_names p" "fits p s"
  shows "classify_all p (setting_words s @ rest) = setting_tokens s @ classify_all p rest"
proof -
  obtain opt n v joined where s: "s = (opt, n, v, joined)" by (cases s)
  have n: "map_of (option_table p) n = Some opt" using assms(2) by (simp add: s)
  have "n \<noteq> ''--''" "n @ CHR ''='' # v' \<noteq> ''--''" for v'
    using plain_option [OF assms(1) n] by (auto simp: plain_name_def append_eq_Cons_conv)
  then show ?thesis
    using assms(2) classify_name [OF assms(1) n] classify_joined [OF assms(1) n] by (cases v) (auto simp: s)
qed

lemma consume_setting:
  assumes "fits p s"
  shows "consume p (setting_tokens s @ rest) ((ns, seen), extras)
    = consume p rest ((AList.update (fst (setting_entry s)) (snd (setting_entry s)) ns, co_dest (fst s) # seen), extras)"
proof -
  obtain opt n v joined where s: "s = (opt, n, v, joined)" by (cases s)
  show ?thesis using assms by (cases v) (auto simp: s takes_value_def setting_entry_def)
qed

lemma classify_settings:
  "plain_names p \<Longrightarrow> list_all (fits p) ss \<Longrightarrow> classify_all p (concat (map setting_words ss)) = concat (map setting_tokens ss)"
proof (induction ss)
  case (Cons s ss)
  then show ?case using classify_setting [of p s "concat (map setting_words ss)"] by simp
qed simp

lemma consume_settings:
  "list_all (fits p) ss \<Longrightarrow> consume p (concat (map setting_tokens ss)) ((ns, seen), extras)
     = Inr ((dict_update ns (map setting_entry ss), rev (map (co_dest \<circ> fst) ss) @ seen), extras)"
proof (induction ss arbitrary: ns seen)
  case (Cons s ss)
  then show ?case using consume_setting [of p s "concat (map setting_tokens ss)"]
    by (simp add: dict_update_def case_prod_beta)
qed (simp add: dict_update_def)

lemma setting_not_ambiguous: "w \<in> set (setting_tokens s) \<Longrightarrow> snd w \<noteq> Ambiguous"
  by (cases s rule: setting_tokens.cases) (auto split: if_splits)

lemma parse_settings:
  assumes "plain_names p" "list_all (fits p) ss"
  shows "parse_args p (concat (map setting_words ss)) =
    (if \<forall>opt \<in> set p. co_required opt \<longrightarrow> co_dest opt \<in> co_dest ` fst ` set ss
     then Inr (dict_update (initial_namespace p) (map setting_entry ss)) else Inl UsageError)"
proof -
  have "\<not> list_ex (\<lambda>w. snd w = Ambiguous) (concat (map setting_tokens ss))"
    using setting_not_ambiguous by (auto simp: list_ex_iff)
  then show ?thesis
    using consume_settings [OF assms(2), of "initial_namespace p" "[]" "[]"]
    by (simp add: parse_args_def classify_settings [OF assms] image_comp list_all_iff)
qed

text \<open>Settings as one types them: the name of an option, its value, and whether they are one word, joined by
  an equals sign. \<open>given\<close> is the last value for an option of these names.\<close>

type_synonym cli_words = "(string \<times> string \<times> bool) list"

definition words_of :: "cli_words \<Rightarrow> string list" where
  "words_of ss = concat (map (\<lambda>(n, v, joined). if joined then [n @ CHR ''='' # v] else [n, v]) ss)"

definition given :: "cli_words \<Rightarrow> string list \<Rightarrow> string option" where
  "given ss names = (case filter (\<lambda>(n, v, joined). n \<in> set names) (rev ss) of [] \<Rightarrow> None | (n, v, joined) # _ \<Rightarrow> Some v)"

definition given_or :: "cli_words \<Rightarrow> string list \<Rightarrow> string \<Rightarrow> string" where
  "given_or ss names dflt = (case given ss names of None \<Rightarrow> dflt | Some v \<Rightarrow> v)"

text \<open>Only these names are used, and no value in a word of its own looks like an option.\<close>

definition plain_words :: "string list \<Rightarrow> cli_words \<Rightarrow> bool" where
  "plain_words names ss \<longleftrightarrow>
     list_all (\<lambda>(n, v, joined). n \<in> set names \<and> (joined \<or> v = [] \<or> hd v \<noteq> CHR ''-'')) ss"

definition option_of :: "cli_parser \<Rightarrow> string \<Rightarrow> cli_option" where
  "option_of p n = the (map_of (option_table p) n)"

definition setting_of :: "cli_parser \<Rightarrow> string \<times> string \<times> bool \<Rightarrow> cli_setting" where
  "setting_of p = (\<lambda>(n, v, joined). (option_of p n, n, Some v, joined))"

definition own_names :: "cli_parser \<Rightarrow> bool" where
  "own_names p \<longleftrightarrow> distinct (map co_dest p) \<and> (\<forall>opt \<in> set p. \<forall>n \<in> set (co_names opt). map_of (option_table p) n = Some opt)"

definition convertible :: "cli_parser \<Rightarrow> cli_words \<Rightarrow> bool" where
  "convertible p ss \<longleftrightarrow> list_all (\<lambda>(n, v, joined). convert (co_type (option_of p n)) v \<noteq> None) ss"

lemma words_settings: "words_of ss = concat (map setting_words (map (setting_of p) ss))"
  by (induction ss) (auto simp: words_of_def setting_of_def)

lemma given_simps:
  "given [] names = None"
  "given (ss @ [(n, v, joined)]) names = (if n \<in> set names then Some v else given ss names)"
  by (simp_all add: given_def)

lemma given_mem: "given ss names = Some v \<Longrightarrow> \<exists>n \<in> set names. \<exists>joined. (n, v, joined) \<in> set ss"
proof (induction ss rule: rev_induct)
  case (snoc s ss)
  obtain n w joined where s: "s = (n, w, joined)" by (cases s)
  show ?case
  proof (cases "n \<in> set names")
    case True
    then have "w = v" using snoc.prems by (simp add: s given_simps)
    then show ?thesis using True by (intro bexI [of _ n] exI [of _ joined]) (simp_all add: s)
  next
    case False
    then have "given ss names = Some v" using snoc.prems by (simp add: s given_simps)
    from snoc.IH [OF this] show ?thesis by auto
  qed
qed (simp add: given_simps)

lemma own_name:
  assumes "own_names p" and "opt \<in> set p" and "map_of (option_table p) n = Some opt'"
  shows "co_dest opt' = co_dest opt \<longleftrightarrow> n \<in> set (co_names opt)"
proof -
  have in_p: "opt' \<in> set p" and n: "n \<in> set (co_names opt')"
    using map_of_SomeD [OF assms(3)] by (auto simp: option_table_def)
  have "opt' = opt" if "co_dest opt' = co_dest opt"
    using assms(1,2) in_p that by (auto simp: own_names_def distinct_map inj_on_def)
  then show ?thesis using n assms by (auto simp: own_names_def)
qed

definition known_names :: "cli_parser \<Rightarrow> string list \<Rightarrow> bool" where
  "known_names p names \<longleftrightarrow> list_all (\<lambda>n. case map_of (option_table p) n of Some opt \<Rightarrow> co_kind opt = Store | None \<Rightarrow> False) names"

lemma settings_fit:
  assumes "known_names p names" and "plain_words names ss" and "convertible p ss"
  shows "list_all (fits p) (map (setting_of p) ss)"
  using assms
  by (fastforce simp: list_all_iff known_names_def plain_words_def convertible_def setting_of_def option_of_def
      intro: classify_plain split: option.splits)

lemma given_settings:
  assumes "own_names p" and "opt \<in> set p" and "known_names p names" and "plain_words names ss" and "convertible p ss"
  shows "map_of (rev (map setting_entry (map (setting_of p) ss))) (co_dest opt) = map_option (\<lambda>v. the (convert (co_type opt) v)) (given ss (co_names opt))"
  using assms(4,5)
proof (induction ss rule: rev_induct)
  case (snoc s ss)
  obtain n v joined where s: "s = (n, v, joined)" by (cases s)
  have "n \<in> set names" using snoc.prems(1) by (simp add: plain_words_def s)
  then obtain opt' where n: "map_of (option_table p) n = Some opt'"
    using assms(3) by (auto simp: known_names_def list_all_iff split: option.splits)
  have "convert (co_type opt') v \<noteq> None" using snoc.prems(2) n by (simp add: convertible_def s option_of_def)
  moreover have "opt' = opt" if "n \<in> set (co_names opt)" using assms(1,2) n that by (auto simp: own_names_def)
  moreover have "plain_words names ss" "convertible p ss" using snoc.prems by (simp_all add: plain_words_def convertible_def)
  ultimately show ?case
    using snoc.IH own_name [OF assms(1,2) n]
    by (auto simp: s setting_of_def option_of_def n setting_entry_def given_simps)
qed (simp add: given_simps)

lemma given_dest:
  assumes "own_names p" and "opt \<in> set p" and "known_names p names" and "plain_words names ss" and "convertible p ss"
  shows "co_dest opt \<in> co_dest ` fst ` set (map (setting_of p) ss) \<longleftrightarrow> given ss (co_names opt) \<noteq> None"
proof -
  have "co_dest opt \<in> co_dest ` fst ` set (map (setting_of p) ss)
      \<longleftrightarrow> map_of (rev (map setting_entry (map (setting_of p) ss))) (co_dest opt) \<noteq> None"
    by (force simp: map_of_eq_None_iff setting_entry_def)
  then show ?thesis by (simp only: given_settings [OF assms]) simp
qed

text \<open>Plain words on their own, and followed by a flag.\<close>

lemma parse_words:
  assumes p: "plain_names p" "own_names p" and names: "known_names p names" and ss: "plain_words names ss" "convertible p ss"
    and flag: "list_all (fits p) flag" "\<And>s. s \<in> set flag \<Longrightarrow> \<not> co_required (fst s)" "fst ` set flag \<subseteq> set p"
  shows "parse_args p (words_of ss @ concat (map setting_words flag)) =
    (if \<forall>opt \<in> set p. co_required opt \<longrightarrow> given ss (co_names opt) \<noteq> None
     then Inr (dict_update (dict_update (initial_namespace p) (map setting_entry (map (setting_of p) ss))) (map setting_entry flag))
     else Inl UsageError)"
proof -
  let ?ss = "map (setting_of p) ss"
  have fits: "list_all (fits p) (?ss @ flag)" using settings_fit [OF names ss] flag(1) by simp
  have req: "co_dest opt \<in> co_dest ` fst ` set (?ss @ flag) \<longleftrightarrow> given ss (co_names opt) \<noteq> None" if "opt \<in> set p" "co_required opt" for opt
  proof -
    have "co_dest (fst s) \<noteq> co_dest opt" if s: "s \<in> set flag" for s
    proof
      assume "co_dest (fst s) = co_dest opt"
      moreover have "fst s \<in> set p" using flag(3) s by blast
      ultimately have "fst s = opt" using \<open>opt \<in> set p\<close> p(2) by (auto simp: own_names_def distinct_map inj_on_def)
      then show False using flag(2) [OF s] \<open>co_required opt\<close> by simp
    qed
    then have "co_dest opt \<notin> (\<lambda>s. co_dest (fst s)) ` set flag" by (metis imageE)
    then show ?thesis using given_dest [OF p(2) that(1) names ss] by (simp only: set_append image_Un Un_iff) (simp add: image_image)
  qed
  have "words_of ss @ concat (map setting_words flag) = concat (map setting_words (?ss @ flag))"
    by (simp only: words_settings [of ss p] map_append concat_append)
  moreover have "dict_update (initial_namespace p) (map setting_entry (?ss @ flag))
      = dict_update (dict_update (initial_namespace p) (map setting_entry ?ss)) (map setting_entry flag)"
    by (simp add: dict_update_def)
  ultimately show ?thesis using parse_settings [OF p(1) fits] req by (simp only:) (auto simp del: set_append)
qed

lemma words_namespace:
  assumes p: "own_names p" and opt: "opt \<in> set p" "co_kind opt \<noteq> Help"
    and names: "known_names p names" and ss: "plain_words names ss" "convertible p ss"
  shows "map_of (dict_update (initial_namespace p) (map setting_entry (map (setting_of p) ss))) (co_dest opt) =
    Some (case given ss (co_names opt) of None \<Rightarrow> co_default opt | Some v \<Rightarrow> the (convert (co_type opt) v))"
proof -
  have "distinct (map fst (initial_namespace p))"
    using p by (auto simp: own_names_def initial_namespace_def comp_def distinct_map intro: inj_on_subset)
  moreover have "(co_dest opt, co_default opt) \<in> set (initial_namespace p)" using opt by (auto simp: initial_namespace_def)
  ultimately have init: "map_of (initial_namespace p) (co_dest opt) = Some (co_default opt)" by simp
  have look: "map_of (dict_update d e) k = (case map_of (rev e) k of None \<Rightarrow> map_of d k | Some v \<Rightarrow> Some v)" for d e :: pydict and k
    by (induction e rule: rev_induct) (simp_all add: dict_update_def case_prod_beta)
  show ?thesis by (simp add: look init given_settings [OF p opt(1) names ss, simplified] split: option.splits)
qed

section \<open>Typed namespaces\<close>

fun option_typed :: "cli_option \<Rightarrow> pyval \<Rightarrow> bool" where
  "option_typed opt v \<longleftrightarrow>
     (case co_kind opt of
        Help \<Rightarrow> False
      | StoreTrue \<Rightarrow> v = PBool True
      | Store \<Rightarrow> (case (co_type opt, v) of (CliStr, PStr s) \<Rightarrow> True | (CliInt, PInt i) \<Rightarrow> True | _ \<Rightarrow> False))"

lemma store_typed:
  "co_kind opt = Store \<Longrightarrow> option_typed opt v \<longleftrightarrow> (case co_type opt of CliStr \<Rightarrow> \<exists>s. v = PStr s | CliInt \<Rightarrow> \<exists>i. v = PInt i)"
  by (cases v) (auto split: cli_type.splits)

text \<open>Every option has a value: the default, or once it has been seen one of its type.\<close>

definition namespace_ok :: "cli_parser \<Rightarrow> pydict \<times> string list \<Rightarrow> bool" where
  "namespace_ok p st \<longleftrightarrow>
     (\<forall>opt \<in> set p. co_kind opt \<noteq> Help \<longrightarrow>
        (\<exists>v. map_of (fst st) (co_dest opt) = Some v
          \<and> (if co_dest opt \<in> set (snd st) then option_typed opt v else v = co_default opt)))"

lemma table_options: "(n, opt) \<in> set (option_table p) \<Longrightarrow> opt \<in> set p"
  by (auto simp: option_table_def)

lemma map_of_table_options: "map_of (option_table p) n = Some opt \<Longrightarrow> opt \<in> set p"
  by (blast dest: map_of_SomeD intro: table_options)

lemma matches_options: "Named (Some opt) n sep e \<in> set (option_matches p s) \<Longrightarrow> opt \<in> set p"
  by (auto simp: option_matches_def Let_def List.map_filter_def table_options split: if_splits option.splits)

lemma classify_options: "classify p s = Named (Some opt) n sep e \<Longrightarrow> opt \<in> set p"
  using matches_options [of opt n sep e p s]
  by (auto simp: classify_def map_of_table_options split: if_splits option.splits list.splits)

lemma classify_all_options:
  "(s, Named (Some opt) n sep e) \<in> set (classify_all p argv) \<Longrightarrow> opt \<in> set p"
  by (induction p argv rule: classify_all.induct) (auto split: if_splits dest: classify_options [OF sym])

lemma option_word_options:
  "option_word p opt n sep e rest = Inr (acts, left, taken) \<Longrightarrow> opt \<in> set p \<Longrightarrow> fst ` set acts \<subseteq> set p"
proof (induction p opt n sep e rest arbitrary: acts left taken rule: option_word.induct)
  case (2 p opt n sep e rest)
  show ?case
  proof (cases "takes_value opt \<or> map_of (option_table p) [CHR ''-'', hd e] = None")
    case True
    then show ?thesis using "2.prems" by (auto split: if_splits)
  next
    case False
    then obtain opt' where opt': "\<not> takes_value opt" "map_of (option_table p) [CHR ''-'', hd e] = Some opt'" by auto
    then have ok: "\<not> (e = [] \<or> hd (tl n) = CHR ''-'' \<or> sep \<or> hd e = CHR ''-'')" using "2.prems"(1) by (auto split: if_splits)
    have in_p: "opt' \<in> set p" using opt'(2) by (rule map_of_table_options)
    let ?rec = "case tl e of [] \<Rightarrow> option_word p opt' [CHR ''-'', hd e] False None rest
        | c # r \<Rightarrow> if c = CHR ''='' then option_word p opt' [CHR ''-'', hd e] True (Some r) rest
                  else option_word p opt' [CHR ''-'', hd e] False (Some (c # r)) rest"
    have "option_word p opt n sep (Some e) rest
        = (case ?rec of Inl stop \<Rightarrow> Inl stop | Inr (acts, extras, taken) \<Rightarrow> Inr ((opt, []) # acts, extras, taken))"
      using opt' ok by simp
    with "2.prems"(1) obtain acts' where acts: "?rec = Inr (acts', left, taken)" "acts = (opt, []) # acts'"
      by (cases ?rec) auto
    have "fst ` set acts' \<subseteq> set p"
    proof (cases "tl e")
      case Nil
      then show ?thesis using "2.IH"(1) [OF opt'(1) ok opt'(2) Nil] acts(1) in_p by simp
    next
      case (Cons c r)
      then show ?thesis
        using "2.IH"(2) [OF opt'(1) ok opt'(2) Cons] "2.IH"(3) [OF opt'(1) ok opt'(2) Cons] acts(1) in_p
        by (simp split: if_splits)
    qed
    then show ?thesis using acts(2) "2.prems"(2) by simp
  qed
qed (auto split: if_splits list.splits cli_word.splits)

lemma take_action_typed:
  assumes "take_action (opt, args) st = Inr st'"
  shows "\<exists>v. option_typed opt v \<and> st' = (AList.update (co_dest opt) v (fst st), co_dest opt # snd st)"
proof -
  have typed: "convert ty s = Some v \<Longrightarrow> (case (ty, v) of (CliStr, PStr s) \<Rightarrow> True | (CliInt, PInt i) \<Rightarrow> True | _ \<Rightarrow> False)" for ty s v
    by (cases ty) auto
  show ?thesis using assms by (cases st) (auto split: cli_kind.splits list.splits option.splits dest: typed)
qed

lemma take_action_ok:
  assumes "distinct (map co_dest p)" "opt \<in> set p" "namespace_ok p st" "take_action (opt, args) st = Inr st'"
  shows "namespace_ok p st'"
proof -
  obtain v where v: "option_typed opt v" "st' = (AList.update (co_dest opt) v (fst st), co_dest opt # snd st)"
    using take_action_typed [OF assms(4)] by blast
  have "opt' = opt" if "opt' \<in> set p" "co_dest opt' = co_dest opt" for opt'
    using assms(1,2) that by (auto simp: distinct_map inj_on_def)
  then show ?thesis using assms(3) v unfolding namespace_ok_def by (auto simp del: option_typed.simps)
qed

lemma take_actions_ok:
  "distinct (map co_dest p) \<Longrightarrow> fst ` set acts \<subseteq> set p \<Longrightarrow> namespace_ok p st \<Longrightarrow> take_actions acts st = Inr st' \<Longrightarrow>
     namespace_ok p st'"
proof (induction acts st rule: take_actions.induct)
  case (2 a acts st)
  obtain opt args where a: "a = (opt, args)" by (cases a)
  with "2.prems"(4) obtain st1 where "take_action (opt, args) st = Inr st1" "take_actions acts st1 = Inr st'"
    by (auto split: sum.splits)
  moreover have "opt \<in> set p" using "2.prems"(2) a by simp
  ultimately have "namespace_ok p st1" using take_action_ok [OF "2.prems"(1) _ "2.prems"(3)] by blast
  then show ?case using "2.IH" [of st1] "2.prems"(1,2) a \<open>take_action (opt, args) st = Inr st1\<close> \<open>take_actions acts st1 = Inr st'\<close>
    by (simp del: take_action.simps)
qed simp

lemma consume_ok:
  "distinct (map co_dest p) \<Longrightarrow> (\<And>s opt n sep e. (s, Named (Some opt) n sep e) \<in> set ws \<Longrightarrow> opt \<in> set p) \<Longrightarrow>
     namespace_ok p (fst st) \<Longrightarrow> consume p ws st = Inr (st', extras') \<Longrightarrow> namespace_ok p st'"
proof (induction p ws st rule: consume.induct)
  case (2 p s opt n sep e rest st extras)
  obtain acts left taken st1 where w: "option_word p opt n sep e rest = Inr (acts, left, taken)"
    "take_actions acts st = Inr st1" "consume p (if taken then tl rest else rest) (st1, extras @ left) = Inr (st', extras')"
    using "2.prems"(4) by (auto split: sum.splits)
  have "opt \<in> set p" by (rule "2.prems"(2) [of s opt n sep e]) simp
  then have "namespace_ok p st1"
    using take_actions_ok [OF "2.prems"(1) option_word_options [OF w(1)] _ w(2)] "2.prems"(3) by simp
  moreover have "opt' \<in> set p" if "(s', Named (Some opt') n' sep' e') \<in> set (if taken then tl rest else rest)" for s' opt' n' sep' e'
  proof -
    have "set (if taken then tl rest else rest) \<subseteq> set rest" by (cases rest) auto
    then show ?thesis using that "2.prems"(2) [of s' opt' n' sep' e'] by (meson list.set_intros(2) subsetD)
  qed
  ultimately show ?case using "2.IH" [OF w(1) refl refl w(2) "2.prems"(1) _ _ w(3)] by simp
qed (auto; fastforce)+

lemma parse_args_ok:
  assumes p: "distinct (map co_dest p)" and parse: "parse_args p argv = Inr ns" and opt: "opt \<in> set p" "co_kind opt \<noteq> Help"
  shows "\<exists>v. map_of ns (co_dest opt) = Some v \<and> (option_typed opt v \<or> (\<not> co_required opt \<and> v = co_default opt))"
proof -
  obtain seen extras where run: "consume p (classify_all p argv) ((initial_namespace p, []), []) = Inr ((ns, seen), extras)"
    and seen: "list_all (\<lambda>opt. co_required opt \<longrightarrow> co_dest opt \<in> set seen) p"
    using parse by (auto simp: parse_args_def Let_def split: if_splits sum.splits)
  have dests: "distinct (map fst (initial_namespace p))"
    using p by (auto simp: initial_namespace_def comp_def distinct_map intro: inj_on_subset)
  have "namespace_ok p (initial_namespace p, [])"
    unfolding namespace_ok_def
  proof (intro ballI impI)
    fix opt assume "opt \<in> set p" "co_kind opt \<noteq> Help"
    then have "(co_dest opt, co_default opt) \<in> set (initial_namespace p)" by (auto simp: initial_namespace_def)
    with dests show "\<exists>v. map_of (fst (initial_namespace p, [])) (co_dest opt) = Some v
        \<and> (if co_dest opt \<in> set (snd (initial_namespace p, [])) then option_typed opt v else v = co_default opt)" by simp
  qed
  then have "namespace_ok p (ns, seen)" using consume_ok [OF p _ _ run] classify_all_options by fastforce
  with opt seen show ?thesis by (auto simp: namespace_ok_def list_all_iff simp del: option_typed.simps split: if_splits)
qed

end
