(* ===== verification/Passwords.thy ===== *)
theory Passwords
  imports Py_Monad "HOL-Library.Word" "HOL-Library.Multiset"
begin

unbundle bit_operations_syntax

text \<open>
  \<open>kolla_ansible/cmd/genpwd.py\<close> and \<open>kolla_ansible/cmd/mergepwd.py\<close>: the password files. A file is a
  YAML document, what \<open>yaml.safe_load\<close> gives for its text, with its mode bits. \<open>yaml.safe_dump\<close> writes the
  keys of every mapping in order, its documented default, which is \<open>dumped\<close>. The state is
  the files, the lines printed, and the entropy the generators draw from. The generators of the
  libraries (RSA, uuid, Fernet, salt, the system random source) and the MD5 digest are parameters.
\<close>

section \<open>State\<close>

type_synonym mode = "32 word"

record pw_file =
  pf_doc :: pyval
  pf_mode :: mode

record 'e pw_world =
  pw_files :: "string \<Rightarrow> pw_file option"
  pw_out :: "string list"
  pw_entropy :: 'e
  pw_umask :: mode
  pw_removable :: "string \<Rightarrow> bool"  \<comment> \<open>whether \<open>os.remove\<close> may delete the file\<close>

definition S_IROTH :: mode where
  "S_IROTH = 4"

definition S_IWOTH :: mode where
  "S_IWOTH = 2"

text \<open>The mode \<open>0o640\<close> the scripts ask for.\<close>

definition private_mode :: mode where
  "private_mode = 0b110100000"

definition sys_exit :: "int \<Rightarrow> ('s, 'a) cmd" where
  "sys_exit n = raise (PyError (''SystemExit: '' @ int_str n))"

definition say :: "string \<Rightarrow> ('e pw_world, unit) cmd" where
  "say l = modify (\<lambda>w. w\<lparr>pw_out := pw_out w @ [l]\<rparr>)"

definition file_not_found :: exn where
  "file_not_found = PyError ''FileNotFoundError''"

definition read_doc :: "string \<Rightarrow> ('e pw_world, pyval) cmd" where
  "read_doc path =
     bnd (gets (\<lambda>w. pw_files w path)) (\<lambda>f.
       case f of None \<Rightarrow> raise file_not_found | Some file \<Rightarrow> ret (pf_doc file))"

definition mode_of :: "string \<Rightarrow> ('e pw_world, mode) cmd" where
  "mode_of path =
     bnd (gets (\<lambda>w. pw_files w path)) (\<lambda>f.
       case f of None \<Rightarrow> raise file_not_found | Some file \<Rightarrow> ret (pf_mode file))"

text \<open>The two warnings on a file that others may read or write.\<close>

definition quoted_name :: "string \<Rightarrow> string" where
  "quoted_name path = CHR 0x22 # path @ [CHR 0x22]"

definition warn_mode :: "string \<Rightarrow> string \<Rightarrow> ('e pw_world, unit) cmd" where
  "warn_mode path ending =
     seqc (bnd (mode_of path) (\<lambda>m. whenc (m AND S_IROTH \<noteq> 0)
             (say (''WARNING: Passwords file '' @ quoted_name path @ '' is world-readable.'' @ ending))))
          (bnd (mode_of path) (\<lambda>m. whenc (m AND S_IWOTH \<noteq> 0)
             (say (''WARNING: Passwords file '' @ quoted_name path @ '' is world-writeable.'' @ ending))))"

text \<open>The document that loading the output of \<open>yaml.safe_dump\<close> gives: the value with the keys of every
  mapping in it sorted.\<close>

abbreviation sort_items :: "(string \<times> 'a) list \<Rightarrow> (string \<times> 'a) list" where
  "sort_items \<equiv> sort_key (\<lambda>kv. Key (fst kv))"

primrec dumped :: "pyval \<Rightarrow> pyval" where
  "dumped PNone = PNone"
| "dumped (PBool b) = PBool b"
| "dumped (PInt i) = PInt i"
| "dumped (PStr s) = PStr s"
| "dumped (PList xs) = PList (map dumped xs)"
| "dumped (PDict d) = PDict (sort_items (map (map_prod id dumped) d))"

text \<open>
  \<open>os.remove\<close> with its error ignored, then \<open>os.open\<close> with \<open>O_WRONLY | O_CREAT | O_TRUNC\<close>, and the dump
  written to it: a new file gets the mode under the umask, a file that could not be removed keeps its
  mode.
\<close>

definition write_private :: "string \<Rightarrow> pyval \<Rightarrow> ('e pw_world, unit) cmd" where
  "write_private path doc =
     seqc (modify (\<lambda>w. if pw_removable w path then w\<lparr>pw_files := (pw_files w)(path := None)\<rparr> else w))
     (modify (\<lambda>w. w\<lparr>pw_files := (pw_files w)(path := Some \<lparr>pf_doc = dumped doc,
        pf_mode = (case pw_files w path of None \<Rightarrow> private_mode AND NOT (pw_umask w) | Some f \<Rightarrow> pf_mode f)\<rparr>)\<rparr>))"

section \<open>genpwd\<close>

record 'e generators =
  gen_rsa :: "'e \<Rightarrow> (string \<times> string) \<times> 'e"
  gen_uuid :: "'e \<Rightarrow> string \<times> 'e"
  gen_fernet :: "'e \<Rightarrow> string \<times> 'e"
  gen_salt :: "nat \<Rightarrow> 'e \<Rightarrow> string \<times> 'e"
  gen_index :: "nat \<Rightarrow> 'e \<Rightarrow> nat \<times> 'e"
  hmac_md5_hex :: "string \<Rightarrow> string"

definition draw :: "('e \<Rightarrow> 'a \<times> 'e) \<Rightarrow> ('e pw_world, 'a) cmd" where
  "draw g = (\<lambda>w. case g (pw_entropy w) of (x, e) \<Rightarrow> (Ret x, w\<lparr>pw_entropy := e\<rparr>))"

text \<open>\<open>string.ascii_letters + string.digits\<close>.\<close>

definition password_alphabet :: string where
  "password_alphabet =
     ''abcdefghijklmnopqrstuvwxyzABCDEFGHIJKLMNOPQRSTUVWXYZ0123456789''"

primrec random_chars :: "'e generators \<Rightarrow> nat \<Rightarrow> ('e pw_world, string) cmd" where
  "random_chars G 0 = ret []"
| "random_chars G (Suc n) =
     bnd (draw (gen_index G (length password_alphabet))) (\<lambda>i.
     bnd (random_chars G n) (\<lambda>cs. ret (password_alphabet ! i # cs)))"

record key_lists =
  uuid_keys :: "string list"
  ssh_keys :: "string list"
  blank_keys :: "string list"
  fernet_keys :: "string list"
  hmac_md5_keys :: "string list"
  bcrypt_keys :: "string list"

text \<open>The condition on an ssh key: no value, or neither half of the pair.\<close>

definition ssh_missing :: "pyval \<Rightarrow> bool outcome" where
  "ssh_missing v =
     (if is_none v then Ret True
      else obind (py_get v ''public_key'') (\<lambda>pub.
           if is_none pub then obind (py_get v ''private_key'') (\<lambda>priv. Ret (is_none priv)) else Ret False))"

definition generate_RSA :: "'e generators \<Rightarrow> ('e pw_world, string \<times> string) cmd" where
  "generate_RSA G = draw (gen_rsa G)"

definition gen_none :: "'e generators \<Rightarrow> int \<Rightarrow> key_lists \<Rightarrow> string \<Rightarrow> ('e pw_world, pyval) cmd" where
  "gen_none G len K k =
     (if k \<in> set (blank_keys K) then ret PNone
      else if k \<in> set (uuid_keys K) then bnd (draw (gen_uuid G)) (\<lambda>u. ret (PStr u))
      else if k \<in> set (hmac_md5_keys K) then bnd (draw (gen_uuid G)) (\<lambda>u. ret (PStr (hmac_md5_hex G u)))
      else if k \<in> set (fernet_keys K) then bnd (draw (gen_fernet G)) (\<lambda>f. ret (PStr f))
      else if k \<in> set (bcrypt_keys K) then bnd (draw (gen_salt G 22)) (\<lambda>s. ret (PStr s))
      else bnd (random_chars G (nat len)) (\<lambda>p. ret (PStr p)))"

text \<open>The body of the loop over \<open>passwords.items()\<close>: the value the key gets.\<close>

definition gen_entry :: "'e generators \<Rightarrow> int \<Rightarrow> key_lists \<Rightarrow> string \<Rightarrow> pyval \<Rightarrow> ('e pw_world, pyval) cmd" where
  "gen_entry G len K k v =
     bnd (lift (if k \<in> set (ssh_keys K) then ssh_missing v else Ret False)) (\<lambda>new_pair.
       if new_pair then
         bnd (generate_RSA G) (\<lambda>(private_key, public_key).
           ret (PDict [(''private_key'', PStr private_key), (''public_key'', PStr public_key)]))
       else if is_none v then gen_none G len K k
       else ret v)"

primrec gen_entries :: "'e generators \<Rightarrow> int \<Rightarrow> key_lists \<Rightarrow> pydict \<Rightarrow> ('e pw_world, pydict) cmd" where
  "gen_entries G len K [] = ret []"
| "gen_entries G len K (kv # d) =
     bnd (gen_entry G len K (fst kv) (snd kv)) (\<lambda>v.
     bnd (gen_entries G len K d) (\<lambda>r. ret ((fst kv, v) # r)))"

definition genpwd :: "'e generators \<Rightarrow> string \<Rightarrow> int \<Rightarrow> key_lists \<Rightarrow> ('e pw_world, unit) cmd" where
  "genpwd G passwords_file len K =
     bnd (gets (\<lambda>w. pw_files w passwords_file)) (\<lambda>f.
       case f of
         None \<Rightarrow> seqc (say (''ERROR: Passwords file '' @ quoted_name passwords_file @ '' is missing'')) (sys_exit 1)
       | Some file \<Rightarrow>
           seqc (warn_mode passwords_file '' The permissions will be changed.'')
           (case pf_doc file of
              PDict passwords \<Rightarrow>
                bnd (gen_entries G len K passwords) (\<lambda>d. write_private passwords_file (PDict d))
            | _ \<Rightarrow> seqc (say ''ERROR: Passwords file not in expected key/value format'') (sys_exit 1)))"

text \<open>\<open>main\<close>: the keys of each kind, and the length.\<close>

definition genpwd_keys :: key_lists where
  "genpwd_keys =
     \<lparr>uuid_keys = [''rbd_secret_uuid'', ''cinder_rbd_secret_uuid'', ''gnocchi_project_id'', ''gnocchi_resource_id'',
        ''gnocchi_user_id'', ''designate_pool_id''],
      ssh_keys = [''kolla_ssh_key'', ''nova_ssh_key'', ''keystone_ssh_key'', ''bifrost_ssh_key'',
        ''octavia_amp_ssh_key'', ''neutron_ssh_key'', ''haproxy_ssh_key''],
      blank_keys = [''docker_registry_password''],
      fernet_keys = [''barbican_crypto_key''],
      hmac_md5_keys = [''designate_rndc_key'', ''osprofiler_secret''],
      bcrypt_keys = [''prometheus_bcrypt_salt'']\<rparr>"

definition genpwd_main :: "'e generators \<Rightarrow> string \<Rightarrow> ('e pw_world, unit) cmd" where
  "genpwd_main G passwords_file = genpwd G passwords_file 40 genpwd_keys"

section \<open>mergepwd\<close>

text \<open>\<open>for key in new_passwords: if key in old_passwords: new_passwords[key] = old_passwords[key]\<close>.\<close>

definition clean_merge :: "pydict \<Rightarrow> pydict \<Rightarrow> pydict" where
  "clean_merge old new = map (\<lambda>(k, v). (k, case map_of old k of None \<Rightarrow> v | Some w \<Rightarrow> w)) new"

definition mergepwd :: "string \<Rightarrow> string \<Rightarrow> string \<Rightarrow> bool \<Rightarrow> ('e pw_world, unit) cmd" where
  "mergepwd old new final clean =
     bnd (read_doc old) (\<lambda>old_passwords.
     seqc (warn_mode old [])
     (bnd (read_doc new) (\<lambda>new_passwords.
      seqc (warn_mode new [])
      (case old_passwords of
         PDict o_d \<Rightarrow>
           (case new_passwords of
              PDict n_d \<Rightarrow>
                write_private final (PDict (if clean then clean_merge o_d n_d else dict_update n_d o_d))
            | _ \<Rightarrow> seqc (say ''ERROR: New passwords file not in expected key/value format'') (sys_exit 1))
       | _ \<Rightarrow> seqc (say ''ERROR: Old passwords file not in expected key/value format'') (sys_exit 1)))))"

section \<open>What a dump changes\<close>

definition dump_items :: "pydict \<Rightarrow> pydict" where
  "dump_items d = sort_items (map (apsnd dumped) d)"

lemma dumped_PDict [simp]: "dumped (PDict d) = PDict (dump_items d)"
  by (simp add: dump_items_def apsnd_def)

declare dumped.simps(6) [simp del]

lemma map_of_sort_items [simp]: "map_of (sort_items d) k = map_of d k"
proof -
  have look: "map_of d k = map_of (filter (\<lambda>kv. Key (fst kv) = Key k) d) k" for d :: "(string \<times> 'a) list"
    by (induction d) auto
  show ?thesis by (subst (1 2) look) (simp only: sort_key_stable)
qed

lemma map_of_dump_items [simp]: "map_of (dump_items d) k = map_option dumped (map_of d k)"
  unfolding dump_items_def map_of_sort_items by (induction d) auto

lemma set_dump_items: "set (dump_items d) = apsnd dumped ` set d"
  by (simp add: dump_items_def)

lemma sorted_dump_items: "sorted (map (\<lambda>kv. Key (fst kv)) (dump_items d))"
  by (simp add: dump_items_def)

lemma keys_dump_items: "mset (map fst (dump_items d)) = mset (map fst d)"
proof -
  have "mset (map fst (dump_items d)) = image_mset fst (mset (map (apsnd dumped) d))"
    by (simp only: dump_items_def mset_map mset_sort)
  then show ?thesis by (simp add: image_mset.compositionality comp_def)
qed

lemma insort_items_map:
  "insort_key (\<lambda>kv. Key (fst kv)) (apsnd g x) (map (apsnd g) d) = map (apsnd g) (insort_key (\<lambda>kv. Key (fst kv)) x d)"
  by (induction d) auto

lemma sort_items_map: "sort_items (map (apsnd g) d) = map (apsnd g) (sort_items d)"
  by (induction d) (simp_all add: insort_items_map del: apsnd_conv)

lemma dumped_dumped [simp]: "dumped (dumped v) = dumped v"
proof (induction v)
  case (PDict d)
  have "map (apsnd dumped) (map (apsnd dumped) d) = map (apsnd dumped) d"
    using PDict by (induction d) (fastforce simp: snds.simps)+
  then have "dump_items (dump_items d) = sort_items (sort_items (map (apsnd dumped) d))"
    by (simp only: dump_items_def sort_items_map [symmetric])
  then show ?case by (simp add: dump_items_def sort_key_id_if_sorted)
qed simp_all

lemma dumped_None [simp]: "dumped v = PNone \<longleftrightarrow> v = PNone"
  by (cases v) auto

text \<open>Python's equality does not see the order of the keys.\<close>

lemma py_eq_items_all: "py_eq_items d e \<longleftrightarrow> (\<forall>(k, v) \<in> set d. \<exists>w. map_of e k = Some w \<and> py_eq v w)"
  by (induction d) (auto split: option.splits)

lemma py_eq_dumped: "py_eq v w \<Longrightarrow> py_eq (dumped v) w"
proof (induction v arbitrary: w)
  case (PList xs)
  have "py_eq_list xs ys \<Longrightarrow> py_eq_list (map dumped xs) ys" for ys
    using PList.IH by (induction xs arbitrary: ys) (auto split: list.splits)
  with PList.prems show ?case by (auto split: pyval.splits)
next
  case (PDict d)
  then show ?case by (fastforce simp: py_eq_items_all set_dump_items dump_items_def split: pyval.splits)
qed simp_all

lemma dump_items_dump_items [simp]: "dump_items (dump_items d) = dump_items d"
  using dumped_dumped [of "PDict d"] by simp

section \<open>What a run fills in\<close>

definition index_law :: "'e generators \<Rightarrow> bool" where
  "index_law G \<longleftrightarrow> (\<forall>n e. 0 < n \<longrightarrow> fst (gen_index G n e) < n)"

text \<open>What a key without a value gets: a blank key stays without, the keys of a special kind get what the
  generator of that kind draws, any other a password of the length over letters and digits.\<close>

definition fresh_secret :: "'e generators \<Rightarrow> int \<Rightarrow> key_lists \<Rightarrow> string \<Rightarrow> pyval \<Rightarrow> bool" where
  "fresh_secret G len K k w \<longleftrightarrow>
     (if k \<in> set (blank_keys K) then w = PNone
      else if k \<in> set (uuid_keys K) then \<exists>e. w = PStr (fst (gen_uuid G e))
      else if k \<in> set (hmac_md5_keys K) then \<exists>e. w = PStr (hmac_md5_hex G (fst (gen_uuid G e)))
      else if k \<in> set (fernet_keys K) then \<exists>e. w = PStr (fst (gen_fernet G e))
      else if k \<in> set (bcrypt_keys K) then \<exists>e. w = PStr (fst (gen_salt G 22 e))
      else \<exists>s. w = PStr s \<and> length s = nat len \<and> set s \<subseteq> set password_alphabet)"

text \<open>The specification of one entry: what value \<open>w\<close> a key with value \<open>v\<close> may get. An ssh key without either
  half gets the two halves of a generated pair.\<close>

definition entry_filled :: "'e generators \<Rightarrow> int \<Rightarrow> key_lists \<Rightarrow> string \<Rightarrow> pyval \<Rightarrow> pyval \<Rightarrow> bool" where
  "entry_filled G len K k v w \<longleftrightarrow>
     (if k \<in> set (ssh_keys K) \<and> ssh_missing v = Ret True
      then \<exists>e. w = PDict [(''private_key'', PStr (fst (fst (gen_rsa G e)))), (''public_key'', PStr (snd (fst (gen_rsa G e))))]
      else if v \<noteq> PNone then w = v
      else fresh_secret G len K k w)"

text \<open>A command that touches nothing but the entropy.\<close>

definition draws :: "('e pw_world, 'a) cmd \<Rightarrow> bool" where
  "draws m \<longleftrightarrow> (\<forall>w. \<exists>e. snd (m w) = w\<lparr>pw_entropy := e\<rparr>)"

lemma entropy_same: "\<exists>e. w = w\<lparr>pw_entropy := e\<rparr>"
  by (rule exI [of _ "pw_entropy w"]) simp

lemma draws_basic: "draws (ret x)" "draws (raise e)" "draws (lift r)" "draws (draw g)"
  by (auto simp: draws_def draw_def entropy_same split: prod.splits)

lemma draws_bnd: "\<lbrakk>draws m; \<And>x. draws (f x)\<rbrakk> \<Longrightarrow> draws (bnd m f)"
proof -
  assume m: "draws m" and f: "\<And>x. draws (f x)"
  show "draws (bnd m f)"
    unfolding draws_def
  proof
    fix w
    obtain r t where r: "m w = (r, t)" by (cases "m w")
    with m obtain e where e: "t = w\<lparr>pw_entropy := e\<rparr>" unfolding draws_def by (metis snd_conv)
    show "\<exists>e. snd (bnd m f w) = w\<lparr>pw_entropy := e\<rparr>"
    proof (cases r)
      case (Ret x)
      from f [of x] obtain e' where "snd (f x t) = t\<lparr>pw_entropy := e'\<rparr>" unfolding draws_def by blast
      with Ret r e show ?thesis by auto
    qed (use r e in auto)
  qed
qed

lemma draws_random: "draws (random_chars G n)"
  by (induction n) (simp_all add: draws_bnd draws_basic del: ret_run)

lemma draws_gen_entry: "draws (gen_entry G len K k v)"
  unfolding gen_entry_def gen_none_def generate_RSA_def
  by (auto intro!: draws_bnd draws_basic draws_random split: prod.splits)

lemma draws_gen_entries: "draws (gen_entries G len K d)"
  by (induction d) (simp_all add: draws_bnd draws_basic draws_gen_entry del: ret_run)

lemma random_chars_ok:
  assumes "index_law G"
  shows "\<exists>s t. random_chars G n w = (Ret s, t) \<and> length s = n \<and> set s \<subseteq> set password_alphabet"
proof (induction n arbitrary: w)
  case (Suc n)
  obtain i e where i: "gen_index G (length password_alphabet) (pw_entropy w) = (i, e)" by fastforce
  have "i < length password_alphabet"
    using assms i unfolding index_law_def by (metis fst_conv length_greater_0_conv password_alphabet_def list.distinct(1))
  then have "password_alphabet ! i \<in> set password_alphabet" by simp
  with Suc [of "w\<lparr>pw_entropy := e\<rparr>"] show ?case by (auto simp: bnd_def draw_def i)
qed simp

lemma draw_run: "draw g w = (Ret (fst (g (pw_entropy w))), w\<lparr>pw_entropy := snd (g (pw_entropy w))\<rparr>)"
  by (simp add: draw_def split: prod.splits)

lemma gen_entry_filled:
  assumes "index_law G"
  shows "if k \<in> set (ssh_keys K) \<and> \<not> returns (ssh_missing v) then \<exists>e. gen_entry G len K k v w = (Raise e, w)
    else \<exists>x t. gen_entry G len K k v w = (Ret x, t) \<and> entry_filled G len K k v x"
proof -
  consider (bad) "k \<in> set (ssh_keys K)" "\<not> returns (ssh_missing v)"
    | (pair) "k \<in> set (ssh_keys K)" "ssh_missing v = Ret True"
    | (other) "k \<in> set (ssh_keys K) \<longrightarrow> ssh_missing v = Ret False"
    by (cases "ssh_missing v") auto
  then show ?thesis
  proof cases
    case bad
    then have "\<exists>e. ssh_missing v = Raise e"
      by (cases v) (auto simp: ssh_missing_def py_get_def split: if_splits)
    with bad show ?thesis by (auto simp: gen_entry_def)
  next
    case pair
    then show ?thesis
      by (auto simp: gen_entry_def generate_RSA_def bnd_def draw_run entry_filled_def case_prod_beta)
  next
    case other
    then have eq: "gen_entry G len K k v = (if is_none v then gen_none G len K k else ret v)"
      by (auto simp: gen_entry_def)
    show ?thesis
    proof (cases "v = PNone")
      case False
      then show ?thesis using other by (auto simp: eq entry_filled_def is_none_iff)
    next
      case True
      moreover have "\<exists>x t. gen_none G len K k w = (Ret x, t) \<and> fresh_secret G len K k x"
        using random_chars_ok [OF assms, of "nat len" w]
        by (auto simp: gen_none_def fresh_secret_def bnd_def draw_run)
      moreover have "gen_entry G len K k v w = gen_none G len K k w" using True unfolding eq by simp
      moreover have "k \<notin> set (ssh_keys K)" using other True by (auto simp: ssh_missing_def)
      ultimately show ?thesis by (auto simp: entry_filled_def)
    qed
  qed
qed

definition ssh_ok :: "key_lists \<Rightarrow> pydict \<Rightarrow> bool" where
  "ssh_ok K d \<longleftrightarrow> (\<forall>kv \<in> set d. fst kv \<in> set (ssh_keys K) \<longrightarrow> returns (ssh_missing (snd kv)))"

lemma ssh_ok_Cons [simp]:
  "ssh_ok K [] " "ssh_ok K (kv # d) \<longleftrightarrow> (fst kv \<in> set (ssh_keys K) \<longrightarrow> returns (ssh_missing (snd kv))) \<and> ssh_ok K d"
  by (simp_all add: ssh_ok_def)

lemma gen_entries_run:
  assumes "index_law G"
  shows "if ssh_ok K d
      then \<exists>d' t. gen_entries G len K d w = (Ret d', t)
        \<and> list_all2 (\<lambda>old new. fst new = fst old \<and> entry_filled G len K (fst old) (snd old) (snd new)) d d'
      else \<exists>e t. gen_entries G len K d w = (Raise e, t)"
proof (induction d arbitrary: w)
  case (Cons kv d)
  note entry = gen_entry_filled [OF assms, of "fst kv" K "snd kv" len w]
  show ?case
  proof (cases "fst kv \<in> set (ssh_keys K) \<and> \<not> returns (ssh_missing (snd kv))")
    case True
    with entry obtain e where "gen_entry G len K (fst kv) (snd kv) w = (Raise e, w)" by auto
    with True show ?thesis by (auto simp: bnd_def)
  next
    case False
    then obtain x t where x: "gen_entry G len K (fst kv) (snd kv) w = (Ret x, t)"
      "entry_filled G len K (fst kv) (snd kv) x" using entry by (auto split: if_splits)
    show ?thesis
    proof (cases "ssh_ok K d")
      case False
      with Cons.IH [of t] obtain e u where "gen_entries G len K d t = (Raise e, u)" by auto
      with False x show ?thesis by (auto simp: bnd_def)
    next
      case True
      with Cons.IH [of t] obtain d' u where d: "gen_entries G len K d t = (Ret d', u)"
        "list_all2 (\<lambda>old new. fst new = fst old \<and> entry_filled G len K (fst old) (snd old) (snd new)) d d'"
        by auto
      have "gen_entries G len K (kv # d) w = (Ret ((fst kv, x) # d'), u)" by (simp add: bnd_def x d)
      with d(2) x(2) False True show ?thesis by auto
    qed
  qed
qed simp

text \<open>An entry that is filled and written is left alone by the next run.\<close>

lemma ssh_missing_dumped [simp]: "ssh_missing (dumped v) = ssh_missing v"
proof (cases v)
  case (PDict d)
  have "is_none (dget (dump_items d) k) = is_none (dget d k)" for k
    by (simp add: dget_def dget_or_def is_none_iff split: option.splits)
  then show ?thesis using PDict by (simp add: ssh_missing_def py_get_def flip: dget_def)
qed (simp_all add: ssh_missing_def py_get_def)

lemma fresh_dumped: "fresh_secret G len K k w \<Longrightarrow> dumped w = w"
  by (auto simp: fresh_secret_def split: if_splits)

lemma pair_dumped: "dump_items [(''private_key'', PStr a), (''public_key'', PStr b)] = [(''private_key'', PStr a), (''public_key'', PStr b)]"
proof -
  have "Key ''private_key'' \<le> Key ''public_key''" by code_simp
  then show ?thesis by (simp add: dump_items_def)
qed

lemma entry_filled_fixed:
  assumes "entry_filled G len K k v x" and "k \<in> set (ssh_keys K) \<longrightarrow> returns (ssh_missing v)"
  shows "gen_entry G len K k (dumped x) w = (Ret (dumped x), w)"
proof (cases "k \<in> set (ssh_keys K) \<and> ssh_missing v = Ret True")
  case True
  with assms show ?thesis
    by (auto simp: entry_filled_def gen_entry_def ssh_missing_def py_get_def dget_or_def pair_dumped)
next
  case False
  with assms(2) have ssh: "k \<in> set (ssh_keys K) \<longrightarrow> ssh_missing v = Ret False" by (cases "ssh_missing v") auto
  show ?thesis
  proof (cases "v = PNone")
    case True
    with assms(1) False have fresh: "fresh_secret G len K k x" by (simp add: entry_filled_def)
    have "k \<notin> set (ssh_keys K)" using ssh True by (auto simp: ssh_missing_def)
    with fresh fresh_dumped [OF fresh] show ?thesis
      by (auto simp: fresh_secret_def gen_entry_def gen_none_def is_none_iff split: if_splits)
  next
    case False
    then have "x = v" using assms(1) ssh by (auto simp: entry_filled_def)
    with False ssh show ?thesis by (auto simp: gen_entry_def is_none_iff)
  qed
qed

section \<open>A run of genpwd\<close>

definition new_mode :: "'e pw_world \<Rightarrow> string \<Rightarrow> mode" where
  "new_mode w path =
     (case pw_files w path of
        Some f \<Rightarrow> if pw_removable w path then private_mode AND NOT (pw_umask w) else pf_mode f
      | None \<Rightarrow> private_mode AND NOT (pw_umask w))"

lemma new_mode_update [simp]:
  "new_mode (w\<lparr>pw_out := x\<rparr>) path = new_mode w path" "new_mode (w\<lparr>pw_entropy := e\<rparr>) path = new_mode w path"
  by (simp_all add: new_mode_def split: option.splits)

lemma new_mode_private:
  "pw_removable w path \<Longrightarrow> new_mode w path AND S_IROTH = 0 \<and> new_mode w path AND S_IWOTH = 0"
proof -
  have "private_mode AND S_IROTH = 0" "private_mode AND S_IWOTH = 0"
    by (simp_all add: private_mode_def S_IROTH_def S_IWOTH_def)
  moreover have "(private_mode AND NOT u) AND m = (private_mode AND m) AND NOT u" for u m
    by (simp only: ac_simps)
  ultimately have "(private_mode AND NOT u) AND S_IROTH = 0 \<and> (private_mode AND NOT u) AND S_IWOTH = 0" for u
    by simp
  then show "pw_removable w path \<Longrightarrow> ?thesis" by (simp add: new_mode_def split: option.splits)
qed

lemma write_private_run:
  "write_private path doc w
    = (Ret (), w\<lparr>pw_files := (pw_files w)(path := Some \<lparr>pf_doc = dumped doc, pf_mode = new_mode w path\<rparr>)\<rparr>)"
  by (simp add: write_private_def new_mode_def split: option.splits)

lemma out_same: "\<exists>out. w = w\<lparr>pw_out := out\<rparr>"
  by (rule exI [of _ "pw_out w"]) simp

lemma out_changed: "\<exists>out. w\<lparr>pw_out := o'\<rparr> = w\<lparr>pw_out := out\<rparr>"
  by blast

lemma warn_mode_run:
  "pw_files w path \<noteq> None \<Longrightarrow> \<exists>out. warn_mode path msg w = (Ret (), w\<lparr>pw_out := out\<rparr>)"
proof -
  assume "pw_files w path \<noteq> None"
  then obtain f where f: "pw_files w path = Some f" by auto
  have m: "mode_of path (w\<lparr>pw_out := out\<rparr>) = (Ret (pf_mode f), w\<lparr>pw_out := out\<rparr>)" for out
    using f by (simp add: mode_of_def)
  have m0: "mode_of path w = (Ret (pf_mode f), w)" using f by (simp add: mode_of_def)
  show ?thesis
    by (cases "pf_mode f AND S_IROTH = 0"; cases "pf_mode f AND S_IWOTH = 0")
      (simp_all add: warn_mode_def seqc_def bnd_def m m0 whenc_def say_def out_same out_changed)
qed

lemma genpwd_run:
  assumes "index_law G" and "pw_files w path = Some \<lparr>pf_doc = PDict d, pf_mode = m\<rparr>"
  shows "if ssh_ok K d
    then \<exists>d' out e. genpwd G path len K w = (Ret (), w\<lparr>pw_out := out, pw_entropy := e,
        pw_files := (pw_files w)(path := Some \<lparr>pf_doc = PDict (dump_items d'), pf_mode = new_mode w path\<rparr>)\<rparr>)
      \<and> list_all2 (\<lambda>old new. fst new = fst old \<and> entry_filled G len K (fst old) (snd old) (snd new)) d d'
    else \<exists>x w'. genpwd G path len K w = (Raise x, w') \<and> pw_files w' = pw_files w"
proof -
  obtain out where out: "warn_mode path '' The permissions will be changed.'' w = (Ret (), w\<lparr>pw_out := out\<rparr>)"
    using warn_mode_run [of w path] assms(2) by fastforce
  let ?w = "w\<lparr>pw_out := out\<rparr>"
  have run: "genpwd G path len K w = bnd (gen_entries G len K d) (\<lambda>d. write_private path (PDict d)) ?w"
    using out assms(2) by (simp add: genpwd_def bnd_def [of "gets _"] seqc_Ret)
  obtain e where e: "snd (gen_entries G len K d ?w) = ?w\<lparr>pw_entropy := e\<rparr>"
    using draws_gen_entries [of G len K d, unfolded draws_def, rule_format, of ?w] by (elim exE) (rule that)
  show ?thesis
  proof (cases "ssh_ok K d")
    case False
    then obtain x t where "gen_entries G len K d ?w = (Raise x, t)"
      using gen_entries_run [OF assms(1), of K d len ?w] by auto
    with e False show ?thesis by (auto simp: run bnd_def)
  next
    case True
    then obtain d' t where d': "gen_entries G len K d ?w = (Ret d', t)"
      "list_all2 (\<lambda>old new. fst new = fst old \<and> entry_filled G len K (fst old) (snd old) (snd new)) d d'"
      using gen_entries_run [OF assms(1), of K d len ?w] by auto
    with e have "t = ?w\<lparr>pw_entropy := e\<rparr>" by simp
    then have "genpwd G path len K w = (Ret (), w\<lparr>pw_out := out, pw_entropy := e,
        pw_files := (pw_files w)(path := Some \<lparr>pf_doc = PDict (dump_items d'), pf_mode = new_mode w path\<rparr>)\<rparr>)"
      by (simp add: run bnd_def d'(1) write_private_run)
    with d'(2) True show ?thesis by auto
  qed
qed

lemma filled_keys:
  "list_all2 (\<lambda>old new. fst new = fst old \<and> P (fst old) (snd old) (snd new)) d d' \<Longrightarrow> map fst d' = map fst d"
  by (induction rule: list_all2_induct) auto

lemma filled_lookup:
  "list_all2 (\<lambda>old new. fst new = fst old \<and> P (fst old) (snd old) (snd new)) d d' \<Longrightarrow>
    case map_of d k of None \<Rightarrow> map_of d' k = None | Some v \<Rightarrow> \<exists>x. map_of d' k = Some x \<and> P k v x"
  by (induction rule: list_all2_induct) (auto split: option.splits)

lemma filled_entry:
  "list_all2 (\<lambda>old new. fst new = fst old \<and> P (fst old) (snd old) (snd new)) d d' \<Longrightarrow> kv \<in> set d' \<Longrightarrow>
    \<exists>v. (fst kv, v) \<in> set d \<and> P (fst kv) v (snd kv)"
  by (induction rule: list_all2_induct) auto

lemma gen_entries_fixed:
  "(\<And>kv w. kv \<in> set d \<Longrightarrow> gen_entry G len K (fst kv) (snd kv) w = (Ret (snd kv), w)) \<Longrightarrow> gen_entries G len K d w = (Ret d, w)"
  by (induction d) (simp_all add: bnd_def)

lemma filled_fixed:
  assumes "list_all2 (\<lambda>old new. fst new = fst old \<and> entry_filled G len K (fst old) (snd old) (snd new)) d d'" and "ssh_ok K d"
  shows "gen_entries G len K (dump_items d') w = (Ret (dump_items d'), w)"
proof (rule gen_entries_fixed)
  fix kv w assume "kv \<in> set (dump_items d')"
  then obtain kv' where kv': "kv' \<in> set d'" "kv = apsnd dumped kv'" by (auto simp: set_dump_items)
  then obtain v where "(fst kv', v) \<in> set d" "entry_filled G len K (fst kv') v (snd kv')"
    using filled_entry [OF assms(1) kv'(1)] by blast
  then show "gen_entry G len K (fst kv) (snd kv) w = (Ret (snd kv), w)"
    using assms(2) entry_filled_fixed [of G len K "fst kv'" v "snd kv'" w] by (auto simp: kv'(2) ssh_ok_def)
qed

lemma genpwd_fixed:
  assumes "\<And>w. gen_entries G len K (dump_items d) w = (Ret (dump_items d), w)"
    and "pw_files w path = Some \<lparr>pf_doc = PDict (dump_items d), pf_mode = new_mode w path\<rparr>"
  shows "\<exists>w''. genpwd G path len K w = (Ret (), w'') \<and> pw_files w'' = pw_files w"
proof -
  obtain out where "warn_mode path '' The permissions will be changed.'' w = (Ret (), w\<lparr>pw_out := out\<rparr>)"
    using warn_mode_run [of w path] assms(2) by fastforce
  then show ?thesis
    using assms by (simp add: genpwd_def bnd_def seqc_def write_private_run fun_upd_idem)
qed

text \<open>C30: \<open>genpwd\<close> fills in what is missing and nothing else. On a password file whose ssh keys are pairs or
  empty it succeeds: the keys stay, now in alphabetical order, as \<open>yaml.safe_dump\<close> writes them; a value
  that is there stays (its own keys sorted as well, when it is a mapping), unless it is an ssh key with
  neither half, which gets the halves of a generated pair; a blank key without a value stays without one;
  a key of the other special kinds gets what the generator of its own kind draws (a uuid, the HMAC of
  a uuid, a Fernet key, a salt), and any other key a password of the requested length over letters and
  digits. No other file changes, and the file is neither readable nor writable for others if it could be
  removed. Running it again changes no file. With a malformed ssh key it raises and no file changes.
\<close>

theorem genpwd_fills:
  assumes "index_law G" and "pw_files w path = Some \<lparr>pf_doc = PDict d, pf_mode = m\<rparr>"
  shows "if ssh_ok K d
    then \<exists>d' w'. genpwd G path len K w = (Ret (), w')
      \<and> pw_files w' = (pw_files w)(path := Some \<lparr>pf_doc = PDict d', pf_mode = new_mode w path\<rparr>)
      \<and> mset (map fst d') = mset (map fst d) \<and> sorted (map (\<lambda>kv. Key (fst kv)) d')
      \<and> (\<forall>k v. map_of d k = Some v \<longrightarrow> (\<exists>x. map_of d' k = Some (dumped x) \<and> entry_filled G len K k v x))
      \<and> (pw_removable w path \<longrightarrow> new_mode w path AND S_IROTH = 0 \<and> new_mode w path AND S_IWOTH = 0)
      \<and> (\<exists>w''. genpwd G path len K w' = (Ret (), w'') \<and> pw_files w'' = pw_files w')
    else \<exists>x w'. genpwd G path len K w = (Raise x, w') \<and> pw_files w' = pw_files w"
proof (cases "ssh_ok K d")
  case True
  then obtain d' out e where run: "genpwd G path len K w = (Ret (), w\<lparr>pw_out := out, pw_entropy := e,
        pw_files := (pw_files w)(path := Some \<lparr>pf_doc = PDict (dump_items d'), pf_mode = new_mode w path\<rparr>)\<rparr>)" (is "_ = (_, ?w')")
    and d': "list_all2 (\<lambda>old new. fst new = fst old \<and> entry_filled G len K (fst old) (snd old) (snd new)) d d'"
    using genpwd_run [OF assms, of K len] by auto
  have there: "pw_files ?w' path = Some \<lparr>pf_doc = PDict (dump_items d'), pf_mode = new_mode w path\<rparr>" by simp
  have "new_mode ?w' path = new_mode w path"
    by (simp add: new_mode_def split: option.splits)
  with there have again: "\<exists>w''. genpwd G path len K ?w' = (Ret (), w'') \<and> pw_files w'' = pw_files ?w'"
    using filled_fixed [OF d' True] by (intro genpwd_fixed) simp_all
  have "map_of d k = Some v \<Longrightarrow> \<exists>x. map_of (dump_items d') k = Some (dumped x) \<and> entry_filled G len K k v x" for k v
    using filled_lookup [OF d', of k] by auto
  moreover have "mset (map fst (dump_items d')) = mset (map fst d)" by (simp only: keys_dump_items filled_keys [OF d'])
  ultimately show ?thesis
    using run again sorted_dump_items [of d'] True new_mode_private [of w path]
    by (simp only: if_True) (intro exI [of _ "dump_items d'"] exI [of _ ?w'], simp)
next
  case False
  then show ?thesis using genpwd_run [OF assms, of K len] by simp
qed

section \<open>A run of mergepwd\<close>

definition merged_passwords :: "bool \<Rightarrow> pydict \<Rightarrow> pydict \<Rightarrow> string \<Rightarrow> pyval option" where
  "merged_passwords clean old new k =
     (case map_of old k of
        None \<Rightarrow> map_of new k
      | Some v \<Rightarrow> if clean \<and> map_of new k = None then None else Some v)"

lemma map_of_clean_merge:
  "map_of (clean_merge old new) k =
    map_option (\<lambda>v. case map_of old k of None \<Rightarrow> v | Some w \<Rightarrow> w) (map_of new k)"
  by (induction new) (auto simp: clean_merge_def split: option.splits)

lemma mergepwd_run:
  assumes "pw_files w old = Some fo" and "pf_doc fo = PDict d_o"
    and "pw_files w new = Some fn" and "pf_doc fn = PDict d_n"
  shows "\<exists>out. mergepwd old new final clean w = (Ret (), w\<lparr>pw_out := out,
      pw_files := (pw_files w)(final := Some \<lparr>pf_doc = PDict (dump_items (if clean then clean_merge d_o d_n else dict_update d_n d_o)),
        pf_mode = new_mode w final\<rparr>)\<rparr>)"
proof -
  obtain o1 where o1: "warn_mode old [] w = (Ret (), w\<lparr>pw_out := o1\<rparr>)"
    using warn_mode_run [of w old] assms(1) by fastforce
  obtain o2 where o2: "warn_mode new [] (w\<lparr>pw_out := o1\<rparr>) = (Ret (), w\<lparr>pw_out := o2\<rparr>)"
    using warn_mode_run [of "w\<lparr>pw_out := o1\<rparr>" new] assms(3) by fastforce
  have "mergepwd old new final clean w = write_private final
      (PDict (if clean then clean_merge d_o d_n else dict_update d_n d_o)) (w\<lparr>pw_out := o2\<rparr>)"
    using assms by (simp add: mergepwd_def read_doc_def bnd_def seqc_def o1 o2)
  then show ?thesis by (auto simp: write_private_run)
qed

text \<open>\<open>mergepwd\<close> prefers the old passwords. The merged file has, for every key of the old file, the old
  value, and the new value for the keys that only the new file has; with \<open>--clean\<close> the keys of the old
  file that the new one does not have are dropped. The keys are in alphabetical order, those of mappings
  too. No other file changes, the old and the new one included (unless one of them is the target).
\<close>

theorem mergepwd_merges:
  assumes "pw_files w old = Some fo" and "pf_doc fo = PDict d_o" and "wf_dict d_o"
    and "pw_files w new = Some fn" and "pf_doc fn = PDict d_n"
  shows "\<exists>d w'. mergepwd old new final clean w = (Ret (), w')
    \<and> pw_files w' = (pw_files w)(final := Some \<lparr>pf_doc = PDict d, pf_mode = new_mode w final\<rparr>)
    \<and> map_of d = map_option dumped \<circ> merged_passwords clean d_o d_n
    \<and> sorted (map (\<lambda>kv. Key (fst kv)) d)"
proof -
  let ?d = "if clean then clean_merge d_o d_n else dict_update d_n d_o"
  obtain out where "mergepwd old new final clean w = (Ret (), w\<lparr>pw_out := out,
      pw_files := (pw_files w)(final := Some \<lparr>pf_doc = PDict (dump_items ?d), pf_mode = new_mode w final\<rparr>)\<rparr>)"
    using mergepwd_run [OF assms(1,2,4,5)] by blast
  moreover have "map_of ?d = merged_passwords clean d_o d_n"
    by (rule ext) (auto simp: merged_passwords_def map_of_clean_merge map_of_dict_update assms(3) option.map_ident split: option.splits)
  then have "map_of (dump_items ?d) = map_option dumped \<circ> merged_passwords clean d_o d_n" by (intro ext) simp
  ultimately show ?thesis using sorted_dump_items [of ?d] by auto
qed

section \<open>Witnesses\<close>

text \<open>Generators that count: an entropy of natural numbers.\<close>

definition sample_generators :: "nat generators" where
  "sample_generators =
     \<lparr>gen_rsa = (\<lambda>e. ((''priv'', ''pub''), Suc e)), gen_uuid = (\<lambda>e. (''uuid-'' @ nat_str e, Suc e)),
      gen_fernet = (\<lambda>e. (''fernet'', Suc e)), gen_salt = (\<lambda>n e. (replicate n CHR ''s'', Suc e)),
      gen_index = (\<lambda>n e. (e mod n, Suc e)), hmac_md5_hex = (\<lambda>u. ''hmac'')\<rparr>"

lemma sample_index_law: "index_law sample_generators"
  by (simp add: index_law_def sample_generators_def)

definition sample_template :: pydict where
  "sample_template =
     [(''database_password'', PNone), (''docker_registry_password'', PNone), (''nova_ssh_key'', PNone),
      (''rbd_secret_uuid'', PNone), (''new_password'', PNone)]"

definition sample_old :: pydict where
  "sample_old =
     [(''database_password'', PStr ''secret''), (''nova_ssh_key'', PDict [(''private_key'', PStr ''p''), (''public_key'', PStr ''q'')]),
      (''retired_password'', PStr ''gone'')]"

definition sample_pw_world :: "nat pw_world" where
  "sample_pw_world =
     \<lparr>pw_files = [''old'' \<mapsto> \<lparr>pf_doc = PDict sample_old, pf_mode = 0b110100100\<rparr>,
                  ''new'' \<mapsto> \<lparr>pf_doc = PDict sample_template, pf_mode = 0b110100100\<rparr>],
      pw_out = [], pw_entropy = 0, pw_umask = 0b010010, pw_removable = (\<lambda>p. True)\<rparr>"

lemma sample_files:
  "pw_files sample_pw_world ''old'' = Some \<lparr>pf_doc = PDict sample_old, pf_mode = 0b110100100\<rparr>"
  "pw_files sample_pw_world ''new'' = Some \<lparr>pf_doc = PDict sample_template, pf_mode = 0b110100100\<rparr>"
  by (simp_all add: sample_pw_world_def)

lemma sample_ssh_ok: "ssh_ok genpwd_keys sample_template" "ssh_ok genpwd_keys (dict_update sample_template sample_old)"
  by code_simp+

lemma genpwd_fills_witness:
  "\<exists>d' w'. genpwd sample_generators ''new'' 40 genpwd_keys sample_pw_world = (Ret (), w')
     \<and> map_option pf_doc (pw_files w' ''new'') = Some (PDict d')
     \<and> map_of d' ''docker_registry_password'' = Some PNone
     \<and> (\<exists>s. map_of d' ''database_password'' = Some (PStr s) \<and> length s = 40)"
proof -
  obtain d' w' where run: "genpwd sample_generators ''new'' 40 genpwd_keys sample_pw_world = (Ret (), w')"
    and files: "pw_files w' = (pw_files sample_pw_world)
        (''new'' := Some \<lparr>pf_doc = PDict d', pf_mode = new_mode sample_pw_world ''new''\<rparr>)"
    and filled: "\<And>k v. map_of sample_template k = Some v \<Longrightarrow>
        \<exists>x. map_of d' k = Some (dumped x) \<and> entry_filled sample_generators 40 genpwd_keys k v x"
    using genpwd_fills [OF sample_index_law sample_files(2), of genpwd_keys 40] sample_ssh_ok(1) by auto
  have "map_of d' ''docker_registry_password'' = Some PNone"
    using filled [of "''docker_registry_password''" PNone]
    by (auto simp: sample_template_def entry_filled_def fresh_secret_def genpwd_keys_def ssh_missing_def)
  moreover have "\<exists>s. map_of d' ''database_password'' = Some (PStr s) \<and> length s = 40"
    using filled [of "''database_password''" PNone]
    by (auto simp: sample_template_def entry_filled_def fresh_secret_def genpwd_keys_def ssh_missing_def)
  ultimately show ?thesis using run files by auto
qed

lemma mergepwd_merges_witness:
  "\<exists>d w'. mergepwd ''old'' ''new'' ''final'' True sample_pw_world = (Ret (), w')
     \<and> map_option pf_doc (pw_files w' ''final'') = Some (PDict d)
     \<and> map_of d ''database_password'' = Some (PStr ''secret'') \<and> map_of d ''retired_password'' = None"
proof -
  have wf: "wf_dict sample_old" by code_simp
  obtain d w' where "mergepwd ''old'' ''new'' ''final'' True sample_pw_world = (Ret (), w')"
    "pw_files w' = (pw_files sample_pw_world)(''final'' := Some \<lparr>pf_doc = PDict d, pf_mode = new_mode sample_pw_world ''final''\<rparr>)"
    "map_of d = map_option dumped \<circ> merged_passwords True sample_old sample_template"
    using mergepwd_merges [OF sample_files(1) _ wf sample_files(2), of sample_template "''final''" True] by auto
  then show ?thesis by (auto simp: merged_passwords_def sample_old_def sample_template_def)
qed

end
