(* ===== verification/Vault.thy ===== *)
theory Vault
  imports Passwords
begin

text \<open>
  \<open>kolla_ansible/hashi_vault.py\<close>, \<open>kolla_ansible/cmd/writepwd.py\<close> and \<open>kolla_ansible/cmd/readpwd.py\<close>: the
  passwords in a HashiCorp Vault. The hvac client is a parameter, a record of the calls the scripts make,
  over a state of its own; \<open>vault_laws\<close> states what the scripts rely on: a secret reads back as it was
  written, other paths are not affected, an absent path raises \<open>InvalidPath\<close>.
\<close>

section \<open>Definitions\<close>

record 'v hvac =
  hv_client :: "string \<Rightarrow> string option \<Rightarrow> string \<Rightarrow> ('v, unit) cmd"  \<comment> \<open>url, token, namespace\<close>
  hv_login :: "string \<Rightarrow> string \<Rightarrow> ('v, unit) cmd"  \<comment> \<open>approle: role id, secret id\<close>
  hv_authenticated :: "('v, bool) cmd"
  hv_read :: "string \<Rightarrow> string \<Rightarrow> ('v, pyval) cmd"  \<comment> \<open>mount point, path\<close>
  hv_write :: "string \<Rightarrow> string \<Rightarrow> pyval \<Rightarrow> ('v, unit) cmd"

record 'v vault_world =
  vw_host :: "unit pw_world"
  vw_environ :: "(string \<times> string) list"
  vw_vault :: 'v

record vault_args =
  va_namespace :: string
  va_addr :: string
  va_role_id :: string
  va_secret_id :: string
  va_token :: string
  va_cacert :: string
  va_mount_point :: string
  va_kv_path :: string

definition on_host_files :: "(unit pw_world, 'a) cmd \<Rightarrow> ('v vault_world, 'a) cmd" where
  "on_host_files m = zoom vw_host (\<lambda>h s. s\<lparr>vw_host := h\<rparr>) m"

definition on_vault :: "('v, 'a) cmd \<Rightarrow> ('v vault_world, 'a) cmd" where
  "on_vault m = zoom vw_vault (\<lambda>v s. s\<lparr>vw_vault := v\<rparr>) m"

definition vault_exit :: "string \<Rightarrow> ('v vault_world, 'a) cmd" where
  "vault_exit msg = seqc (on_host_files (say msg)) (sys_exit 1)"

text \<open>\<open>hashicorp_vault_client\<close>: the options, the connection, the authentication.\<close>

definition check_vault_options :: "vault_args \<Rightarrow> ('v vault_world, unit) cmd" where
  "check_vault_options A =
     (if va_role_id A \<noteq> [] \<or> va_secret_id A \<noteq> [] then
        if va_token A \<noteq> [] then vault_exit ''ERROR: Vault token cannot be used at the same time as role-id and secret-id''
        else if \<not> (va_role_id A \<noteq> [] \<and> va_secret_id A \<noteq> [])
        then vault_exit ''ERROR: role-id and secret-id must be provided together''
        else ret ()
      else if va_token A = [] then vault_exit ''ERROR: You must provide either a Vault token or role-id and secret-id''
      else ret ())"

definition set_ca_bundle :: "vault_args \<Rightarrow> ('v vault_world, unit) cmd" where
  "set_ca_bundle A =
     whenc (va_cacert A \<noteq> [])
       (modify (\<lambda>s. s\<lparr>vw_environ := AList.update ''REQUESTS_CA_BUNDLE'' (va_cacert A) (vw_environ s)\<rparr>))"

definition connect_vault :: "'v hvac \<Rightarrow> vault_args \<Rightarrow> ('v vault_world, unit) cmd" where
  "connect_vault H A =
     (if va_token A \<noteq> [] then on_vault (hv_client H (va_addr A) (Some (va_token A)) (va_namespace A))
      else seqc (on_vault (hv_client H (va_addr A) None (va_namespace A)))
                (on_vault (hv_login H (va_role_id A) (va_secret_id A))))"

definition check_authenticated :: "'v hvac \<Rightarrow> ('v vault_world, unit) cmd" where
  "check_authenticated H =
     bnd (on_vault (hv_authenticated H)) (\<lambda>ok.
       if \<not> ok then vault_exit ''Failed to authenticate to vault'' else ret ())"

definition hashicorp_vault_client :: "'v hvac \<Rightarrow> vault_args \<Rightarrow> ('v vault_world, unit) cmd" where
  "hashicorp_vault_client H A =
     seqc (check_vault_options A) (seqc (set_ca_bundle A) (seqc (connect_vault H A) (check_authenticated H)))"

definition invalid_path :: exn where
  "invalid_path = PyError ''hvac.exceptions.InvalidPath''"

definition catch_invalid_path :: "('s, 'a) cmd \<Rightarrow> ('s, 'a) cmd \<Rightarrow> ('s, 'a) cmd" where
  "catch_invalid_path m h = (\<lambda>s. case m s of
       (Raise e, s') \<Rightarrow> if e = invalid_path then h s' else (Raise e, s')
     | r \<Rightarrow> r)"

definition secret_path :: "vault_args \<Rightarrow> string \<Rightarrow> string" where
  "secret_path A key = va_kv_path A @ ''/'' @ key"

text \<open>\<open>remote_value['data']['data']\<close>.\<close>

definition secret_data :: "pyval \<Rightarrow> pyval outcome" where
  "secret_data r = obind (py_item r ''data'') (\<lambda>d. py_item d ''data'')"

text \<open>\<open>try: ...read_secret_version(...) except InvalidPath: h\<close>.\<close>

definition read_secret ::
    "'v hvac \<Rightarrow> vault_args \<Rightarrow> string \<Rightarrow> ('v vault_world, pyval option) cmd \<Rightarrow> ('v vault_world, pyval option) cmd" where
  "read_secret H A key h =
     catch_invalid_path (bnd (on_vault (hv_read H (va_mount_point A) (secret_path A key))) (\<lambda>r. ret (Some r))) h"

subsection \<open>writepwd\<close>

definition secret_value :: "pyval \<Rightarrow> pyval" where
  "secret_value v = (case v of PStr s \<Rightarrow> PDict [(''password'', v)] | _ \<Rightarrow> v)"

definition write_entry :: "'v hvac \<Rightarrow> vault_args \<Rightarrow> string \<Rightarrow> pyval \<Rightarrow> ('v vault_world, unit) cmd" where
  "write_entry H A key v =
     (if \<not> truthy v then ret ()
      else let value = secret_value v in
        bnd (read_secret H A key (ret None)) (\<lambda>remote_value.
        bnd (case remote_value of
               None \<Rightarrow> ret True
             | Some r \<Rightarrow> if \<not> truthy r then ret True
                         else bnd (lift (secret_data r)) (\<lambda>d. ret (\<not> py_eq d value))) (\<lambda>changed.
        whenc changed (on_vault (hv_write H (va_mount_point A) (secret_path A key) value)))))"

primrec write_entries :: "'v hvac \<Rightarrow> vault_args \<Rightarrow> pydict \<Rightarrow> ('v vault_world, unit) cmd" where
  "write_entries H A [] = ret ()"
| "write_entries H A (kv # d) = seqc (write_entry H A (fst kv) (snd kv)) (write_entries H A d)"

definition writepwd :: "'v hvac \<Rightarrow> string \<Rightarrow> vault_args \<Rightarrow> ('v vault_world, unit) cmd" where
  "writepwd H passwords_file A =
     bnd (on_host_files (read_doc passwords_file)) (\<lambda>passwords.
     seqc (on_host_files (warn_mode passwords_file []))
     (case passwords of
        PDict d \<Rightarrow> seqc (hashicorp_vault_client H A) (write_entries H A d)
      | _ \<Rightarrow> vault_exit ''ERROR: Passwords file not in expected key/value format''))"

subsection \<open>readpwd\<close>

definition read_value :: "pyval \<Rightarrow> pyval outcome" where
  "read_value password_data =
     (case obind (secret_data password_data) (\<lambda>d. py_item d ''password'') of
        Raise (KeyError k) \<Rightarrow> secret_data password_data
      | r \<Rightarrow> r)"

definition read_entry :: "'v hvac \<Rightarrow> vault_args \<Rightarrow> string \<Rightarrow> ('v vault_world, pyval) cmd" where
  "read_entry H A key =
     bnd (read_secret H A key
            (seqc (on_host_files (say (''WARNING: '' @ [CHR 0x27] @ key @ [CHR 0x27] @ '' not found in Vault'')))
               (ret None))) (\<lambda>password_data.
     case password_data of None \<Rightarrow> ret PNone | Some r \<Rightarrow> lift (read_value r))"

primrec read_entries :: "'v hvac \<Rightarrow> vault_args \<Rightarrow> string list \<Rightarrow> ('v vault_world, pydict) cmd" where
  "read_entries H A [] = ret []"
| "read_entries H A (k # ks) =
     bnd (read_entry H A k) (\<lambda>v. bnd (read_entries H A ks) (\<lambda>r. ret ((k, v) # r)))"

definition readpwd :: "'v hvac \<Rightarrow> string \<Rightarrow> vault_args \<Rightarrow> ('v vault_world, unit) cmd" where
  "readpwd H passwords_file A =
     bnd (on_host_files (read_doc passwords_file)) (\<lambda>passwords.
     seqc (on_host_files (warn_mode passwords_file '' The permissions will be changed.''))
     (case passwords of
        PDict d \<Rightarrow>
          seqc (hashicorp_vault_client H A)
          (bnd (read_entries H A (map fst d)) (\<lambda>vault_kv_passwords.
             on_host_files (write_private passwords_file (PDict vault_kv_passwords))))
      | _ \<Rightarrow> vault_exit ''ERROR: Passwords file not in expected key/value format''))"

section \<open>What the scripts rely on\<close>

text \<open>
  The contents of the vault as the client shows them: \<open>view v mount path\<close>. Connecting and reading leave
  them alone.
\<close>

definition vault_laws :: "'v hvac \<Rightarrow> ('v \<Rightarrow> string \<Rightarrow> string \<Rightarrow> pydict option) \<Rightarrow> bool" where
  "vault_laws H view \<longleftrightarrow>
     (\<forall>v m p. case view v m p of
          None \<Rightarrow> hv_read H m p v = (Raise invalid_path, v)
        | Some d \<Rightarrow> \<exists>r. hv_read H m p v = (Ret r, v) \<and> truthy r \<and> secret_data r = Ret (PDict d))
     \<and> (\<forall>v m p d. \<exists>v'. hv_write H m p (PDict d) v = (Ret (), v') \<and> view v' = (view v)(m := (view v m)(p := Some d)))
     \<and> (\<forall>v u t n. view (snd (hv_client H u t n v)) = view v)
     \<and> (\<forall>v r s. view (snd (hv_login H r s v)) = view v)
     \<and> (\<forall>v. view (snd (hv_authenticated H v)) = view v)"

section \<open>One secret\<close>

fun storable :: "pyval \<Rightarrow> bool" where
  "storable (PStr s) = (s \<noteq> [])"
| "storable (PDict e) = (e \<noteq> [] \<and> wf_val (PDict e) \<and> ''password'' \<notin> fst ` set e)"
| "storable v = (v = PNone)"

text \<open>The vault has the secret for the key: what is there equals what would be written.\<close>

definition has_secret :: "pydict option \<Rightarrow> pyval \<Rightarrow> bool" where
  "has_secret x v \<longleftrightarrow> (\<exists>d. x = Some d \<and> py_eq (PDict d) (secret_value v))"

definition secret_at :: "('v \<Rightarrow> string \<Rightarrow> string \<Rightarrow> pydict option) \<Rightarrow> vault_args \<Rightarrow> string \<Rightarrow> 'v vault_world \<Rightarrow> pydict option" where
  "secret_at view A k s = view (vw_vault s) (va_mount_point A) (secret_path A k)"

lemma on_vault_run: "on_vault m s = (case m (vw_vault s) of (r, v) \<Rightarrow> (r, s\<lparr>vw_vault := v\<rparr>))"
  by (simp add: on_vault_def zoom_def)

lemma on_host_files_run: "on_host_files m s = (case m (vw_host s) of (r, h) \<Rightarrow> (r, s\<lparr>vw_host := h\<rparr>))"
  by (simp add: on_host_files_def zoom_def)

lemma try_read:
  assumes "vault_laws H view"
  shows "case secret_at view A k s of
      None \<Rightarrow> (\<forall>h. read_secret H A k h s = h s)
    | Some d \<Rightarrow> \<exists>r. (\<forall>h. read_secret H A k h s = (Ret (Some r), s)) \<and> truthy r \<and> secret_data r = Ret (PDict d)"
proof -
  have "case view (vw_vault s) (va_mount_point A) (secret_path A k) of
      None \<Rightarrow> hv_read H (va_mount_point A) (secret_path A k) (vw_vault s) = (Raise invalid_path, vw_vault s)
    | Some d \<Rightarrow> \<exists>r. hv_read H (va_mount_point A) (secret_path A k) (vw_vault s) = (Ret r, vw_vault s)
        \<and> truthy r \<and> secret_data r = Ret (PDict d)"
    using assms unfolding vault_laws_def by blast
  then show ?thesis
    by (auto simp: secret_at_def read_secret_def catch_invalid_path_def bnd_def on_vault_run split: option.splits)
qed

lemma write_entry_stored:
  assumes "vault_laws H view" and "has_secret (secret_at view A k s) v"
  shows "write_entry H A k v s = (Ret (), s)"
proof -
  from assms(2) obtain d where d: "secret_at view A k s = Some d" "py_eq (PDict d) (secret_value v)"
    by (auto simp: has_secret_def)
  with try_read [OF assms(1), where A = A and k = k and s = s] obtain r where
    "read_secret H A k (ret None) s
      = (Ret (Some r), s)" "truthy r" "secret_data r = Ret (PDict d)" by auto
  with d(2) show ?thesis by (simp add: write_entry_def bnd_def whenc_def Let_def)
qed

lemma write_entry_new:
  assumes laws: "vault_laws H view" and "storable v" and "v \<noteq> PNone" and "\<not> has_secret (secret_at view A k s) v"
  shows "\<exists>v'. write_entry H A k v s = (Ret (), s\<lparr>vw_vault := v'\<rparr>)
    \<and> (\<exists>d. secret_value v = PDict d \<and> view v' = (view (vw_vault s))(va_mount_point A :=
          (view (vw_vault s) (va_mount_point A))(secret_path A k := Some d)))"
proof -
  from assms(2,3) obtain d where d: "secret_value v = PDict d" and t: "truthy v"
    by (cases v) (auto simp: secret_value_def)
  from laws obtain v' where v': "hv_write H (va_mount_point A) (secret_path A k) (PDict d) (vw_vault s) = (Ret (), v')"
    "view v' = (view (vw_vault s))(va_mount_point A := (view (vw_vault s) (va_mount_point A))(secret_path A k := Some d))"
    unfolding vault_laws_def by blast
  have "write_entry H A k v s = on_vault (hv_write H (va_mount_point A) (secret_path A k) (PDict d)) s"
  proof (cases "secret_at view A k s")
    case None
    with try_read [OF laws, where A = A and k = k and s = s] t show ?thesis
      by (simp add: write_entry_def bnd_def whenc_def Let_def d)
  next
    case (Some e)
    then have "\<not> py_eq (PDict e) (PDict d)" using assms(4) d by (simp add: has_secret_def)
    moreover obtain r where
      "read_secret H A k (ret None) s
        = (Ret (Some r), s)" "truthy r" "secret_data r = Ret (PDict e)"
      using try_read [OF laws, where A = A and k = k and s = s] Some by auto
    ultimately show ?thesis using t by (simp add: write_entry_def bnd_def whenc_def Let_def d)
  qed
  then have "write_entry H A k v s = (Ret (), s\<lparr>vw_vault := v'\<rparr>)" by (simp add: on_vault_run v'(1))
  with v'(2) d show ?thesis by blast
qed

lemma secret_eq_refl: "storable v \<Longrightarrow> v \<noteq> PNone \<Longrightarrow> py_eq (secret_value v) (secret_value v)"
  by (rule py_eq_refl) (cases v; simp add: secret_value_def)

lemma py_eq_singleton: "py_eq (PDict d) (PDict [(k, PStr t)]) \<longleftrightarrow> d = [(k, PStr t)]"
  by (cases d) (auto split: if_splits)

lemma py_eq_items_keys: "py_eq_items d e \<Longrightarrow> fst ` set d \<subseteq> fst ` set e"
proof (induction d)
  case (Cons kv d)
  then show ?case by (cases kv) (auto split: option.splits dest: map_of_SomeD intro: rev_image_eqI)
qed simp

text \<open>What reading gives: the vault's value for the key.\<close>

lemma read_entry_stored:
  assumes "vault_laws H view" and "storable v" and "v \<noteq> PNone" and "has_secret (secret_at view A k s) v"
  shows "\<exists>w. read_entry H A k s = (Ret w, s) \<and> py_eq w v"
proof -
  from assms(4) obtain d where d: "secret_at view A k s = Some d" "py_eq (PDict d) (secret_value v)"
    by (auto simp: has_secret_def)
  from try_read [OF assms(1), where A = A and k = k and s = s] d(1) obtain r where
    "\<And>h. read_secret H A k h s = (Ret (Some r), s)" "secret_data r = Ret (PDict d)"
    by auto
  then have r: "read_entry H A k s = lift (read_value r) s" "secret_data r = Ret (PDict d)"
    by (simp_all add: read_entry_def bnd_def)
  show ?thesis
  proof (cases v)
    case (PStr t)
    with d(2) have "py_eq (PDict d) (PDict [(''password'', PStr t)])" by (simp add: secret_value_def del: py_eq.simps)
    then have "d = [(''password'', PStr t)]" by (simp only: py_eq_singleton)
    with r PStr show ?thesis by (simp add: read_value_def)
  next
    case (PDict e)
    then have "''password'' \<notin> fst ` set d" using d(2) assms(2) py_eq_items_keys [of d e] by (auto simp: secret_value_def)
    then have "py_item (PDict d) ''password'' = Raise (KeyError ''password'')"
      using map_of_eq_None_iff [of d "''password''"] by simp
    with r PDict d(2) show ?thesis by (simp add: read_value_def secret_value_def)
  qed (use assms(2,3) in auto)
qed

lemma read_entry_absent:
  assumes "vault_laws H view" and "secret_at view A k s = None"
  shows "\<exists>h. read_entry H A k s = (Ret PNone, s\<lparr>vw_host := h\<rparr>) \<and> pw_files h = pw_files (vw_host s)"
  using try_read [OF assms(1), where A = A and k = k and s = s] assms(2)
  by (simp add: read_entry_def bnd_def seqc_def on_host_files_run say_def)
    (rule exI, rule conjI, rule refl, simp)

section \<open>All secrets\<close>

lemma secret_at_update:
  "secret_at view A k (s\<lparr>vw_vault := v\<rparr>) = view v (va_mount_point A) (secret_path A k)"
  "secret_at view A k (s\<lparr>vw_host := h\<rparr>) = secret_at view A k s"
  by (simp_all add: secret_at_def)

lemma secret_path_inject: "secret_path A k = secret_path A k' \<longleftrightarrow> k = k'"
  by (simp add: secret_path_def)

lemma same_vault: "\<exists>v. s = s\<lparr>vw_vault := v\<rparr> \<and> P v" if "P (vw_vault s)"
  using that by (intro exI [of _ "vw_vault s"]) simp

lemma write_entry_run:
  assumes laws: "vault_laws H view" and "storable v"
  shows "\<exists>v'. write_entry H A k v s = (Ret (), s\<lparr>vw_vault := v'\<rparr>)
    \<and> (v \<noteq> PNone \<longrightarrow> has_secret (secret_at view A k (s\<lparr>vw_vault := v'\<rparr>)) v)
    \<and> (\<forall>k'. k' \<noteq> k \<or> v = PNone \<longrightarrow> secret_at view A k' (s\<lparr>vw_vault := v'\<rparr>) = secret_at view A k' s)"
proof (cases "v \<noteq> PNone \<and> \<not> has_secret (secret_at view A k s) v")
  case True
  with write_entry_new [OF laws assms(2), of A k s] obtain v' d where
    v': "write_entry H A k v s = (Ret (), s\<lparr>vw_vault := v'\<rparr>)" "secret_value v = PDict d"
    "view v' = (view (vw_vault s))(va_mount_point A := (view (vw_vault s) (va_mount_point A))(secret_path A k := Some d))"
    by blast
  moreover have "py_eq (PDict d) (PDict d)" using secret_eq_refl [OF assms(2)] True v'(2) by simp
  ultimately show ?thesis using True
    by (intro exI [of _ v']) (simp add: has_secret_def secret_at_def secret_path_inject)
next
  case False
  then have "write_entry H A k v s = (Ret (), s)"
    using write_entry_stored [OF laws] by (cases "v = PNone") (auto simp: write_entry_def)
  with False show ?thesis by (intro exI [of _ "vw_vault s"]) auto
qed

lemma write_entries_run:
  assumes laws: "vault_laws H view"
  shows "\<lbrakk>wf_dict d; \<forall>kv \<in> set d. storable (snd kv)\<rbrakk> \<Longrightarrow>
    \<exists>v'. write_entries H A d s = (Ret (), s\<lparr>vw_vault := v'\<rparr>)
      \<and> (\<forall>k v. map_of d k = Some v \<and> v \<noteq> PNone \<longrightarrow> has_secret (secret_at view A k (s\<lparr>vw_vault := v'\<rparr>)) v)
      \<and> (\<forall>k. map_of d k = None \<or> map_of d k = Some PNone \<longrightarrow>
            secret_at view A k (s\<lparr>vw_vault := v'\<rparr>) = secret_at view A k s)"
proof (induction d arbitrary: s)
  case Nil
  then show ?case by (intro exI [of _ "vw_vault s"]) simp
next
  case (Cons kv d)
  obtain k v where kv: "kv = (k, v)" by (cases kv)
  obtain v1 where v1: "write_entry H A k v s = (Ret (), s\<lparr>vw_vault := v1\<rparr>)"
    "v \<noteq> PNone \<longrightarrow> has_secret (secret_at view A k (s\<lparr>vw_vault := v1\<rparr>)) v"
    "\<And>k'. k' \<noteq> k \<or> v = PNone \<Longrightarrow> secret_at view A k' (s\<lparr>vw_vault := v1\<rparr>) = secret_at view A k' s"
    using write_entry_run [OF laws, of v A k s] Cons.prems kv by auto
  have wf: "wf_dict d" "map_of d k = None" using Cons.prems(1) by (auto simp: kv map_of_eq_None_iff)
  from Cons.IH [of "s\<lparr>vw_vault := v1\<rparr>"] wf(1) Cons.prems(2) obtain v2 where
    v2: "write_entries H A d (s\<lparr>vw_vault := v1\<rparr>) = (Ret (), s\<lparr>vw_vault := v2\<rparr>)"
    "\<And>k v. map_of d k = Some v \<and> v \<noteq> PNone \<Longrightarrow> has_secret (secret_at view A k (s\<lparr>vw_vault := v2\<rparr>)) v"
    "\<And>k. map_of d k = None \<or> map_of d k = Some PNone \<Longrightarrow>
        secret_at view A k (s\<lparr>vw_vault := v2\<rparr>) = secret_at view A k (s\<lparr>vw_vault := v1\<rparr>)"
    by (simp add: secret_at_update) blast
  have "write_entries H A (kv # d) s = (Ret (), s\<lparr>vw_vault := v2\<rparr>)" by (simp add: kv v1(1) v2(1) seqc_Ret)
  moreover have "has_secret (secret_at view A x (s\<lparr>vw_vault := v2\<rparr>)) u"
    if "map_of (kv # d) x = Some u \<and> u \<noteq> PNone" for x u
    using that v2(2) [of x u] v2(3) [of x] v1(2) wf(2) by (auto simp: kv split: if_splits)
  moreover have "secret_at view A x (s\<lparr>vw_vault := v2\<rparr>) = secret_at view A x s"
    if "map_of (kv # d) x = None \<or> map_of (kv # d) x = Some PNone" for x
    using that v2(3) [of x] v1(3) [of x] wf(2) by (auto simp: kv split: if_splits)
  ultimately show ?case by blast
qed

lemma write_entries_stored:
  assumes "vault_laws H view"
  shows "\<forall>kv \<in> set d. snd kv = PNone \<or> has_secret (secret_at view A (fst kv) s) (snd kv) \<Longrightarrow>
    write_entries H A d s = (Ret (), s)"
proof (induction d)
  case (Cons kv d)
  then have "write_entry H A (fst kv) (snd kv) s = (Ret (), s)"
    using write_entry_stored [OF assms, of A "fst kv" s "snd kv"] by (auto simp: write_entry_def)
  with Cons show ?case by (simp add: seqc_Ret)
qed simp

lemma read_entries_run:
  assumes laws: "vault_laws H view"
  shows "\<lbrakk>\<forall>kv \<in> set d. storable (snd kv) \<and> (snd kv = PNone \<and> secret_at view A (fst kv) s = None
        \<or> snd kv \<noteq> PNone \<and> has_secret (secret_at view A (fst kv) s) (snd kv))\<rbrakk> \<Longrightarrow>
    \<exists>d' h. read_entries H A (map fst d) s = (Ret d', s\<lparr>vw_host := h\<rparr>) \<and> pw_files h = pw_files (vw_host s)
      \<and> list_all2 (\<lambda>old new. fst new = fst old \<and> py_eq (snd new) (snd old)) d d'"
proof (induction d arbitrary: s)
  case Nil
  then show ?case by (intro exI [of _ "[]"] exI [of _ "vw_host s"]) simp
next
  case (Cons kv d)
  obtain k v where kv: "kv = (k, v)" by (cases kv)
  have "\<exists>w h. read_entry H A k s = (Ret w, s\<lparr>vw_host := h\<rparr>) \<and> pw_files h = pw_files (vw_host s) \<and> py_eq w v"
  proof (cases "v = PNone")
    case True
    with read_entry_absent [OF laws, of A k s] Cons.prems kv show ?thesis by auto
  next
    case False
    with read_entry_stored [OF laws, of v A k s] Cons.prems kv obtain w
      where "read_entry H A k s = (Ret w, s)" "py_eq w v" by auto
    then show ?thesis by (intro exI [of _ w] exI [of _ "vw_host s"]) simp
  qed
  then obtain w h where w: "read_entry H A k s = (Ret w, s\<lparr>vw_host := h\<rparr>)" "pw_files h = pw_files (vw_host s)" "py_eq w v"
    by blast
  from Cons.IH [of "s\<lparr>vw_host := h\<rparr>"] Cons.prems obtain d' h' where
    d': "read_entries H A (map fst d) (s\<lparr>vw_host := h\<rparr>) = (Ret d', s\<lparr>vw_host := h'\<rparr>)" "pw_files h' = pw_files h"
    "list_all2 (\<lambda>old new. fst new = fst old \<and> py_eq (snd new) (snd old)) d d'"
    by (auto simp: secret_at_update)
  have "read_entries H A (map fst (kv # d)) s = (Ret ((k, w) # d'), s\<lparr>vw_host := h'\<rparr>)"
    by (simp add: kv bnd_def w(1) d'(1))
  with w d' show ?case by (intro exI [of _ "(k, w) # d'"] exI [of _ h']) (simp add: kv)
qed

section \<open>Writing and reading back\<close>

lemma vault_exit_returns: "vault_exit msg s \<noteq> (Ret x, t)"
  by (auto simp: vault_exit_def seqc_def bnd_def on_host_files_run say_def sys_exit_def)

lemma on_vault_keeps:
  "\<lbrakk>on_vault m s = (Ret x, t); view (snd (m (vw_vault s))) = view (vw_vault s)\<rbrakk> \<Longrightarrow>
    vw_host t = vw_host s \<and> view (vw_vault t) = view (vw_vault s)"
  by (auto simp: on_vault_run split: prod.splits)

lemma client_parts_keep:
  assumes "vault_laws H view"
  shows "check_vault_options A s = (Ret (), t) \<Longrightarrow> t = s"
    and "set_ca_bundle A s = (Ret (), t) \<Longrightarrow> vw_host t = vw_host s \<and> vw_vault t = vw_vault s"
    and "connect_vault H A s = (Ret (), t) \<Longrightarrow> vw_host t = vw_host s \<and> view (vw_vault t) = view (vw_vault s)"
    and "check_authenticated H s = (Ret (), t) \<Longrightarrow> vw_host t = vw_host s \<and> view (vw_vault t) = view (vw_vault s)"
proof -
  have c: "view (snd (hv_client H u t' n v)) = view v" "view (snd (hv_login H r s' v)) = view v"
    "view (snd (hv_authenticated H v)) = view v" for u t' n v r s'
    using assms by (auto simp: vault_laws_def)
  note call = on_vault_keeps [where view = view]
  show "check_vault_options A s = (Ret (), t) \<Longrightarrow> t = s"
    by (auto simp: check_vault_options_def vault_exit_returns split: if_splits)
  show "set_ca_bundle A s = (Ret (), t) \<Longrightarrow> vw_host t = vw_host s \<and> vw_vault t = vw_vault s"
    by (auto simp: set_ca_bundle_def whenc_def split: if_splits)
  show "connect_vault H A s = (Ret (), t) \<Longrightarrow> vw_host t = vw_host s \<and> view (vw_vault t) = view (vw_vault s)"
    by (auto simp: connect_vault_def seqc_returns c split: if_splits dest!: call)
  show "check_authenticated H s = (Ret (), t) \<Longrightarrow> vw_host t = vw_host s \<and> view (vw_vault t) = view (vw_vault s)"
    by (auto simp: check_authenticated_def bnd_returns vault_exit_returns c split: if_splits dest!: call)
qed

lemma client_keeps:
  assumes laws: "vault_laws H view" and "hashicorp_vault_client H A s = (Ret (), t)"
  shows "vw_host t = vw_host s \<and> view (vw_vault t) = view (vw_vault s)"
proof -
  from assms(2) obtain u1 u2 u3 where u: "check_vault_options A s = (Ret (), u1)"
    "set_ca_bundle A u1 = (Ret (), u2)" "connect_vault H A u2 = (Ret (), u3)" "check_authenticated H u3 = (Ret (), t)"
    by (auto simp: hashicorp_vault_client_def seqc_returns)
  show ?thesis
    using client_parts_keep(1) [OF laws u(1)] client_parts_keep(2) [OF laws u(2)]
      client_parts_keep(3) [OF laws u(3)] client_parts_keep(4) [OF laws u(4)] by simp
qed

text \<open>passwords survive the vault. For a password file whose values are non-empty strings, non-empty
  dictionaries without a key \<open>password\<close> (the ssh keys), or missing (and not in the vault either),
  \<open>writepwd\<close> stores all of them and \<open>readpwd\<close> afterwards restores the file: the same keys, now in
  alphabetical order, with equal values. \<open>writepwd\<close> changes no file, and writing again sends nothing to the vault.
\<close>

theorem vault_roundtrip:
  assumes "vault_laws H view" and "\<forall>s. fst (hashicorp_vault_client H A s) = Ret ()"
    and "pw_files (vw_host s) path = Some f" and "pf_doc f = PDict d" and "wf_dict d"
    and "\<forall>kv \<in> set d. storable (snd kv) \<and> (snd kv = PNone \<longrightarrow> secret_at view A (fst kv) s = None)"
  shows "\<exists>s1 s2 d'. writepwd H path A s = (Ret (), s1)
    \<and> pw_files (vw_host s1) = pw_files (vw_host s)
    \<and> write_entries H A d s1 = (Ret (), s1)
    \<and> readpwd H path A s1 = (Ret (), s2)
    \<and> map_option pf_doc (pw_files (vw_host s2) path) = Some (PDict d')
    \<and> mset (map fst d') = mset (map fst d) \<and> sorted (map (\<lambda>kv. Key (fst kv)) d')
    \<and> (\<forall>k v. map_of d k = Some v \<longrightarrow> (\<exists>x. map_of d' k = Some x \<and> py_eq x v))"
proof -
  let ?A = "\<lambda>k t. secret_at view A k t"
  have client: "\<exists>t'. hashicorp_vault_client H A t = (Ret (), t') \<and> vw_host t' = vw_host t \<and> view (vw_vault t') = view (vw_vault t)" for t
  proof -
    obtain t' where "hashicorp_vault_client H A t = (Ret (), t')"
      using assms(2) by (metis prod.collapse)
    with client_keeps [OF assms(1)] show ?thesis by blast
  qed
  obtain o1 where o1: "warn_mode path [] (vw_host s) = (Ret (), (vw_host s)\<lparr>pw_out := o1\<rparr>)"
    using warn_mode_run [of "vw_host s" path] assms(3) by fastforce
  let ?h1 = "(vw_host s)\<lparr>pw_out := o1\<rparr>"
  obtain t1 where t1: "hashicorp_vault_client H A (s\<lparr>vw_host := ?h1\<rparr>) = (Ret (), t1)" "vw_host t1 = ?h1"
    "view (vw_vault t1) = view (vw_vault s)" using client [of "s\<lparr>vw_host := ?h1\<rparr>"] by auto
  obtain v1 where v1: "write_entries H A d t1 = (Ret (), t1\<lparr>vw_vault := v1\<rparr>)"
    "\<And>k v. map_of d k = Some v \<and> v \<noteq> PNone \<Longrightarrow> has_secret (?A k (t1\<lparr>vw_vault := v1\<rparr>)) v"
    "\<And>k. map_of d k = None \<or> map_of d k = Some PNone \<Longrightarrow> ?A k (t1\<lparr>vw_vault := v1\<rparr>) = ?A k t1"
    using write_entries_run [OF assms(1,5), of A t1] assms(6) by blast
  let ?s1 = "t1\<lparr>vw_vault := v1\<rparr>"
  have wrote: "writepwd H path A s = (Ret (), ?s1)"
    using assms(3,4) o1 t1(1) v1(1)
    by (simp add: writepwd_def read_doc_def on_host_files_run bnd_def seqc_def)
  have look: "map_of d (fst kv) = Some (snd kv)" if "kv \<in> set d" for kv
    using that map_of_in_wf [OF assms(5), of "fst kv" "snd kv"] by simp
  have stored: "storable (snd kv) \<and> (snd kv = PNone \<and> ?A (fst kv) ?s1 = None
      \<or> snd kv \<noteq> PNone \<and> has_secret (?A (fst kv) ?s1) (snd kv))" if "kv \<in> set d" for kv
    using assms(6) that look [OF that] v1(2) [of "fst kv" "snd kv"] v1(3) [of "fst kv"] t1(3)
    by (auto simp: secret_at_def)
  then have again: "write_entries H A d ?s1 = (Ret (), ?s1)"
    by (intro write_entries_stored [OF assms(1)]) blast
  have host1: "vw_host ?s1 = ?h1" using t1(2) by simp
  obtain o2 where o2: "warn_mode path '' The permissions will be changed.'' ?h1 = (Ret (), (vw_host s)\<lparr>pw_out := o2\<rparr>)"
    using warn_mode_run [of ?h1 path] assms(3) by fastforce
  let ?h2 = "(vw_host s)\<lparr>pw_out := o2\<rparr>"
  obtain t2 where t2: "hashicorp_vault_client H A (?s1\<lparr>vw_host := ?h2\<rparr>) = (Ret (), t2)" "vw_host t2 = ?h2"
    "view (vw_vault t2) = view v1" using client [of "?s1\<lparr>vw_host := ?h2\<rparr>"] by auto
  have "?A k t2 = ?A k ?s1" for k by (simp add: secret_at_def t2(3))
  with stored obtain d' h where d': "read_entries H A (map fst d) t2 = (Ret d', t2\<lparr>vw_host := h\<rparr>)"
    "pw_files h = pw_files ?h2" "list_all2 (\<lambda>old new. fst new = fst old \<and> py_eq (snd new) (snd old)) d d'"
    using read_entries_run [OF assms(1), of d A t2] t2(2) by auto
  have "\<exists>s2. readpwd H path A ?s1 = (Ret (), s2) \<and> map_option pf_doc (pw_files (vw_host s2) path) = Some (PDict (dump_items d'))"
    using assms(3,4) o2 t2(1) d'(1) host1
    by (simp add: readpwd_def read_doc_def on_host_files_run bnd_def seqc_def write_private_run)
  moreover have "\<exists>x. map_of (dump_items d') k = Some x \<and> py_eq x v" if "map_of d k = Some v" for k v
    using filled_lookup [where P = "\<lambda>k v w. py_eq w v", OF d'(3), of k] that by (auto simp: py_eq_dumped)
  moreover have "mset (map fst (dump_items d')) = mset (map fst d)"
    by (simp only: keys_dump_items filled_keys [where P = "\<lambda>k v w. py_eq w v", OF d'(3)])
  moreover have "pw_files (vw_host ?s1) = pw_files (vw_host s)" using host1 by simp
  ultimately show ?thesis using wrote again sorted_dump_items [of d'] by blast
qed

section \<open>Witness\<close>

text \<open>A vault that is a table of secrets; a read wraps the data the way the KV engine does.\<close>

type_synonym table_vault = "string \<Rightarrow> string \<Rightarrow> pydict option"

definition sample_hvac :: "table_vault hvac" where
  "sample_hvac =
     \<lparr>hv_client = (\<lambda>u t n. ret ()), hv_login = (\<lambda>r s. ret ()), hv_authenticated = ret True,
      hv_read = (\<lambda>m p v. (case v m p of
          None \<Rightarrow> Raise invalid_path
        | Some d \<Rightarrow> Ret (PDict [(''data'', PDict [(''data'', PDict d)])]), v)),
      hv_write = (\<lambda>m p x v. case x of
          PDict d \<Rightarrow> (Ret (), v(m := (v m)(p := Some d)))
        | _ \<Rightarrow> (Raise ValueError, v))\<rparr>"

lemma sample_vault_laws: "vault_laws sample_hvac (\<lambda>v. v)"
  by (auto simp: vault_laws_def sample_hvac_def secret_data_def split: option.splits)

definition sample_vault_args :: vault_args where
  "sample_vault_args =
     \<lparr>va_namespace = [], va_addr = ''https://vault'', va_role_id = [], va_secret_id = [], va_token = ''t'',
      va_cacert = [], va_mount_point = ''kv'', va_kv_path = ''kolla_passwords''\<rparr>"

definition sample_secrets :: pydict where
  "sample_secrets =
     [(''database_password'', PStr ''secret''), (''docker_registry_password'', PNone),
      (''nova_ssh_key'', PDict [(''private_key'', PStr ''p''), (''public_key'', PStr ''q'')])]"

definition sample_vault_world :: "table_vault vault_world" where
  "sample_vault_world =
     \<lparr>vw_host = \<lparr>pw_files = [''p.yml'' \<mapsto> \<lparr>pf_doc = PDict sample_secrets, pf_mode = private_mode\<rparr>], pw_out = [],
        pw_entropy = (), pw_umask = 0, pw_removable = (\<lambda>p. True)\<rparr>, vw_environ = [], vw_vault = (\<lambda>m p. None)\<rparr>"

lemma sample_client: "fst (hashicorp_vault_client sample_hvac sample_vault_args s) = Ret ()"
  by (simp add: hashicorp_vault_client_def check_vault_options_def set_ca_bundle_def connect_vault_def
      check_authenticated_def sample_vault_args_def sample_hvac_def on_vault_def zoom_def bnd_def seqc_def)

lemma vault_roundtrip_witness:
  "\<exists>s1 s2 d'. writepwd sample_hvac ''p.yml'' sample_vault_args sample_vault_world = (Ret (), s1)
     \<and> readpwd sample_hvac ''p.yml'' sample_vault_args s1 = (Ret (), s2)
     \<and> map_option pf_doc (pw_files (vw_host s2) ''p.yml'') = Some (PDict d')
     \<and> map_of d' ''database_password'' = Some (PStr ''secret'')"
proof -
  have "pw_files (vw_host sample_vault_world) ''p.yml'' = Some \<lparr>pf_doc = PDict sample_secrets, pf_mode = private_mode\<rparr>"
    by (simp add: sample_vault_world_def)
  moreover have "wf_dict sample_secrets" by code_simp
  moreover have "\<forall>kv \<in> set sample_secrets. storable (snd kv)
      \<and> (snd kv = PNone \<longrightarrow> secret_at (\<lambda>v. v) sample_vault_args (fst kv) sample_vault_world = None)"
    by (simp add: sample_secrets_def secret_at_def sample_vault_world_def)
  ultimately obtain s1 s2 d' where
    "writepwd sample_hvac ''p.yml'' sample_vault_args sample_vault_world = (Ret (), s1)"
    "readpwd sample_hvac ''p.yml'' sample_vault_args s1 = (Ret (), s2)"
    "map_option pf_doc (pw_files (vw_host s2) ''p.yml'') = Some (PDict d')"
    and same: "\<And>k v. map_of sample_secrets k = Some v \<Longrightarrow> \<exists>x. map_of d' k = Some x \<and> py_eq x v"
    using vault_roundtrip [OF sample_vault_laws, of sample_vault_args sample_vault_world "''p.yml''"
        "\<lparr>pf_doc = PDict sample_secrets, pf_mode = private_mode\<rparr>" sample_secrets] sample_client
    by auto
  moreover have "map_of d' ''database_password'' = Some (PStr ''secret'')"
    using same [of "''database_password''" "PStr ''secret''"] by (simp add: sample_secrets_def)
  ultimately show ?thesis by blast
qed

end
