(* ===== verification/Fernet_Cron.thy ===== *)
theory Fernet_Cron
  imports Py_Values
begin

text \<open>
  \<open>ansible/roles/keystone/files/fernet_rotate_cron_generator.py\<close>: the cron jobs that rotate the Fernet
  keys round-robin over the hosts. A \<open>while\<close> loop of the source may run forever (an interval of
  zero minutes), so the loop is a \<open>partial_function\<close> and \<open>None\<close> means that it does not end.
\<close>

section \<open>Definitions\<close>

datatype cron_field = Star | At int

record cron =
  cr_min :: cron_field
  cr_hour :: cron_field
  cr_day :: cron_field

definition MINUTE_SPAN :: int where
  "MINUTE_SPAN = 1"

definition HOUR_SPAN :: int where
  "HOUR_SPAN = 60"

definition DAY_SPAN :: int where
  "DAY_SPAN = 24 * HOUR_SPAN"

definition WEEK_SPAN :: int where
  "WEEK_SPAN = 7 * DAY_SPAN"

lemmas span_defs = MINUTE_SPAN_def HOUR_SPAN_def DAY_SPAN_def WEEK_SPAN_def

definition rotation_too_long :: exn where
  "rotation_too_long = PyError (''Unable to schedule fernet key rotation with an interval ''
     @ ''greater than 1 week divided by the number of hosts'')"

text \<open>\<open>while time + rot_rotation_mins <= span: ...; time += host_rotation_mins\<close>, with the job built
  at each time.\<close>

partial_function (option) cron_loop ::
    "(int \<Rightarrow> cron) \<Rightarrow> int \<Rightarrow> int \<Rightarrow> int \<Rightarrow> int \<Rightarrow> cron list option" where
  "cron_loop job span rot step time =
     (if time + rot \<le> span
      then Option.bind (cron_loop job span rot step (time + step)) (\<lambda>crons. Some (job time # crons))
      else Some [])"

definition day_job :: "int \<Rightarrow> cron" where
  "day_job time = \<lparr>cr_min = At (time mod HOUR_SPAN), cr_hour = At (time mod HOUR_SPAN),
                   cr_day = At (time div DAY_SPAN)\<rparr>"

definition hour_job :: "int \<Rightarrow> cron" where
  "hour_job time = \<lparr>cr_min = At (time mod HOUR_SPAN), cr_hour = At (time div HOUR_SPAN), cr_day = Star\<rparr>"

definition minute_job :: "int \<Rightarrow> cron" where
  "minute_job time = \<lparr>cr_min = At (time div MINUTE_SPAN), cr_hour = Star, cr_day = Star\<rparr>"

definition generate :: "int \<Rightarrow> int \<Rightarrow> int \<Rightarrow> cron list outcome option" where
  "generate host_index total_hosts total_rotation_mins =
     (if host_index \<ge> total_hosts then Some (Ret [])
      else
        let host_rotation_mins = total_rotation_mins * total_hosts;
            host_rotation_offset = total_rotation_mins * host_index
        in if total_rotation_mins > WEEK_SPAN then Some (Raise rotation_too_long)
           else if host_rotation_mins > DAY_SPAN
           then map_option Ret (cron_loop day_job WEEK_SPAN total_rotation_mins host_rotation_mins host_rotation_offset)
           else if host_rotation_mins > HOUR_SPAN
           then map_option Ret (cron_loop hour_job DAY_SPAN total_rotation_mins host_rotation_mins host_rotation_offset)
           else map_option Ret (cron_loop minute_job HOUR_SPAN total_rotation_mins host_rotation_mins host_rotation_offset))"

fun cron_value :: "cron_field \<Rightarrow> pyval" where
  "cron_value Star = PStr ''*''"
| "cron_value (At i) = PInt i"

definition cron_dict :: "cron \<Rightarrow> pyval" where
  "cron_dict c = PDict [(''min'', cron_value (cr_min c)), (''hour'', cron_value (cr_hour c)),
                        (''day'', cron_value (cr_day c))]"

text \<open>What \<open>main\<close> prints through \<open>json_exit\<close>, given the parsed arguments and \<open>str\<close> of an exception.\<close>

definition json_exit_msg :: "pydict \<Rightarrow> bool \<Rightarrow> pydict" where
  "json_exit_msg msg failed =
     dict_update msg [(''failed'', PBool failed), (''changed'', PBool False)]"

definition fernet_main :: "(exn \<Rightarrow> string) \<Rightarrow> int \<Rightarrow> int \<Rightarrow> int \<Rightarrow> pydict option" where
  "fernet_main str_exn index number time =
     map_option (\<lambda>r. case r of
         Ret jobs \<Rightarrow> json_exit_msg [(''cron_jobs'', PList (map cron_dict jobs))] False
       | Raise e \<Rightarrow> json_exit_msg [(''msg'', PStr (str_exn e))] True
       | Exit k d \<Rightarrow> d)
     (generate index number time)"

section \<open>The loop\<close>

text \<open>The slots a loop visits: from \<open>time\<close>, every \<open>step\<close>, as long as a whole interval fits.\<close>

definition slot_count :: "int \<Rightarrow> int \<Rightarrow> int \<Rightarrow> int \<Rightarrow> nat" where
  "slot_count span rot step time = (if time + rot \<le> span then nat ((span - rot - time) div step) + 1 else 0)"

definition slots :: "int \<Rightarrow> int \<Rightarrow> int \<Rightarrow> int \<Rightarrow> int list" where
  "slots span rot step time = map (\<lambda>k. time + int k * step) [0..<slot_count span rot step time]"

lemma le_div_iff_mult_le: "(k::int) \<le> x div s \<longleftrightarrow> k * s \<le> x" if "0 < s"
proof
  assume "k \<le> x div s"
  then have "k * s \<le> (x div s) * s" using that by simp
  also have "\<dots> \<le> x" using that by (simp add: minus_mod_eq_div_mult [symmetric])
  finally show "k * s \<le> x" .
next
  assume "k * s \<le> x"
  then have "k * s div s \<le> x div s" using that by (rule zdiv_mono1)
  then show "k \<le> x div s" using that by simp
qed

lemma less_slot_count:
  assumes "0 < step"
  shows "k < slot_count span rot step time \<longleftrightarrow> time + int k * step + rot \<le> span"
proof (cases "time + rot \<le> span")
  case True
  then have "0 \<le> (span - rot - time) div step" using assms by (simp add: pos_imp_zdiv_nonneg_iff)
  then have "k < slot_count span rot step time \<longleftrightarrow> int k \<le> (span - rot - time) div step"
    using True by (simp add: slot_count_def) linarith
  also have "\<dots> \<longleftrightarrow> int k * step \<le> span - rot - time" by (rule le_div_iff_mult_le [OF assms])
  finally show ?thesis by linarith
next
  case False
  have "0 \<le> int k * step" using assms by simp
  with False show ?thesis by (simp add: slot_count_def)
qed

lemma slot_count_step:
  assumes "0 < step" and "time + rot \<le> span"
  shows "slot_count span rot step time = Suc (slot_count span rot step (time + step))"
proof -
  have "k < slot_count span rot step time \<longleftrightarrow> k < Suc (slot_count span rot step (time + step))" for k
  proof (cases k)
    case 0
    then show ?thesis using assms less_slot_count [OF assms(1), of 0] by simp
  next
    case (Suc n)
    then show ?thesis
      using less_slot_count [OF assms(1), of "Suc n" span rot time]
        less_slot_count [OF assms(1), of n span rot "time + step"] by (simp add: algebra_simps)
  qed
  then show ?thesis by (metis linorder_neqE_nat order_less_irrefl)
qed

lemma slots_step:
  assumes "0 < step" and "time + rot \<le> span"
  shows "slots span rot step time = time # slots span rot step (time + step)"
proof -
  have "[0..<Suc n] = 0 # map Suc [0..<n]" for n by (simp add: map_Suc_upt upt_conv_Cons)
  then show ?thesis
    by (simp only: slots_def slot_count_step [OF assms] list.map map_map)
       (simp add: comp_def algebra_simps)
qed

lemma set_slots:
  assumes "0 < step"
  shows "set (slots span rot step time) = {time + int k * step |k. time + int k * step + rot \<le> span}"
  using less_slot_count [OF assms] by (auto simp: slots_def simp del: upt_Suc)

lemma cron_loop_slots:
  assumes "0 < step"
  shows "cron_loop job span rot step time = Some (map job (slots span rot step time))"
proof (induction "nat (span - rot - time + 1)" arbitrary: time rule: less_induct)
  case less
  show ?case
  proof (cases "time + rot \<le> span")
    case True
    then have "nat (span - rot - (time + step) + 1) < nat (span - rot - time + 1)" using assms by simp
    from less [OF this] True slots_step [OF assms True] show ?thesis by (subst cron_loop.simps) simp
  next
    case False
    then show ?thesis by (subst cron_loop.simps) (simp add: slots_def slot_count_def)
  qed
qed

lemma cron_loop_runs_on:
  "\<lbrakk>step \<le> 0; time + rot \<le> span\<rbrakk> \<Longrightarrow> cron_loop job span rot step time \<noteq> Some r"
proof (induction r arbitrary: time)
  case Nil
  then show ?case by (subst cron_loop.simps) (auto simp: bind_eq_Some_conv)
next
  case (Cons c r)
  have "cron_loop job span rot step (time + step) \<noteq> Some r" using Cons.prems by (intro Cons.IH) auto
  then show ?case using Cons.prems by (subst cron_loop.simps) (auto simp: bind_eq_Some_conv)
qed

section \<open>When it ends\<close>

text \<open>C29: For a host of the group, \<open>generate\<close> ends exactly when the interval is positive (with zero or
  fewer minutes its loop appends jobs forever), raises \<open>RotationIntervalTooLong\<close> exactly for more
  than a week, and returns jobs otherwise; a host index outside the group gets no jobs.\<close>

theorem generate_ends:
  assumes "0 \<le> i"
  shows "(i < n \<longrightarrow> (generate i n t = None \<longleftrightarrow> t \<le> 0))
    \<and> (i < n \<longrightarrow> (generate i n t = Some (Raise rotation_too_long) \<longleftrightarrow> WEEK_SPAN < t))
    \<and> (i < n \<and> 0 < t \<and> t \<le> WEEK_SPAN \<longrightarrow> (\<exists>jobs. generate i n t = Some (Ret jobs)))
    \<and> (n \<le> i \<longrightarrow> generate i n t = Some (Ret []))"
proof -
  have pos: "\<exists>jobs. generate i n t = Some (Ret jobs)" if "i < n" "0 < t" "t \<le> WEEK_SPAN"
  proof -
    have "0 < t * n" using that assms by simp
    with that show ?thesis by (simp add: generate_def Let_def cron_loop_slots)
  qed
  have neg: "generate i n t = None" if "i < n" "t \<le> 0"
  proof -
    have n: "t * n \<le> 0" and o: "t * i \<le> 0" using that assms by (simp_all add: mult_le_0_iff)
    then have "t * i + t \<le> HOUR_SPAN" using that by (simp add: span_defs)
    with n have "cron_loop minute_job HOUR_SPAN t (t * n) (t * i) = None"
      using cron_loop_runs_on by (metis not_None_eq)
    with that n show ?thesis by (simp add: generate_def Let_def span_defs)
  qed
  have long: "generate i n t = Some (Raise rotation_too_long)" if "i < n" "WEEK_SPAN < t"
    using that by (simp add: generate_def Let_def)
  show ?thesis
  proof (cases "i < n")
    case True
    consider "t \<le> 0" | "0 < t" "t \<le> WEEK_SPAN" | "WEEK_SPAN < t" by linarith
    then show ?thesis
    proof cases
      case 1
      then have "\<not> WEEK_SPAN < t" by (simp add: span_defs)
      with 1 True neg show ?thesis by simp
    next
      case 2
      with True pos show ?thesis by auto
    next
      case 3
      then have "0 < t" by (simp add: span_defs)
      with 3 True long show ?thesis by simp
    qed
  next
    case False
    then show ?thesis by (simp add: generate_def)
  qed
qed

theorem generate_ends_witness:
  "generate 0 3 0 = None \<and> generate 0 1 10081 = Some (Raise rotation_too_long)"
  using generate_ends [of 0 3 0] generate_ends [of 0 1 10081] by (simp add: span_defs)

section \<open>Round robin\<close>

fun field_value :: "cron_field \<Rightarrow> int" where
  "field_value Star = 0"
| "field_value (At i) = i"

text \<open>The minute of its period at which a job runs, and what cron accepts in the three fields.\<close>

definition fire_time :: "cron \<Rightarrow> int" where
  "fire_time c = field_value (cr_day c) * DAY_SPAN + field_value (cr_hour c) * HOUR_SPAN + field_value (cr_min c)"

definition valid_cron :: "cron \<Rightarrow> bool" where
  "valid_cron c \<longleftrightarrow> field_value (cr_min c) \<in> {0..59} \<and> field_value (cr_hour c) \<in> {0..23}
     \<and> field_value (cr_day c) \<in> {0..6}"

definition period :: "int \<Rightarrow> int \<Rightarrow> int" where
  "period n t = (if DAY_SPAN < t * n then WEEK_SPAN else if HOUR_SPAN < t * n then DAY_SPAN else HOUR_SPAN)"

lemma host_slots:
  assumes "0 < t" and "0 \<le> i" and "i < n"
  shows "set (slots span t (t * n) (t * i)) = {s. 0 \<le> s \<and> s + t \<le> span \<and> t dvd s \<and> (s div t) mod n = i}"
proof (intro set_eqI iffI)
  fix s
  assume "s \<in> set (slots span t (t * n) (t * i))"
  then obtain k where k: "s = t * i + int k * (t * n)" "s + t \<le> span"
    using assms by (auto simp: set_slots)
  then have s: "s = t * (i + int k * n)" by (simp add: algebra_simps)
  then have "s div t = i + int k * n" using assms(1) by simp
  moreover have "0 \<le> s" using s assms by simp
  moreover have "t dvd s" using s by simp
  ultimately show "s \<in> {s. 0 \<le> s \<and> s + t \<le> span \<and> t dvd s \<and> (s div t) mod n = i}" using k assms by simp
next
  fix s
  assume s: "s \<in> {s. 0 \<le> s \<and> s + t \<le> span \<and> t dvd s \<and> (s div t) mod n = i}"
  then obtain m where m: "s = t * m" by (auto simp: dvd_def)
  then have "s div t = m" using assms(1) by simp
  with s have i: "m mod n = i" and "0 \<le> m" using m assms(1) by (auto simp: zero_le_mult_iff)
  then have "0 \<le> m div n" using assms by (simp add: pos_imp_zdiv_nonneg_iff)
  moreover have "m = i + (m div n) * n" using i by (simp add: minus_mod_eq_div_mult [symmetric])
  ultimately have "s = t * i + int (nat (m div n)) * (t * n)" using m by (metis distrib_left int_nat_eq mult.assoc mult.commute)
  moreover have "0 < t * n" using assms by simp
  moreover have "s + t \<le> span" using s by simp
  ultimately show "s \<in> set (slots span t (t * n) (t * i))" unfolding set_slots [OF \<open>0 < t * n\<close>] by blast
qed

lemma fire_hour_job: "fire_time (hour_job s) = s" "0 \<le> s \<Longrightarrow> s < DAY_SPAN \<Longrightarrow> valid_cron (hour_job s)"
  by (auto simp: fire_time_def hour_job_def valid_cron_def span_defs)

lemma fire_minute_job: "fire_time (minute_job s) = s" "0 \<le> s \<Longrightarrow> s < HOUR_SPAN \<Longrightarrow> valid_cron (minute_job s)"
  by (auto simp: fire_time_def minute_job_def valid_cron_def span_defs)

lemma fire_day_job:
  "DAY_SPAN dvd s \<Longrightarrow> fire_time (day_job s) = s"
  "DAY_SPAN dvd s \<Longrightarrow> 0 \<le> s \<Longrightarrow> s < WEEK_SPAN \<Longrightarrow> valid_cron (day_job s)"
  by (auto simp: fire_time_def day_job_def valid_cron_def span_defs dvd_def)

lemma host_jobs:
  assumes "0 < t" and "0 \<le> i" and "i < n"
    and job: "\<forall>s. t dvd s \<longrightarrow> 0 \<le> s \<longrightarrow> s < span \<longrightarrow> fire_time (job s) = s \<and> valid_cron (job s)"
  shows "\<exists>jobs. map_option Ret (cron_loop job span t (t * n) (t * i)) = Some (Ret jobs)
    \<and> fire_time ` set jobs = {s. 0 \<le> s \<and> s + t \<le> span \<and> t dvd s \<and> (s div t) mod n = i}
    \<and> (\<forall>c \<in> set jobs. valid_cron c)"
proof -
  have n: "0 < t * n" using assms by simp
  let ?s = "slots span t (t * n) (t * i)"
  have in_span: "fire_time (job s) = s \<and> valid_cron (job s)" if "s \<in> set ?s" for s
    using that job assms(1) unfolding host_slots [OF assms(1-3)] by simp
  then have "fire_time ` set (map job ?s) = set ?s" by (auto simp: image_image)
  moreover have "\<forall>c \<in> set (map job ?s). valid_cron c" using in_span by auto
  ultimately show ?thesis
    unfolding cron_loop_slots [OF n] host_slots [OF assms(1-3)] by auto
qed

text \<open>C28: The jobs of the hosts are a round robin without overlap: as long as a full cycle fits in a day,
  or the interval is a whole number of days, the jobs of host \<open>i\<close> run exactly at those multiples of
  the interval in the period (an hour, a day or a week) whose number is \<open>i\<close> modulo the number of
  hosts, each with a whole interval before the period ends, and all are valid for cron. So every
  slot of the period belongs to exactly one host.\<close>

theorem generate_round_robin:
  assumes "0 < t" and "0 \<le> i" and "i < n" and "t * n \<le> DAY_SPAN \<or> (DAY_SPAN dvd t \<and> t \<le> WEEK_SPAN)"
  shows "\<exists>jobs. generate i n t = Some (Ret jobs)
    \<and> fire_time ` set jobs = {s. 0 \<le> s \<and> s + t \<le> period n t \<and> t dvd s \<and> (s div t) mod n = i}
    \<and> (\<forall>c \<in> set jobs. valid_cron c)"
proof -
  have "t \<le> t * n" using assms mult_left_mono [of 1 n t] by simp
  then have w: "\<not> WEEK_SPAN < t" using assms(4) by (elim disjE) (simp_all add: span_defs)
  have loop: "\<exists>jobs. map_option Ret (cron_loop job span t (t * n) (t * i)) = Some (Ret jobs)
      \<and> fire_time ` set jobs = {s. 0 \<le> s \<and> s + t \<le> span \<and> t dvd s \<and> (s div t) mod n = i}
      \<and> (\<forall>c \<in> set jobs. valid_cron c)"
    if "\<forall>s. t dvd s \<longrightarrow> 0 \<le> s \<longrightarrow> s < span \<longrightarrow> fire_time (job s) = s \<and> valid_cron (job s)" for job span
    by (rule host_jobs [OF assms(1-3) that])
  consider (day) "DAY_SPAN < t * n" | (hour) "\<not> DAY_SPAN < t * n" "HOUR_SPAN < t * n"
    | (minute) "\<not> HOUR_SPAN < t * n" "\<not> DAY_SPAN < t * n" by blast
  then show ?thesis
  proof cases
    case day
    then have dvd: "DAY_SPAN dvd t" using assms(4) by simp
    have "\<forall>s. t dvd s \<longrightarrow> 0 \<le> s \<longrightarrow> s < WEEK_SPAN \<longrightarrow> fire_time (day_job s) = s \<and> valid_cron (day_job s)"
      using fire_day_job dvd_trans [OF dvd] by simp
    from loop [OF this] show ?thesis using day w assms(3) by (simp add: generate_def Let_def period_def)
  next
    case hour
    from loop [of DAY_SPAN hour_job] fire_hour_job hour w assms(3)
    show ?thesis by (simp add: generate_def Let_def period_def)
  next
    case minute
    from loop [of HOUR_SPAN minute_job] fire_minute_job minute w assms(3)
    show ?thesis by (simp add: generate_def Let_def period_def)
  qed
qed

theorem generate_round_robin_witness:
  "\<exists>jobs. generate 1 3 20 = Some (Ret jobs) \<and> fire_time ` set jobs = {20}"
proof -
  obtain jobs where j: "generate 1 3 20 = Some (Ret jobs)"
    and f: "fire_time ` set jobs = {s. 0 \<le> s \<and> s + 20 \<le> period 3 20 \<and> 20 dvd s \<and> (s div 20) mod 3 = 1}"
    using generate_round_robin [of 20 1 3] by (auto simp: span_defs)
  have "{s. 0 \<le> s \<and> s + 20 \<le> period 3 20 \<and> (20::int) dvd s \<and> (s div 20) mod 3 = 1} = {20}"
  proof (intro set_eqI iffI)
    fix s :: int
    assume "s \<in> {s. 0 \<le> s \<and> s + 20 \<le> period 3 20 \<and> 20 dvd s \<and> (s div 20) mod 3 = 1}"
    then obtain m where "s = 20 * m" "m mod 3 = 1" "0 \<le> m" "m \<le> 2" by (auto simp: period_def span_defs dvd_def)
    then show "s \<in> {20}" by (cases "m = 0"; cases "m = 1"; cases "m = 2") auto
  qed (simp add: period_def span_defs)
  with j f show ?thesis by auto
qed

text \<open>In the branch for more than a day per cycle the hour of a job is computed from the minutes
  (\<open>time % HOUR_SPAN\<close>): hour and minute are always the same number, and for two hosts with an
  interval of 1000 minutes the second host gets jobs at hour 40, which cron does not accept.\<close>

theorem generate_weekly_hours:
  "(i < n \<and> t \<le> WEEK_SPAN \<and> DAY_SPAN < t * n \<and> generate i n t = Some (Ret jobs) \<longrightarrow>
      (\<forall>c \<in> set jobs. cr_hour c = cr_min c))
   \<and> (\<exists>jobs c. generate 1 2 1000 = Some (Ret jobs) \<and> c \<in> set jobs \<and> cr_hour c = At 40 \<and> \<not> valid_cron c)"
proof -
  have 1: "\<forall>c \<in> set jobs. cr_hour c = cr_min c"
    if "i < n" "t \<le> WEEK_SPAN" "DAY_SPAN < t * n" "generate i n t = Some (Ret jobs)"
  proof -
    have "0 < t * n" using that(3) by (simp add: span_defs)
    with that have "jobs = map day_job (slots WEEK_SPAN t (t * n) (t * i))"
      by (simp add: generate_def Let_def cron_loop_slots)
    then show ?thesis by (auto simp: day_job_def)
  qed
  have "generate 1 2 1000 = Some (Ret (map day_job (slots WEEK_SPAN 1000 2000 1000)))"
    by (simp add: generate_def Let_def cron_loop_slots span_defs)
  moreover have "day_job 1000 \<in> set (map day_job (slots WEEK_SPAN 1000 2000 1000))"
    by (auto simp: set_slots span_defs intro!: imageI exI [of _ 0])
  moreover have "cr_hour (day_job 1000) = At 40" "\<not> valid_cron (day_job 1000)"
    by (simp_all add: day_job_def valid_cron_def span_defs)
  ultimately show ?thesis using 1 by blast
qed

theorem generate_weekly_hours_witness:
  "\<exists>jobs. generate 0 2 1000 = Some (Ret jobs) \<and> list_all (\<lambda>c. cr_hour c = cr_min c) jobs"
proof -
  have "generate 0 2 1000 = Some (Ret (map day_job (slots WEEK_SPAN 1000 2000 0)))"
    by (simp add: generate_def Let_def cron_loop_slots span_defs)
  with generate_weekly_hours [of 0 2 1000] show ?thesis by (auto simp: span_defs list_all_iff)
qed

end
