(* ===== verification/Command_Lines.thy ===== *)
theory Command_Lines
  imports Py_Argparse Vault Fernet_Cron
begin

text \<open>
  The command lines of the tools: \<open>main\<close> of \<open>kolla_ansible/cmd/genpwd.py\<close>, \<open>mergepwd.py\<close>, \<open>writepwd.py\<close>,
  \<open>readpwd.py\<close> and of \<open>fernet_rotate_cron_generator.py\<close>, from the words of the command line to the
  function that does the work. \<open>os.path.expanduser\<close> depends on the environment and is a parameter. What
  the parser prints for \<open>--help\<close> and for an error is not modelled.
\<close>

section \<open>The parsers\<close>

definition option_str :: "string list \<Rightarrow> string \<Rightarrow> string \<Rightarrow> cli_option" where
  "option_str names dest dflt = \<lparr>co_names = names, co_dest = dest, co_kind = Store, co_type = CliStr,
     co_required = False, co_default = PStr dflt\<rparr>"

definition required_option :: "cli_type \<Rightarrow> string list \<Rightarrow> string \<Rightarrow> cli_option" where
  "required_option t names dest = \<lparr>co_names = names, co_dest = dest, co_kind = Store, co_type = t,
     co_required = True, co_default = PNone\<rparr>"

definition passwords_option :: cli_option where
  "passwords_option = option_str [''-p'', ''--passwords''] ''passwords'' ''/etc/kolla/passwords.yml''"

definition genpwd_parser :: cli_parser where
  "genpwd_parser = [help_option, passwords_option]"

definition mergepwd_parser :: cli_parser where
  "mergepwd_parser =
     [help_option, required_option CliStr [''--old''] ''old'', required_option CliStr [''--new''] ''new'',
      required_option CliStr [''--final''] ''final'',
      \<lparr>co_names = [''--clean''], co_dest = ''clean'', co_kind = StoreTrue, co_type = CliStr,
       co_required = False, co_default = PBool False\<rparr>]"

definition writepwd_parser :: cli_parser where
  "writepwd_parser =
     [help_option, passwords_option,
      option_str [''-kv'', ''--vault-mount-point''] ''vault_mount_point'' ''kv'',
      option_str [''-kvp'', ''--vault-kv-path''] ''vault_kv_path'' ''kolla_passwords'',
      option_str [''-n'', ''--vault-namespace''] ''vault_namespace'' [],
      required_option CliStr [''-v'', ''--vault-addr''] ''vault_addr'',
      option_str [''-r'', ''--vault-role-id''] ''vault_role_id'' [],
      option_str [''-s'', ''--vault-secret-id''] ''vault_secret_id'' [],
      option_str [''-t'', ''--vault-token''] ''vault_token'' [],
      option_str [''-c'', ''--vault-cacert''] ''vault_cacert'' []]"

definition readpwd_parser :: cli_parser where
  "readpwd_parser =
     [help_option, passwords_option,
      option_str [''-kv'', ''--vault-mount-point''] ''vault_mount_point'' ''kv'',
      option_str [''-kvp'', ''--vault-kv-path''] ''vault_kv_path'' ''kolla_passwords'',
      option_str [''-n'', ''--vault-namespace''] ''vault_namespace'' [],
      required_option CliStr [''-v'', ''--vault-addr''] ''vault_addr'',
      option_str [''-r'', ''--vault-role-id''] ''vault_role_id'' [],
      option_str [''-s'', ''--vault-secret-id''] ''vault_secret_id'' [],
      option_str [''-t'', ''--vault-token''] ''vault_token'' [],
      option_str [''-c'', ''--vault-cacert''] ''vault_cacert'' []]"

definition fernet_parser :: cli_parser where
  "fernet_parser =
     [help_option, required_option CliInt [''-t'', ''--time''] ''time'',
      required_option CliInt [''-i'', ''--index''] ''index'', required_option CliInt [''-n'', ''--number''] ''number'']"

section \<open>The programs\<close>

definition with_cli :: "cli_parser \<Rightarrow> string list \<Rightarrow> (pydict \<Rightarrow> ('s, unit) cmd) \<Rightarrow> ('s, unit) cmd" where
  "with_cli p argv body =
     (case parse_args p argv of
        Inl HelpShown \<Rightarrow> sys_exit 0
      | Inl UsageError \<Rightarrow> sys_exit 2
      | Inr ns \<Rightarrow> body ns)"

definition genpwd_cli :: "(string \<Rightarrow> string) \<Rightarrow> 'e generators \<Rightarrow> string list \<Rightarrow> ('e pw_world, unit) cmd" where
  "genpwd_cli expanduser G argv =
     with_cli genpwd_parser argv (\<lambda>args. genpwd_main G (expanduser (py_str (dget args ''passwords''))))"

definition mergepwd_cli :: "string list \<Rightarrow> ('e pw_world, unit) cmd" where
  "mergepwd_cli argv =
     with_cli mergepwd_parser argv (\<lambda>args.
       mergepwd (py_str (dget args ''old'')) (py_str (dget args ''new'')) (py_str (dget args ''final''))
         (truthy (dget args ''clean'')))"

definition vault_args_of :: "(string \<Rightarrow> string) \<Rightarrow> pydict \<Rightarrow> vault_args" where
  "vault_args_of expanduser args =
     \<lparr>va_namespace = py_str (dget args ''vault_namespace''), va_addr = py_str (dget args ''vault_addr''),
      va_role_id = py_str (dget args ''vault_role_id''), va_secret_id = py_str (dget args ''vault_secret_id''),
      va_token = py_str (dget args ''vault_token''), va_cacert = expanduser (py_str (dget args ''vault_cacert'')),
      va_mount_point = py_str (dget args ''vault_mount_point''), va_kv_path = py_str (dget args ''vault_kv_path'')\<rparr>"

definition passwords_file :: "(string \<Rightarrow> string) \<Rightarrow> pydict \<Rightarrow> string" where
  "passwords_file expanduser args = expanduser (py_str (dget args ''passwords''))"

definition writepwd_cli :: "(string \<Rightarrow> string) \<Rightarrow> 'v hvac \<Rightarrow> string list \<Rightarrow> ('v vault_world, unit) cmd" where
  "writepwd_cli expanduser H argv =
     with_cli writepwd_parser argv (\<lambda>args. writepwd H (passwords_file expanduser args) (vault_args_of expanduser args))"

definition readpwd_cli :: "(string \<Rightarrow> string) \<Rightarrow> 'v hvac \<Rightarrow> string list \<Rightarrow> ('v vault_world, unit) cmd" where
  "readpwd_cli expanduser H argv =
     with_cli readpwd_parser argv (\<lambda>args. readpwd H (passwords_file expanduser args) (vault_args_of expanduser args))"

text \<open>The Fernet generator: \<open>None\<close> when the loop of \<open>generate\<close> does not end.\<close>

definition fernet_cli :: "(exn \<Rightarrow> string) \<Rightarrow> string list \<Rightarrow> cli_stop + pydict option" where
  "fernet_cli str_exn argv =
     map_sum id (\<lambda>args.
       case (dget args ''index'', dget args ''number'', dget args ''time'') of
         (PInt index, PInt number, PInt time) \<Rightarrow> fernet_main str_exn index number time
       | _ \<Rightarrow> None)
     (parse_args fernet_parser argv)"

section \<open>Reading back\<close>

definition tool_parsers :: "cli_parser list" where
  "tool_parsers = [genpwd_parser, mergepwd_parser, writepwd_parser, readpwd_parser, fernet_parser]"

lemmas parser_defs = genpwd_parser_def mergepwd_parser_def writepwd_parser_def readpwd_parser_def fernet_parser_def
  help_option_def passwords_option_def option_str_def required_option_def

lemma same_vault_options: "readpwd_parser = writepwd_parser"
  by (simp add: readpwd_parser_def writepwd_parser_def)

lemma tool_parsers_ok: "p \<in> set tool_parsers \<Longrightarrow> plain_names p \<and> distinct (map co_dest p)"
  by (auto simp: tool_parsers_def same_vault_options)
    (simp_all add: parser_defs plain_names_def option_table_def plain_name_def)

lemma tool_names:
  assumes "p \<in> set tool_parsers"
  shows "plain_names p" "own_names p"
proof -
  have "p = genpwd_parser \<or> p = mergepwd_parser \<or> p = writepwd_parser \<or> p = fernet_parser"
    using assms by (auto simp: tool_parsers_def same_vault_options)
  then have "\<forall>opt \<in> set p. \<forall>n \<in> set (co_names opt). map_of (option_table p) n = Some opt"
    by (elim disjE; simp add: parser_defs option_table_def)
  then show "plain_names p" "own_names p" using tool_parsers_ok [OF assms] by (simp_all add: own_names_def)
qed

text \<open>What a parser makes of settings that one types, when all its values are of the right type.\<close>

lemma tool_words:
  assumes p: "p \<in> set tool_parsers" and names: "known_names p names" and ss: "plain_words names ss" "convertible p ss"
    and flag: "list_all (fits p) flag" "\<And>s. s \<in> set flag \<Longrightarrow> \<not> co_required (fst s)" "fst ` set flag \<subseteq> set p"
  obtains ns where "parse_args p (words_of ss @ concat (map setting_words flag)) =
      (if \<forall>opt \<in> set p. co_required opt \<longrightarrow> given ss (co_names opt) \<noteq> None
       then Inr (dict_update ns (map setting_entry flag)) else Inl UsageError)"
    and "\<And>opt. opt \<in> set p \<Longrightarrow> co_kind opt \<noteq> Help \<Longrightarrow>
      map_of ns (co_dest opt) = Some (case given ss (co_names opt) of None \<Rightarrow> co_default opt | Some v \<Rightarrow> the (convert (co_type opt) v))"
  by (rule that [OF parse_words [OF tool_names [OF p] names ss flag] words_namespace [OF tool_names(2) [OF p] _ _ names ss]])

lemma texts_convertible:
  "list_all (\<lambda>opt. co_type opt = CliStr) p \<Longrightarrow> known_names p names \<Longrightarrow> plain_words names ss \<Longrightarrow> convertible p ss"
  by (fastforce simp: list_all_iff known_names_def plain_words_def convertible_def option_of_def split: option.splits
      dest: map_of_table_options)

lemma genpwd_words:
  assumes "plain_words [''-p'', ''--passwords''] ss"
  shows "genpwd_cli expanduser G (words_of ss)
    = genpwd_main G (expanduser (given_or ss [''-p'', ''--passwords''] ''/etc/kolla/passwords.yml''))"
proof -
  have names: "known_names genpwd_parser [''-p'', ''--passwords'']"
    by (simp add: known_names_def parser_defs option_table_def)
  have conv: "convertible genpwd_parser ss"
    by (rule texts_convertible [OF _ names assms]) (simp add: parser_defs)
  obtain ns where run: "parse_args genpwd_parser (words_of ss) =
      (if \<forall>opt \<in> set genpwd_parser. co_required opt \<longrightarrow> given ss (co_names opt) \<noteq> None then Inr ns else Inl UsageError)"
    and ns: "\<And>opt. opt \<in> set genpwd_parser \<Longrightarrow> co_kind opt \<noteq> Help \<Longrightarrow>
      map_of ns (co_dest opt) = Some (case given ss (co_names opt) of None \<Rightarrow> co_default opt | Some v \<Rightarrow> the (convert (co_type opt) v))"
    by (rule tool_words [OF _ names assms conv, of "[]"]) (simp_all add: tool_parsers_def dict_update_def)
  have "map_of ns ''passwords'' = Some (case given ss [''-p'', ''--passwords''] of None \<Rightarrow> PStr ''/etc/kolla/passwords.yml'' | Some v \<Rightarrow> PStr v)"
    using ns [of passwords_option] by (simp add: genpwd_parser_def passwords_option_def option_str_def split: option.splits)
  moreover have "\<forall>opt \<in> set genpwd_parser. co_required opt \<longrightarrow> given ss (co_names opt) \<noteq> None" by (simp add: parser_defs)
  ultimately show ?thesis
    using run by (simp add: genpwd_cli_def with_cli_def dget_def dget_or_def given_or_def split: option.splits)
qed

lemma mergepwd_words:
  assumes "plain_words [''--old'', ''--new'', ''--final''] ss"
  shows "mergepwd_cli (words_of ss @ (if clean then [''--clean''] else [])) =
    (case (given ss [''--old''], given ss [''--new''], given ss [''--final'']) of
       (Some old, Some new, Some final) \<Rightarrow> mergepwd old new final clean
     | _ \<Rightarrow> sys_exit 2)"
proof -
  let ?names = "[''--old'', ''--new'', ''--final'']"
  let ?flag = "if clean then [(last mergepwd_parser, ''--clean'', None, False)] else []"
  have names: "known_names mergepwd_parser ?names"
    by (simp add: known_names_def parser_defs option_table_def)
  have conv: "convertible mergepwd_parser ss"
    by (rule texts_convertible [OF _ names assms]) (simp add: parser_defs)
  have flag: "list_all (fits mergepwd_parser) ?flag" "\<And>s. s \<in> set ?flag \<Longrightarrow> \<not> co_required (fst s)" "fst ` set ?flag \<subseteq> set mergepwd_parser"
    by (auto simp: parser_defs option_table_def)
  obtain ns where run: "parse_args mergepwd_parser (words_of ss @ concat (map setting_words ?flag)) =
      (if \<forall>opt \<in> set mergepwd_parser. co_required opt \<longrightarrow> given ss (co_names opt) \<noteq> None
       then Inr (dict_update ns (map setting_entry ?flag)) else Inl UsageError)"
    and ns: "\<And>opt. opt \<in> set mergepwd_parser \<Longrightarrow> co_kind opt \<noteq> Help \<Longrightarrow>
      map_of ns (co_dest opt) = Some (case given ss (co_names opt) of None \<Rightarrow> co_default opt | Some v \<Rightarrow> the (convert (co_type opt) v))"
    by (rule tool_words [OF _ names assms conv flag]) (simp_all add: tool_parsers_def)
  have vals: "map_of ns ''old'' = Some (case given ss [''--old''] of None \<Rightarrow> PNone | Some v \<Rightarrow> PStr v)"
    "map_of ns ''new'' = Some (case given ss [''--new''] of None \<Rightarrow> PNone | Some v \<Rightarrow> PStr v)"
    "map_of ns ''final'' = Some (case given ss [''--final''] of None \<Rightarrow> PNone | Some v \<Rightarrow> PStr v)"
    "map_of ns ''clean'' = Some (case given ss [''--clean''] of None \<Rightarrow> PBool False | Some v \<Rightarrow> PStr v)"
    using ns [of "required_option CliStr [''--old''] ''old''"] ns [of "required_option CliStr [''--new''] ''new''"]
      ns [of "required_option CliStr [''--final''] ''final''"] ns [of "last mergepwd_parser"]
    by (simp_all add: mergepwd_parser_def required_option_def split: option.splits)
  have "given ss [''--clean''] = None"
    using assms given_mem [of ss "[''--clean'']"] by (cases "given ss [''--clean'']") (auto simp: plain_words_def list_all_iff)
  then have vals': "map_of ns ''clean'' = Some (PBool False)" using vals(4) by simp
  have words: "words_of ss @ concat (map setting_words ?flag) = words_of ss @ (if clean then [''--clean''] else [])" by simp
  show ?thesis
    unfolding mergepwd_cli_def with_cli_def run [unfolded words]
    using vals(1-3) vals'
    by (auto simp: parser_defs setting_entry_def dict_update_def dget_def dget_or_def split: option.splits)
qed

text \<open>The options of the two Vault tools, as their manual pages list them.\<close>

definition vault_names :: "string list" where
  "vault_names = [''-p'', ''--passwords'', ''-kv'', ''--vault-mount-point'', ''-kvp'', ''--vault-kv-path'', ''-n'', ''--vault-namespace'',
     ''-v'', ''--vault-addr'', ''-r'', ''--vault-role-id'', ''-s'', ''--vault-secret-id'', ''-t'', ''--vault-token'', ''-c'', ''--vault-cacert'']"

definition given_vault_args :: "(string \<Rightarrow> string) \<Rightarrow> cli_words \<Rightarrow> string \<Rightarrow> vault_args" where
  "given_vault_args expanduser ss addr =
     \<lparr>va_namespace = given_or ss [''-n'', ''--vault-namespace''] [],
      va_addr = addr,
      va_role_id = given_or ss [''-r'', ''--vault-role-id''] [],
      va_secret_id = given_or ss [''-s'', ''--vault-secret-id''] [],
      va_token = given_or ss [''-t'', ''--vault-token''] [],
      va_cacert = expanduser (given_or ss [''-c'', ''--vault-cacert''] []),
      va_mount_point = given_or ss [''-kv'', ''--vault-mount-point''] ''kv'',
      va_kv_path = given_or ss [''-kvp'', ''--vault-kv-path''] ''kolla_passwords''\<rparr>"

lemma vault_words:
  assumes "plain_words vault_names ss"
  shows "case given ss [''-v'', ''--vault-addr''] of
      None \<Rightarrow> parse_args writepwd_parser (words_of ss) = Inl UsageError
    | Some addr \<Rightarrow> \<exists>ns. parse_args writepwd_parser (words_of ss) = Inr ns
        \<and> passwords_file expanduser ns = expanduser (given_or ss [''-p'', ''--passwords''] ''/etc/kolla/passwords.yml'')
        \<and> vault_args_of expanduser ns = given_vault_args expanduser ss addr"
proof -
  have names: "known_names writepwd_parser vault_names"
    by (simp add: known_names_def vault_names_def parser_defs option_table_def)
  have conv: "convertible writepwd_parser ss"
    by (rule texts_convertible [OF _ names assms]) (simp add: parser_defs)
  obtain ns where run: "parse_args writepwd_parser (words_of ss) =
      (if \<forall>opt \<in> set writepwd_parser. co_required opt \<longrightarrow> given ss (co_names opt) \<noteq> None then Inr ns else Inl UsageError)"
    and ns: "\<And>opt. opt \<in> set writepwd_parser \<Longrightarrow> co_kind opt \<noteq> Help \<Longrightarrow>
      map_of ns (co_dest opt) = Some (case given ss (co_names opt) of None \<Rightarrow> co_default opt | Some v \<Rightarrow> the (convert (co_type opt) v))"
    by (rule tool_words [OF _ names assms conv, of "[]"]) (simp_all add: tool_parsers_def dict_update_def)
  have shown: "py_str (dget ns dest) = given_or ss names dflt" if "option_str names dest dflt \<in> set writepwd_parser" for names dest dflt
    using ns [OF that] by (simp add: option_str_def dget_def dget_or_def given_or_def split: option.splits)
  have addr: "py_str (dget ns ''vault_addr'') = a" if "given ss [''-v'', ''--vault-addr''] = Some a" for a
    using ns [of "required_option CliStr [''-v'', ''--vault-addr''] ''vault_addr''"] that
    by (simp add: writepwd_parser_def required_option_def dget_def dget_or_def)
  have req: "(\<forall>opt \<in> set writepwd_parser. co_required opt \<longrightarrow> given ss (co_names opt) \<noteq> None)
      \<longleftrightarrow> given ss [''-v'', ''--vault-addr''] \<noteq> None"
    by (simp add: parser_defs)
  have texts: "py_str (dget ns ''passwords'') = given_or ss [''-p'', ''--passwords''] ''/etc/kolla/passwords.yml''"
    "py_str (dget ns ''vault_mount_point'') = given_or ss [''-kv'', ''--vault-mount-point''] ''kv''"
    "py_str (dget ns ''vault_kv_path'') = given_or ss [''-kvp'', ''--vault-kv-path''] ''kolla_passwords''"
    "py_str (dget ns ''vault_namespace'') = given_or ss [''-n'', ''--vault-namespace''] []"
    "py_str (dget ns ''vault_role_id'') = given_or ss [''-r'', ''--vault-role-id''] []"
    "py_str (dget ns ''vault_secret_id'') = given_or ss [''-s'', ''--vault-secret-id''] []"
    "py_str (dget ns ''vault_token'') = given_or ss [''-t'', ''--vault-token''] []"
    "py_str (dget ns ''vault_cacert'') = given_or ss [''-c'', ''--vault-cacert''] []"
    by (rule shown, simp add: writepwd_parser_def passwords_option_def)+
  show ?thesis
    by (cases "given ss [''-v'', ''--vault-addr'']")
      (simp_all add: run [unfolded req] passwords_file_def vault_args_of_def given_vault_args_def texts addr)
qed

lemma fernet_words:
  assumes "plain_words [''-t'', ''--time'', ''-i'', ''--index'', ''-n'', ''--number''] ss"
    and ints: "list_all (\<lambda>(n, v, joined). int_of_str v \<noteq> None) ss"
  shows "fernet_cli str_exn (words_of ss) =
    (case (given ss [''-i'', ''--index''], given ss [''-n'', ''--number''], given ss [''-t'', ''--time'']) of
       (Some i, Some n, Some t) \<Rightarrow> Inr (fernet_main str_exn (the (int_of_str i)) (the (int_of_str n)) (the (int_of_str t)))
     | _ \<Rightarrow> Inl UsageError)"
proof -
  let ?names = "[''-t'', ''--time'', ''-i'', ''--index'', ''-n'', ''--number'']"
  have names: "known_names fernet_parser ?names"
    by (simp add: known_names_def parser_defs option_table_def)
  have "list_all (\<lambda>n. co_type (option_of fernet_parser n) = CliInt) ?names"
    by (simp add: option_of_def parser_defs option_table_def)
  then have conv: "convertible fernet_parser ss"
    using assms unfolding convertible_def plain_words_def list_all_iff by fastforce
  obtain ns where run: "parse_args fernet_parser (words_of ss) =
      (if \<forall>opt \<in> set fernet_parser. co_required opt \<longrightarrow> given ss (co_names opt) \<noteq> None then Inr ns else Inl UsageError)"
    and ns: "\<And>opt. opt \<in> set fernet_parser \<Longrightarrow> co_kind opt \<noteq> Help \<Longrightarrow>
      map_of ns (co_dest opt) = Some (case given ss (co_names opt) of None \<Rightarrow> co_default opt | Some v \<Rightarrow> the (convert (co_type opt) v))"
    by (rule tool_words [OF _ names assms(1) conv, of "[]"]) (simp_all add: tool_parsers_def dict_update_def)
  have int: "int_of_str v \<noteq> None" if "given ss xs = Some v" for xs v
    using given_mem [OF that] ints by (auto simp: list_all_iff)
  have vals: "map_of ns d = Some (PInt (the (int_of_str v)))"
    if "required_option CliInt xs d \<in> set fernet_parser" "given ss xs = Some v" for xs d v
    using ns [OF that(1)] int [OF that(2)] that(2) by (auto simp: required_option_def)
  have vals': "given ss [''-i'', ''--index''] = Some i \<Longrightarrow> map_of ns ''index'' = Some (PInt (the (int_of_str i)))"
    "given ss [''-n'', ''--number''] = Some n \<Longrightarrow> map_of ns ''number'' = Some (PInt (the (int_of_str n)))"
    "given ss [''-t'', ''--time''] = Some t \<Longrightarrow> map_of ns ''time'' = Some (PInt (the (int_of_str t)))" for i n t
    using vals [of "[''-i'', ''--index'']"] vals [of "[''-n'', ''--number'']"] vals [of "[''-t'', ''--time'']"]
    by (simp_all add: fernet_parser_def)
  have req: "(\<forall>opt \<in> set fernet_parser. co_required opt \<longrightarrow> given ss (co_names opt) \<noteq> None)
      \<longleftrightarrow> given ss [''-i'', ''--index''] \<noteq> None \<and> given ss [''-n'', ''--number''] \<noteq> None \<and> given ss [''-t'', ''--time''] \<noteq> None"
    by (auto simp: parser_defs)
  show ?thesis
    unfolding fernet_cli_def run req using vals' by (auto simp: dget_def dget_or_def split: option.splits)
qed

text \<open>C39: what the five tools do with their options, as their help texts state it. An option is given by any
  of its names, with the value in the next word (when that does not start with a dash) or after an equals
  sign (any value), in any order; the last one counts. \<open>kolla-genpwd\<close> works on the file of \<open>-p\<close>, else on
  \<open>/etc/kolla/passwords.yml\<close>, and makes passwords of 40 characters. \<open>kolla-mergepwd\<close> needs its three
  files, and cleans when \<open>--clean\<close> is there. \<open>kolla-writepwd\<close> and \<open>kolla-readpwd\<close> need the address of
  the Vault; the mount point is \<open>kv\<close>, the path \<open>kolla_passwords\<close>, everything else empty unless given.
  The Fernet generator needs its three numbers. Without an option it needs each of them ends with status
  2, having done nothing.\<close>

theorem documented_options:
  fixes ss :: cli_words
  shows "(plain_words [''-p'', ''--passwords''] ss \<longrightarrow>
        genpwd_cli expanduser G (words_of ss)
          = genpwd G (expanduser (given_or ss [''-p'', ''--passwords''] ''/etc/kolla/passwords.yml'')) 40 genpwd_keys)
    \<and> (plain_words [''--old'', ''--new'', ''--final''] ss \<longrightarrow>
        (mergepwd_cli (words_of ss @ (if clean then [''--clean''] else [])) :: ('e pw_world, unit) cmd) =
          (case (given ss [''--old''], given ss [''--new''], given ss [''--final'']) of
             (Some old, Some new, Some final) \<Rightarrow> mergepwd old new final clean
           | _ \<Rightarrow> sys_exit 2))
    \<and> (plain_words vault_names ss \<longrightarrow>
        (let f = expanduser (given_or ss [''-p'', ''--passwords''] ''/etc/kolla/passwords.yml'') in
         writepwd_cli expanduser H (words_of ss) =
           (case given ss [''-v'', ''--vault-addr''] of None \<Rightarrow> sys_exit 2 | Some addr \<Rightarrow> writepwd H f (given_vault_args expanduser ss addr))
         \<and> readpwd_cli expanduser H (words_of ss) =
           (case given ss [''-v'', ''--vault-addr''] of None \<Rightarrow> sys_exit 2 | Some addr \<Rightarrow> readpwd H f (given_vault_args expanduser ss addr))))
    \<and> (plain_words [''-t'', ''--time'', ''-i'', ''--index'', ''-n'', ''--number''] ss
        \<and> list_all (\<lambda>(n, v, joined). int_of_str v \<noteq> None) ss \<longrightarrow>
        fernet_cli str_exn (words_of ss) =
          (case (given ss [''-i'', ''--index''], given ss [''-n'', ''--number''], given ss [''-t'', ''--time'']) of
             (Some i, Some n, Some t) \<Rightarrow> Inr (fernet_main str_exn (the (int_of_str i)) (the (int_of_str n)) (the (int_of_str t)))
           | _ \<Rightarrow> Inl UsageError))"
proof (intro conjI impI)
  assume "plain_words [''-p'', ''--passwords''] ss"
  then show "genpwd_cli expanduser G (words_of ss)
      = genpwd G (expanduser (given_or ss [''-p'', ''--passwords''] ''/etc/kolla/passwords.yml'')) 40 genpwd_keys"
    by (simp add: genpwd_words genpwd_main_def)
next
  assume "plain_words vault_names ss"
  from vault_words [OF this, of expanduser]
  show "let f = expanduser (given_or ss [''-p'', ''--passwords''] ''/etc/kolla/passwords.yml'') in
      writepwd_cli expanduser H (words_of ss) =
        (case given ss [''-v'', ''--vault-addr''] of None \<Rightarrow> sys_exit 2 | Some addr \<Rightarrow> writepwd H f (given_vault_args expanduser ss addr))
      \<and> readpwd_cli expanduser H (words_of ss) =
        (case given ss [''-v'', ''--vault-addr''] of None \<Rightarrow> sys_exit 2 | Some addr \<Rightarrow> readpwd H f (given_vault_args expanduser ss addr))"
    by (auto simp: writepwd_cli_def readpwd_cli_def with_cli_def same_vault_options Let_def split: option.splits)
qed (simp_all only: mergepwd_words fernet_words)

text \<open>whatever words a tool is called with, once it gets past its command line every option has a value
  of its type, or its default where it is not required. So the Fernet generator is called with three
  numbers, and the merge with three file names, or the program has ended before doing anything.\<close>

theorem command_line_typed:
  assumes "p \<in> set tool_parsers" and "parse_args p argv = Inr ns"
  shows "(\<forall>opt \<in> set p. co_kind opt \<noteq> Help \<longrightarrow>
      (\<exists>v. map_of ns (co_dest opt) = Some v \<and> (option_typed opt v \<or> (\<not> co_required opt \<and> v = co_default opt))))
    \<and> (p = fernet_parser \<longrightarrow> (\<exists>i n t. fernet_cli str_exn argv = Inr (fernet_main str_exn i n t)))
    \<and> (p = mergepwd_parser \<longrightarrow> (\<exists>old new final b. map_of ns ''old'' = Some (PStr old) \<and> map_of ns ''new'' = Some (PStr new)
        \<and> map_of ns ''final'' = Some (PStr final) \<and> map_of ns ''clean'' = Some (PBool b)
        \<and> (mergepwd_cli argv :: ('e pw_world, unit) cmd) = mergepwd old new final b))"
proof -
  have ok: "\<exists>v. map_of ns (co_dest opt) = Some v \<and> (option_typed opt v \<or> (\<not> co_required opt \<and> v = co_default opt))"
    if "opt \<in> set p" "co_kind opt \<noteq> Help" for opt
    using parse_args_ok [OF _ assms(2) that] tool_parsers_ok [OF assms(1)] by blast
  have str: "\<exists>s. map_of ns d = Some (PStr s)" if "required_option CliStr names d \<in> set p" for names d
    using ok [OF that] by (auto simp: store_typed required_option_def simp del: option_typed.simps)
  have int: "\<exists>i. map_of ns d = Some (PInt i)" if "required_option CliInt names d \<in> set p" for names d
    using ok [OF that] by (auto simp: store_typed required_option_def simp del: option_typed.simps)
  have fernet: "\<exists>i n t. fernet_cli str_exn argv = Inr (fernet_main str_exn i n t)" if pf: "p = fernet_parser"
  proof -
    obtain t i n where "map_of ns ''time'' = Some (PInt t)" "map_of ns ''index'' = Some (PInt i)" "map_of ns ''number'' = Some (PInt n)"
      using int [of "[''-t'', ''--time'']" "''time''"] int [of "[''-i'', ''--index'']" "''index''"]
        int [of "[''-n'', ''--number'']" "''number''"] unfolding pf fernet_parser_def by auto
    then show ?thesis using assms(2) pf by (auto simp: fernet_cli_def dget_def dget_or_def)
  qed
  have merge: "\<exists>old new final b. map_of ns ''old'' = Some (PStr old) \<and> map_of ns ''new'' = Some (PStr new)
        \<and> map_of ns ''final'' = Some (PStr final) \<and> map_of ns ''clean'' = Some (PBool b)
        \<and> (mergepwd_cli argv :: ('e pw_world, unit) cmd) = mergepwd old new final b" if pf: "p = mergepwd_parser"
  proof -
    obtain old new final where "map_of ns ''old'' = Some (PStr old)" "map_of ns ''new'' = Some (PStr new)" "map_of ns ''final'' = Some (PStr final)"
      using str [of "[''--old'']" "''old''"] str [of "[''--new'']" "''new''"] str [of "[''--final'']" "''final''"]
      unfolding pf mergepwd_parser_def by auto
    moreover obtain b where "map_of ns ''clean'' = Some (PBool b)"
      using ok [of "last mergepwd_parser"] unfolding pf mergepwd_parser_def by auto
    ultimately show ?thesis using assms(2) pf by (auto simp: mergepwd_cli_def with_cli_def dget_def dget_or_def)
  qed
  show ?thesis using ok fernet merge by blast
qed

section \<open>The procedures of the manual\<close>

text \<open>The words of the manual: an option and its value, and so on.\<close>

lemma file_words:
  assumes "\<forall>f \<in> {old, new, final}. f = [] \<or> hd f \<noteq> CHR ''-''"
  shows "genpwd_cli expanduser G [''-p'', new] = genpwd_main G (expanduser new)"
    and "mergepwd_cli [''--old'', old, ''--new'', new, ''--final'', final] = mergepwd old new final False"
proof -
  show "genpwd_cli expanduser G [''-p'', new] = genpwd_main G (expanduser new)"
    using genpwd_words [of "[(''-p'', new, False)]" expanduser G] assms
    by (simp add: words_of_def plain_words_def given_or_def given_def)
  show "mergepwd_cli [''--old'', old, ''--new'', new, ''--final'', final] = mergepwd old new final False"
    using mergepwd_words [of "[(''--old'', old, False), (''--new'', new, False), (''--final'', final, False)]" False] assms
    by (simp add: words_of_def plain_words_def given_def)
qed

text \<open>C14: the upgrade of the operations manual. With the old passwords in one file and the template of the new
  release in another, \<open>kolla-genpwd -p NEW\<close> and then \<open>kolla-mergepwd --old OLD --new NEW --final FINAL\<close>
  both succeed; the final file has every key of either file; every old entry is as it was (a mapping with
  its keys in alphabetical order, as \<open>yaml.safe_dump\<close> writes it, a text exactly), and every entry that is new with the release has a value, unless it is one that may stay blank. No file
  but the new and the final one is changed, and the template's entries are generated before they are
  merged, so that no entry of the old file is drawn anew.\<close>

theorem upgrade_procedure:
  assumes "pw_files w old = Some fo" and "pf_doc fo = PDict d_o" and "wf_dict d_o"
    and "pw_files w new = Some fn" and "pf_doc fn = PDict d_n" and "old \<noteq> new"
    and "index_law G" and "ssh_ok genpwd_keys d_n" and "expanduser new = new"
    and "\<forall>f \<in> {old, new, final}. f = [] \<or> hd f \<noteq> CHR ''-''"
  shows "\<exists>w1 d w2. genpwd_cli expanduser G [''-p'', new] w = (Ret (), w1)
    \<and> mergepwd_cli [''--old'', old, ''--new'', new, ''--final'', final] w1 = (Ret (), w2)
    \<and> map_option pf_doc (pw_files w2 final) = Some (PDict d)
    \<and> fst ` set d = fst ` set d_o \<union> fst ` set d_n
    \<and> (\<forall>k v. map_of d_o k = Some v \<longrightarrow> map_of d k = Some (dumped v))
    \<and> (\<forall>k t. map_of d_o k = Some (PStr t) \<longrightarrow> map_of d k = Some (PStr t))
    \<and> (\<forall>k. k \<in> fst ` set d_n - fst ` set d_o \<and> k \<notin> set (blank_keys genpwd_keys) \<longrightarrow> (\<exists>v. map_of d k = Some v \<and> v \<noteq> PNone))
    \<and> (\<forall>f. f \<noteq> new \<and> f \<noteq> final \<longrightarrow> pw_files w2 f = pw_files w f)"
proof -
  obtain m where fn: "fn = \<lparr>pf_doc = PDict d_n, pf_mode = m\<rparr>" using assms(5) by (cases fn) auto
  obtain d' out e where gen: "genpwd G new 40 genpwd_keys w = (Ret (), w\<lparr>pw_out := out, pw_entropy := e,
        pw_files := (pw_files w)(new := Some \<lparr>pf_doc = PDict (dump_items d'), pf_mode = new_mode w new\<rparr>)\<rparr>)" (is "_ = (_, ?w1)")
    and d': "list_all2 (\<lambda>old new. fst new = fst old \<and> entry_filled G 40 genpwd_keys (fst old) (snd old) (snd new)) d_n d'"
    using genpwd_run [OF assms(7), of w new d_n m genpwd_keys 40] assms(4,8) fn by auto
  let ?m = "dict_update (dump_items d') d_o" and ?d = "dump_items (dict_update (dump_items d') d_o)"
  obtain out' where merge: "mergepwd old new final False ?w1 = (Ret (), ?w1\<lparr>pw_out := out',
      pw_files := (pw_files ?w1)(final := Some \<lparr>pf_doc = PDict ?d, pf_mode = new_mode ?w1 final\<rparr>)\<rparr>)" (is "_ = (_, ?w2)")
    using mergepwd_run [of ?w1 old fo d_o new _ "dump_items d'" final False] assms(1,2,6) by auto
  have look: "map_of ?m k = (case map_of d_o k of None \<Rightarrow> map_of (dump_items d') k | Some v \<Rightarrow> Some v)" for k
    by (rule map_of_dict_update [OF assms(3)])
  have new: "\<exists>v. map_of ?d k = Some v \<and> v \<noteq> PNone"
    if "k \<in> fst ` set d_n - fst ` set d_o" "k \<notin> set (blank_keys genpwd_keys)" for k
  proof -
    have "map_of d_o k = None" "map_of d_n k \<noteq> None" using that(1) by (auto simp: map_of_eq_None_iff)
    then obtain v x where x: "map_of d' k = Some x" "entry_filled G 40 genpwd_keys k v x"
      using filled_lookup [OF d', of k] by auto
    then have "x \<noteq> PNone" using that(2) by (auto simp: entry_filled_def fresh_secret_def split: if_splits)
    then show ?thesis using x(1) \<open>map_of d_o k = None\<close> by (simp add: look)
  qed
  have "fst ` set d' = fst ` set d_n" using filled_keys [OF d'] by (metis list.set_map)
  then have all: "fst ` set ?d = fst ` set d_o \<union> fst ` set d_n"
    by (auto simp: set_dump_items keys_dict_update image_comp)
  have kept: "map_of ?d k = Some (dumped v)" if "map_of d_o k = Some v" for k v using look [of k] that by simp
  have texts: "map_of ?d k = Some (PStr t)" if "map_of d_o k = Some (PStr t)" for k t using kept [OF that] by simp
  have gen': "genpwd_cli expanduser G [''-p'', new] w = (Ret (), ?w1)"
    using gen assms(9) by (simp add: file_words(1) [OF assms(10)] genpwd_main_def)
  have merge': "mergepwd_cli [''--old'', old, ''--new'', new, ''--final'', final] ?w1 = (Ret (), ?w2)"
    using merge by (simp add: file_words(2) [OF assms(10)])
  show ?thesis
    by (rule exI [of _ ?w1], rule exI [of _ ?d], rule exI [of _ ?w2])
      (use gen' merge' all new kept texts in \<open>simp del: fun_upd_apply map_of_dump_items; simp del: map_of_dump_items\<close>)
qed

text \<open>C15: passwords survive the vault from command line to command line. Called with the same words, which
  \<open>kolla-writepwd\<close> accepts, for a password file whose values are non-empty strings, non-empty dictionaries
  without a key \<open>password\<close> (the ssh keys), or missing (and not in the vault either), \<open>kolla-writepwd\<close>
  stores all of them without changing a file, a second run sends nothing, and \<open>kolla-readpwd\<close> restores
  the file: the same keys, now in alphabetical order as \<open>yaml.safe_dump\<close> writes them, with equal values.\<close>

theorem vault_procedure:
  fixes argv :: "string list" and expanduser :: "string \<Rightarrow> string"
  assumes "parse_args writepwd_parser argv = Inr args"
    and "vault_laws H view" and "\<forall>s. fst (hashicorp_vault_client H (vault_args_of expanduser args) s) = Ret ()"
    and "pw_files (vw_host s) (passwords_file expanduser args) = Some f" and "pf_doc f = PDict d" and "wf_dict d"
    and "\<forall>kv \<in> set d. storable (snd kv)
      \<and> (snd kv = PNone \<longrightarrow> secret_at view (vault_args_of expanduser args) (fst kv) s = None)"
  shows "\<exists>s1 s2 d'. writepwd_cli expanduser H argv s = (Ret (), s1)
    \<and> pw_files (vw_host s1) = pw_files (vw_host s)
    \<and> write_entries H (vault_args_of expanduser args) d s1 = (Ret (), s1)
    \<and> readpwd_cli expanduser H argv s1 = (Ret (), s2)
    \<and> map_option pf_doc (pw_files (vw_host s2) (passwords_file expanduser args)) = Some (PDict d')
    \<and> mset (map fst d') = mset (map fst d) \<and> sorted (map (\<lambda>kv. Key (fst kv)) d')
    \<and> (\<forall>k v. map_of d k = Some v \<longrightarrow> (\<exists>x. map_of d' k = Some x \<and> py_eq x v))"
proof -
  have cli: "writepwd_cli expanduser H argv = writepwd H (passwords_file expanduser args) (vault_args_of expanduser args)"
    "readpwd_cli expanduser H argv = readpwd H (passwords_file expanduser args) (vault_args_of expanduser args)"
    using assms(1) by (simp_all add: writepwd_cli_def readpwd_cli_def with_cli_def same_vault_options)
  show ?thesis unfolding cli by (rule vault_roundtrip [OF assms(2-7)])
qed

section \<open>Witnesses\<close>

text \<open>\<open>-t 5 --index=-1 -n 3 -t 1440\<close>: a negative number after an equals sign, and an option given twice; and
  a Vault tool with nothing but the address.\<close>

theorem documented_options_witness:
  "fernet_cli (\<lambda>e. ''error'') [''-t'', ''5'', ''--index=-1'', ''-n'', ''3'', ''-t'', ''1440''] = Inr (fernet_main (\<lambda>e. ''error'') (- 1) 3 1440)
   \<and> fernet_cli (\<lambda>e. ''error'') [''-t'', ''5''] = Inl UsageError
   \<and> readpwd_cli id sample_hvac [''-v'', ''https://vault''] = readpwd sample_hvac ''/etc/kolla/passwords.yml''
       \<lparr>va_namespace = [], va_addr = ''https://vault'', va_role_id = [], va_secret_id = [], va_token = [], va_cacert = [],
        va_mount_point = ''kv'', va_kv_path = ''kolla_passwords''\<rparr>"
proof -
  let ?ss = "[(''-t'', ''5'', False), (''--index'', ''-1'', True), (''-n'', ''3'', False), (''-t'', ''1440'', False)]"
  have ints: "int_of_str ''5'' = Some 5" "int_of_str ''-1'' = Some (- 1)" "int_of_str ''3'' = Some 3" "int_of_str ''1440'' = Some 1440"
    by code_simp+
  have "fernet_cli (\<lambda>e. ''error'') (words_of ?ss) = Inr (fernet_main (\<lambda>e. ''error'') (- 1) 3 1440)"
    using documented_options [where ss = ?ss and str_exn = "\<lambda>e. ''error''" and expanduser = id and H = sample_hvac] by (simp add: plain_words_def given_def ints)
  moreover have "fernet_cli (\<lambda>e. ''error'') (words_of [(''-t'', ''5'', False)]) = Inl UsageError"
    using documented_options [where ss = "[(''-t'', ''5'', False)]" and str_exn = "\<lambda>e. ''error''" and expanduser = id and H = sample_hvac] by (simp add: plain_words_def given_def ints)
  moreover have "readpwd_cli id sample_hvac (words_of [(''-v'', ''https://vault'', False)]) = readpwd sample_hvac ''/etc/kolla/passwords.yml''
       \<lparr>va_namespace = [], va_addr = ''https://vault'', va_role_id = [], va_secret_id = [], va_token = [], va_cacert = [],
        va_mount_point = ''kv'', va_kv_path = ''kolla_passwords''\<rparr>"
    using documented_options [where ss = "[(''-v'', ''https://vault'', False)]" and expanduser = id and H = sample_hvac]
    by (simp add: plain_words_def vault_names_def given_def given_or_def given_vault_args_def Let_def)
  ultimately show ?thesis by (simp add: words_of_def)
qed

theorem command_line_typed_witness:
  "\<exists>i n t. fernet_cli (\<lambda>e. ''error'') [''-t5'', ''-i'', ''0'', ''--num'', ''3''] = Inr (fernet_main (\<lambda>e. ''error'') i n t)"
proof -
  let ?argv = "[''-t5'', ''-i'', ''0'', ''--num'', ''3'']"
  have "case parse_args fernet_parser ?argv of Inr ns \<Rightarrow> True | Inl stop \<Rightarrow> False" by code_simp
  then obtain ns where "parse_args fernet_parser ?argv = Inr ns" by (auto split: sum.splits)
  from command_line_typed [OF _ this, of "\<lambda>e. ''error''"] show ?thesis by (auto simp: tool_parsers_def)
qed

theorem upgrade_procedure_witness:
  "\<exists>w1 d w2. genpwd_cli id sample_generators [''-p'', ''new''] sample_pw_world = (Ret (), w1)
     \<and> mergepwd_cli [''--old'', ''old'', ''--new'', ''new'', ''--final'', ''final''] w1 = (Ret (), w2)
     \<and> map_option pf_doc (pw_files w2 ''final'') = Some (PDict d)
     \<and> map_of d ''database_password'' = Some (PStr ''secret'')
     \<and> (\<exists>v. map_of d ''new_password'' = Some v \<and> v \<noteq> PNone)"
proof -
  have wf: "wf_dict sample_old" by code_simp
  obtain w1 d w2 where run: "genpwd_cli id sample_generators [''-p'', ''new''] sample_pw_world = (Ret (), w1)"
    "mergepwd_cli [''--old'', ''old'', ''--new'', ''new'', ''--final'', ''final''] w1 = (Ret (), w2)"
    "map_option pf_doc (pw_files w2 ''final'') = Some (PDict d)"
    and kept: "\<And>k t. map_of sample_old k = Some (PStr t) \<Longrightarrow> map_of d k = Some (PStr t)"
    and given: "\<And>k. k \<in> fst ` set sample_template - fst ` set sample_old \<and> k \<notin> set (blank_keys genpwd_keys) \<Longrightarrow>
        \<exists>v. map_of d k = Some v \<and> v \<noteq> PNone"
    using upgrade_procedure [OF sample_files(1) _ wf sample_files(2) _ _ sample_index_law sample_ssh_ok(1),
        of id "''final''"] by auto
  have "map_of d ''database_password'' = Some (PStr ''secret'')"
    by (rule kept) (simp add: sample_old_def)
  moreover have "\<exists>v. map_of d ''new_password'' = Some v \<and> v \<noteq> PNone"
    by (rule given) (simp add: sample_template_def sample_old_def genpwd_keys_def)
  ultimately show ?thesis using run by blast
qed

theorem vault_procedure_witness:
  "\<exists>s1 s2 d'. writepwd_cli id sample_hvac [''-p'', ''p.yml'', ''--vault-addr=https://vault'', ''-t'', ''t''] sample_vault_world = (Ret (), s1)
     \<and> readpwd_cli id sample_hvac [''-p'', ''p.yml'', ''--vault-addr=https://vault'', ''-t'', ''t''] s1 = (Ret (), s2)
     \<and> map_option pf_doc (pw_files (vw_host s2) ''p.yml'') = Some (PDict d')
     \<and> map_of d' ''database_password'' = Some (PStr ''secret'')"
proof -
  let ?argv = "[''-p'', ''p.yml'', ''--vault-addr=https://vault'', ''-t'', ''t'']"
  have "case parse_args writepwd_parser ?argv of
      Inr ns \<Rightarrow> vault_args_of id ns = sample_vault_args \<and> passwords_file id ns = ''p.yml'' | Inl stop \<Rightarrow> False"
    by code_simp
  then obtain ns where ns: "parse_args writepwd_parser ?argv = Inr ns" "vault_args_of id ns = sample_vault_args"
    "passwords_file id ns = ''p.yml''" by (auto split: sum.splits)
  have "pw_files (vw_host sample_vault_world) ''p.yml'' = Some \<lparr>pf_doc = PDict sample_secrets, pf_mode = private_mode\<rparr>"
    by (simp add: sample_vault_world_def)
  moreover have "wf_dict sample_secrets" by code_simp
  moreover have "\<forall>kv \<in> set sample_secrets. storable (snd kv)
      \<and> (snd kv = PNone \<longrightarrow> secret_at (\<lambda>v. v) sample_vault_args (fst kv) sample_vault_world = None)"
    by (simp add: sample_secrets_def secret_at_def sample_vault_world_def)
  ultimately obtain s1 s2 d' where
    "writepwd_cli id sample_hvac ?argv sample_vault_world = (Ret (), s1)"
    "readpwd_cli id sample_hvac ?argv s1 = (Ret (), s2)"
    "map_option pf_doc (pw_files (vw_host s2) ''p.yml'') = Some (PDict d')"
    and same: "\<And>k v. map_of sample_secrets k = Some v \<Longrightarrow> \<exists>x. map_of d' k = Some x \<and> py_eq x v"
    using vault_procedure [OF ns(1) sample_vault_laws, of id sample_vault_world
        "\<lparr>pf_doc = PDict sample_secrets, pf_mode = private_mode\<rparr>" sample_secrets] sample_client
    by (auto simp: ns(2,3))
  moreover have "map_of d' ''database_password'' = Some (PStr ''secret'')"
    using same [of "''database_password''" "PStr ''secret''"] by (simp add: sample_secrets_def)
  ultimately show ?thesis by blast
qed

end
