(* ===== verification/Merge_Yaml.thy ===== *)
theory Merge_Yaml
  imports Container_Worker
begin

text \<open>
  \<open>ansible/action_plugins/merge_yaml.py\<close>: merging YAML documents. \<open>Utils.update_nested_conf\<close> and the
  loop over the sources are modelled on document values; reading, templating and parsing a source
  (\<open>read_config\<close>) is a parameter that yields the loaded document, or nothing for an unreadable file.
  Documents are trees: nodes shared through YAML anchors are outside the model.
\<close>

section \<open>Definitions\<close>

definition py_setitem :: "pyval \<Rightarrow> string \<Rightarrow> pyval \<Rightarrow> pyval outcome" where
  "py_setitem conf k v = (case conf of PDict d \<Rightarrow> Ret (PDict (AList.update k v d)) | _ \<Rightarrow> Raise TypeError)"

definition type_text :: "pyval \<Rightarrow> string" where
  "type_text v = ''<class '' @ repr_str (case v of
       PNone \<Rightarrow> ''NoneType'' | PBool b \<Rightarrow> ''bool'' | PInt i \<Rightarrow> ''int'' | PStr s \<Rightarrow> ''str''
     | PList xs \<Rightarrow> ''list'' | PDict d \<Rightarrow> ''dict'') @ ''>''"

definition backquoted :: "string \<Rightarrow> string" where
  "backquoted s = CHR 0x60 # s @ [CHR 0x60]"

definition merge_error :: "string \<Rightarrow> pyval \<Rightarrow> pyval \<Rightarrow> exn" where
  "merge_error k conf v =
     PyError (''Failure merging key '' @ backquoted k @ '' in dictionary '' @ backquoted (py_str conf)
       @ ''. Expecting a list, but received: '' @ backquoted (py_str v) @ '', which is of type: ''
       @ backquoted (type_text v))"

text \<open>The branch for a value that is no dictionary: extend a list that is there, or store.\<close>

definition store_leaf :: "bool \<Rightarrow> string \<Rightarrow> pyval \<Rightarrow> pyval \<Rightarrow> pyval outcome" where
  "store_leaf ext k v conf =
     obind (py_contains conf k) (\<lambda>present.
     obind (if present then obind (py_item conf k) (\<lambda>old. Ret (case old of PList xs \<Rightarrow> Some xs | _ \<Rightarrow> None))
            else Ret None) (\<lambda>old_list.
       case (old_list, ext) of
         (Some xs, True) \<Rightarrow>
           (case v of
              PList ys \<Rightarrow> py_setitem conf k (PList (xs @ ys))
            | _ \<Rightarrow> Raise (merge_error k conf v))
       | _ \<Rightarrow> py_setitem conf k v))"

text \<open>\<open>update_nested_conf\<close>: the loop over the items, and its body.\<close>

fun update_items :: "bool \<Rightarrow> pydict \<Rightarrow> pyval \<Rightarrow> pyval outcome"
  and update_item :: "bool \<Rightarrow> string \<Rightarrow> pyval \<Rightarrow> pyval \<Rightarrow> pyval outcome" where
  "update_items ext [] conf = Ret conf"
| "update_items ext ((k, v) # u) conf = obind (update_item ext k v conf) (update_items ext u)"
| "update_item ext k (PDict u) conf =
     obind (py_get_or conf k (PDict [])) (\<lambda>old.
     obind (update_items ext u old) (\<lambda>new. py_setitem conf k new))"
| "update_item ext k PNone conf = store_leaf ext k PNone conf"
| "update_item ext k (PBool b) conf = store_leaf ext k (PBool b) conf"
| "update_item ext k (PInt i) conf = store_leaf ext k (PInt i) conf"
| "update_item ext k (PStr s) conf = store_leaf ext k (PStr s) conf"
| "update_item ext k (PList xs) conf = store_leaf ext k (PList xs) conf"

definition update_nested_conf :: "pyval \<Rightarrow> pyval \<Rightarrow> bool \<Rightarrow> pyval outcome" where
  "update_nested_conf conf update ext = obind (py_items update) (\<lambda>u. update_items ext u conf)"

definition read_yaml_config :: "pyval option \<Rightarrow> pyval" where
  "read_yaml_config loaded =
     (case loaded of None \<Rightarrow> PDict [] | Some v \<Rightarrow> if truthy v then v else PDict [])"

definition merge_yaml_sources :: "bool \<Rightarrow> pyval option list \<Rightarrow> pyval outcome" where
  "merge_yaml_sources ext sources =
     ofold (\<lambda>s output. update_nested_conf output (read_yaml_config s) ext) sources (PDict [])"

text \<open>\<open>if not isinstance(sources, list)\<close>, and the arguments of the copy task that writes the result.\<close>

definition sources_list :: "pyval \<Rightarrow> pyval list" where
  "sources_list v = (case v of PList xs \<Rightarrow> xs | _ \<Rightarrow> [v])"

definition yaml_copy_args :: "pydict \<Rightarrow> string \<Rightarrow> pydict" where
  "yaml_copy_args args result_file =
     AList.update ''src'' (PStr result_file)
       (fold AList.delete [''sources'', ''extend_lists'', ''yaml_width''] args)"

section \<open>Paths\<close>

fun at :: "pyval \<Rightarrow> string list \<Rightarrow> pyval option" where
  "at v [] = Some v"
| "at (PDict d) (k # ks) = (case map_of d k of None \<Rightarrow> None | Some v \<Rightarrow> at v ks)"
| "at _ (k # ks) = None"

fun is_dict :: "pyval \<Rightarrow> bool" where
  "is_dict (PDict d) = True"
| "is_dict _ = False"

text \<open>A path that the update leaves alone: it leaves the update's tree through a missing key.\<close>

fun untouched :: "pyval \<Rightarrow> string list \<Rightarrow> bool" where
  "untouched (PDict u) (k # ks) = (case map_of u k of None \<Rightarrow> True | Some v \<Rightarrow> untouched v ks)"
| "untouched _ _ = False"

definition or_empty :: "pyval option \<Rightarrow> pyval" where
  "or_empty old = (case old of None \<Rightarrow> PDict [] | Some v \<Rightarrow> v)"

lemma update_item_leaf: "\<not> is_dict v \<Longrightarrow> update_item e k v conf = store_leaf e k v conf"
  by (cases v) auto

lemma store_leaf_dict:
  "store_leaf e k v (PDict c)
    = (case (map_of c k, e) of
         (Some (PList xs), True) \<Rightarrow>
           (case v of PList ys \<Rightarrow> Ret (PDict (AList.update k (PList (xs @ ys)) c))
            | _ \<Rightarrow> Raise (merge_error k (PDict c) v))
       | _ \<Rightarrow> Ret (PDict (AList.update k v c)))"
  by (cases e) (auto simp: store_leaf_def has_key_def py_setitem_def split: option.splits pyval.splits)

text \<open>What one key gets.\<close>

definition merged :: "bool \<Rightarrow> pyval option \<Rightarrow> pyval \<Rightarrow> pyval \<Rightarrow> bool" where
  "merged e old v w \<longleftrightarrow>
     (case v of
        PDict u \<Rightarrow> update_items e u (or_empty old) = Ret w
      | _ \<Rightarrow> (case (old, e) of
           (Some (PList xs), True) \<Rightarrow> (\<exists>ys. v = PList ys \<and> w = PList (xs @ ys))
         | _ \<Rightarrow> w = v))"

lemma update_item_dict:
  assumes "update_item e k v (PDict c) = Ret r"
  shows "\<exists>w. r = PDict (AList.update k w c) \<and> merged e (map_of c k) v w"
proof (cases "is_dict v")
  case True
  then obtain u where "v = PDict u" by (cases v) auto
  with assms show ?thesis
    by (auto simp: dget_or_def py_setitem_def merged_def or_empty_def split: option.splits)
next
  case False
  with assms have "store_leaf e k v (PDict c) = Ret r" by (simp add: update_item_leaf)
  with False show ?thesis
    unfolding store_leaf_dict merged_def by (cases v) (auto split: option.splits pyval.splits bool.splits)
qed

lemma update_items_dict:
  "\<lbrakk>update_items e u (PDict c) = Ret r; wf_dict u\<rbrakk> \<Longrightarrow>
    \<exists>d. r = PDict d \<and> (\<forall>k. case map_of u k of
        None \<Rightarrow> map_of d k = map_of c k
      | Some v \<Rightarrow> \<exists>w. map_of d k = Some w \<and> merged e (map_of c k) v w)"
proof (induction u arbitrary: c)
  case Nil
  then show ?case by auto
next
  case (Cons kv u)
  obtain k v where kv: "kv = (k, v)" by (cases kv)
  with Cons.prems obtain r' where r': "update_item e k v (PDict c) = Ret r'" "update_items e u r' = Ret r"
    by auto
  from update_item_dict [OF r'(1)] obtain w where w: "r' = PDict (AList.update k w c)"
    "merged e (map_of c k) v w" by blast
  from Cons.IH [of "AList.update k w c"] r'(2) Cons.prems(2) obtain d where d: "r = PDict d"
    "\<forall>x. case map_of u x of None \<Rightarrow> map_of d x = map_of (AList.update k w c) x
       | Some v \<Rightarrow> \<exists>y. map_of d x = Some y \<and> merged e (map_of (AList.update k w c) x) v y"
    by (auto simp: w kv)
  have "map_of u k = None" using Cons.prems(2) by (simp add: kv map_of_eq_None_iff)
  show ?case
  proof (intro exI [of _ d] conjI allI d(1))
    fix x
    show "case map_of (kv # u) x of None \<Rightarrow> map_of d x = map_of c x
      | Some v \<Rightarrow> \<exists>y. map_of d x = Some y \<and> merged e (map_of c x) v y"
      using d(2) [rule_format, of x] \<open>map_of u k = None\<close> w(2) by (auto simp: kv split: option.splits)
  qed
qed

text \<open>A non-empty update of something that is no dictionary fails.\<close>

lemma update_items_conflict:
  assumes "\<not> is_dict conf"
  shows "update_items e (kv # u) conf \<noteq> Ret r"
proof -
  obtain k v where kv: "kv = (k, v)" by (cases kv)
  have "update_item e k v conf \<noteq> Ret x" for x
  proof (cases "is_dict v")
    case True
    then show ?thesis using assms by (cases v; cases conf) auto
  next
    case False
    then show ?thesis
      using assms by (cases conf) (auto simp: update_item_leaf store_leaf_def py_setitem_def split: if_splits option.splits bool.splits pyval.splits)
  qed
  then show ?thesis by (simp add: kv)
qed

lemma update_items_is_dict: "update_items e u (PDict c) = Ret r \<Longrightarrow> is_dict r"
proof (induction u arbitrary: c)
  case Nil
  then show ?case by auto
next
  case (Cons kv u)
  obtain k v where kv: "kv = (k, v)" by (cases kv)
  with Cons.prems obtain r' where r': "update_item e k v (PDict c) = Ret r'" "update_items e u r' = Ret r"
    by auto
  from update_item_dict [OF r'(1)] obtain w where "r' = PDict (AList.update k w c)" by blast
  with Cons.IH r'(2) show ?case by blast
qed

lemma update_nested_conf_step:
  "is_dict conf \<Longrightarrow> update_nested_conf conf doc e = Ret r \<Longrightarrow> is_dict r"
  by (cases conf; cases doc) (auto simp: update_nested_conf_def dest: update_items_is_dict)

lemma merge_yaml_sources_is_dict: "merge_yaml_sources e ss = Ret r \<Longrightarrow> is_dict r"
proof (induction ss arbitrary: r rule: rev_induct)
  case Nil
  then show ?case by (auto simp: merge_yaml_sources_def)
next
  case (snoc s ss)
  then obtain b where "merge_yaml_sources e ss = Ret b" "update_nested_conf b (read_yaml_config s) e = Ret r"
    by (auto simp: merge_yaml_sources_def ofold_append)
  with snoc.IH show ?case by (blast intro: update_nested_conf_step)
qed

section \<open>What a merge keeps, replaces and extends\<close>

definition merged_leaf :: "bool \<Rightarrow> pyval option \<Rightarrow> pyval \<Rightarrow> pyval" where
  "merged_leaf e old v =
     (case (old, e, v) of (Some (PList xs), True, PList ys) \<Rightarrow> PList (xs @ ys) | _ \<Rightarrow> v)"

lemma merged_not_dict: "\<lbrakk>\<not> is_dict v; merged e old v w\<rbrakk> \<Longrightarrow> w = merged_leaf e old v"
  by (cases v; cases e) (auto simp: merged_def merged_leaf_def split: option.splits pyval.splits)

lemma at_not_dict: "\<not> is_dict v \<Longrightarrow> at v (k # ks) = None"
  by (cases v) auto

lemma untouched_not_dict: "\<not> is_dict v \<Longrightarrow> \<not> untouched v ks"
  by (cases v; cases ks) auto

lemma at_empty: "at (PDict []) ks = (if ks = [] then Some (PDict []) else None)"
  by (cases ks) auto

lemma update_items_paths:
  "\<lbrakk>update_items e u (PDict c) = Ret r; wf_val (PDict u)\<rbrakk> \<Longrightarrow>
    (\<forall>v. at (PDict u) p = Some v \<longrightarrow> \<not> is_dict v \<longrightarrow> at r p = Some (merged_leaf e (at (PDict c) p) v))
    \<and> (untouched (PDict u) p \<longrightarrow> at r p = at (PDict c) p)"
proof (induction p arbitrary: u c r)
  case Nil
  then show ?case by simp
next
  case (Cons k ks)
  have "wf_dict u" using Cons.prems by simp
  from update_items_dict [OF Cons.prems(1) this] obtain d where d: "r = PDict d"
    "\<And>k. case map_of u k of None \<Rightarrow> map_of d k = map_of c k
        | Some v \<Rightarrow> \<exists>w. map_of d k = Some w \<and> merged e (map_of c k) v w"
    by blast
  show ?case
  proof (cases "map_of u k")
    case None
    then show ?thesis using d(2) [of k] by (simp add: d(1))
  next
    case (Some x)
    then obtain w where w: "map_of d k = Some w" "merged e (map_of c k) x w"
      using d(2) [of k] by auto
    show ?thesis
    proof (cases "is_dict x")
      case False
      with w Some show ?thesis
        by (cases ks; cases "map_of c k")
          (simp_all add: d(1) merged_not_dict at_not_dict untouched_not_dict)
    next
      case True
      then obtain u' where u': "x = PDict u'" by (cases x) auto
      then have run: "update_items e u' (or_empty (map_of c k)) = Ret w" using w(2) by (simp add: merged_def)
      have "(k, x) \<in> set u" using Some by (rule map_of_SomeD)
      then have wf: "wf_val (PDict u')" using Cons.prems(2) u' by fastforce
      show ?thesis
      proof (cases "is_dict (or_empty (map_of c k))")
        case True
        then obtain c' where c': "or_empty (map_of c k) = PDict c'" by (cases "or_empty (map_of c k)") auto
        from Cons.IH [OF run [unfolded c'] wf] c' show ?thesis
          by (cases "map_of c k"; cases ks) (auto simp: d(1) Some w(1) u' or_empty_def at_empty merged_leaf_def)
      next
        case False
        with run have "u' = []" using update_items_conflict by (cases u') auto
        with run False show ?thesis
          by (cases "map_of c k"; cases ks) (auto simp: d(1) Some w(1) u' or_empty_def)
      qed
    qed
  qed
qed

lemma merge_yaml_snoc:
  assumes "merge_yaml_sources e (ss @ [Some (PDict u)]) = Ret r"
  shows "\<exists>c. merge_yaml_sources e ss = Ret (PDict c) \<and> update_items e u (PDict c) = Ret r"
proof -
  from assms obtain b where b: "merge_yaml_sources e ss = Ret b"
    "update_nested_conf b (read_yaml_config (Some (PDict u))) e = Ret r"
    by (auto simp: merge_yaml_sources_def ofold_append)
  moreover obtain c where "b = PDict c" using merge_yaml_sources_is_dict [OF b(1)] by (cases b) simp_all
  ultimately show ?thesis by (cases u) (auto simp: update_nested_conf_def read_yaml_config_def)
qed

text \<open>C22: a run of the merge is layered. The last source decides: a leaf of it is the leaf of the result,
  except that with \<open>extend_lists\<close> a list is appended to a list that the sources below left at the same
  path; and every path that the last source does not mention keeps what the sources below gave it.
\<close>

theorem merge_yaml_layers:
  assumes "merge_yaml_sources e (ss @ [Some (PDict u)]) = Ret r" and "wf_val (PDict u)"
  shows "\<exists>below. merge_yaml_sources e ss = Ret below
    \<and> (\<forall>p v. at (PDict u) p = Some v \<longrightarrow> \<not> is_dict v \<longrightarrow> at r p = Some (merged_leaf e (at below p) v))
    \<and> (\<forall>p. untouched (PDict u) p \<longrightarrow> at r p = at below p)"
proof -
  from merge_yaml_snoc [OF assms(1)] obtain c
    where "merge_yaml_sources e ss = Ret (PDict c)" "update_items e u (PDict c) = Ret r" by blast
  with update_items_paths [OF this(2) assms(2)] show ?thesis by blast
qed

definition yaml_defaults :: pydict where
  "yaml_defaults = [(''api'', PDict [(''port'', PInt 80), (''hosts'', PList [PStr ''a''])]), (''debug'', PBool False)]"

definition yaml_override :: pydict where
  "yaml_override = [(''api'', PDict [(''hosts'', PList [PStr ''b'']), (''tls'', PDict [(''on'', PBool True)])])]"

lemma merge_yaml_layers_witness:
  "\<exists>r. merge_yaml_sources True [None, Some (PDict yaml_defaults), Some (PDict yaml_override)] = Ret r
     \<and> at r [''api'', ''hosts''] = Some (PList [PStr ''a'', PStr ''b''])
     \<and> at r [''api'', ''tls'', ''on''] = Some (PBool True)
     \<and> at r [''api'', ''port''] = Some (PInt 80)"
proof -
  let ?ss = "[None, Some (PDict yaml_defaults)]"
  have "case merge_yaml_sources True (?ss @ [Some (PDict yaml_override)]) of Ret _ \<Rightarrow> True | _ \<Rightarrow> False"
    by code_simp
  then obtain r where r: "merge_yaml_sources True (?ss @ [Some (PDict yaml_override)]) = Ret r"
    by (auto split: outcome.splits)
  have base: "merge_yaml_sources True ?ss = Ret (PDict yaml_defaults)" by code_simp
  have wf: "wf_val (PDict yaml_override)" by code_simp
  have "at r [''api'', ''hosts''] = Some (PList [PStr ''a'', PStr ''b''])"
    "at r [''api'', ''tls'', ''on''] = Some (PBool True)" "at r [''api'', ''port''] = Some (PInt 80)"
    using merge_yaml_layers [OF r wf] unfolding base
    by (auto simp: yaml_override_def yaml_defaults_def merged_leaf_def)
  with r show ?thesis by auto
qed

section \<open>When a merge fails\<close>

text \<open>Whether the value \<open>v\<close> can be merged over what is there.\<close>

fun mergeable :: "bool \<Rightarrow> pyval option \<Rightarrow> pyval \<Rightarrow> bool" where
  "mergeable e old (PDict u) = (u = [] \<or> (case or_empty old of
       PDict c \<Rightarrow> (\<forall>kv \<in> set u. mergeable e (map_of c (fst kv)) (snd kv))
     | _ \<Rightarrow> False))"
| "mergeable e old (PList ys) = True"
| "mergeable e old v = (case (old, e) of (Some (PList xs), True) \<Rightarrow> False | _ \<Rightarrow> True)"

lemma store_leaf_mergeable:
  "\<not> is_dict v \<Longrightarrow> returns (store_leaf e k v (PDict c)) \<longleftrightarrow> mergeable e (map_of c k) v"
  unfolding store_leaf_dict by (cases v; cases e) (auto split: option.splits pyval.splits)

lemma store_leaf_other: "\<not> is_dict conf \<Longrightarrow> \<not> returns (store_leaf e k v conf)"
  by (cases conf) (auto simp: store_leaf_def py_setitem_def returns_def
      split: if_splits option.splits bool.splits pyval.splits outcome.splits)

lemma update_mergeable:
  shows "wf_dict u \<Longrightarrow> (\<forall>kv \<in> set u. wf_val (snd kv)) \<Longrightarrow> returns (update_items e u conf) \<longleftrightarrow>
      u = [] \<or> (case conf of PDict c \<Rightarrow> (\<forall>kv \<in> set u. mergeable e (map_of c (fst kv)) (snd kv)) | _ \<Rightarrow> False)"
    and "wf_val v \<Longrightarrow> returns (update_item e k v conf) \<longleftrightarrow>
      (case conf of PDict c \<Rightarrow> mergeable e (map_of c k) v | _ \<Rightarrow> False)"
proof (induction e u conf and e k v conf rule: update_items_update_item.induct)
  case (1 e conf)
  then show ?case by simp
next
  case (2 e k v u conf)
  show ?case
  proof (cases conf)
    case (PDict c)
    show ?thesis
    proof (cases "update_item e k v conf")
      case (Ret r)
      then obtain w where w: "r = PDict (AList.update k w c)"
        using update_item_dict [of e k v c r] PDict by blast
      have "mergeable e (map_of c k) v" using 2(1) 2(4) Ret PDict by simp
      moreover have "(\<forall>kv \<in> set u. mergeable e (map_of (AList.update k w c) (fst kv)) (snd kv))
          \<longleftrightarrow> (\<forall>kv \<in> set u. mergeable e (map_of c (fst kv)) (snd kv))"
        using 2(3) by (intro ball_cong refl) (auto simp: update_conv')
      ultimately show ?thesis using 2(2) [of r] 2(3,4) Ret PDict by (auto simp: w)
    qed (use 2 PDict in auto)
  qed (use update_items_conflict [of conf e "(k, v)" u] in \<open>auto simp: returns_def split: outcome.splits\<close>)
next
  case (3 e k u conf)
  show ?case
  proof (cases conf)
    case (PDict c)
    have old: "dget_or c k (PDict []) = or_empty (map_of c k)"
      by (simp add: dget_or_def or_empty_def split: option.splits)
    show ?thesis
    proof (cases "update_items e u (or_empty (map_of c k))")
      case (Ret r)
      then show ?thesis using 3(1) [of "or_empty (map_of c k)"] 3(2) by (simp add: old PDict py_setitem_def)
    qed (use 3(1) [of "or_empty (map_of c k)"] 3(2) in \<open>simp_all add: old PDict\<close>)
  qed simp_all
next
  case (4 e k conf)
  show ?case using store_leaf_mergeable [of PNone] by (cases conf) (auto simp: store_leaf_other)
next
  case (5 e k b conf)
  show ?case using store_leaf_mergeable [of "PBool b"] by (cases conf) (auto simp: store_leaf_other)
next
  case (6 e k i conf)
  show ?case using store_leaf_mergeable [of "PInt i"] by (cases conf) (auto simp: store_leaf_other)
next
  case (7 e k s conf)
  show ?case using store_leaf_mergeable [of "PStr s"] by (cases conf) (auto simp: store_leaf_other)
next
  case (8 e k xs conf)
  show ?case using store_leaf_mergeable [of "PList xs"] by (cases conf) (auto simp: store_leaf_other)
qed

text \<open>C23: exactly when a merge fails. Over the document of the sources below, a further document is merged
  without an error if and only if no key of it meets an incompatible value: with \<open>extend_lists\<close> a list
  that is there meets something that is neither a list nor a dictionary, or a non-empty dictionary of
  the update meets a value that is there and is no dictionary (a scalar, a list, or \<open>null\<close>, for which
  \<open>conf.get(k, {})\<close> does not supply the empty dictionary). A dictionary that meets a missing key, and an
  empty dictionary, never fail.
\<close>

theorem merge_yaml_succeeds_iff:
  assumes "merge_yaml_sources e ss = Ret below" and "wf_val (PDict u)"
  shows "returns (merge_yaml_sources e (ss @ [Some (PDict u)])) \<longleftrightarrow> mergeable e (Some below) (PDict u)"
proof -
  obtain c where c: "below = PDict c" using merge_yaml_sources_is_dict [OF assms(1)] by (cases below) simp_all
  have "merge_yaml_sources e (ss @ [Some (PDict u)]) = update_items e u (PDict c)"
    using assms(1) by (cases u) (simp_all add: merge_yaml_sources_def ofold_append c read_yaml_config_def update_nested_conf_def)
  then show ?thesis using update_mergeable(1) [of u e "PDict c"] assms(2) by (auto simp: c or_empty_def)
qed

lemma merge_yaml_succeeds_iff_witness:
  "\<not> returns (merge_yaml_sources False [Some (PDict [(''cells'', PNone)]), Some (PDict [(''cells'', PDict [(''a'', PInt 1)])])])
   \<and> returns (merge_yaml_sources False [Some (PDict []), Some (PDict [(''cells'', PDict [(''a'', PInt 1)])])])"
  using merge_yaml_succeeds_iff [of False "[Some (PDict [(''cells'', PNone)])]" "PDict [(''cells'', PNone)]"
      "[(''cells'', PDict [(''a'', PInt 1)])]"]
    merge_yaml_succeeds_iff [of False "[Some (PDict [])]" "PDict []" "[(''cells'', PDict [(''a'', PInt 1)])]"]
  by (simp add: merge_yaml_sources_def update_nested_conf_def read_yaml_config_def or_empty_def
      store_leaf_def py_setitem_def has_key_def)

end
