(* ===== verification/Merge_Configs.thy ===== *)
theory Merge_Configs
  imports Py_Values
begin

text \<open>
  \<open>ansible/action_plugins/merge_configs.py\<close>: merging ini files. The line parser is oslo.config's
  \<open>iniparser.BaseParser\<close>, which is not in the repository: it is a parameter that yields the sequence
  of callbacks (\<open>new_section\<close>, \<open>assignment\<close>) it makes for a text, or the error it raises. The
  callbacks, the merge after a parse and the writer are modelled here; what the parser documents of
  plain lines is the law \<open>reads_plain_ini\<close>. \<open>_cur_section\<close> always is the
  dictionary stored in \<open>_cur_sections\<close> under its name, so the model keeps the name.
\<close>

section \<open>Definitions\<close>

definition orphan_section :: string where
  "orphan_section = ''TEMPORARY_ORPHAN_VARIABLE_SECTION''"

type_synonym ini_values = "string list list"
type_synonym ini_section = "(string \<times> ini_values) list"
type_synonym ini_sections = "(string \<times> ini_section) list"

datatype ini_event =
    NewSection string
  | Assignment string "string list"

record ini_parser =
  cur_sections :: ini_sections
  all_sections :: ini_sections
  cur_section :: "string option"
  ws :: string

definition new_parser :: "bool \<Rightarrow> ini_parser" where
  "new_parser whitespace =
     \<lparr>cur_sections = [], all_sections = [], cur_section = None, ws = (if whitespace then '' '' else '''')\<rparr>"

definition new_section :: "string \<Rightarrow> ini_parser \<Rightarrow> ini_parser" where
  "new_section name p =
     (case map_of (cur_sections p) name of
        Some (x # xs) \<Rightarrow> p\<lparr>cur_section := Some name\<rparr>
      | _ \<Rightarrow> p\<lparr>cur_sections := AList.update name [] (cur_sections p), cur_section := Some name\<rparr>)"

definition add_value :: "string \<Rightarrow> string list \<Rightarrow> ini_section \<Rightarrow> ini_section" where
  "add_value key v d =
     (let value = (if length v = 1 \<and> v ! 0 = '''' then [] else v) in
      case map_of d key of
        Some (x # xs) \<Rightarrow> AList.update key (x # xs @ [value]) d
      | _ \<Rightarrow> AList.update key [value] d)"

definition assignment :: "string \<Rightarrow> string list \<Rightarrow> ini_parser \<Rightarrow> ini_parser" where
  "assignment key v p =
     (let q = (if cur_section p = None then new_section orphan_section p else p);
          name = the (cur_section q);
          d = (case map_of (cur_sections q) name of None \<Rightarrow> [] | Some d \<Rightarrow> d)
      in q\<lparr>cur_sections := AList.update name (add_value key v d) (cur_sections q)\<rparr>)"

fun ini_callback :: "ini_event \<Rightarrow> ini_parser \<Rightarrow> ini_parser" where
  "ini_callback (NewSection s) p = new_section s p"
| "ini_callback (Assignment k v) p = assignment k v p"

text \<open>\<open>parse\<close>: the merge of \<open>_cur_sections\<close> into \<open>_sections\<close> follows the parse.\<close>

definition merge_section :: "string \<times> ini_section \<Rightarrow> ini_sections \<Rightarrow> ini_sections" where
  "merge_section sv secs =
     AList.update (fst sv)
       (dict_update (case map_of secs (fst sv) of None \<Rightarrow> [] | Some d \<Rightarrow> d) (snd sv)) secs"

definition parse_events :: "ini_event list \<Rightarrow> ini_parser \<Rightarrow> ini_parser" where
  "parse_events evs p =
     (let q = fold ini_callback evs (p\<lparr>cur_sections := [], cur_section := None\<rparr>)
      in q\<lparr>all_sections := fold merge_section (cur_sections q) (all_sections q)\<rparr>)"

definition ini_parse :: "(string \<Rightarrow> ini_event list outcome) \<Rightarrow> string \<Rightarrow> ini_parser \<Rightarrow> ini_parser outcome" where
  "ini_parse ini txt p = obind (ini txt) (\<lambda>evs. Ret (parse_events evs p))"

text \<open>\<open>write\<close>: the text, section by section.\<close>

definition write_value :: "string \<Rightarrow> string \<Rightarrow> string list \<Rightarrow> string" where
  "write_value w key v =
     (case v of
        [] \<Rightarrow> key @ w @ ''='' @ [nl]
      | x # xs \<Rightarrow> key @ w @ ''='' @ w @ x @ [nl]
          @ concat (map (\<lambda>y. replicate (length key + length w * 2 + 1) CHR 0x20 @ y @ [nl]) xs))"

definition write_key_value :: "string \<Rightarrow> string \<times> ini_values \<Rightarrow> string" where
  "write_key_value w kv = concat (map (write_value w (fst kv)) (snd kv))"

definition write_section :: "string \<Rightarrow> ini_section \<Rightarrow> string" where
  "write_section w d = concat (map (write_key_value w) d)"

definition ini_write :: "ini_parser \<Rightarrow> string" where
  "ini_write p = concat (map (\<lambda>(s, d).
     (if s \<noteq> orphan_section then ''['' @ s @ '']'' @ [nl] else []) @ write_section (ws p) d @ [nl])
     (all_sections p))"

text \<open>\<open>ActionModule.read_config\<close> and \<open>run\<close>: an unreadable source is skipped.\<close>

definition read_ini_config ::
  "(string \<Rightarrow> ini_event list outcome) \<Rightarrow> string option \<Rightarrow> ini_parser \<Rightarrow> ini_parser outcome" where
  "read_ini_config ini source config =
     (case source of None \<Rightarrow> Ret config | Some txt \<Rightarrow> ini_parse ini txt config)"

definition merge_configs ::
  "(string \<Rightarrow> ini_event list outcome) \<Rightarrow> bool \<Rightarrow> string option list \<Rightarrow> string outcome" where
  "merge_configs ini whitespace sources =
     obind (ofold (read_ini_config ini) sources (new_parser whitespace)) (\<lambda>config. Ret (ini_write config))"

definition config_copy_args :: "pydict \<Rightarrow> string \<Rightarrow> pydict" where
  "config_copy_args args result_file =
     AList.update ''src'' (PStr result_file) (fold AList.delete [''sources'', ''whitespace''] args)"

section \<open>The table a source assigns\<close>

text \<open>
  The specification: the values that a sequence of callbacks assigns to a key of a section, in the
  order of the lines. \<open>assigned\<close> carries the section the lines are in, the orphan one at the start.
\<close>

definition norm_value :: "string list \<Rightarrow> string list" where
  "norm_value v = (if v = [''''] then [] else v)"

fun assigned :: "string \<Rightarrow> ini_event list \<Rightarrow> string \<Rightarrow> string \<Rightarrow> ini_values" where
  "assigned cur [] s k = []"
| "assigned cur (NewSection n # evs) s k = assigned n evs s k"
| "assigned cur (Assignment key v # evs) s k =
     (if cur = s \<and> key = k then [norm_value v] else []) @ assigned cur evs s k"

definition values_at :: "ini_sections \<Rightarrow> string \<Rightarrow> string \<Rightarrow> ini_values" where
  "values_at secs s k = (case map_of secs s of None \<Rightarrow> [] | Some d \<Rightarrow> (case map_of d k of None \<Rightarrow> [] | Some vs \<Rightarrow> vs))"

definition section_of :: "ini_sections \<Rightarrow> string \<Rightarrow> ini_section" where
  "section_of secs s = (case map_of secs s of None \<Rightarrow> [] | Some d \<Rightarrow> d)"

definition values_of :: "ini_section \<Rightarrow> string \<Rightarrow> ini_values" where
  "values_of d k = (case map_of d k of None \<Rightarrow> [] | Some vs \<Rightarrow> vs)"

lemma values_at_section: "values_at secs s k = values_of (section_of secs s) k"
  by (simp add: values_at_def values_of_def section_of_def split: option.splits)

lemma section_of_update [simp]: "section_of (AList.update s d secs) s' = (if s' = s then d else section_of secs s')"
  by (simp add: section_of_def)

lemma values_of_update [simp]: "values_of (AList.update k vs d) k' = (if k' = k then vs else values_of d k')"
  by (simp add: values_of_def)

lemma values_of_Nil [simp]: "values_of [] k = []"
  by (simp add: values_of_def)

lemma add_value_norm: "add_value k v d = AList.update k (values_of d k @ [norm_value v]) d"
proof -
  have "(if length v = 1 \<and> v ! 0 = '''' then [] else v) = norm_value v"
    by (cases v) (auto simp: norm_value_def)
  then show ?thesis by (auto simp: add_value_def values_of_def Let_def split: option.splits list.splits)
qed

lemma section_of_new_section [simp]: "section_of (cur_sections (new_section n p)) s = section_of (cur_sections p) s"
  by (auto simp: new_section_def section_of_def split: option.splits list.splits)

lemma new_section_parts [simp]:
  "cur_section (new_section n p) = Some n" "all_sections (new_section n p) = all_sections p"
  "ws (new_section n p) = ws p"
  by (auto simp: new_section_def split: option.splits list.splits)

definition here :: "ini_parser \<Rightarrow> string" where
  "here p = (case cur_section p of None \<Rightarrow> orphan_section | Some s \<Rightarrow> s)"

lemma assignment_here:
  "assignment k v p =
    (let q = (if cur_section p = None then new_section orphan_section p else p) in
     q\<lparr>cur_sections := AList.update (here p)
         (add_value k v (section_of (cur_sections q) (here p))) (cur_sections q)\<rparr>)"
  by (auto simp: assignment_def here_def section_of_def Let_def split: option.splits)

lemma assignment_parts [simp]:
  "cur_section (assignment k v p) = Some (here p)" "all_sections (assignment k v p) = all_sections p"
  by (auto simp: assignment_here Let_def here_def)

lemma values_assignment:
  "values_at (cur_sections (assignment k v p)) s x =
    values_at (cur_sections p) s x @ (if here p = s \<and> k = x then [norm_value v] else [])"
  by (simp add: assignment_here Let_def values_at_section add_value_norm)

lemma values_new_section [simp]: "values_at (cur_sections (new_section n p)) s k = values_at (cur_sections p) s k"
  by (simp add: values_at_section)

lemma here_simps [simp]: "here (new_section n p) = n" "here (assignment k v p) = here p"
  by (simp_all add: here_def)

lemma callbacks_values:
  "values_at (cur_sections (fold ini_callback evs p)) s k
    = values_at (cur_sections p) s k @ assigned (here p) evs s k"
proof (induction evs arbitrary: p)
  case Nil
  show ?case by simp
next
  case (Cons ev evs)
  show ?case
    by (cases ev) (simp_all add: Cons.IH values_assignment)
qed

lemma callbacks_all_sections: "all_sections (fold ini_callback evs p) = all_sections p"
proof (induction evs arbitrary: p)
  case (Cons ev evs)
  then show ?case by (cases ev) simp_all
qed simp

section \<open>Well-formed tables\<close>

definition wf_section :: "ini_section \<Rightarrow> bool" where
  "wf_section d \<longleftrightarrow> wf_dict d \<and> (\<forall>kv \<in> set d. snd kv \<noteq> [] \<and> [''''] \<notin> set (snd kv))"

definition wf_sections :: "ini_sections \<Rightarrow> bool" where
  "wf_sections secs \<longleftrightarrow> wf_dict secs \<and> (\<forall>sd \<in> set secs. wf_section (snd sd))"

lemma wf_sections_Nil [simp]: "wf_sections []"
  by (simp add: wf_sections_def)

lemma set_update_subset: "set (AList.update k v d) \<subseteq> insert (k, v) (set d)"
  by (induction d) (auto split: if_splits)

lemma wf_section_lookup:
  "\<lbrakk>wf_section d; map_of d k = Some vs\<rbrakk> \<Longrightarrow> vs \<noteq> [] \<and> [[]] \<notin> set vs"
  by (drule map_of_SomeD) (fastforce simp: wf_section_def)

lemma wf_section_of: "wf_sections secs \<Longrightarrow> wf_section (section_of secs s)"
  by (cases "map_of secs s")
    (auto simp: section_of_def wf_sections_def wf_section_def wf_dict_def dest: map_of_SomeD)

lemma wf_sections_update: "\<lbrakk>wf_sections secs; wf_section d\<rbrakk> \<Longrightarrow> wf_sections (AList.update s d secs)"
  using set_update_subset [of s d secs] by (auto simp: wf_sections_def)

lemma wf_section_update:
  "\<lbrakk>wf_section d; vs \<noteq> []; [''''] \<notin> set vs\<rbrakk> \<Longrightarrow> wf_section (AList.update k vs d)"
  using set_update_subset [of k vs d] by (auto simp: wf_section_def)

lemma wf_section_add_value: "wf_section d \<Longrightarrow> wf_section (add_value k v d)"
  unfolding add_value_norm
  by (rule wf_section_update)
    (auto simp: norm_value_def values_of_def split: option.splits dest: wf_section_lookup wf_section_lookup [OF _ sym])

lemma wf_new_section: "wf_sections (cur_sections p) \<Longrightarrow> wf_sections (cur_sections (new_section n p))"
  by (auto simp: new_section_def wf_section_def intro: wf_sections_update split: option.splits list.splits)

lemma wf_callbacks: "wf_sections (cur_sections p) \<Longrightarrow> wf_sections (cur_sections (fold ini_callback evs p))"
proof (induction evs arbitrary: p)
  case (Cons ev evs)
  then show ?case
    by (cases ev)
      (simp_all add: assignment_here Let_def wf_new_section wf_sections_update wf_section_add_value wf_section_of)
qed simp

lemma wf_section_dict_update: "\<lbrakk>wf_section d; wf_section e\<rbrakk> \<Longrightarrow> wf_section (dict_update d e)"
proof (induction e arbitrary: d)
  case (Cons kv e)
  from Cons.prems have "wf_section e" by (simp add: wf_section_def wf_dict_def)
  moreover obtain k vs where kv: "kv = (k, vs)" by (cases kv)
  moreover have "dict_update d (kv # e) = dict_update (AList.update k vs d) e" by (simp add: dict_update_def kv)
  moreover have "wf_section (AList.update k vs d)"
    using Cons.prems by (intro wf_section_update) (simp_all add: wf_section_def kv)
  ultimately show ?case using Cons.IH by simp
qed simp

section \<open>The merge after a parse\<close>

lemma values_of_dict_update:
  assumes "wf_section e"
  shows "values_of (dict_update d e) k = (if values_of e k = [] then values_of d k else values_of e k)"
proof -
  have "wf_dict e" using assms by (simp add: wf_section_def)
  then show ?thesis
    using wf_section_lookup [OF assms, of k]
    by (auto simp: values_of_def map_of_dict_update split: option.splits)
qed

lemma merge_section_section_of: "merge_section sv secs = AList.update (fst sv) (dict_update (section_of secs (fst sv)) (snd sv)) secs"
  by (simp add: merge_section_def section_of_def)

lemma merge_section_values:
  "wf_section e \<Longrightarrow> values_at (merge_section (n, e) secs) s k
     = (if s = n \<and> values_of e k \<noteq> [] then values_of e k else values_at secs s k)"
  by (simp add: merge_section_section_of values_at_section values_of_dict_update)

lemma merge_section_order:
  "map fst (merge_section sv secs) = map fst secs @ (if fst sv \<in> fst ` set secs then [] else [fst sv])"
  by (simp add: merge_section_def keys_AList_update)

lemma values_at_Nil [simp]: "values_at [] s k = []"
  by (simp add: values_at_def)

lemma merge_all_values:
  "wf_sections cur \<Longrightarrow>
    values_at (fold merge_section cur secs) s k
      = (if values_at cur s k = [] then values_at secs s k else values_at cur s k)"
proof (induction cur arbitrary: secs)
  case (Cons sv cur)
  obtain n e where sv: "sv = (n, e)" by (cases sv)
  with Cons.prems have wf: "wf_sections cur" "wf_section e" "map_of cur n = None"
    by (auto simp: wf_sections_def map_of_eq_None_iff)
  have cur: "values_at (sv # cur) s k = (if s = n then values_of e k else values_at cur s k)"
    by (simp add: values_at_def sv values_of_def)
  have none: "s = n \<Longrightarrow> values_at cur s k = []" using wf(3) by (simp add: values_at_def)
  show ?case
    using none by (simp add: cur [unfolded sv] Cons.IH [OF wf(1)] sv merge_section_values [OF wf(2)])
qed simp

lemma merge_all_wf: "\<lbrakk>wf_sections cur; wf_sections secs\<rbrakk> \<Longrightarrow> wf_sections (fold merge_section cur secs)"
proof (induction cur arbitrary: secs)
  case (Cons sv cur)
  obtain n e where sv: "sv = (n, e)" by (cases sv)
  with Cons.prems have wf: "wf_sections cur" "wf_section e" by (auto simp: wf_sections_def)
  with Cons show ?case
    by (simp add: merge_section_section_of sv wf_sections_update wf_section_dict_update wf_section_of)
qed simp

lemma merge_all_order: "\<exists>new. map fst (fold merge_section cur secs) = map fst secs @ new"
proof (induction cur arbitrary: secs)
  case (Cons sv cur)
  obtain new where new: "map fst (fold merge_section cur (merge_section sv secs)) = map fst (merge_section sv secs) @ new"
    using Cons.IH by blast
  then show ?case by (simp add: merge_section_order)
qed simp

lemma parse_events_sections:
  "all_sections (parse_events evs p)
    = fold merge_section (cur_sections (fold ini_callback evs (p\<lparr>cur_sections := [], cur_section := None\<rparr>))) (all_sections p)"
  by (simp add: parse_events_def callbacks_all_sections Let_def)

lemma parse_events_values:
  "values_at (all_sections (parse_events evs p)) s k
    = (if assigned orphan_section evs s k = [] then values_at (all_sections p) s k
       else assigned orphan_section evs s k)"
  by (simp add: parse_events_sections merge_all_values wf_callbacks callbacks_values here_def)

lemma parse_events_wf: "wf_sections (all_sections p) \<Longrightarrow> wf_sections (all_sections (parse_events evs p))"
  by (simp add: parse_events_sections merge_all_wf wf_callbacks)

text \<open>C21: a later source overrides an earlier one key by key. After a source has been parsed, a key of a
  section has the values that this source assigns to it, all of them in the order of the lines (a
  repeated key accumulates within one source, an empty value is kept as the empty one), and if the
  source assigns none, the values it had before; assignments before the first section header belong
  to the orphan section. The sections that were there keep their order, new ones follow.
\<close>

theorem parse_overrides:
  "values_at (all_sections (parse_events evs p)) s k
     = (if assigned orphan_section evs s k = [] then values_at (all_sections p) s k
        else assigned orphan_section evs s k)
   \<and> (\<exists>new. map fst (all_sections (parse_events evs p)) = map fst (all_sections p) @ new)"
  by (simp add: parse_events_values) (simp add: parse_events_sections merge_all_order)

section \<open>Writing and reading back\<close>

text \<open>The callbacks that the written text stands for, line by line.\<close>

definition key_events :: "string \<times> ini_values \<Rightarrow> ini_event list" where
  "key_events kv = map (\<lambda>v. Assignment (fst kv) (if v = [] then [''''] else v)) (snd kv)"

definition section_events :: "string \<times> ini_section \<Rightarrow> ini_event list" where
  "section_events sd =
     (if fst sd \<noteq> orphan_section then [NewSection (fst sd)] else []) @ concat (map key_events (snd sd))"

definition config_events :: "ini_sections \<Rightarrow> ini_event list" where
  "config_events secs = concat (map section_events secs)"

definition orphan_first :: "ini_sections \<Rightarrow> bool" where
  "orphan_first secs \<longleftrightarrow>
     (case secs of
        [] \<Rightarrow> True
      | sd # rest \<Rightarrow> (fst sd = orphan_section \<longrightarrow> snd sd \<noteq> []) \<and> orphan_section \<notin> fst ` set rest)"

lemma update_last_item: "k \<notin> fst ` set d \<Longrightarrow> AList.update k v (d @ [(k, w)]) = d @ [(k, v)]"
  by (induction d) auto

lemma section_of_last: "s \<notin> fst ` set pre \<Longrightarrow> section_of (pre @ [(s, d)]) s = d"
  using map_of_eq_None_iff [of pre s] by (simp add: section_of_def map_add_def)

lemma assignment_last:
  assumes "cur_section p = Some s" and "cur_sections p = pre @ [(s, d)]" and "s \<notin> fst ` set pre"
  shows "assignment k v p = p\<lparr>cur_sections := pre @ [(s, add_value k v d)]\<rparr>"
  using assms by (simp add: assignment_here here_def section_of_last update_last_item)

lemma callbacks_values_of_key:
  "\<lbrakk>cur_section p = Some s; cur_sections p = pre @ [(s, d @ [(k, us)])]; s \<notin> fst ` set pre;
    k \<notin> fst ` set d; us \<noteq> []; [[]] \<notin> set vs\<rbrakk> \<Longrightarrow>
    fold ini_callback (key_events (k, vs)) p = p\<lparr>cur_sections := pre @ [(s, d @ [(k, us @ vs)])]\<rparr>"
proof (induction vs arbitrary: p us)
  case Nil
  then show ?case by (simp add: key_events_def)
next
  case (Cons v vs)
  have "values_of (d @ [(k, us)]) k = us"
    using Cons.prems(4) by (simp add: values_of_def map_add_def split: option.splits)
      (metis map_of_SomeD image_eqI fst_conv)
  moreover have "norm_value (if v = [] then [''''] else v) = v"
    using Cons.prems(6) by (auto simp: norm_value_def)
  ultimately have "ini_callback (Assignment k (if v = [] then [''''] else v)) p
      = p\<lparr>cur_sections := pre @ [(s, d @ [(k, us @ [v])])]\<rparr>" (is "_ = ?q")
    using Cons.prems by (simp add: assignment_last add_value_norm update_last_item del: assignment_parts)
  moreover have "fold ini_callback (key_events (k, vs)) ?q = ?q\<lparr>cur_sections := pre @ [(s, d @ [(k, (us @ [v]) @ vs)])]\<rparr>"
    using Cons.prems by (intro Cons.IH) simp_all
  ultimately show ?case by (simp add: key_events_def)
qed

lemma callbacks_first_value:
  assumes "cur_section p = Some s" and "cur_sections p = pre @ [(s, d)]" and "s \<notin> fst ` set pre"
    and "k \<notin> fst ` set d" and "vs \<noteq> []" and "[''''] \<notin> set vs"
  shows "fold ini_callback (key_events (k, vs)) p = p\<lparr>cur_sections := pre @ [(s, d @ [(k, vs)])]\<rparr>"
proof -
  obtain v vs' where vs: "vs = v # vs'" using assms(5) by (cases vs) auto
  have "norm_value (if v = [] then [''''] else v) = v" using assms(6) vs by (auto simp: norm_value_def)
  moreover have "values_of d k = []" using assms(4) map_of_eq_None_iff [of d k] by (simp add: values_of_def)
  ultimately have "ini_callback (Assignment k (if v = [] then [''''] else v)) p
      = p\<lparr>cur_sections := pre @ [(s, d @ [(k, [v])])]\<rparr>" (is "_ = ?q")
    using assms by (simp add: assignment_last add_value_norm update_fresh del: assignment_parts)
  moreover have "fold ini_callback (key_events (k, vs')) ?q = ?q\<lparr>cur_sections := pre @ [(s, d @ [(k, [v] @ vs')])]\<rparr>"
    using assms vs by (intro callbacks_values_of_key) simp_all
  ultimately show ?thesis by (simp add: key_events_def vs)
qed

lemma callbacks_keys:
  "\<lbrakk>cur_section p = Some s; cur_sections p = pre @ [(s, d)]; s \<notin> fst ` set pre; wf_section (d @ e)\<rbrakk> \<Longrightarrow>
    fold ini_callback (concat (map key_events e)) p = p\<lparr>cur_sections := pre @ [(s, d @ e)]\<rparr>"
proof (induction e arbitrary: p d)
  case Nil
  then show ?case by simp
next
  case (Cons kv e)
  obtain k vs where kv: "kv = (k, vs)" by (cases kv)
  have wf: "k \<notin> fst ` set d" "vs \<noteq> []" "[''''] \<notin> set vs" "wf_section ((d @ [(k, vs)]) @ e)"
    using Cons.prems(4) by (auto simp: wf_section_def wf_dict_def kv)
  have "fold ini_callback (key_events (k, vs)) p = p\<lparr>cur_sections := pre @ [(s, d @ [(k, vs)])]\<rparr>"
    using callbacks_first_value [OF Cons.prems(1-3) wf(1-3)] .
  then show ?case using Cons.IH [of "p\<lparr>cur_sections := pre @ [(s, d @ [(k, vs)])]\<rparr>" "d @ [(k, vs)]"] Cons.prems wf(4)
    by (simp add: kv)
qed

lemma new_section_fresh:
  "s \<notin> fst ` set (cur_sections p) \<Longrightarrow>
    new_section s p = p\<lparr>cur_sections := cur_sections p @ [(s, [])], cur_section := Some s\<rparr>"
  using map_of_eq_None_iff [of "cur_sections p" s] by (simp add: new_section_def update_fresh)

lemma callbacks_section:
  assumes "s \<noteq> orphan_section" and "s \<notin> fst ` set (cur_sections p)" and "wf_section e"
  shows "fold ini_callback (section_events (s, e)) p
    = p\<lparr>cur_sections := cur_sections p @ [(s, e)], cur_section := Some s\<rparr>"
  using assms callbacks_keys [of "new_section s p" s "cur_sections p" "[]" e]
  by (simp add: section_events_def new_section_fresh)

lemma callbacks_orphans:
  assumes "cur_section p = None" and "cur_sections p = []" and "e \<noteq> []" and "wf_section e"
  shows "fold ini_callback (section_events (orphan_section, e)) p
    = p\<lparr>cur_sections := [(orphan_section, e)], cur_section := Some orphan_section\<rparr>"
proof -
  let ?evs = "concat (map key_events e)"
  have "?evs \<noteq> []" using assms(3,4) by (cases e) (auto simp: key_events_def wf_section_def)
  moreover have "\<forall>ev \<in> set ?evs. \<exists>k v. ev = Assignment k v" by (auto simp: key_events_def)
  ultimately obtain k v evs where evs: "?evs = Assignment k v # evs" by (cases ?evs) auto
  have "assignment k v p = assignment k v (new_section orphan_section p)"
    using assms(1) by (simp add: assignment_def)
  then have "fold ini_callback ?evs p = fold ini_callback ?evs (new_section orphan_section p)"
    by (simp add: evs)
  then show ?thesis
    using assms callbacks_keys [of "new_section orphan_section p" orphan_section "[]" "[]" e]
    by (simp add: section_events_def new_section_fresh)
qed

lemma callbacks_config:
  "\<lbrakk>wf_sections (cur_sections p @ secs); orphan_section \<notin> fst ` set secs\<rbrakk> \<Longrightarrow>
    cur_sections (fold ini_callback (config_events secs) p) = cur_sections p @ secs"
proof (induction secs arbitrary: p)
  case Nil
  then show ?case by (simp add: config_events_def)
next
  case (Cons sd secs)
  obtain s e where sd: "sd = (s, e)" by (cases sd)
  have "fold ini_callback (section_events (s, e)) p
      = p\<lparr>cur_sections := cur_sections p @ [(s, e)], cur_section := Some s\<rparr>"
    using Cons.prems by (intro callbacks_section) (auto simp: wf_sections_def wf_dict_def sd)
  then show ?case
    using Cons.IH [of "p\<lparr>cur_sections := cur_sections p @ [(s, e)], cur_section := Some s\<rparr>"] Cons.prems
    by (simp add: config_events_def sd)
qed

lemma callbacks_config_events:
  assumes "wf_sections secs" and "orphan_first secs" and "cur_section p = None" and "cur_sections p = []"
  shows "cur_sections (fold ini_callback (config_events secs) p) = secs"
proof (cases secs)
  case Nil
  then show ?thesis using assms by (simp add: config_events_def)
next
  case (Cons sd rest)
  obtain s e where sd: "sd = (s, e)" by (cases sd)
  show ?thesis
  proof (cases "s = orphan_section")
    case True
    then show ?thesis
      using assms callbacks_config [of "p\<lparr>cur_sections := [(s, e)], cur_section := Some s\<rparr>" rest]
        callbacks_orphans [of p e]
      by (simp add: Cons sd orphan_first_def config_events_def wf_sections_def)
  next
    case False
    then show ?thesis
      using assms callbacks_config [of p secs] by (simp add: Cons sd orphan_first_def)
  qed
qed

lemma merge_into_empty:
  "wf_sections (acc @ secs) \<Longrightarrow> fold merge_section secs acc = acc @ secs"
proof (induction secs arbitrary: acc)
  case (Cons sd secs)
  obtain s e where sd: "sd = (s, e)" by (cases sd)
  have wf: "wf_dict e" "s \<notin> fst ` set acc"
    using Cons.prems by (auto simp: sd wf_sections_def wf_section_def wf_dict_def)
  have "merge_section (s, e) acc = acc @ [(s, e)]"
    using wf map_of_eq_None_iff [of acc s] by (simp add: merge_section_def update_fresh dict_update_fresh wf_dict_def)
  with Cons show ?case by (simp add: sd)
qed simp

lemma ws_callbacks [simp]: "ws (fold ini_callback evs p) = ws p"
proof (induction evs arbitrary: p)
  case (Cons ev evs)
  then show ?case by (cases ev) (simp_all add: assignment_here Let_def)
qed simp

lemma ws_parse_events [simp]: "ws (parse_events evs p) = ws p"
  by (simp add: parse_events_def Let_def)

definition merged_sources :: "bool \<Rightarrow> ini_event list list \<Rightarrow> ini_parser" where
  "merged_sources whitespace sources = fold parse_events sources (new_parser whitespace)"

lemma merged_sources_wf: "wf_sections (all_sections (merged_sources w sources))"
proof -
  have "wf_sections (all_sections p) \<Longrightarrow> wf_sections (all_sections (fold parse_events sources p))" for p
    by (induction sources arbitrary: p) (simp_all add: parse_events_wf)
  then show ?thesis by (simp add: merged_sources_def new_parser_def)
qed

lemma merged_sources_ws: "ws (merged_sources w sources) = ws (new_parser w)"
proof -
  have "ws (fold parse_events sources p) = ws p" for p
    by (induction sources arbitrary: p) simp_all
  then show ?thesis by (simp add: merged_sources_def)
qed

lemma reparse_sections:
  assumes "wf_sections secs" and "orphan_first secs"
  shows "all_sections (parse_events (config_events secs) (new_parser w)) = secs"
  using callbacks_config_events [OF assms, of "(new_parser w)\<lparr>cur_sections := [], cur_section := None\<rparr>"]
    merge_into_empty [of "[]" secs] assms(1)
  by (simp add: parse_events_sections) (simp add: new_parser_def)

definition readable :: "string option list \<Rightarrow> string list" where
  "readable sources = map the (filter (\<lambda>s. s \<noteq> None) sources)"

lemma merge_configs_result:
  assumes "omap ini (readable sources) = Ret evss"
  shows "merge_configs ini w sources = Ret (ini_write (merged_sources w evss))"
proof -
  have "omap ini (readable sources) = Ret evss \<Longrightarrow>
    ofold (read_ini_config ini) sources p = Ret (fold parse_events evss p)" for p
  proof (induction sources arbitrary: evss p)
    case (Cons s sources)
    then show ?case
      by (cases s) (auto simp: readable_def read_ini_config_def ini_parse_def)
  qed (simp add: readable_def)
  with assms show ?thesis by (simp add: merge_configs_def merged_sources_def)
qed

section \<open>The text of a configuration, line by line\<close>

text \<open>
  The lines of a plain configuration and what oslo.config's \<open>iniparser\<close> documents of them: a header
  opens a section; \<open>key = value\<close>, with any number of spaces around the sign, assigns the stripped value,
  which the indented lines that follow continue. \<open>plain_line\<close> leaves out what that parser treats otherwise:
  a comment sign or a bracket at the head of a key, a separator inside it, and a value in quotes,
  which the parser takes off.
\<close>

datatype ini_line =
    Blank
  | Header string
  | Setting string nat nat string "(nat \<times> string) list"

definition spaces :: "nat \<Rightarrow> string" where
  "spaces n = replicate n CHR 0x20"

fun line_text :: "ini_line \<Rightarrow> string" where
  "line_text Blank = [nl]"
| "line_text (Header n) = ''['' @ n @ '']'' @ [nl]"
| "line_text (Setting k before after x conts) = k @ spaces before @ ''='' @ spaces after @ x @ [nl]
     @ concat (map (\<lambda>(n, y). spaces n @ y @ [nl]) conts)"

fun line_events :: "ini_line \<Rightarrow> ini_event list" where
  "line_events Blank = []"
| "line_events (Header n) = [NewSection n]"
| "line_events (Setting k before after x conts) = [Assignment k (x # map snd conts)]"

definition plain_text :: "string \<Rightarrow> bool" where
  "plain_text t \<longleftrightarrow> nl \<notin> set t \<and> str_strip t = t"

definition in_quotes :: "string \<Rightarrow> bool" where
  "in_quotes t \<longleftrightarrow> t \<noteq> [] \<and> hd t = last t \<and> hd t \<in> {CHR 0x22, CHR 0x27}"

definition plain_key :: "string \<Rightarrow> bool" where
  "plain_key k \<longleftrightarrow> k \<noteq> [] \<and> plain_text k \<and> hd k \<notin> {CHR ''['', CHR ''#'', CHR '';''} \<and> CHR ''='' \<notin> set k \<and> CHR '':'' \<notin> set k"

fun plain_line :: "ini_line \<Rightarrow> bool" where
  "plain_line Blank \<longleftrightarrow> True"
| "plain_line (Header n) \<longleftrightarrow> n \<noteq> [] \<and> nl \<notin> set n"
| "plain_line (Setting k before after x conts) \<longleftrightarrow> plain_key k \<and> plain_text x \<and> \<not> in_quotes x
     \<and> list_all (\<lambda>(n, y). 0 < n \<and> y \<noteq> [] \<and> plain_text y) conts"

definition reads_plain_ini :: "(string \<Rightarrow> ini_event list outcome) \<Rightarrow> bool" where
  "reads_plain_ini ini \<longleftrightarrow>
     (\<forall>ls. list_all plain_line ls \<longrightarrow> ini (concat (map line_text ls)) = Ret (concat (map line_events ls)))"

text \<open>A callback whose parts need no quotes: the names and values that a plain line can carry.\<close>

fun plain_event :: "ini_event \<Rightarrow> bool" where
  "plain_event (NewSection n) \<longleftrightarrow> n \<noteq> [] \<and> nl \<notin> set n"
| "plain_event (Assignment k v) \<longleftrightarrow> plain_key k \<and> v \<noteq> [] \<and> plain_text (hd v) \<and> \<not> in_quotes (hd v)
     \<and> list_all (\<lambda>y. y \<noteq> [] \<and> plain_text y) (tl v)"

text \<open>The lines that the writer has to produce for a value, a key, a section and a configuration.\<close>

definition value_line :: "nat \<Rightarrow> string \<Rightarrow> string list \<Rightarrow> ini_line" where
  "value_line w k v =
     (case v of [] \<Rightarrow> Setting k w 0 [] []
      | x # xs \<Rightarrow> Setting k w w x (map (Pair (length k + w * 2 + 1)) xs))"

definition section_lines :: "nat \<Rightarrow> string \<times> ini_section \<Rightarrow> ini_line list" where
  "section_lines w sd = (if fst sd \<noteq> orphan_section then [Header (fst sd)] else [])
     @ concat (map (\<lambda>(k, vs). map (value_line w k) vs) (snd sd)) @ [Blank]"

lemma value_line_text: "line_text (value_line w k v) = write_value (spaces w) k v"
  by (simp add: value_line_def write_value_def spaces_def comp_def split: list.splits)

lemma value_line_events: "line_events (value_line w k v) = [Assignment k (if v = [] then [''''] else v)]"
  by (simp add: value_line_def comp_def split: list.splits)

lemma value_line_plain: "plain_line (value_line w k v) \<longleftrightarrow> plain_event (Assignment k (if v = [] then [''''] else v))"
  by (auto simp: value_line_def list_all_iff split: list.splits)

lemma section_lines_text:
  "concat (map line_text (section_lines w (s, d)))
     = (if s \<noteq> orphan_section then ''['' @ s @ '']'' @ [nl] else []) @ write_section (spaces w) d @ [nl]"
proof -
  have "concat (map line_text (concat (map (\<lambda>(k, vs). map (value_line w k) vs) d))) = write_section (spaces w) d"
    by (induction d) (simp_all add: write_section_def write_key_value_def value_line_text comp_def split_beta)
  then show ?thesis by (simp add: section_lines_def)
qed

lemma section_lines_events: "concat (map line_events (section_lines w sd)) = section_events sd"
proof -
  have "concat (map line_events (concat (map (\<lambda>(k, vs). map (value_line w k) vs) d))) = concat (map key_events d)" for d
    by (induction d) (simp_all add: key_events_def value_line_events comp_def split_beta concat_map_singleton)
  then show ?thesis by (simp add: section_lines_def section_events_def)
qed

lemma section_lines_plain: "list_all plain_line (section_lines w sd) \<longleftrightarrow> list_all plain_event (section_events sd)"
proof -
  have "list_all plain_line (map (value_line w k) vs) \<longleftrightarrow> list_all plain_event (key_events (k, vs))" for k vs
    by (induction vs) (simp_all add: key_events_def value_line_plain del: plain_event.simps)
  then have "list_all plain_line (concat (map (\<lambda>(k, vs). map (value_line w k) vs) d)) \<longleftrightarrow> list_all plain_event (concat (map key_events d))" for d
    by (induction d) (simp_all add: split_beta)
  then show ?thesis by (simp add: section_lines_def section_events_def)
qed

lemma written_reads:
  assumes law: "reads_plain_ini ini" and blank: "ws p = spaces w" and plain: "list_all plain_event (config_events (all_sections p))"
  shows "ini (ini_write p) = Ret (config_events (all_sections p))"
proof -
  let ?ls = "concat (map (section_lines w) (all_sections p))"
  have "concat (map line_text (concat (map (section_lines w) secs)))
      = concat (map (\<lambda>(s, d). (if s \<noteq> orphan_section then ''['' @ s @ '']'' @ [nl] else []) @ write_section (spaces w) d @ [nl]) secs)" for secs
    by (induction secs) (auto simp: section_lines_text)
  then have "concat (map line_text ?ls) = ini_write p" by (simp add: ini_write_def blank)
  moreover have "concat (map line_events (concat (map (section_lines w) secs))) = config_events secs" for secs
    by (induction secs) (simp_all add: config_events_def section_lines_events)
  moreover have "list_all plain_line (concat (map (section_lines w) secs)) \<longleftrightarrow> list_all plain_event (config_events secs)" for secs
    by (induction secs) (simp_all add: config_events_def section_lines_plain)
  ultimately show ?thesis using law plain unfolding reads_plain_ini_def by metis
qed

text \<open>What is merged from plain callbacks is plain.\<close>

lemma assigned_from: "v \<in> set (assigned cur evs s k) \<Longrightarrow> \<exists>w. v = norm_value w \<and> Assignment k w \<in> set evs"
  by (induction cur evs s k rule: assigned.induct) (auto split: if_splits)

lemma config_event_cases:
  assumes "wf_sections secs" and "ev \<in> set (config_events secs)"
  obtains n where "ev = NewSection n" "n \<in> fst ` set secs" "n \<noteq> orphan_section"
    | s k v where "ev = Assignment k (if v = [] then [''''] else v)" "v \<in> set (values_at secs s k)"
proof -
  obtain s d where sd: "(s, d) \<in> set secs" "ev \<in> set (section_events (s, d))"
    using assms(2) by (auto simp: config_events_def)
  then have wf: "wf_dict d" "map_of secs s = Some d"
    using assms(1) by (auto simp: wf_sections_def wf_section_def wf_dict_def)
  from sd(2) consider "ev = NewSection s" "s \<noteq> orphan_section"
    | k vs v where "(k, vs) \<in> set d" "v \<in> set vs" "ev = Assignment k (if v = [] then [''''] else v)"
    by (auto simp: section_events_def key_events_def split: if_splits)
  then show thesis
  proof cases
    case 1
    with sd(1) that(1) show ?thesis by force
  next
    case 2
    with wf have "v \<in> set (values_at secs s k)" by (simp add: values_at_def wf_dict_def)
    with 2 that(2) show ?thesis by blast
  qed
qed

lemma callback_names:
  "fst ` set (cur_sections (fold ini_callback evs p))
     \<subseteq> insert (here p) (fst ` set (cur_sections p) \<union> {n. NewSection n \<in> set evs})"
proof (induction evs arbitrary: p)
  case (Cons ev evs)
  have names: "fst ` set (AList.update x d xs) = insert x (fst ` set xs)" for x d and xs :: ini_sections
    by (simp add: dom_update [symmetric] dom_map_of_conv_image_fst [symmetric] update_conv')
  have new: "fst ` set (cur_sections (new_section n q)) \<subseteq> insert n (fst ` set (cur_sections q))" for n q
    by (auto simp: new_section_def names split: option.splits list.splits)
  have "fst ` set (cur_sections (ini_callback ev p)) \<subseteq> insert (here p) (fst ` set (cur_sections p) \<union> {n. ev = NewSection n})"
  proof (cases ev)
    case (NewSection n)
    then show ?thesis using new [of n p] by auto
  next
    case (Assignment k v)
    have "fst ` set (cur_sections (assignment k v p)) \<subseteq> insert (here p) (fst ` set (cur_sections p))"
    proof (cases "cur_section p")
      case None
      then have "here p = orphan_section" by (simp add: here_def)
      then show ?thesis using new [of orphan_section p] None by (auto simp: assignment_here names Let_def)
    qed (auto simp: assignment_here names Let_def)
    then show ?thesis using Assignment by auto
  qed
  moreover have "here (ini_callback ev p) \<in> insert (here p) {n. ev = NewSection n}" by (cases ev) simp_all
  moreover have "\<lbrakk>A \<subseteq> insert h' (S' \<union> N); S' \<subseteq> insert h (S \<union> E); h' \<in> insert h E\<rbrakk> \<Longrightarrow> A \<subseteq> insert h (S \<union> (E \<union> N))"
    for A S S' E N :: "string set" and h h' by blast
  moreover have "{n. NewSection n \<in> set (ev # evs)} = {n. ev = NewSection n} \<union> {n. NewSection n \<in> set evs}" by auto
  ultimately show ?case using Cons.IH [of "ini_callback ev p"] by simp
qed auto

lemma merged_names: "fst ` set (fold merge_section cur secs) = fst ` set cur \<union> fst ` set secs"
proof (induction cur arbitrary: secs)
  case (Cons sv cur)
  have "fst ` set (merge_section sv secs) = insert (fst sv) (fst ` set secs)"
    using arg_cong [OF merge_section_order [of sv secs], of set] by (auto split: if_splits)
  then show ?case by (simp add: Cons.IH)
qed simp

lemma parse_plain:
  assumes wf: "wf_sections (all_sections p)" and old: "list_all plain_event (config_events (all_sections p))"
    and evs: "list_all plain_event evs"
  shows "list_all plain_event (config_events (all_sections (parse_events evs p)))"
proof -
  have "plain_event ev" if "ev \<in> set (config_events (all_sections (parse_events evs p)))" for ev
    using parse_events_wf [OF wf, of evs] that
  proof (rule config_event_cases)
    fix n
    assume n: "ev = NewSection n" "n \<in> fst ` set (all_sections (parse_events evs p))" "n \<noteq> orphan_section"
    then have "n \<in> fst ` set (all_sections p) \<or> NewSection n \<in> set evs"
      using callback_names [of evs "p\<lparr>cur_sections := [], cur_section := None\<rparr>"]
      by (auto simp: parse_events_sections merged_names here_def)
    moreover have "NewSection n \<in> set (config_events (all_sections p))" if "n \<in> fst ` set (all_sections p)"
      using that n(3) by (force simp: config_events_def section_events_def)
    ultimately have "ev \<in> set (config_events (all_sections p)) \<or> ev \<in> set evs" using n(1) by blast
    then show ?thesis using old evs unfolding list_all_iff by blast
  next
    fix s k v
    assume v: "ev = Assignment k (if v = [] then [''''] else v)" "v \<in> set (values_at (all_sections (parse_events evs p)) s k)"
    show ?thesis
    proof (cases "assigned orphan_section evs s k = []")
      case True
      then have "v \<in> set (values_at (all_sections p) s k)" using v(2) by (simp add: parse_events_values)
      then obtain d vs where d: "(s, d) \<in> set (all_sections p)" "(k, vs) \<in> set d" "v \<in> set vs"
        by (cases "map_of (all_sections p) s"; cases "map_of (the (map_of (all_sections p) s)) k")
          (auto simp: values_at_def dest!: map_of_SomeD)
      have "ev \<in> set (key_events (k, vs))" using d(3) by (simp add: v(1) key_events_def)
      then have "ev \<in> set (section_events (s, d))" using d(2) unfolding section_events_def by auto
      then have "ev \<in> set (config_events (all_sections p))" using d(1) unfolding config_events_def by auto
      with old show ?thesis by (simp add: list_all_iff)
    next
      case False
      then obtain w where w: "v = norm_value w" "Assignment k w \<in> set evs"
        using v(2) assigned_from [of v orphan_section evs s k] by (auto simp: parse_events_values)
      then have "plain_event (Assignment k w)" using evs unfolding list_all_iff by blast
      moreover from this have "(if v = [] then [''''] else v) = w" using w(1) by (auto simp: norm_value_def)
      ultimately show ?thesis by (simp only: v(1))
    qed
  qed
  then show ?thesis by (simp add: list_all_iff)
qed

lemma merged_plain:
  "\<forall>evs \<in> set sources. list_all plain_event evs \<Longrightarrow>
    list_all plain_event (config_events (all_sections (merged_sources w sources)))"
proof -
  have "\<lbrakk>wf_sections (all_sections p); list_all plain_event (config_events (all_sections p)); \<forall>evs \<in> set sources. list_all plain_event evs\<rbrakk>
    \<Longrightarrow> list_all plain_event (config_events (all_sections (fold parse_events sources p)))" for p
    by (induction sources arbitrary: p) (simp_all add: parse_plain parse_events_wf)
  from this [of "new_parser w"] show "\<forall>evs \<in> set sources. list_all plain_event evs \<Longrightarrow> ?thesis"
    by (simp add: merged_sources_def) (simp add: new_parser_def config_events_def)
qed

lemma merged_reads:
  assumes "reads_plain_ini ini" and "\<forall>evs \<in> set sources. list_all plain_event evs"
  shows "ini (ini_write (merged_sources w sources)) = Ret (config_events (all_sections (merged_sources w sources)))"
proof -
  have "ws (merged_sources w sources) = spaces (if w then 1 else 0)"
    by (simp add: merged_sources_ws) (simp add: new_parser_def spaces_def)
  then show ?thesis using written_reads assms(1) merged_plain [OF assms(2)] by blast
qed

text \<open>C20: what is written reads back. For the configuration merged from any sources whose names and values
  need no quotes, if the orphan variables stand before the sections (or there are none) and the line
  parser reads plain lines as it documents (headers, \<open>key = value\<close>, indented continuation lines),
  then parsing the written text gives the same sections, keys and values in the same order, and merging
  the written text alone writes the same text: the merge is idempotent.
\<close>

theorem config_roundtrip:
  assumes "reads_plain_ini ini"
    and "omap ini (readable sources) = Ret evss" and "\<forall>evs \<in> set evss. list_all plain_event evs"
    and "orphan_first (all_sections (merged_sources w evss))"
  shows "\<exists>txt q. merge_configs ini w sources = Ret txt
    \<and> ini_parse ini txt (new_parser w) = Ret q
    \<and> all_sections q = all_sections (merged_sources w evss)
    \<and> merge_configs ini w [Some txt] = Ret txt"
proof -
  let ?p = "merged_sources w evss"
  let ?q = "parse_events (config_events (all_sections ?p)) (new_parser w)"
  have q: "all_sections ?q = all_sections ?p" using assms(4) by (simp add: reparse_sections merged_sources_wf)
  then have "ini_write ?q = ini_write ?p" by (simp add: ini_write_def merged_sources_ws)
  moreover have parse: "ini_parse ini (ini_write ?p) (new_parser w) = Ret ?q"
    using merged_reads [OF assms(1,3)] by (simp add: ini_parse_def)
  ultimately have "merge_configs ini w [Some (ini_write ?p)] = Ret (ini_write ?p)"
    by (simp add: merge_configs_def read_ini_config_def)
  with q parse merge_configs_result [OF assms(2), of w] show ?thesis by blast
qed

section \<open>Orphan variables after a section\<close>

lemma assigned_section:
  assumes "wf_section e"
  shows "assigned cur (section_events (n, e) @ evs) s k
    = (if (if n = orphan_section then cur else n) = s then values_of e k else [])
      @ assigned (if n = orphan_section then cur else n) evs s k"
proof -
  have key: "[''''] \<notin> set vs \<Longrightarrow> assigned c (key_events (x, vs) @ evs) s k
      = (if c = s \<and> x = k then vs else []) @ assigned c evs s k" for c x vs evs
    by (induction vs) (auto simp: key_events_def norm_value_def)
  have "wf_section e \<Longrightarrow> assigned c (concat (map key_events e) @ evs) s k
      = (if c = s then values_of e k else []) @ assigned c evs s k" for c
  proof (induction e)
    case (Cons kv e)
    obtain x vs where kv: "kv = (x, vs)" by (cases kv)
    have "wf_section e" "[''''] \<notin> set vs" "x \<notin> fst ` set e"
      using Cons.prems by (auto simp: wf_section_def wf_dict_def kv)
    then show ?case
      using Cons.IH map_of_eq_None_iff [of e x] by (auto simp: kv key values_of_def)
  qed simp
  then show ?thesis using assms by (simp add: section_events_def)
qed

lemma assigned_sections_absent:
  "\<lbrakk>wf_sections xs; s \<notin> fst ` set xs; orphan_section \<notin> fst ` set xs\<rbrakk> \<Longrightarrow>
    \<exists>c. assigned cur (config_events xs @ evs) s k = assigned c evs s k"
proof (induction xs arbitrary: cur)
  case Nil
  then show ?case by (auto simp: config_events_def)
next
  case (Cons sd xs)
  obtain n e where sd: "sd = (n, e)" by (cases sd)
  have "wf_section e" "n \<noteq> s" "n \<noteq> orphan_section" "wf_sections xs" "s \<notin> fst ` set xs" "orphan_section \<notin> fst ` set xs"
    using Cons.prems by (auto simp: sd wf_sections_def wf_dict_def)
  with Cons.IH [of n] show ?case by (simp add: sd config_events_def assigned_section)
qed

text \<open>orphan variables that come from a later source than the sections are not kept apart. If the
  merge left the orphan section behind another one, the written text has its variables under that
  section: on reading back, each key of that section has the orphan's values appended, and no variable is
  outside a section.
\<close>

theorem late_orphans_move:
  assumes "all_sections (merged_sources w sources) = xs @ [(s, d), (orphan_section, orphans)]"
    and "reads_plain_ini ini" and "\<forall>evs \<in> set sources. list_all plain_event evs"
  shows "\<exists>q. ini_parse ini (ini_write (merged_sources w sources)) (new_parser w) = Ret q
    \<and> values_at (all_sections q) s k = values_of d k @ values_of orphans k
    \<and> values_at (all_sections q) orphan_section k = []"
proof -
  let ?evs = "config_events (xs @ [(s, d), (orphan_section, orphans)])"
  have wf: "wf_sections xs" "wf_section d" "wf_section orphans" "s \<notin> fst ` set xs"
    "orphan_section \<notin> fst ` set xs" "s \<noteq> orphan_section"
    using merged_sources_wf [of w sources] by (auto simp: assms(1) wf_sections_def wf_dict_def)
  have evs: "?evs = config_events xs @ section_events (s, d) @ section_events (orphan_section, orphans) @ []"
    by (simp add: config_events_def)
  have tail: "assigned c (section_events (s, d) @ section_events (orphan_section, orphans) @ []) x k
      = (if x = s then values_of d k @ values_of orphans k else [])" for c x
    using wf by (simp add: assigned_section del: append_Nil2)
  have "assigned orphan_section ?evs x k = (if x = s then values_of d k @ values_of orphans k else [])"
    if "x = s \<or> x = orphan_section" for x
    using assigned_sections_absent [of xs x orphan_section] wf that tail unfolding evs by metis
  with wf(6) show ?thesis
    using merged_reads [OF assms(2,3), of w] assms(1) by (simp add: ini_parse_def parse_events_values) (simp add: new_parser_def)
qed

section \<open>Witnesses\<close>

text \<open>
  A reader of plain lines (headers, \<open>key = value\<close> lines, indented continuation lines, blank
  lines), to instantiate the line parser with.
\<close>

definition flush_line :: "(string \<times> string list) option \<Rightarrow> ini_event list" where
  "flush_line pending = (case pending of None \<Rightarrow> [] | Some (k, v) \<Rightarrow> [Assignment k v])"

fun plain_lines :: "(string \<times> string list) option \<Rightarrow> string list \<Rightarrow> ini_event list" where
  "plain_lines pending [] = flush_line pending"
| "plain_lines pending (l # ls) =
     (if str_strip l = [] then flush_line pending @ plain_lines None ls
      else if hd l = CHR 0x20 then
        plain_lines (map_option (\<lambda>(k, v). (k, v @ [str_strip l])) pending) ls
      else if hd l = CHR 0x5B then
        flush_line pending @ NewSection (butlast (tl l)) # plain_lines None ls
      else
        flush_line pending @
        (case split_first CHR ''='' l of
           None \<Rightarrow> plain_lines None ls
         | Some (k, v) \<Rightarrow> plain_lines (Some (str_strip k, [str_strip v])) ls))"

definition plain_ini :: "string \<Rightarrow> ini_event list outcome" where
  "plain_ini txt = Ret (plain_lines None (split_char nl txt))"

lemma flush_line_simps [simp]: "flush_line None = []" "flush_line (Some (k, v)) = [Assignment k v]"
  by (simp_all add: flush_line_def)

text \<open>The lines of a text without their ends.\<close>

fun line_rows :: "ini_line \<Rightarrow> string list" where
  "line_rows Blank = [[]]"
| "line_rows (Header n) = [''['' @ n @ '']'']"
| "line_rows (Setting k before after x conts) =
     (k @ spaces before @ ''='' @ spaces after @ x) # map (\<lambda>(n, y). spaces n @ y) conts"

lemma line_text_rows: "line_text l = concat (map (\<lambda>r. r @ [nl]) (line_rows l))"
  by (cases l) (simp_all add: comp_def split_def)

lemma split_rows: "\<forall>r \<in> set rows. nl \<notin> set r \<Longrightarrow> split_char nl (concat (map (\<lambda>r. r @ [nl]) rows)) = rows @ [[]]"
  by (induction rows) auto

lemma rows_plain: "plain_line l \<Longrightarrow> r \<in> set (line_rows l) \<Longrightarrow> nl \<notin> set r"
  by (cases l) (auto simp: plain_key_def plain_text_def spaces_def nl_def list_all_iff)

lemma drop_spaces [simp]: "dropWhile is_space (spaces n @ t) = dropWhile is_space t"
  by (induction n) (simp_all add: spaces_def is_space_def code_of_def)

lemma strip_ends:
  assumes "str_strip t = t" and "t \<noteq> []"
  shows "\<not> is_space (hd t)" and "\<not> is_space (last t)"
proof -
  let ?u = "dropWhile is_space t"
  have "length t \<le> length ?u"
    using length_dropWhile_le [of is_space "rev ?u"] assms(1) by (metis length_rev str_strip_def)
  moreover have "length t = length (takeWhile is_space t) + length ?u"
    by (metis length_append takeWhile_dropWhile_id)
  ultimately have "?u = t" by (metis add_diff_cancel_right' append_Nil diff_is_0_eq' length_0_conv takeWhile_dropWhile_id)
  moreover from this have "dropWhile is_space (rev t) = rev t" using assms(1) by (metis rev_swap str_strip_def)
  ultimately show "\<not> is_space (hd t)" "\<not> is_space (last t)"
    using assms(2) by (simp_all add: dropWhile_eq_self_iff hd_rev)
qed

lemma strip_spaces:
  assumes "str_strip t = t"
  shows "str_strip (spaces n @ t) = t" and "str_strip (t @ spaces n) = t"
proof -
  show left: "str_strip (spaces n @ t) = t" using assms by (simp add: str_strip_def)
  show "str_strip (t @ spaces n) = t"
  proof (cases "t = []")
    case True
    then show ?thesis using left by simp
  next
    case False
    have "rev (spaces n) = spaces n" by (simp add: spaces_def)
    moreover have "dropWhile is_space (t @ spaces n) = t @ spaces n" "dropWhile is_space (rev t) = rev t"
      using strip_ends [OF assms False] False by (simp_all add: dropWhile_eq_self_iff hd_rev)
    ultimately show ?thesis by (simp add: str_strip_def)
  qed
qed

lemma strip_not_empty: "c \<in> set s \<Longrightarrow> \<not> is_space c \<Longrightarrow> str_strip s \<noteq> []"
proof -
  assume "c \<in> set s" "\<not> is_space c"
  then have u: "dropWhile is_space s \<noteq> []" by (auto simp: dropWhile_eq_Nil_conv)
  then have "\<not> is_space (hd (dropWhile is_space s))" by (rule hd_dropWhile)
  then show ?thesis using hd_in_set [OF u] by (simp add: str_strip_def) (metis dropWhile_eq_Nil_conv set_rev)
qed

lemma split_first_notin: "c \<notin> set a \<Longrightarrow> split_first c (a @ c # b) = Some (a, b)"
  by (induction a) (auto simp: split_first_def)

lemma plain_lines_conts:
  "list_all (\<lambda>(n, y). 0 < n \<and> y \<noteq> [] \<and> plain_text y) conts \<Longrightarrow>
    plain_lines (Some (k, v)) (map (\<lambda>(n, y). spaces n @ y) conts @ ls) = plain_lines (Some (k, v @ map snd conts)) ls"
proof (induction conts arbitrary: v)
  case (Cons c conts)
  obtain n y where c: "c = (n, y)" by (cases c)
  have y: "0 < n" "y \<noteq> []" "str_strip y = y" using Cons.prems by (simp_all add: c plain_text_def)
  then have "str_strip (spaces n @ y) = y" "hd (spaces n @ y) = CHR 0x20"
    using strip_spaces(1) by (auto simp: spaces_def hd_append)
  with y Cons show ?case by (simp add: c)
qed simp

lemma not_spaces: "\<not> is_space CHR ''[''" "\<not> is_space CHR ''=''"
  by (simp_all add: is_space_def code_of_def)

lemma plain_lines_line:
  assumes "plain_line l"
  shows "plain_lines pending (line_rows l @ ls) = flush_line pending @
    (case l of Blank \<Rightarrow> plain_lines None ls | Header n \<Rightarrow> NewSection n # plain_lines None ls
     | Setting k before after x conts \<Rightarrow> plain_lines (Some (k, x # map snd conts)) ls)"
proof (cases l)
  case Blank
  then show ?thesis by (simp add: str_strip_def)
next
  case (Header n)
  have "str_strip (''['' @ n @ '']'') \<noteq> []" by (rule strip_not_empty [OF _ not_spaces(1)]) simp
  then show ?thesis using Header by simp
next
  case (Setting k before after x conts)
  have k: "k \<noteq> []" "str_strip k = k" "str_strip x = x" "hd k \<noteq> CHR ''[''" "CHR ''='' \<notin> set (k @ spaces before)"
    using assms by (auto simp: Setting plain_key_def plain_text_def spaces_def)
  let ?r = "k @ spaces before @ ''='' @ spaces after @ x"
  have "str_strip ?r \<noteq> []" by (rule strip_not_empty [OF _ not_spaces(2)]) simp
  moreover have "hd ?r \<noteq> CHR 0x20" using strip_ends(1) [OF k(2,1)] k(1) by (auto simp: is_space_def code_of_def)
  moreover have "split_first CHR ''='' ?r = Some (k @ spaces before, spaces after @ x)"
    using split_first_notin [OF k(5), of "spaces after @ x"] by simp
  ultimately have "plain_lines pending (?r # rest) = flush_line pending @ plain_lines (Some (k, [x])) rest" for rest
    using k strip_spaces by (simp add: hd_append)
  then show ?thesis using plain_lines_conts [of conts k "[x]" ls] assms by (simp add: Setting)
qed

lemma plain_ini_reads: "reads_plain_ini plain_ini"
proof -
  have "list_all plain_line ls \<Longrightarrow>
      plain_lines pending (concat (map line_rows ls) @ [[]]) = flush_line pending @ concat (map line_events ls)" for pending ls
  proof (induction ls arbitrary: pending)
    case Nil
    then show ?case by (simp add: str_strip_def)
  next
    case (Cons l ls)
    then show ?case using plain_lines_line [of l pending "concat (map line_rows ls) @ [[]]"]
      by (cases l) (simp_all del: plain_lines.simps)
  qed
  moreover have "split_char nl (concat (map line_text ls)) = concat (map line_rows ls) @ [[]]" if "list_all plain_line ls" for ls
  proof -
    have "concat (map line_text ls) = concat (map (\<lambda>r. r @ [nl]) (concat (map line_rows ls)))"
      by (induction ls) (simp_all add: line_text_rows)
    moreover have "\<forall>r \<in> set (concat (map line_rows ls)). nl \<notin> set r" using that rows_plain unfolding list_all_iff by fastforce
    ultimately show ?thesis by (simp only: split_rows)
  qed
  ultimately show ?thesis by (simp add: reads_plain_ini_def plain_ini_def)
qed

definition ini_defaults :: "ini_event list" where
  "ini_defaults =
     [Assignment ''key1'' [''a''], NewSection ''b'', Assignment ''key3'' [''not_c''],
      Assignment ''key4'' [''v1'', ''v2''], Assignment ''key5'' [''x''], Assignment ''key5'' ['''']]"

definition ini_override :: "ini_event list" where
  "ini_override =
     [Assignment ''key3'' [''c''], NewSection ''b'', Assignment ''key2'' [''not_b''],
      Assignment ''key3'' [''override'']]"

definition sample_defaults :: string where
  "sample_defaults = ''key1 = a'' @ [nl, nl] @ ''[b]'' @ [nl] @ ''key3 = not_c'' @ [nl]
     @ ''key4 = v1'' @ [nl] @ ''       v2'' @ [nl] @ ''key5 = x'' @ [nl] @ ''key5 ='' @ [nl, nl]"

definition sample_override :: string where
  "sample_override = ''key3 = c'' @ [nl, nl] @ ''[b]'' @ [nl] @ ''key2 = not_b'' @ [nl]
     @ ''key3 = override'' @ [nl, nl]"

lemma config_roundtrip_witness:
  "\<exists>txt q. merge_configs plain_ini True [Some sample_defaults, None, Some sample_override] = Ret txt
     \<and> ini_parse plain_ini txt (new_parser True) = Ret q
     \<and> values_at (all_sections q) ''b'' ''key3'' = [[''override'']]
     \<and> values_at (all_sections q) ''b'' ''key5'' = [[''x''], []]
     \<and> values_at (all_sections q) orphan_section ''key1'' = [[''a'']]"
proof -
  let ?p = "merged_sources True [ini_defaults, ini_override]"
  have "omap plain_ini (readable [Some sample_defaults, None, Some sample_override])
      = Ret [ini_defaults, ini_override]" by code_simp
  moreover have "orphan_first (all_sections ?p)" by code_simp
  moreover have "\<forall>evs \<in> set [ini_defaults, ini_override]. list_all plain_event evs" by code_simp
  ultimately obtain out q where q: "merge_configs plain_ini True [Some sample_defaults, None, Some sample_override] = Ret out"
    "ini_parse plain_ini out (new_parser True) = Ret q" "all_sections q = all_sections ?p"
    using config_roundtrip [OF plain_ini_reads, of "[Some sample_defaults, None, Some sample_override]"
        "[ini_defaults, ini_override]" True] by blast
  have "values_at (all_sections ?p) ''b'' ''key3'' = [[''override'']]
     \<and> values_at (all_sections ?p) ''b'' ''key5'' = [[''x''], []]
     \<and> values_at (all_sections ?p) orphan_section ''key1'' = [[''a'']]" by code_simp
  with q show ?thesis by auto
qed

lemma late_orphans_move_witness:
  "\<exists>q. ini_parse plain_ini (ini_write (merged_sources True
         [[NewSection ''database'', Assignment ''host'' [''db'']], [Assignment ''debug'' [''True'']]])) (new_parser True) = Ret q
     \<and> values_at (all_sections q) ''database'' ''debug'' = [[''True'']]
     \<and> values_at (all_sections q) orphan_section ''debug'' = []"
proof -
  let ?srcs = "[[NewSection ''database'', Assignment ''host'' [''db'']], [Assignment ''debug'' [''True'']]]"
  let ?p = "merged_sources True ?srcs"
  have p: "all_sections ?p = [] @ [(''database'', [(''host'', [[''db'']])]), (orphan_section, [(''debug'', [[''True'']])])]"
    by code_simp
  have "\<forall>evs \<in> set ?srcs. list_all plain_event evs" by code_simp
  from late_orphans_move [OF p plain_ini_reads this, of "''debug''"] show ?thesis by (simp add: values_of_def)
qed

end
