(* ===== verification/Action_Run.thy ===== *)
theory Action_Run
  imports Merge_Yaml Merge_Configs
begin

text \<open>
  The method \<open>run\<close> of the action plugins \<open>merge_yaml.py\<close> and \<open>merge_configs.py\<close>, on the controller:
  reading and templating the sources, writing the merged text into a temporary directory, the copy
  action that sends it to the host, and the removal of the directory. The state holds the variables and
  the search path of the templar, the readable files and the temporary directories. Ansible (the base class, the
  templar, the copy action), the YAML library, \<open>iniparser\<close> and \<open>tempfile\<close> are the parameters \<open>action_env\<close>.
\<close>

section \<open>The controller\<close>

record 'w controller =
  templar_vars :: pydict
  searchpath :: "string list"
  local_files :: "(string \<times> string) list"
  local_dirs :: "string list"
  hosts :: 'w

text \<open>\<open>ae_dump v w\<close> is \<open>yaml.dump\<close> of \<open>v\<close> with the width \<open>w\<close>, \<open>ae_copy\<close> the run of the copy action with the
  arguments of its task and the task's variables, \<open>ae_open_error\<close> what \<open>open(path, 'w')\<close> raises.\<close>

record 'w action_env =
  ae_args :: pydict
  ae_basedir :: string
  ae_base_run :: "pydict option \<Rightarrow> ('w controller, pydict) cmd"
  ae_template :: "string list \<Rightarrow> pydict \<Rightarrow> string \<Rightarrow> string outcome"
  ae_load :: "string \<Rightarrow> pyval outcome"
  ae_dump :: "pyval \<Rightarrow> pyval \<Rightarrow> string outcome"
  ae_ini :: "string \<Rightarrow> ini_event list outcome"
  ae_mkdtemp :: "'w controller \<Rightarrow> string outcome"
  ae_open_error :: "string \<Rightarrow> exn option"
  ae_copy :: "pydict \<Rightarrow> pydict option \<Rightarrow> ('w controller, pydict) cmd"

text \<open>\<open>try: m finally: c\<close>: what \<open>c\<close> raises replaces the outcome of \<open>m\<close>.\<close>

definition finally_cmd :: "('s, 'a) cmd \<Rightarrow> ('s, unit) cmd \<Rightarrow> ('s, 'a) cmd" where
  "finally_cmd m c s =
     (case m s of (r, t) \<Rightarrow>
        case c t of
          (Ret _, u) \<Rightarrow> (r, u)
        | (Raise e, u) \<Rightarrow> (Raise e, u)
        | (Exit k d, u) \<Rightarrow> (Exit k d, u))"

section \<open>Paths\<close>

definition os_path_join :: "string \<Rightarrow> string \<Rightarrow> string" where
  "os_path_join a b =
     (if starts_with b ''/'' then b else if a = [] \<or> ends_with a ''/'' then a @ b else a @ ''/'' @ b)"

definition os_path_dirname :: "string \<Rightarrow> string" where
  "os_path_dirname p =
     (let head = rev (dropWhile (\<lambda>c. c \<noteq> CHR ''/'') (rev p))
      in if list_all (\<lambda>c. c = CHR ''/'') head then head
         else rev (dropWhile (\<lambda>c. c = CHR ''/'') (rev head)))"

definition search_paths :: "'w action_env \<Rightarrow> string \<Rightarrow> string list" where
  "search_paths E source = [ae_basedir E, os_path_join (ae_basedir E) ''templates'', os_path_dirname source]"

section \<open>Reading a source\<close>

text \<open>The part both plugins share: the file's text, templated with the variables as they are.\<close>

definition read_templated :: "'w action_env \<Rightarrow> string \<Rightarrow> ('w controller, string option) cmd" where
  "read_templated E source =
     bnd (gets local_files) (\<lambda>files.
       case map_of files source of
         None \<Rightarrow> ret None
       | Some template_data \<Rightarrow>
           seqc (modify (\<lambda>s. s\<lparr>searchpath := search_paths E source\<rparr>))
           (bnd (gets templar_vars) (\<lambda>vars.
            bnd (lift (ae_template E (search_paths E source) vars template_data)) (\<lambda>txt. ret (Some txt)))))"

text \<open>\<open>os.access\<close> takes a path only: a source of another type is a \<open>TypeError\<close>.\<close>

definition read_yaml :: "'w action_env \<Rightarrow> pyval \<Rightarrow> ('w controller, pyval) cmd" where
  "read_yaml E source =
     (if \<not> truthy source then ret (read_yaml_config None)
      else case source of
        PStr path \<Rightarrow> bnd (read_templated E path) (\<lambda>txt.
          case txt of
            None \<Rightarrow> ret (read_yaml_config None)
          | Some x \<Rightarrow> bnd (lift (ae_load E x)) (\<lambda>v. ret (read_yaml_config (Some v))))
      | _ \<Rightarrow> raise TypeError)"

definition read_ini :: "'w action_env \<Rightarrow> pyval \<Rightarrow> ini_parser \<Rightarrow> ('w controller, ini_parser) cmd" where
  "read_ini E source config =
     (case source of
        PStr path \<Rightarrow> bnd (read_templated E path) (\<lambda>txt. lift (read_ini_config (ae_ini E) txt config))
      | _ \<Rightarrow> raise TypeError)"

fun fold_cmd :: "('x \<Rightarrow> 'a \<Rightarrow> ('s, 'a) cmd) \<Rightarrow> 'x list \<Rightarrow> 'a \<Rightarrow> ('s, 'a) cmd" where
  "fold_cmd f [] a = ret a"
| "fold_cmd f (x # xs) a = bnd (f x a) (fold_cmd f xs)"

section \<open>Writing and copying\<close>

definition make_tempdir :: "'w action_env \<Rightarrow> ('w controller, string) cmd" where
  "make_tempdir E =
     bnd (gets (ae_mkdtemp E)) (\<lambda>r. bnd (lift r) (\<lambda>dir.
       seqc (modify (\<lambda>s. s\<lparr>local_dirs := dir # local_dirs s\<rparr>)) (ret dir)))"

text \<open>\<open>open(path, 'w')\<close> leaves an empty file; then the text is made and written.\<close>

definition write_result :: "'w action_env \<Rightarrow> string \<Rightarrow> string outcome \<Rightarrow> ('w controller, unit) cmd" where
  "write_result E path content =
     (case ae_open_error E path of
        Some e \<Rightarrow> raise e
      | None \<Rightarrow>
          seqc (modify (\<lambda>s. s\<lparr>local_files := AList.update path [] (local_files s)\<rparr>))
          (bnd (lift content) (\<lambda>txt. modify (\<lambda>s. s\<lparr>local_files := AList.update path txt (local_files s)\<rparr>))))"

definition inside :: "string \<Rightarrow> string \<Rightarrow> bool" where
  "inside dir path \<longleftrightarrow> starts_with path (dir @ ''/'')"

definition rmtree :: "string \<Rightarrow> ('w controller, unit) cmd" where
  "rmtree dir =
     bnd (gets local_dirs) (\<lambda>dirs.
       if dir \<in> set dirs
       then modify (\<lambda>s. s\<lparr>local_dirs := removeAll dir (local_dirs s),
              local_files := filter (\<lambda>f. \<not> inside dir (fst f)) (local_files s)\<rparr>)
       else raise (PyError (''No such file or directory: '' @ repr_str dir)))"

text \<open>\<open>copy_result['invocation']['module_args'].update(d)\<close>.\<close>

definition add_module_args :: "pydict \<Rightarrow> pydict \<Rightarrow> pydict outcome" where
  "add_module_args copy_result d =
     obind (py_item (PDict copy_result) ''invocation'') (\<lambda>invocation.
     obind (py_item invocation ''module_args'') (\<lambda>module_args.
       case (invocation, module_args) of
         (PDict i, PDict m) \<Rightarrow>
           Ret (AList.update ''invocation'' (PDict (AList.update ''module_args'' (PDict (dict_update m d)) i)) copy_result)
       | _ \<Rightarrow> Raise AttributeError))"

definition result_path :: "string \<Rightarrow> string" where
  "result_path dir = os_path_join dir ''source''"

text \<open>From \<open>mkdtemp\<close> to the end of \<open>run\<close>: both plugins share these steps.\<close>

definition deliver ::
    "'w action_env \<Rightarrow> pydict option \<Rightarrow> string outcome \<Rightarrow> (string \<Rightarrow> pydict) \<Rightarrow> (string \<Rightarrow> pydict) \<Rightarrow> pydict
      \<Rightarrow> ('w controller, pydict) cmd" where
  "deliver E task_vars content copy_args module_args result =
     bnd (make_tempdir E) (\<lambda>dir.
       let result_file = result_path dir in
       finally_cmd
         (seqc (write_result E result_file content)
         (bnd (ae_copy E (copy_args result_file) task_vars) (\<lambda>copy_result.
          bnd (lift (add_module_args copy_result (module_args result_file))) (\<lambda>copy_result.
            ret (dict_update result copy_result)))))
         (rmtree dir))"

section \<open>The two actions\<close>

text \<open>\<open>dict.update(x)\<close> for the task's \<open>vars\<close>: a dictionary, or a list of pairs.\<close>

definition pair_of :: "pyval \<Rightarrow> (string \<times> pyval) outcome" where
  "pair_of v =
     (case v of
        PList [PStr k, x] \<Rightarrow> Ret (k, x)
      | PList [_, _] \<Rightarrow> Raise TypeError
      | PStr [c, d] \<Rightarrow> Ret ([c], PStr [d])
      | PList _ \<Rightarrow> Raise ValueError
      | PStr _ \<Rightarrow> Raise ValueError
      | _ \<Rightarrow> Raise TypeError)"

definition update_vars :: "pydict \<Rightarrow> pyval \<Rightarrow> pydict outcome" where
  "update_vars d v =
     (case v of
        PDict u \<Rightarrow> Ret (dict_update d u)
      | PList xs \<Rightarrow> obind (omap pair_of xs) (\<lambda>u. Ret (dict_update d u))
      | PStr [] \<Rightarrow> Ret d
      | PStr _ \<Rightarrow> Raise ValueError
      | _ \<Rightarrow> Raise TypeError)"

definition set_vars :: "pydict \<Rightarrow> ('w controller, unit) cmd" where
  "set_vars vars = modify (\<lambda>s. s\<lparr>templar_vars := vars\<rparr>)"

definition yaml_step :: "'w action_env \<Rightarrow> bool \<Rightarrow> pyval \<Rightarrow> pyval \<Rightarrow> ('w controller, pyval) cmd" where
  "yaml_step E ext source output = bnd (read_yaml E source) (\<lambda>config. lift (update_nested_conf output config ext))"

definition merge_yaml_run :: "'w action_env \<Rightarrow> pydict option \<Rightarrow> ('w controller, pydict) cmd" where
  "merge_yaml_run E task_vars0 =
     (let args = ae_args E;
          task_vars = (case task_vars0 of None \<Rightarrow> [] | Some v \<Rightarrow> v);
          sources = sources_list (dget args ''sources'');
          extend_lists = dget_or args ''extend_lists'' (PBool False)
      in bnd (ae_base_run E (Some task_vars)) (\<lambda>result.
         bnd (gets templar_vars) (\<lambda>old_vars.
         bnd (lift (update_vars task_vars (dget_or args ''vars'' (PList [])))) (\<lambda>temp_vars.
         seqc (set_vars temp_vars)
         (bnd (fold_cmd (yaml_step E (truthy extend_lists)) sources (PDict [])) (\<lambda>output.
          seqc (set_vars old_vars)
          (deliver E (Some task_vars) (ae_dump E output (dget args ''yaml_width'')) (yaml_copy_args args)
            (\<lambda>result_file. [(''src'', PStr result_file), (''sources'', PList sources), (''extend_lists'', extend_lists)])
            result)))))))"

definition merge_configs_run :: "'w action_env \<Rightarrow> pydict option \<Rightarrow> ('w controller, pydict) cmd" where
  "merge_configs_run E task_vars =
     (let args = ae_args E;
          sources = sources_list (dget args ''sources'');
          whitespace = dget_or args ''whitespace'' (PBool True)
      in bnd (ae_base_run E task_vars) (\<lambda>result.
         bnd (fold_cmd (read_ini E) sources (new_parser (truthy whitespace))) (\<lambda>config.
           deliver E task_vars (Ret (ini_write config)) (config_copy_args args)
             (\<lambda>result_file. [(''src'', PStr result_file), (''sources'', PList sources), (''whitespace'', whitespace)])
             result)))"

section \<open>What the calls of Ansible leave\<close>

definition local_view :: "'w controller \<Rightarrow> (string \<times> string) list \<times> string list" where
  "local_view s = (local_files s, local_dirs s)"

text \<open>The base class and the copy action leave no files of their own on the controller; \<open>mkdtemp\<close> gives
  a new directory, which is empty.\<close>

definition tidy :: "'w action_env \<Rightarrow> bool" where
  "tidy E \<longleftrightarrow>
     (\<forall>tv. keeps local_view (ae_base_run E tv)) \<and> (\<forall>a tv. keeps local_view (ae_copy E a tv))
     \<and> (\<forall>s d. ae_mkdtemp E s = Ret d \<longrightarrow>
          d \<noteq> [] \<and> \<not> ends_with d ''/'' \<and> d \<notin> set (local_dirs s) \<and> (\<forall>f \<in> set (local_files s). \<not> inside d (fst f)))"

lemma keeps_fold_cmd [frame]: "(\<And>x a. keeps v (f x a)) \<Longrightarrow> keeps v (fold_cmd f xs a)"
  by (induction xs arbitrary: a) (auto intro!: frame)

lemma keeps_reading [frame]: "keeps local_view (read_yaml E source)" "keeps local_view (read_ini E source config)"
proof -
  have read: "keeps local_view (read_templated E path)" for path
    unfolding read_templated_def by (intro frame) (auto intro!: frame keeps_modify simp: local_view_def split: option.splits)
  show "keeps local_view (read_yaml E source)" "keeps local_view (read_ini E source config)"
    unfolding read_yaml_def read_ini_def
    by (auto intro!: frame read split: pyval.splits option.splits)
qed

section \<open>Nothing is left on the controller\<close>

lemma finally_run:
  assumes "m s = (r, t)" and "c t = (Ret (), u)"
  shows "finally_cmd m c s = (r, u)"
  using assms by (simp add: finally_cmd_def)

lemma result_inside:
  assumes "d \<noteq> []" and "\<not> ends_with d ''/''"
  shows "inside d (result_path d)"
  using assms by (simp add: inside_def result_path_def os_path_join_def starts_with_def)

text \<open>What lies outside a temporary directory.\<close>

definition outside :: "string \<Rightarrow> 'w controller \<Rightarrow> (string \<times> string) list \<times> string list" where
  "outside d s = (filter (\<lambda>f. \<not> inside d (fst f)) (local_files s), local_dirs s)"

lemma filter_update: "inside d k \<Longrightarrow> filter (\<lambda>f. \<not> inside d (fst f)) (AList.update k v xs) = filter (\<lambda>f. \<not> inside d (fst f)) xs"
  by (induction xs) auto

lemma keeps_outside: "keeps local_view m \<Longrightarrow> keeps (outside d) m"
  by (simp add: keeps_def local_view_def outside_def fun_eq_iff)

lemma keeps_write: "inside d path \<Longrightarrow> keeps (outside d) (write_result E path content)"
  unfolding write_result_def
  by (auto intro!: frame keeps_modify simp: outside_def filter_update split: option.splits)

lemma rmtree_run:
  "d \<in> set (local_dirs s) \<Longrightarrow> rmtree d s = (Ret (), s\<lparr>local_dirs := removeAll d (local_dirs s), local_files := fst (outside d s)\<rparr>)"
  by (simp add: rmtree_def outside_def)

lemma deliver_leaves_nothing:
  assumes "tidy E"
  shows "keeps local_view (deliver E tv content ca ma result)"
  unfolding keeps_def
proof
  fix s
  show "local_view (snd (deliver E tv content ca ma result s)) = local_view s"
  proof (cases "ae_mkdtemp E s")
    case (Ret d)
    let ?m = "seqc (write_result E (result_path d) content)
       (bnd (ae_copy E (ca (result_path d)) tv) (\<lambda>cr.
        bnd (lift (add_module_args cr (ma (result_path d)))) (\<lambda>cr. ret (dict_update result cr))))"
    let ?s = "s\<lparr>local_dirs := d # local_dirs s\<rparr>"
    from Ret assms have d: "d \<noteq> []" "\<not> ends_with d ''/''" "d \<notin> set (local_dirs s)" "\<forall>f \<in> set (local_files s). \<not> inside d (fst f)"
      by (auto simp: tidy_def)
    have "keeps (outside d) (ae_copy E a tv)" for a using assms by (simp add: tidy_def keeps_outside)
    then have k: "keeps (outside d) ?m" by (intro frame keeps_write result_inside d)
    obtain r t where t: "?m ?s = (r, t)" by (rule prod.exhaust)
    then have out: "outside d t = outside d ?s" by (rule keepsD [OF k])
    then have "rmtree d t = (Ret (), t\<lparr>local_dirs := removeAll d (local_dirs t), local_files := fst (outside d t)\<rparr>)" (is "_ = (_, ?u)")
      by (intro rmtree_run) (simp add: outside_def)
    then have "deliver E tv content ca ma result s = (r, ?u)"
      using finally_run [of ?m ?s r t "rmtree d"] t Ret by (simp add: deliver_def make_tempdir_def bnd_def Let_def)
    moreover have "local_view ?u = local_view s"
      using out d(3,4) by (auto simp: local_view_def outside_def removeAll_id)
    ultimately show ?thesis by simp
  qed (simp_all add: deliver_def make_tempdir_def bnd_def)
qed

lemma keeps_yaml_step [frame]: "keeps local_view (yaml_step E ext source output)"
  unfolding yaml_step_def by (intro frame)

lemma keeps_set_vars [frame]: "keeps local_view (set_vars vars)"
  unfolding set_vars_def by (rule keeps_modify) (simp add: local_view_def)

text \<open>C24: the merged configuration, which holds secrets, is never left on the controller: however a run of
  merge_yaml or merge_configs ends - a source that cannot be parsed, a merge conflict, a full disk, a
  copy that fails - its temporary directory is gone and the files are as they were.
\<close>

theorem actions_leave_nothing:
  assumes "tidy E"
  shows "keeps local_view (merge_yaml_run E tv) \<and> keeps local_view (merge_configs_run E tv)"
proof -
  have "keeps local_view (ae_base_run E v)" for v using assms by (simp add: tidy_def)
  then show ?thesis
    unfolding merge_yaml_run_def merge_configs_run_def Let_def
    by (intro conjI frame deliver_leaves_nothing [OF assms])
qed

section \<open>What is delivered\<close>

text \<open>The document, or the text, that a source stands for with the variables \<open>vars\<close>.\<close>

definition source_text :: "'w action_env \<Rightarrow> pydict \<Rightarrow> (string \<times> string) list \<Rightarrow> pyval \<Rightarrow> string option outcome" where
  "source_text E vars files source =
     (case source of
        PStr p \<Rightarrow> (case map_of files p of None \<Rightarrow> Ret None
          | Some data \<Rightarrow> obind (ae_template E (search_paths E p) vars data) (\<lambda>x. Ret (Some x)))
      | _ \<Rightarrow> Raise TypeError)"

definition source_document :: "'w action_env \<Rightarrow> pydict \<Rightarrow> (string \<times> string) list \<Rightarrow> pyval \<Rightarrow> pyval option outcome" where
  "source_document E vars files source =
     (if \<not> truthy source then Ret None
      else obind (source_text E vars files source) (\<lambda>txt.
        case txt of None \<Rightarrow> Ret None | Some x \<Rightarrow> obind (ae_load E x) (\<lambda>v. Ret (Some v))))"

lemma read_templated_returns:
  assumes "read_templated E p s = (Ret tx, t)"
  shows "source_text E (templar_vars s) (local_files s) (PStr p) = Ret tx \<and> (\<exists>sp. t = s\<lparr>searchpath := sp\<rparr>)"
proof (cases "map_of (local_files s) p")
  case None
  then have "tx = None" "t = s" using assms by (simp_all add: read_templated_def)
  then show ?thesis using None by (auto simp: source_text_def intro: exI [of _ "searchpath s"])
next
  case (Some data)
  then show ?thesis using assms by (auto simp: read_templated_def source_text_def seqc_def bnd_returns)
qed

lemma read_yaml_returns:
  assumes "read_yaml E source s = (Ret v, t)"
  shows "\<exists>l sp. source_document E (templar_vars s) (local_files s) source = Ret l \<and> v = read_yaml_config l \<and> t = s\<lparr>searchpath := sp\<rparr>"
proof (cases "truthy source")
  case False
  then show ?thesis using assms by (auto simp: read_yaml_def source_document_def intro: exI [of _ "searchpath s"])
next
  case True
  then obtain p tx u where p: "source = PStr p" and u: "read_templated E p s = (Ret tx, u)"
    and rest: "(case tx of None \<Rightarrow> ret (read_yaml_config None) | Some x \<Rightarrow> bnd (lift (ae_load E x)) (\<lambda>v. ret (read_yaml_config (Some v)))) u = (Ret v, t)"
    using assms by (cases source) (auto simp: read_yaml_def bnd_returns)
  with read_templated_returns [OF u] True show ?thesis
    by (cases tx) (auto simp: source_document_def bnd_returns)
qed

lemma yaml_step_returns:
  assumes "yaml_step E e source a s = (Ret b, t)"
  shows "\<exists>l sp. source_document E (templar_vars s) (local_files s) source = Ret l
    \<and> update_nested_conf a (read_yaml_config l) e = Ret b \<and> t = s\<lparr>searchpath := sp\<rparr>"
proof -
  obtain v where v: "read_yaml E source s = (Ret v, t)" "update_nested_conf a v e = Ret b"
    using assms by (auto simp: yaml_step_def bnd_returns)
  with read_yaml_returns [OF v(1)] show ?thesis by blast
qed

lemma read_ini_returns:
  assumes "read_ini E source a s = (Ret b, t)"
  shows "\<exists>l sp. source_text E (templar_vars s) (local_files s) source = Ret l
    \<and> read_ini_config (ae_ini E) l a = Ret b \<and> t = s\<lparr>searchpath := sp\<rparr>"
proof -
  obtain p l where "source = PStr p" "read_templated E p s = (Ret l, t)" "read_ini_config (ae_ini E) l a = Ret b"
    using assms by (cases source) (auto simp: read_ini_def bnd_returns)
  with read_templated_returns show ?thesis by blast
qed

text \<open>A loop whose steps read sources with \<open>g\<close> and combine them with \<open>h\<close>.\<close>

lemma fold_reading:
  assumes step: "\<And>x a s b t. f x a s = (Ret b, t) \<Longrightarrow>
      \<exists>l sp. g (templar_vars s) (local_files s) x = Ret l \<and> h l a = Ret b \<and> t = s\<lparr>searchpath := sp\<rparr>"
    and run: "fold_cmd f xs a s = (Ret b, t)"
  shows "\<exists>ls sp. omap (g (templar_vars s) (local_files s)) xs = Ret ls \<and> ofold h ls a = Ret b \<and> t = s\<lparr>searchpath := sp\<rparr>"
  using run
proof (induction xs arbitrary: a s)
  case Nil
  then show ?case by (auto intro: exI [of _ "searchpath s"])
next
  case (Cons x xs)
  then obtain c u where c: "f x a s = (Ret c, u)" and more: "fold_cmd f xs c u = (Ret b, t)"
    by (auto simp: bnd_returns)
  from step [OF c] obtain l sp where l: "g (templar_vars s) (local_files s) x = Ret l" "h l a = Ret c" "u = s\<lparr>searchpath := sp\<rparr>"
    by blast
  from Cons.IH [OF more] l show ?case by fastforce
qed

lemma deliver_returns:
  assumes "deliver E tv content ca ma result s = (Ret res, t)"
  shows "\<exists>d x v cr u m. ae_mkdtemp E s = Ret d \<and> content = Ret x \<and> map_of (local_files v) (result_path d) = Some x
    \<and> templar_vars v = templar_vars s
    \<and> ae_copy E (ca (result_path d)) tv v = (Ret cr, u)
    \<and> add_module_args cr (ma (result_path d)) = Ret m \<and> res = dict_update result m"
proof -
  obtain d where d: "ae_mkdtemp E s = Ret d"
    using assms by (auto simp: deliver_def make_tempdir_def bnd_returns)
  let ?m = "seqc (write_result E (result_path d) content)
     (bnd (ae_copy E (ca (result_path d)) tv) (\<lambda>cr.
      bnd (lift (add_module_args cr (ma (result_path d)))) (\<lambda>cr. ret (dict_update result cr))))"
  let ?s = "s\<lparr>local_dirs := d # local_dirs s\<rparr>"
  have "finally_cmd ?m (rmtree d) ?s = (Ret res, t)"
    using assms d by (simp add: deliver_def make_tempdir_def bnd_def Let_def)
  then obtain u where m: "?m ?s = (Ret res, u)"
    by (auto simp: finally_cmd_def split: prod.splits outcome.splits)
  then obtain v where v: "write_result E (result_path d) content ?s = (Ret (), v)"
    and more: "bnd (ae_copy E (ca (result_path d)) tv) (\<lambda>cr.
      bnd (lift (add_module_args cr (ma (result_path d)))) (\<lambda>cr. ret (dict_update result cr))) v = (Ret res, u)"
    by (auto simp: seqc_returns)
  from v obtain x where "content = Ret x" "map_of (local_files v) (result_path d) = Some x" "templar_vars v = templar_vars s"
    by (cases content) (auto simp: write_result_def seqc_def bnd_def split: option.splits)
  with more d show ?thesis by (auto simp: bnd_returns)
qed

text \<open>C25: what a successful run of merge_yaml delivers. The copy action gets a file that holds the merge
  of the documents of all sources, each read with the task's variables and its \<open>vars\<close>, while the templar
  has its own variables again; its task has the arguments of this one without those of the merge; and the
  result of the task is the result of the copy, with the sources among its arguments.
\<close>

theorem merge_yaml_delivers:
  assumes base: "ae_base_run E (Some tv) s = (Ret result, s0)"
    and run: "merge_yaml_run E (Some tv) s = (Ret res, t)"
  shows "\<exists>vars loaded doc x d w cr u m.
      update_vars tv (dget_or (ae_args E) ''vars'' (PList [])) = Ret vars
      \<and> omap (source_document E vars (local_files s0)) (sources_list (dget (ae_args E) ''sources'')) = Ret loaded
      \<and> merge_yaml_sources (truthy (dget_or (ae_args E) ''extend_lists'' (PBool False))) loaded = Ret doc
      \<and> ae_dump E doc (dget (ae_args E) ''yaml_width'') = Ret x
      \<and> map_of (local_files w) (result_path d) = Some x \<and> templar_vars w = templar_vars s0
      \<and> ae_copy E (yaml_copy_args (ae_args E) (result_path d)) (Some tv) w = (Ret cr, u)
      \<and> add_module_args cr [(''src'', PStr (result_path d)), (''sources'', PList (sources_list (dget (ae_args E) ''sources''))),
           (''extend_lists'', dget_or (ae_args E) ''extend_lists'' (PBool False))] = Ret m
      \<and> res = dict_update result m"
proof -
  let ?sources = "sources_list (dget (ae_args E) ''sources'')"
  let ?e = "truthy (dget_or (ae_args E) ''extend_lists'' (PBool False))"
  let ?ma = "\<lambda>p. [(''src'', PStr p), (''sources'', PList ?sources), (''extend_lists'', dget_or (ae_args E) ''extend_lists'' (PBool False))]"
  obtain vars doc s2 where vars: "update_vars tv (dget_or (ae_args E) ''vars'' (PList [])) = Ret vars"
    and loop: "fold_cmd (yaml_step E ?e) ?sources (PDict []) (s0\<lparr>templar_vars := vars\<rparr>) = (Ret doc, s2)"
    and dlv: "deliver E (Some tv) (ae_dump E doc (dget (ae_args E) ''yaml_width'')) (yaml_copy_args (ae_args E)) ?ma result
        (s2\<lparr>templar_vars := templar_vars s0\<rparr>) = (Ret res, t)"
    using run base by (auto simp: merge_yaml_run_def Let_def bnd_returns seqc_returns set_vars_def)
  obtain loaded where "omap (source_document E vars (local_files s0)) ?sources = Ret loaded"
    "merge_yaml_sources ?e loaded = Ret doc"
    using fold_reading [where g = "source_document E" and h = "\<lambda>l a. update_nested_conf a (read_yaml_config l) ?e", OF yaml_step_returns loop]
    by (auto simp: merge_yaml_sources_def)
  moreover obtain d x w cr u m where "ae_dump E doc (dget (ae_args E) ''yaml_width'') = Ret x"
    "map_of (local_files w) (result_path d) = Some x" "templar_vars w = templar_vars s0"
    "ae_copy E (yaml_copy_args (ae_args E) (result_path d)) (Some tv) w = (Ret cr, u)"
    "add_module_args cr (?ma (result_path d)) = Ret m" "res = dict_update result m"
    using deliver_returns [OF dlv] by auto
  ultimately show ?thesis using vars by blast
qed

text \<open>The same for merge_configs and the text of the merged sections.\<close>

theorem merge_configs_delivers:
  assumes base: "ae_base_run E tv s = (Ret result, s0)" and run: "merge_configs_run E tv s = (Ret res, t)"
  shows "\<exists>txts x d w cr u m.
      omap (source_text E (templar_vars s0) (local_files s0)) (sources_list (dget (ae_args E) ''sources'')) = Ret txts
      \<and> merge_configs (ae_ini E) (truthy (dget_or (ae_args E) ''whitespace'' (PBool True))) txts = Ret x
      \<and> map_of (local_files w) (result_path d) = Some x
      \<and> ae_copy E (config_copy_args (ae_args E) (result_path d)) tv w = (Ret cr, u)
      \<and> add_module_args cr [(''src'', PStr (result_path d)), (''sources'', PList (sources_list (dget (ae_args E) ''sources''))),
           (''whitespace'', dget_or (ae_args E) ''whitespace'' (PBool True))] = Ret m
      \<and> res = dict_update result m"
proof -
  let ?sources = "sources_list (dget (ae_args E) ''sources'')"
  let ?w = "truthy (dget_or (ae_args E) ''whitespace'' (PBool True))"
  let ?ma = "\<lambda>p. [(''src'', PStr p), (''sources'', PList ?sources), (''whitespace'', dget_or (ae_args E) ''whitespace'' (PBool True))]"
  obtain config s2 where loop: "fold_cmd (read_ini E) ?sources (new_parser ?w) s0 = (Ret config, s2)"
    and dlv: "deliver E tv (Ret (ini_write config)) (config_copy_args (ae_args E)) ?ma result s2 = (Ret res, t)"
    using run base by (auto simp: merge_configs_run_def Let_def bnd_returns)
  obtain txts where "omap (source_text E (templar_vars s0) (local_files s0)) ?sources = Ret txts"
    "merge_configs (ae_ini E) ?w txts = Ret (ini_write config)"
    using fold_reading [where g = "source_text E" and h = "read_ini_config (ae_ini E)", OF read_ini_returns loop]
    by (auto simp: merge_configs_def)
  moreover obtain d w cr u m where "map_of (local_files w) (result_path d) = Some (ini_write config)"
    "ae_copy E (config_copy_args (ae_args E) (result_path d)) tv w = (Ret cr, u)"
    "add_module_args cr (?ma (result_path d)) = Ret m" "res = dict_update result m"
    using deliver_returns [OF dlv] by auto
  ultimately show ?thesis by blast
qed

text \<open>A run of merge_yaml that fails while it reads or merges leaves the templar with the task's variables.\<close>

lemma templar_vars_left:
  assumes "ae_base_run E (Some tv) s = (Ret result, s0)" and "update_vars tv (dget_or (ae_args E) ''vars'' (PList [])) = Ret vars"
    and "fold_cmd (yaml_step E (truthy (dget_or (ae_args E) ''extend_lists'' (PBool False))))
        (sources_list (dget (ae_args E) ''sources'')) (PDict []) (s0\<lparr>templar_vars := vars\<rparr>) = (Raise e, t)"
  shows "merge_yaml_run E (Some tv) s = (Raise e, t) \<and> templar_vars t = vars"
proof -
  have read: "keeps templar_vars (read_templated E path)" for path
    unfolding read_templated_def by (intro frame) (auto intro!: frame keeps_modify split: option.splits)
  have "keeps templar_vars (yaml_step E x source a)" for x source a
    unfolding yaml_step_def read_yaml_def by (intro frame) (auto intro!: frame read split: pyval.splits option.splits)
  then have "keeps templar_vars (fold_cmd (yaml_step E x) sources a)" for x sources a by (rule keeps_fold_cmd)
  from keepsD [OF this assms(3)] have "templar_vars t = vars" by simp
  then show ?thesis using assms by (simp add: merge_yaml_run_def Let_def bnd_def seqc_def set_vars_def)
qed

section \<open>A controller\<close>

definition demo_env :: "string list action_env" where
  "demo_env =
    \<lparr>ae_args = [(''sources'', PList [PStr ''/etc/a.yml'', PStr ''/etc/none.yml'', PStr ''/etc/b.yml'']), (''dest'', PStr ''/etc/c.yml'')],
     ae_basedir = ''/ansible'', ae_base_run = (\<lambda>tv. ret []), ae_template = (\<lambda>paths vars x. Ret x),
     ae_load = (\<lambda>x. if x = ''a'' then Ret (PDict yaml_defaults) else if x = ''b'' then Ret (PDict yaml_override) else Raise ValueError),
     ae_dump = (\<lambda>v w. Ret (py_str v)), ae_ini = (\<lambda>x. Raise ValueError),
     ae_mkdtemp = (\<lambda>s. Ret (''/tmp/'' @ replicate (fold max (map length (local_dirs s @ map fst (local_files s))) 0) CHR ''x'' @ ''d'')),
     ae_open_error = (\<lambda>p. None),
     ae_copy = (\<lambda>args tv s. (Ret [(''changed'', PBool True), (''invocation'', PDict [(''module_args'', PDict [])])],
        s\<lparr>hosts := (case map_of (local_files s) (py_str (dget args ''src'')) of None \<Rightarrow> hosts s | Some x \<Rightarrow> x # hosts s)\<rparr>))\<rparr>"

definition demo_controller :: "string list controller" where
  "demo_controller = \<lparr>templar_vars = [], searchpath = [], local_files = [(''/etc/a.yml'', ''a''), (''/etc/b.yml'', ''b'')],
     local_dirs = [], hosts = []\<rparr>"

definition demo_result :: pydict where
  "demo_result = (case fst (merge_yaml_run demo_env (Some []) demo_controller) of Ret r \<Rightarrow> r | _ \<Rightarrow> [])"

lemma demo_run: "fst (merge_yaml_run demo_env (Some []) demo_controller) = Ret demo_result \<and> dget demo_result ''changed'' = PBool True"
  by code_simp

theorem merge_yaml_delivers_witness:
  "\<exists>loaded doc (w :: string list controller) d. omap (source_document demo_env [] (local_files demo_controller)) (sources_list (dget (ae_args demo_env) ''sources'')) = Ret loaded
    \<and> merge_yaml_sources False loaded = Ret doc \<and> map_of (local_files w) (result_path d) = Some (py_str doc)"
proof -
  obtain t where run: "merge_yaml_run demo_env (Some []) demo_controller = (Ret demo_result, t)"
    using demo_run by (metis prod.collapse)
  have base: "ae_base_run demo_env (Some []) demo_controller = (Ret [], demo_controller)" by (simp add: demo_env_def)
  have args: "update_vars [] (dget_or (ae_args demo_env) ''vars'' (PList [])) = Ret []"
    "truthy (dget_or (ae_args demo_env) ''extend_lists'' (PBool False)) = False" "ae_dump demo_env v x = Ret (py_str v)" for v x
    by (simp_all add: demo_env_def dget_or_def update_vars_def dict_update_def)
  from merge_yaml_delivers [OF base run, unfolded args, simplified outcome.inject] obtain loaded doc d and w :: "string list controller"
    where "omap (source_document demo_env [] (local_files demo_controller)) (sources_list (dget (ae_args demo_env) ''sources'')) = Ret loaded"
      "merge_yaml_sources False loaded = Ret doc" "map_of (local_files w) (result_path d) = Some (py_str doc)"
    by blast
  then show ?thesis by blast
qed

lemma fold_max_le: "x \<in> set xs \<Longrightarrow> x \<le> fold max xs (a :: nat)"
proof (induction xs arbitrary: a)
  case (Cons y xs)
  have "b \<le> fold max xs b" for b :: nat by (induction xs arbitrary: b) (auto intro: order.trans [OF max.cobounded2])
  from this [of "max y a"] Cons show ?case by (auto intro: order.trans [OF max.cobounded1])
qed simp

lemma demo_tidy: "tidy demo_env"
proof -
  have new: "d \<noteq> [] \<and> \<not> ends_with d ''/'' \<and> d \<notin> set dirs \<and> (\<forall>f \<in> set files. \<not> inside d (fst f))"
    if "d = ''/tmp/'' @ replicate (fold max (map length (dirs @ map fst files)) 0) CHR ''x'' @ ''d''" for d dirs and files :: "(string \<times> string) list"
  proof -
    have "length p < length d" if "p \<in> set (dirs @ map fst files)" for p
      using fold_max_le [of "length p" "map length (dirs @ map fst files)" 0] that \<open>d = _\<close> by fastforce
    moreover have "length d < length p" if "inside d p" for p
    proof -
      have "length (take (length (d @ ''/'')) p) = length (d @ ''/'')" using that by (simp only: inside_def starts_with_def)
      then show ?thesis by simp
    qed
    moreover have "\<not> ends_with d ''/''" using that by (simp add: ends_with_def starts_with_def)
    ultimately show ?thesis using that by fastforce
  qed
  show ?thesis
    unfolding tidy_def demo_env_def by (simp add: keeps_def local_view_def new)
qed

theorem actions_leave_nothing_witness:
  "local_dirs (snd (merge_yaml_run demo_env (Some []) demo_controller)) = []"
  using actions_leave_nothing [OF demo_tidy, of "Some []"]
  by (simp add: keeps_def local_view_def demo_controller_def)

end
