(* ===== verification/Nova_Cells.thy ===== *)
theory Nova_Cells
  imports Py_Regex
begin

text \<open>
  The filter \<open>extract_cell\<close> of \<open>kolla_ansible/nova_filters.py\<close>: the rows of the table that
  \<open>nova-manage cell_v2 list_cells --verbose\<close> prints are read with a regular expression (\<open>Py_Regex\<close>).
\<close>

section \<open>The filter\<close>

abbreviation blank :: "char \<Rightarrow> bool" where
  "blank c \<equiv> c = CHR '' ''"

definition not_space :: "char \<Rightarrow> bool" where
  "not_space c \<longleftrightarrow> c \<noteq> CHR '' ''"

definition uuid_char :: "char \<Rightarrow> bool" where
  "uuid_char c \<longleftrightarrow> c \<in> set ''0123456789abcdef-''"

definition column :: "rx_item \<Rightarrow> rx_item list" where
  "column item = [Chr CHR ''|'', Run blank, item, Run blank]"

definition cell_pattern :: "rx_item list" where
  "cell_pattern =
     column (OptGroup ''cell_name'' not_space)
     @ column (Group ''cell_uuid'' uuid_char)
     @ column (Group ''cell_message_queue'' not_space)
     @ column (Group ''cell_database'' not_space)
     @ column (Group ''cell_disabled'' not_space)
     @ [Chr CHR ''|'', TextEnd]"

definition template_error :: "string \<Rightarrow> exn" where
  "template_error cell_name =
     PyError (''TemplateRuntimeError: Cell: '' @ cell_name @ '' has duplicates. Manual cleanup required.'')"

text \<open>The settings of one line, if it is a row for the cell. \<open>match.group('cell_name') or ""\<close>: a row without a name is the default cell.\<close>

definition line_cells :: "string \<Rightarrow> pyval \<Rightarrow> pydict list outcome" where
  "line_cells cell_name line =
     (case line of
        PStr s \<Rightarrow>
          (case rx cell_pattern s of
             None \<Rightarrow> Ret []
           | Some g \<Rightarrow>
               (let match_cell_name = (case map_of g ''cell_name'' of Some (Some n) \<Rightarrow> n | _ \<Rightarrow> [])
                in Ret (if match_cell_name = cell_name then [group_dict g] else [])))
      | _ \<Rightarrow> Raise TypeError)"

definition extract_cell :: "pyval \<Rightarrow> string \<Rightarrow> pyval outcome" where
  "extract_cell list_cells_cli_output cell_name =
     obind (py_item list_cells_cli_output ''stdout_lines'') (\<lambda>v.
     obind (py_iter v) (\<lambda>lines.
     obind (omap (line_cells cell_name) lines) (\<lambda>css.
       case concat css of
         [] \<Rightarrow> Ret PNone
       | [c] \<Rightarrow> Ret (PDict c)
       | _ \<Rightarrow> Raise (template_error cell_name))))"

section \<open>Rows of the table\<close>

record cell_row =
  row_name :: string
  row_uuid :: string
  row_queue :: string
  row_database :: string
  row_disabled :: string

text \<open>A column is its text between at least one space on each side; \<open>pads\<close> are the numbers of further spaces.\<close>

definition spaces :: "nat \<Rightarrow> string" where
  "spaces n = replicate (Suc n) CHR '' ''"

definition column_text :: "nat \<Rightarrow> nat \<Rightarrow> string \<Rightarrow> string" where
  "column_text a b s = ''|'' @ spaces a @ s @ spaces b"

definition row_text :: "(nat \<Rightarrow> nat) \<Rightarrow> cell_row \<Rightarrow> string" where
  "row_text pads c =
     column_text (pads 0) (pads 1) (row_name c) @ column_text (pads 2) (pads 3) (row_uuid c)
     @ column_text (pads 4) (pads 5) (row_queue c) @ column_text (pads 6) (pads 7) (row_database c)
     @ column_text (pads 8) (pads 9) (row_disabled c) @ ''|''"

definition field_ok :: "(char \<Rightarrow> bool) \<Rightarrow> string \<Rightarrow> bool" where
  "field_ok P s \<longleftrightarrow> s \<noteq> [] \<and> list_all P s"

definition row_ok :: "cell_row \<Rightarrow> bool" where
  "row_ok c \<longleftrightarrow>
     list_all not_space (row_name c) \<and> field_ok uuid_char (row_uuid c) \<and> field_ok not_space (row_queue c)
     \<and> field_ok not_space (row_database c) \<and> field_ok not_space (row_disabled c)"

definition row_groups :: "cell_row \<Rightarrow> rx_groups" where
  "row_groups c =
     [(''cell_name'', if row_name c = [] then None else Some (row_name c)), (''cell_uuid'', Some (row_uuid c)),
      (''cell_message_queue'', Some (row_queue c)), (''cell_database'', Some (row_database c)),
      (''cell_disabled'', Some (row_disabled c))]"

lemma spaces_simps [simp]: "spaces n \<noteq> []" "\<forall>c \<in> set (spaces n). c = CHR '' ''" "c \<in> set (spaces n) \<longleftrightarrow> c = CHR '' ''"
  by (auto simp: spaces_def)

lemma not_space_cases [simp]: "\<not> not_space CHR '' ''" "not_space CHR ''|''" "\<not> uuid_char CHR '' ''" "uuid_char c \<Longrightarrow> not_space c"
  by (auto simp: not_space_def uuid_char_def)

lemma uuid_not_bar: "uuid_char c \<Longrightarrow> c \<noteq> CHR ''|''"
  by (auto simp: uuid_char_def)

lemma rx_spaces:
  assumes "\<not> (\<exists>cs. rest = CHR '' '' # cs)" and "refuses blank r \<or> rx r rest \<noteq> None"
  shows "rx (Run blank # r) (spaces n @ rest) = rx r rest"
  using assms by (intro rx_run) auto

lemma field_head: "field_ok P s \<Longrightarrow> \<exists>c cs. s = c # cs \<and> P c"
  by (cases s) (auto simp: field_ok_def)

lemma spaces_Cons: "\<exists>cs. spaces n @ r = CHR '' '' # cs"
  by (simp add: spaces_def)

text \<open>A column without its bar and its first spaces, followed by the bar of the next one.\<close>

lemma rx_field:
  assumes "field_ok P s" and P: "\<forall>c. P c \<longrightarrow> not_space c"
  shows "rx (Group n P # Run blank # Chr CHR ''|'' # r) (s @ spaces b @ CHR ''|'' # rest)
         = map_option (\<lambda>g. (n, Some s) # g) (rx r rest)"
proof -
  let ?r = "Chr CHR ''|'' # r" and ?rest = "CHR ''|'' # rest"
  have s: "s \<noteq> []" "\<forall>c \<in> set s. P c" using assms(1) by (auto simp: field_ok_def list_all_iff)
  have sp: "\<not> P CHR '' ''" using P not_space_def by blast
  then have "refuses P (Run blank # ?r)" by (intro refuses_items) auto
  then have "rx (Group n P # Run blank # ?r) (s @ spaces b @ ?rest)
      = map_option (\<lambda>g. (n, Some s) # g) (rx (Run blank # ?r) (spaces b @ ?rest))"
    using s sp spaces_Cons [of b ?rest] by (intro rx_group) auto
  moreover have "rx (Run blank # ?r) (spaces b @ ?rest) = rx ?r ?rest"
    by (intro rx_spaces) simp_all
  ultimately show ?thesis by simp
qed

lemma rx_column:
  assumes "field_ok P s" and P: "\<forall>c. P c \<longrightarrow> not_space c"
  shows "rx (Run blank # Group n P # Run blank # Chr CHR ''|'' # r) (spaces a @ s @ spaces b @ CHR ''|'' # rest)
         = map_option (\<lambda>g. (n, Some s) # g) (rx r rest)"
proof -
  let ?r = "Group n P # Run blank # Chr CHR ''|'' # r" and ?rest = "s @ spaces b @ CHR ''|'' # rest"
  have sp: "\<not> P CHR '' ''" using P not_space_def by blast
  then have "refuses blank ?r" by (intro refuses_items) auto
  then have "rx (Run blank # ?r) (spaces a @ ?rest) = rx ?r ?rest"
    using field_head [OF assms(1)] sp by (intro rx_spaces) auto
  then show ?thesis by (simp add: rx_field [OF assms])
qed

text \<open>The column of the name, when the rest of the row matches.\<close>

lemma rx_name_column:
  assumes "field_ok not_space s" and rest: "rx r rest = Some g"
  shows "rx (Run blank # OptGroup n not_space # Run blank # Chr CHR ''|'' # r) (spaces a @ s @ spaces b @ CHR ''|'' # rest)
         = Some ((n, Some s) # g)"
proof -
  let ?r = "Run blank # Chr CHR ''|'' # r" and ?rest = "s @ spaces b @ CHR ''|'' # rest"
  have "rx (Group n not_space # ?r) ?rest = Some ((n, Some s) # g)"
    using rx_field [OF assms(1), of n r b rest] rest by simp
  then have opt: "rx (OptGroup n not_space # ?r) ?rest = Some ((n, Some s) # g)"
    by (simp add: rx_Group rx_OptGroup)
  then have "rx (Run blank # OptGroup n not_space # ?r) (spaces a @ ?rest) = rx (OptGroup n not_space # ?r) ?rest"
    using field_head [OF assms(1)] by (intro rx_spaces) auto
  then show ?thesis by (simp add: opt)
qed

lemma rx_no_name:
  assumes rest: "rx r rest = Some g" and bar: "rx (Run blank # Chr CHR ''|'' # r) rest = None"
    and next_space: "rest = CHR '' '' # cs"
  shows "rx (Run blank # OptGroup n not_space # Run blank # Chr CHR ''|'' # r) (spaces a @ spaces b @ CHR ''|'' # rest)
         = Some ((n, None) # g)"
proof -
  let ?r = "Run blank # Chr CHR ''|'' # r" and ?rest = "CHR ''|'' # rest"
  let ?ws = "replicate (Suc (a + b)) CHR '' ''"
  have bar_only: "run_lengths not_space ?rest = [1]" "run_lengths blank ?rest = []"
    using next_space by (auto simp: run_lengths_def)
  have last: "rx (OptGroup n not_space # ?r) ?rest = None"
    using bar by (simp add: rx_OptGroup bar_only) (simp add: rx_Run bar_only)
  have one: "rx ?r (spaces 0 @ ?rest) = Some g" using rest by (subst rx_spaces) simp_all
  have "run_lengths not_space (spaces 0 @ ?rest) = []" by (simp add: run_lengths_def spaces_def)
  then have before: "rx (OptGroup n not_space # ?r) (spaces 0 @ ?rest) = Some ((n, None) # g)"
    using one by (simp add: rx_OptGroup)
  have ws: "spaces a @ spaces b @ ?rest = (?ws @ spaces 0) @ ?rest"
    by (simp add: spaces_def replicate_add replicate_append_same)
  have len: "length (?ws @ spaces 0) = Suc (Suc (a + b))" by (simp add: spaces_def)
  have "run_lengths blank ((?ws @ spaces 0) @ ?rest) = length (?ws @ spaces 0) # rev [1 ..< length (?ws @ spaces 0)]"
    by (rule run_lengths_append) auto
  also have "\<dots> = Suc (Suc (a + b)) # Suc (a + b) # rev [1 ..< Suc (a + b)]" unfolding len by simp
  finally have runs: "run_lengths blank ((?ws @ spaces 0) @ ?rest) = Suc (Suc (a + b)) # Suc (a + b) # rev [1 ..< Suc (a + b)]" .
  have drops: "drop (Suc (Suc (a + b))) ((?ws @ spaces 0) @ ?rest) = ?rest"
    "drop (Suc (a + b)) ((?ws @ spaces 0) @ ?rest) = spaces 0 @ ?rest"
    by (simp_all add: spaces_def)
  show "rx (Run blank # OptGroup n not_space # ?r) (spaces a @ spaces b @ ?rest) = Some ((n, None) # g)"
    unfolding ws rx_Run [of blank] runs first_some.simps drops last before by simp
qed

lemma row_columns:
  assumes "row_ok c"
  shows "rx cell_pattern (row_text pads c) = Some (row_groups c)"
proof -
  define r where "r = Run blank # Group ''cell_uuid'' uuid_char # Run blank
     # column (Group ''cell_message_queue'' not_space) @ column (Group ''cell_database'' not_space)
     @ column (Group ''cell_disabled'' not_space) @ [Chr CHR ''|'', TextEnd]"
  define rest where "rest = spaces (pads 2) @ row_uuid c @ spaces (pads 3) @ column_text (pads 4) (pads 5) (row_queue c)
     @ column_text (pads 6) (pads 7) (row_database c) @ column_text (pads 8) (pads 9) (row_disabled c) @ ''|''"
  have ok: "field_ok uuid_char (row_uuid c)" "field_ok not_space (row_queue c)" "field_ok not_space (row_database c)"
    "field_ok not_space (row_disabled c)" "row_name c \<noteq> [] \<Longrightarrow> field_ok not_space (row_name c)"
    using assms by (auto simp: row_ok_def field_ok_def)
  have fields: "\<forall>c. uuid_char c \<longrightarrow> not_space c" by simp
  have rest: "rx r rest = Some (tl (row_groups c))"
    unfolding r_def rest_def column_def column_text_def
    by (simp add: rx_column ok fields row_groups_def)
  obtain u us where u: "row_uuid c = u # us" "uuid_char u" using field_head [OF ok(1)] by auto
  have bar: "rx (Run blank # Chr CHR ''|'' # r) rest = None"
    unfolding rest_def by (subst rx_spaces) (use u uuid_not_bar in auto)
  obtain cs where cs: "rest = CHR '' '' # cs" using spaces_Cons [of "pads 2"] unfolding rest_def by blast
  have row: "rx cell_pattern (row_text pads c) = rx (Run blank # OptGroup ''cell_name'' not_space # Run blank # Chr CHR ''|'' # r)
      (spaces (pads 0) @ row_name c @ spaces (pads 1) @ CHR ''|'' # rest)"
    by (simp add: cell_pattern_def row_text_def column_def column_text_def r_def rest_def)
  show ?thesis
  proof (cases "row_name c = []")
    case True
    then show ?thesis using rx_no_name [OF rest bar cs] by (simp add: row row_groups_def)
  next
    case False
    then show ?thesis using rx_name_column [OF ok(5) rest] by (simp add: row row_groups_def)
  qed
qed

section \<open>The cell of a name\<close>

definition row_dict :: "cell_row \<Rightarrow> pydict" where
  "row_dict c =
     [(''cell_name'', if row_name c = [] then PNone else PStr (row_name c)), (''cell_uuid'', PStr (row_uuid c)),
      (''cell_message_queue'', PStr (row_queue c)), (''cell_database'', PStr (row_database c)),
      (''cell_disabled'', PStr (row_disabled c))]"

text \<open>A line of the output: a row with its padding, or a line that is no row (a border, the header).\<close>

datatype table_line = Row "nat \<Rightarrow> nat" cell_row | Other string

fun line_text :: "table_line \<Rightarrow> string" where
  "line_text (Row pads c) = row_text pads c"
| "line_text (Other s) = s"

fun line_ok :: "table_line \<Rightarrow> bool" where
  "line_ok (Row pads c) = row_ok c"
| "line_ok (Other s) = (rx cell_pattern s = None)"

fun rows_of :: "table_line list \<Rightarrow> cell_row list" where
  "rows_of [] = []"
| "rows_of (Row pads c # ls) = c # rows_of ls"
| "rows_of (Other s # ls) = rows_of ls"

definition cell_output :: "table_line list \<Rightarrow> pyval" where
  "cell_output ls = PDict [(''stdout_lines'', PList (map (\<lambda>l. PStr (line_text l)) ls))]"

lemma group_dict_row: "group_dict (row_groups c) = row_dict c"
  by (simp add: group_dict_def row_groups_def row_dict_def)

lemma line_cells_row:
  "row_ok c \<Longrightarrow> line_cells name (PStr (row_text pads c)) = Ret (if row_name c = name then [row_dict c] else [])"
  by (simp add: line_cells_def row_columns group_dict_row) (simp add: row_groups_def)

lemma line_cells_table:
  "list_all line_ok ls \<Longrightarrow>
   \<exists>css. omap (line_cells name) (map (\<lambda>l. PStr (line_text l)) ls) = Ret css
     \<and> concat css = map row_dict (filter (\<lambda>c. row_name c = name) (rows_of ls))"
proof (induction ls)
  case (Cons l ls)
  then show ?case by (cases l) (auto simp: line_cells_row, auto simp: line_cells_def)
qed simp

text \<open>on the table of the command, whatever the widths of its columns, \<open>extract_cell\<close> gives the
  settings in the one row whose name is the one asked for (the empty name is the default cell, whose
  \<open>cell_name\<close> is \<open>None\<close>), \<open>None\<close> when there is none, and an error when there are several.
\<close>

theorem extract_cell_correct:
  assumes "list_all line_ok ls"
  shows "extract_cell (cell_output ls) name =
    (case filter (\<lambda>c. row_name c = name) (rows_of ls) of
       [] \<Rightarrow> Ret PNone
     | [c] \<Rightarrow> Ret (PDict (row_dict c))
     | _ \<Rightarrow> Raise (template_error name))"
proof -
  obtain css where css: "omap (line_cells name) (map (\<lambda>l. PStr (line_text l)) ls) = Ret css"
    "concat css = map row_dict (filter (\<lambda>c. row_name c = name) (rows_of ls))"
    using line_cells_table [OF assms] by blast
  then show ?thesis by (simp add: extract_cell_def cell_output_def split: list.splits)
qed

definition cell0 :: cell_row where
  "cell0 = \<lparr>row_name = [], row_uuid = ''68a3-0'', row_queue = ''rabbit://p@h'', row_database = ''mysql://d'', row_disabled = ''False''\<rparr>"

definition sample_table :: "table_line list" where
  "sample_table =
     [Other ''+-------+'', Other ''|  Name |  UUID  |'', Row (\<lambda>i. 0) cell0, Row (\<lambda>i. i) (cell0\<lparr>row_name := ''cell1''\<rparr>),
      Row (\<lambda>i. 2) (cell0\<lparr>row_name := ''twin''\<rparr>), Row (\<lambda>i. 1) (cell0\<lparr>row_name := ''twin''\<rparr>)]"

theorem extract_cell_correct_witness:
  "extract_cell (cell_output sample_table) [] = Ret (PDict (row_dict cell0))
   \<and> extract_cell (cell_output sample_table) ''cell1'' = Ret (PDict (row_dict (cell0\<lparr>row_name := ''cell1''\<rparr>)))
   \<and> extract_cell (cell_output sample_table) ''cell9'' = Ret PNone
   \<and> extract_cell (cell_output sample_table) ''twin'' = Raise (template_error ''twin'')"
proof -
  have "list_all line_ok sample_table" by code_simp
  then show ?thesis using extract_cell_correct [of sample_table] by (simp add: sample_table_def cell0_def)
qed

end
