(* ===== verification/Dhcp_Lease.thy ===== *)
theory Dhcp_Lease
  imports Py_Monad
begin

text \<open>
  \<open>contrib/dev/vagrant/newest_dhcp_lease.py\<close>: the address that a virtual machine got on the private
  network, from libvirt's leases or, before version 1.2.6, from the file of dnsmasq. The connection
  is a parameter: it yields the parsed XML of a domain, the leases of a network and the rows of the
  file.
\<close>

section \<open>The domain\<close>

datatype element = Element (tag: string) (attributes: "(string \<times> string) list") (children: "element list")

definition find_child :: "string \<Rightarrow> element \<Rightarrow> element option" where
  "find_child t e = List.find (\<lambda>c. tag c = t) (children e)"

definition no_private_interface :: exn where
  "no_private_interface = PyError ''NoPrivateDHCPInterfaceException''"

definition no_dhcp_lease :: exn where
  "no_dhcp_lease = PyError ''NoDHCPLeaseException''"

definition private_network :: string where
  "private_network = ''vagrant-private-dhcp''"

definition on_private_network :: "element \<Rightarrow> bool" where
  "on_private_network interface =
     (case find_child ''source'' interface of
        None \<Rightarrow> False
      | Some source \<Rightarrow> map_of (attributes source) ''network'' = Some private_network)"

text \<open>The address may be missing (\<open>None\<close>), the element \<open>mac\<close> as well (then \<open>get\<close> fails).\<close>

fun interface_mac :: "element list \<Rightarrow> string option outcome" where
  "interface_mac [] = Raise no_private_interface"
| "interface_mac (interface # interfaces) =
     (if \<not> on_private_network interface then interface_mac interfaces
      else case find_child ''mac'' interface of
        None \<Rightarrow> Raise AttributeError
      | Some mac_element \<Rightarrow> Ret (map_of (attributes mac_element) ''address''))"

definition mac_of_domain :: "element \<Rightarrow> string option outcome" where
  "mac_of_domain domain_tree =
     (case find_child ''devices'' domain_tree of
        None \<Rightarrow> Raise AttributeError
      | Some devices \<Rightarrow> interface_mac (filter (\<lambda>c. tag c = ''interface'') (children devices)))"

section \<open>Leases\<close>

record lease =
  expirytime :: int
  mac :: "string option"
  ipaddr :: string

record 'w libvirt =
  lv_version :: int
  lv_domain :: "string \<Rightarrow> ('w, element) cmd"
  lv_leases :: "string \<Rightarrow> ('w, lease list) cmd"
  lv_lease_file :: "('w, string list list) cmd"

definition get_mac_address :: "'w libvirt \<Rightarrow> string \<Rightarrow> ('w, string option) cmd" where
  "get_mac_address L domain_name = bnd (lv_domain L domain_name) (\<lambda>d. lift (mac_of_domain d))"

text \<open>\<open>sorted(xs, key=f, reverse=True)\<close> is stable: elements of equal key keep their order.\<close>

definition sorted_reverse :: "('a \<Rightarrow> 'k :: linorder) \<Rightarrow> 'a list \<Rightarrow> 'a list" where
  "sorted_reverse f xs = rev (sort_key f (rev xs))"

definition newest_lease :: "string option \<Rightarrow> lease list \<Rightarrow> string outcome" where
  "newest_lease mac_address dhcp_leases =
     (case sorted_reverse expirytime (filter (\<lambda>l. mac l = mac_address) dhcp_leases) of
        [] \<Rightarrow> Raise IndexError
      | l # _ \<Rightarrow> Ret (ipaddr l))"

definition get_vir_network_dhcp_lease :: "'w libvirt \<Rightarrow> string \<Rightarrow> ('w, string) cmd" where
  "get_vir_network_dhcp_lease L vm_name =
     bnd (get_mac_address L (''vagrant_'' @ vm_name)) (\<lambda>mac_address.
     bnd (lv_leases L private_network) (\<lambda>leases. lift (newest_lease mac_address leases)))"

text \<open>\<open>lease_mac, lease_ip, lease_vm_name = row[1:4]\<close>.\<close>

fun dnsmasq_lease :: "string option \<Rightarrow> string \<Rightarrow> string list list \<Rightarrow> string outcome" where
  "dnsmasq_lease mac_address vm_name [] = Raise no_dhcp_lease"
| "dnsmasq_lease mac_address vm_name (row # rows) =
     (case take 3 (drop 1 row) of
        [lease_mac, lease_ip, lease_vm_name] \<Rightarrow>
          if \<not> (Some lease_mac = mac_address \<and> lease_vm_name = vm_name) then dnsmasq_lease mac_address vm_name rows
          else Ret lease_ip
      | _ \<Rightarrow> Raise ValueError)"

definition get_dnsmasq_dhcp_lease :: "'w libvirt \<Rightarrow> string \<Rightarrow> ('w, string) cmd" where
  "get_dnsmasq_dhcp_lease L vm_name =
     bnd (get_mac_address L (''vagrant_'' @ vm_name)) (\<lambda>mac_address.
     bnd (lv_lease_file L) (\<lambda>rows. lift (dnsmasq_lease mac_address vm_name rows)))"

definition lease_main :: "'w libvirt \<Rightarrow> string \<Rightarrow> ('w, string) cmd" where
  "lease_main L vm_name =
     (if lv_version L \<ge> 1002006 then get_vir_network_dhcp_lease L vm_name else get_dnsmasq_dhcp_lease L vm_name)"

section \<open>The newest lease\<close>

lemma sorted_reverse_stable:
  "filter (\<lambda>y. f y = k) (sorted_reverse f xs) = filter (\<lambda>y. f y = k) xs"
proof -
  have "filter (\<lambda>y. f y = k) (rev zs) = rev (filter (\<lambda>y. f y = k) zs)" for zs by (simp add: rev_filter)
  then show ?thesis by (simp add: sorted_reverse_def sort_key_stable)
qed

lemma sorted_reverse_set [simp]: "set (sorted_reverse f xs) = set xs"
  by (simp add: sorted_reverse_def)

text \<open>The head of the sorted list is the first element of greatest key.\<close>

lemma sorted_reverse_head:
  assumes "sorted_reverse f xs = y # ys"
  shows "\<exists>pre post. xs = pre @ y # post \<and> (\<forall>x \<in> set xs. f x \<le> f y) \<and> (\<forall>x \<in> set pre. f x < f y)"
proof -
  have "sorted (map f (rev (y # ys)))" using assms by (metis sorted_reverse_def rev_rev_ident sorted_sort_key)
  then have "\<forall>x \<in> set (y # ys). f x \<le> f y" by (auto simp: sorted_append simp flip: rev_map)
  then have max: "\<forall>x \<in> set xs. f x \<le> f y" using assms sorted_reverse_set [of f xs] by metis
  have "filter (\<lambda>x. f x = f y) xs = y # filter (\<lambda>x. f x = f y) ys"
    using sorted_reverse_stable [of f "f y" xs] assms by simp
  then obtain pre post where "xs = pre @ y # post" "\<forall>x \<in> set pre. f x \<noteq> f y"
    unfolding filter_eq_Cons_iff by blast
  with max show ?thesis by (metis Un_iff le_neq_trans set_append)
qed

text \<open>with a libvirt of version 1.2.6 or later the result is the address of a lease of the machine's
  own interface on the private network that expires last, the first listed of these; the program
  fails when the interface is missing or has no lease. An older libvirt gives the first line of the
  file for the machine, whatever its time.
\<close>

theorem newest_lease_correct:
  assumes "lv_domain L (''vagrant_'' @ vm) w = (Ret d, w1)" and "mac_of_domain d = Ret m"
  shows "(lv_version L \<ge> 1002006 \<and> lv_leases L private_network w1 = (Ret ls, w2) \<longrightarrow>
       (case fst (lease_main L vm w) of
          Ret ip \<Rightarrow> (\<exists>l pre post. filter (\<lambda>l. mac l = m) ls = pre @ l # post \<and> ipaddr l = ip
             \<and> (\<forall>k \<in> set ls. mac k = m \<longrightarrow> expirytime k \<le> expirytime l) \<and> (\<forall>k \<in> set pre. expirytime k < expirytime l))
        | Raise e \<Rightarrow> e = IndexError \<and> (\<forall>l \<in> set ls. mac l \<noteq> m)
        | Exit k x \<Rightarrow> False))
     \<and> (lv_version L < 1002006 \<and> lv_lease_file L w1 = (Ret rows, w2) \<and> list_all (\<lambda>r. length r \<ge> 4) rows \<longrightarrow>
       fst (lease_main L vm w) = (case List.find (\<lambda>r. Some (r ! 1) = m \<and> r ! 3 = vm) rows of
          None \<Rightarrow> Raise no_dhcp_lease | Some r \<Rightarrow> Ret (r ! 2)))"
proof -
  have four: "\<exists>a b c d e. r = a # b # c # d # e" if "length r \<ge> 4" for r :: "string list"
    using that by (auto simp: Suc_le_length_iff numeral_eq_Suc)
  have lines: "dnsmasq_lease m vm rows = (case List.find (\<lambda>r. Some (r ! 1) = m \<and> r ! 3 = vm) rows of
          None \<Rightarrow> Raise no_dhcp_lease | Some r \<Rightarrow> Ret (r ! 2))" if "list_all (\<lambda>r. length r \<ge> 4) rows"
    using that
  proof (induction rows)
    case (Cons r rows)
    then obtain a b c d e where "r = a # b # c # d # e" using four [of r] by auto
    with Cons show ?case by (auto simp: numeral_eq_Suc)
  qed simp
  have newest: "case newest_lease m ls of
          Ret ip \<Rightarrow> (\<exists>l pre post. filter (\<lambda>l. mac l = m) ls = pre @ l # post \<and> ipaddr l = ip
             \<and> (\<forall>k \<in> set ls. mac k = m \<longrightarrow> expirytime k \<le> expirytime l) \<and> (\<forall>k \<in> set pre. expirytime k < expirytime l))
        | Raise e \<Rightarrow> e = IndexError \<and> (\<forall>l \<in> set ls. mac l \<noteq> m)
        | Exit k x \<Rightarrow> False"
  proof (cases "sorted_reverse expirytime (filter (\<lambda>l. mac l = m) ls)")
    case Nil
    then have "filter (\<lambda>l. mac l = m) ls = []" by (metis set_empty sorted_reverse_set)
    with Nil show ?thesis by (auto simp: newest_lease_def filter_empty_conv)
  next
    case (Cons l rest)
    from sorted_reverse_head [OF Cons] Cons show ?thesis by (auto simp: newest_lease_def)
  qed
  show ?thesis
    using newest lines assms
    by (auto simp: lease_main_def get_vir_network_dhcp_lease_def get_dnsmasq_dhcp_lease_def get_mac_address_def bnd_def)
qed

definition sample_domain :: element where
  "sample_domain = Element ''domain'' [] [Element ''devices'' []
     [Element ''interface'' [] [Element ''source'' [(''network'', ''default'')] [], Element ''mac'' [(''address'', ''aa'')] []],
      Element ''interface'' [] [Element ''source'' [(''network'', private_network)] [], Element ''mac'' [(''address'', ''bb'')] []]]]"

definition sample_libvirt :: "int \<Rightarrow> unit libvirt" where
  "sample_libvirt v =
     \<lparr>lv_version = v, lv_domain = (\<lambda>n. ret sample_domain),
      lv_leases = (\<lambda>n. ret [\<lparr>expirytime = 5, mac = Some ''bb'', ipaddr = ''10.0.0.5''\<rparr>,
         \<lparr>expirytime = 9, mac = Some ''bb'', ipaddr = ''10.0.0.9''\<rparr>, \<lparr>expirytime = 11, mac = Some ''aa'', ipaddr = ''10.0.0.11''\<rparr>]),
      lv_lease_file = ret [[''5'', ''bb'', ''10.0.0.5'', ''vm'', ''x''], [''9'', ''bb'', ''10.0.0.9'', ''vm'', ''x'']]\<rparr>"

theorem newest_lease_correct_witness:
  "fst (lease_main (sample_libvirt 6000000) ''vm'' ()) = Ret ''10.0.0.9''
   \<and> fst (lease_main (sample_libvirt 1002005) ''vm'' ()) = Ret ''10.0.0.5''"
proof -
  have d: "lv_domain (sample_libvirt v) n () = (Ret sample_domain, ())" "mac_of_domain sample_domain = Ret (Some ''bb'')" for v n
    by (simp add: sample_libvirt_def) code_simp
  have new: "fst (lease_main (sample_libvirt 6000000) ''vm'' ()) = Ret ''10.0.0.9''"
    using newest_lease_correct [OF d(1) d(2), of 6000000
        "[\<lparr>expirytime = 5, mac = Some ''bb'', ipaddr = ''10.0.0.5''\<rparr>, \<lparr>expirytime = 9, mac = Some ''bb'', ipaddr = ''10.0.0.9''\<rparr>,
          \<lparr>expirytime = 11, mac = Some ''aa'', ipaddr = ''10.0.0.11''\<rparr>]" "()" "''vm''" "[]"]
    by (auto simp: sample_libvirt_def Cons_eq_append_conv split: outcome.splits)
  have old: "fst (lease_main (sample_libvirt 1002005) ''vm'' ()) = Ret ''10.0.0.5''"
    using newest_lease_correct [OF d(1) d(2), of 1002005 "[]" "()" "''vm''"
        "[[''5'', ''bb'', ''10.0.0.5'', ''vm'', ''x''], [''9'', ''bb'', ''10.0.0.9'', ''vm'', ''x'']]"]
    by (simp add: sample_libvirt_def)
  from new old show ?thesis by blast
qed

end
