(* ===== verification/Service_Filters.thy ===== *)
theory Service_Filters
  imports Py_Values "HOL-Library.Multiset"
begin

text \<open>
  The Jinja filters on service definitions: \<open>kolla_ansible/filters.py\<close> (which services are enabled and
  mapped to a host, the haproxy entries of the enabled ones), \<open>kolla_ansible/fluentd_filters.py\<close> and
  \<open>namespace_haproxy_for_cell\<close> of \<open>kolla_ansible/nova_filters.py\<close>. Ansible's \<open>bool\<close> filter and the
  variables of the Jinja context are the fields of the context record. The iteration order of a Python
  set is a parameter.
\<close>

section \<open>Definitions\<close>

record jinja_context =
  bool_filter :: "pyval \<Rightarrow> bool outcome"
  context_vars :: pydict

definition filter_error :: "string \<Rightarrow> exn" where
  "filter_error msg = PyError msg"

definition container_name_text :: "pyval \<Rightarrow> string outcome" where
  "container_name_text service =
     obind (py_get_or service ''container_name'' (PStr ''<unknown>'')) (\<lambda>n. Ret (py_str n))"

definition service_enabled :: "jinja_context \<Rightarrow> pyval \<Rightarrow> bool outcome" where
  "service_enabled ctx service =
     obind (py_get service ''enabled'') (\<lambda>enabled.
       if is_none enabled
       then obind (container_name_text service) (\<lambda>n.
         Raise (filter_error (''Service definition for '' @ [CHR 0x27] @ n @ [CHR 0x27]
           @ '' does not have an '' @ [CHR 0x27] @ ''enabled'' @ [CHR 0x27] @ '' attribute'')))
       else bool_filter ctx enabled)"

text \<open>\<open>x in v\<close> for a value \<open>x\<close>.\<close>

fun py_in :: "pyval \<Rightarrow> pyval \<Rightarrow> bool outcome" where
  "py_in x (PList ys) = Ret (mem_eq x ys)"
| "py_in x (PDict d) =
     (if hashable x then Ret (case x of PStr k \<Rightarrow> has_key d k | _ \<Rightarrow> False) else Raise TypeError)"
| "py_in x (PStr s) = (case x of PStr k \<Rightarrow> Ret (is_substring k s) | _ \<Rightarrow> Raise TypeError)"
| "py_in x _ = Raise TypeError"

definition service_mapped_to_host :: "jinja_context \<Rightarrow> pyval \<Rightarrow> bool outcome" where
  "service_mapped_to_host ctx service =
     obind (py_get service ''host_in_groups'') (\<lambda>host_in_groups.
       if \<not> is_none host_in_groups then bool_filter ctx host_in_groups
       else obind (py_get service ''group'') (\<lambda>group.
         if \<not> is_none group
         then obind (py_in group (dget (context_vars ctx) ''group_names'')) (\<lambda>b.
                Ret (b \<or> py_eq group (PStr ''all'')))
         else obind (container_name_text service) (\<lambda>n.
           Raise (filter_error (''Service definition for '' @ [CHR 0x27] @ n @ [CHR 0x27]
             @ '' does not have a '' @ [CHR 0x27] @ ''group'' @ [CHR 0x27] @ '' or '' @ [CHR 0x27]
             @ ''host_in_groups'' @ [CHR 0x27] @ '' attribute'')))))"

definition service_enabled_and_mapped_to_host :: "jinja_context \<Rightarrow> pyval \<Rightarrow> bool outcome" where
  "service_enabled_and_mapped_to_host ctx service =
     obind (service_enabled ctx service) (\<lambda>b.
       if b then service_mapped_to_host ctx service else Ret False)"

definition select_services_enabled_and_mapped_to_host :: "jinja_context \<Rightarrow> pydict \<Rightarrow> pydict outcome" where
  "select_services_enabled_and_mapped_to_host ctx services =
     ofold (\<lambda>(name, service) acc.
       obind (service_enabled_and_mapped_to_host ctx service) (\<lambda>b.
         Ret (if b then AList.update name service acc else acc))) services []"

text \<open>\<open>haproxy.update(v)\<close> for a value that is no dictionary: a sequence of pairs is expected.\<close>

definition update_pair :: "pyval \<Rightarrow> pydict \<Rightarrow> pydict outcome" where
  "update_pair item d =
     (case item of
        PStr s \<Rightarrow> (case s of [a, b] \<Rightarrow> Ret (AList.update [a] (PStr [b]) d) | _ \<Rightarrow> Raise ValueError)
      | _ \<Rightarrow> Raise TypeError)"

definition update_from :: "pyval \<Rightarrow> pydict \<Rightarrow> pydict outcome" where
  "update_from v d =
     (case v of
        PDict e \<Rightarrow> Ret (dict_update d e)
      | _ \<Rightarrow> obind (py_iter v) (\<lambda>xs. ofold update_pair xs d))"

definition names_unique_error :: exn where
  "names_unique_error = filter_error ''haproxy service names should be unique''"

definition known_name :: "pydict \<Rightarrow> pyval \<Rightarrow> bool" where
  "known_name d x = (case x of PStr k \<Rightarrow> has_key d k | _ \<Rightarrow> False)"

definition extract_haproxy_step :: "jinja_context \<Rightarrow> pydict \<Rightarrow> string \<Rightarrow> pydict \<Rightarrow> pydict outcome" where
  "extract_haproxy_step ctx services key haproxy =
     (let service = dget services key in
      obind (service_enabled ctx service) (\<lambda>enabled.
        if \<not> enabled then Ret haproxy
        else obind (py_get service ''haproxy'') (\<lambda>service_haproxy.
          if \<not> truthy service_haproxy then Ret haproxy
          else obind (py_set service_haproxy) (\<lambda>names.
            if list_ex (known_name haproxy) names then Raise names_unique_error
            else update_from service_haproxy haproxy))))"

definition extract_haproxy_services :: "jinja_context \<Rightarrow> pydict \<Rightarrow> pydict outcome" where
  "extract_haproxy_services ctx services = ofold (extract_haproxy_step ctx services) (map fst services) []"

subsection \<open>fluentd\<close>

definition basename :: "string \<Rightarrow> string" where
  "basename p = (case split_last CHR ''/'' p of None \<Rightarrow> p | Some (_, b) \<Rightarrow> b)"

text \<open>\<open>os.path.splitext(b)[0]\<close> of a name without a slash: leading dots start no extension.\<close>

definition split_root :: "string \<Rightarrow> string" where
  "split_root b =
     (case split_last CHR ''.'' b of
        None \<Rightarrow> b
      | Some (a, _) \<Rightarrow> if list_ex (\<lambda>c. c \<noteq> CHR ''.'') a then a else b)"

definition basename_no_ext :: "string \<Rightarrow> string" where
  "basename_no_ext p = split_root (basename p)"

definition customise_fluentd :: "(string list \<Rightarrow> string list) \<Rightarrow> string list \<Rightarrow> string list \<Rightarrow> string list" where
  "customise_fluentd set_order default_paths customised_paths =
     (let customised_file_names = map basename customised_paths;
          result = filter (\<lambda>f. basename_no_ext f \<notin> set customised_file_names) default_paths
      in sort_key (\<lambda>p. Key (basename p)) (set_order (remdups (result @ customised_paths))))"

subsection \<open>nova cells\<close>

definition namespace_name :: "string \<Rightarrow> string \<Rightarrow> string" where
  "namespace_name cell_name name = (if cell_name \<noteq> [] then name @ ''_'' @ cell_name else name)"

definition rename_keys :: "string \<Rightarrow> pydict \<Rightarrow> pydict" where
  "rename_keys cell_name d = fold (\<lambda>(k, v) acc. AList.update (namespace_name cell_name k) v acc) d []"

text \<open>The haproxy entries of a service that has any; they must be a dictionary.\<close>

definition namespace_service :: "string \<Rightarrow> pyval \<Rightarrow> pyval outcome" where
  "namespace_service cell_name service =
     obind (py_get service ''haproxy'') (\<lambda>h.
       if \<not> truthy h then Ret service
       else case (service, h) of
         (PDict s, PDict d) \<Rightarrow> Ret (PDict (AList.update ''haproxy'' (PDict (rename_keys cell_name d)) s))
       | _ \<Rightarrow> Raise TypeError)"

text \<open>
  The services are updated in place: besides the renamed dictionary, the result holds the caller's
  one as it is afterwards. (The service definitions are separate objects.)
\<close>

definition namespace_haproxy_for_cell :: "pydict \<Rightarrow> string \<Rightarrow> (pydict \<times> pydict) outcome" where
  "namespace_haproxy_for_cell services cell_name =
     obind (omap (\<lambda>(name, s). obind (namespace_service cell_name s) (\<lambda>s'. Ret (name, s'))) services)
       (\<lambda>updated. Ret (rename_keys cell_name updated, updated))"

section \<open>Selection\<close>

lemma obind_if: "obind m (\<lambda>b. if b then f else g) = Ret r \<longleftrightarrow> (m = Ret True \<and> f = Ret r \<or> m = Ret False \<and> g = Ret r)"
  by (cases m) (auto split: if_splits)

lemma select_fold:
  "distinct (map fst (acc @ services)) \<Longrightarrow>
    ofold (\<lambda>(name, service) acc.
       obind (service_enabled_and_mapped_to_host ctx service) (\<lambda>b.
         Ret (if b then AList.update name service acc else acc))) services acc = Ret r
    \<longleftrightarrow> (\<forall>kv \<in> set services. \<exists>b. service_enabled_and_mapped_to_host ctx (snd kv) = Ret b)
      \<and> r = acc @ filter (\<lambda>kv. service_enabled_and_mapped_to_host ctx (snd kv) = Ret True) services"
proof (induction services arbitrary: acc)
  case Nil
  then show ?case by auto
next
  case (Cons kv services)
  obtain k v where kv: "kv = (k, v)" by (cases kv)
  have fresh: "AList.update k v acc = acc @ [(k, v)]" using Cons.prems by (intro update_fresh) (auto simp: kv)
  show ?case
    using Cons.IH [of acc] Cons.IH [of "acc @ [(k, v)]"] Cons.prems
    by (cases "service_enabled_and_mapped_to_host ctx v") (auto simp: kv fresh)
qed

text \<open>
  The documented meaning of a definition. \<open>runs_here\<close>: it is enabled, and its \<open>host_in_groups\<close> holds or,
  when it has none, its group is \<open>all\<close> or one of the host's. \<open>complete\<close>: it says so much that this can be
  told: whether it is enabled and, only if it is, one of the two.
\<close>

definition runs_here :: "jinja_context \<Rightarrow> string list \<Rightarrow> pydict \<Rightarrow> bool" where
  "runs_here ctx groups s \<longleftrightarrow>
     bool_filter ctx (dget s ''enabled'') = Ret True
     \<and> (if dget s ''host_in_groups'' \<noteq> PNone then bool_filter ctx (dget s ''host_in_groups'') = Ret True
        else \<exists>g. dget s ''group'' = PStr g \<and> (g = ''all'' \<or> g \<in> set groups))"

definition complete :: "jinja_context \<Rightarrow> pydict \<Rightarrow> bool" where
  "complete ctx s \<longleftrightarrow>
     dget s ''enabled'' \<noteq> PNone \<and> returns (bool_filter ctx (dget s ''enabled''))
     \<and> (bool_filter ctx (dget s ''enabled'') = Ret True \<longrightarrow>
          (if dget s ''host_in_groups'' \<noteq> PNone then returns (bool_filter ctx (dget s ''host_in_groups''))
           else dget s ''group'' \<noteq> PNone))"

text \<open>What the filter says of a definition that lacks an attribute.\<close>

definition lacking :: "pydict \<Rightarrow> string \<Rightarrow> exn" where
  "lacking s what = filter_error (''Service definition for '' @ [CHR 0x27] @ py_str (dget_or s ''container_name'' (PStr ''<unknown>''))
     @ [CHR 0x27] @ '' does not have '' @ what @ '' attribute'')"

definition quoted_attribute :: "string \<Rightarrow> string" where
  "quoted_attribute a = [CHR 0x27] @ a @ [CHR 0x27]"

lemma enabled_cases:
  "service_enabled ctx (PDict s) =
    (if dget s ''enabled'' = PNone then Raise (lacking s (''an '' @ quoted_attribute ''enabled''))
     else bool_filter ctx (dget s ''enabled''))"
  by (simp add: service_enabled_def py_get_def container_name_text_def lacking_def quoted_attribute_def is_none_iff flip: dget_def)

lemma mapped_cases:
  assumes "map_of (context_vars ctx) ''group_names'' = Some (PList (map PStr groups))"
  shows "service_mapped_to_host ctx (PDict s) =
    (if dget s ''host_in_groups'' \<noteq> PNone then bool_filter ctx (dget s ''host_in_groups'')
     else if dget s ''group'' = PNone
     then Raise (lacking s (''a '' @ quoted_attribute ''group'' @ '' or '' @ quoted_attribute ''host_in_groups''))
     else Ret (\<exists>g. dget s ''group'' = PStr g \<and> (g = ''all'' \<or> g \<in> set groups)))"
proof -
  have "mem_eq x (map PStr groups) \<longleftrightarrow> (\<exists>g. x = PStr g \<and> g \<in> set groups)" for x
    by (auto simp: mem_eq_def list_ex_iff simp del: py_eq.simps)
  moreover have "dget (context_vars ctx) ''group_names'' = PList (map PStr groups)" using assms by (simp add: dget_def dget_or_def)
  ultimately show ?thesis
    by (auto simp: service_mapped_to_host_def py_get_def container_name_text_def lacking_def quoted_attribute_def is_none_iff
        simp del: py_eq.simps simp flip: dget_def)
qed

lemma service_verdict:
  assumes groups: "map_of (context_vars ctx) ''group_names'' = Some (PList (map PStr groups))"
  shows "complete ctx s \<Longrightarrow> service_enabled_and_mapped_to_host ctx (PDict s) = Ret (runs_here ctx groups s)"
    and "(\<exists>b. service_enabled_and_mapped_to_host ctx (PDict s) = Ret b) \<longleftrightarrow> complete ctx s"
proof -
  let ?v = "service_enabled_and_mapped_to_host ctx (PDict s)"
  have v: "?v = obind (service_enabled ctx (PDict s)) (\<lambda>b. if b then service_mapped_to_host ctx (PDict s) else Ret False)"
    by (simp add: service_enabled_and_mapped_to_host_def)
  have "(complete ctx s \<longrightarrow> ?v = Ret (runs_here ctx groups s)) \<and> (returns ?v \<longleftrightarrow> complete ctx s)"
  proof (cases "dget s ''enabled'' = PNone \<or> bool_filter ctx (dget s ''enabled'') \<noteq> Ret True")
    case True
    then show ?thesis
      by (cases "bool_filter ctx (dget s ''enabled'')") (auto simp: v enabled_cases runs_here_def complete_def)
  next
    case False
    then have "?v = service_mapped_to_host ctx (PDict s)" by (simp add: v enabled_cases)
    moreover have "complete ctx s \<longleftrightarrow> (if dget s ''host_in_groups'' \<noteq> PNone then returns (bool_filter ctx (dget s ''host_in_groups''))
        else dget s ''group'' \<noteq> PNone)"
      using False by (simp add: complete_def)
    ultimately show ?thesis
      using False mapped_cases [OF groups, of s]
      by (cases "bool_filter ctx (dget s ''host_in_groups'')") (auto simp: runs_here_def)
  qed
  then show "complete ctx s \<Longrightarrow> ?v = Ret (runs_here ctx groups s)" "(\<exists>b. ?v = Ret b) \<longleftrightarrow> complete ctx s"
    by (cases ?v; simp)+
qed

lemma select_stops:
  assumes groups: "map_of (context_vars ctx) ''group_names'' = Some (PList (map PStr groups))"
    and pre: "\<forall>(k, s) \<in> set pre. complete ctx s" and v: "service_enabled_and_mapped_to_host ctx (PDict s) = Raise e"
  shows "select_services_enabled_and_mapped_to_host ctx (map (apsnd PDict) (pre @ (k, s) # post)) = Raise e"
proof -
  let ?step = "\<lambda>(name, service) acc. obind (service_enabled_and_mapped_to_host ctx service) (\<lambda>b.
      Ret (if b then AList.update name service acc else acc))"
  have "\<exists>acc'. ofold ?step (map (apsnd PDict) pre) acc = Ret acc'" for acc
    using pre
  proof (induction pre arbitrary: acc)
    case (Cons ks pre)
    then have "service_enabled_and_mapped_to_host ctx (PDict (snd ks)) = Ret (runs_here ctx groups (snd ks))"
      by (auto simp: case_prod_beta intro: service_verdict(1) [OF groups])
    then show ?case using Cons by (simp add: case_prod_beta)
  qed simp
  then obtain acc' where "ofold ?step (map (apsnd PDict) pre) [] = Ret acc'" ..
  then show ?thesis using v by (simp add: select_services_enabled_and_mapped_to_host_def ofold_append)
qed

text \<open>C26: what the roles deploy on a host. For service definitions that are dictionaries, in a play whose
  hosts have groups, the filter returns if and only if every definition is complete, and then exactly the
  services that are enabled and meant for this host, with their definitions, in their order: when
  \<open>host_in_groups\<close> is given it alone decides, else the group, where \<open>all\<close> means every host. The first
  definition that does not say whether it is enabled, or that is enabled and says neither of the other
  two, ends it with the error that names the container and the attribute.\<close>

theorem select_services_correct:
  assumes wf: "wf_dict services" and dicts: "services = map (apsnd PDict) defs"
    and groups: "map_of (context_vars ctx) ''group_names'' = Some (PList (map PStr groups))"
  shows "(select_services_enabled_and_mapped_to_host ctx services = Ret r
      \<longleftrightarrow> (\<forall>(k, s) \<in> set defs. complete ctx s) \<and> r = map (apsnd PDict) (filter (\<lambda>(k, s). runs_here ctx groups s) defs))
    \<and> (\<forall>pre k s post. defs = pre @ (k, s) # post \<and> (\<forall>(k, s) \<in> set pre. complete ctx s) \<longrightarrow>
        (dget s ''enabled'' = PNone \<longrightarrow> select_services_enabled_and_mapped_to_host ctx services
           = Raise (lacking s (''an '' @ quoted_attribute ''enabled'')))
        \<and> (dget s ''enabled'' \<noteq> PNone \<and> bool_filter ctx (dget s ''enabled'') = Ret True
             \<and> dget s ''host_in_groups'' = PNone \<and> dget s ''group'' = PNone \<longrightarrow>
           select_services_enabled_and_mapped_to_host ctx services
             = Raise (lacking s (''a '' @ quoted_attribute ''group'' @ '' or '' @ quoted_attribute ''host_in_groups''))))"
proof -
  let ?v = "service_enabled_and_mapped_to_host ctx" and ?select = "select_services_enabled_and_mapped_to_host ctx services"
  have fold: "?select = Ret r \<longleftrightarrow> (\<forall>kv \<in> set services. \<exists>b. ?v (snd kv) = Ret b) \<and> r = filter (\<lambda>kv. ?v (snd kv) = Ret True) services"
    using select_fold [of "[]" services ctx r] wf by (simp add: select_services_enabled_and_mapped_to_host_def wf_dict_def)
  have all: "(\<forall>kv \<in> set services. \<exists>b. ?v (snd kv) = Ret b) \<longleftrightarrow> (\<forall>(k, s) \<in> set defs. complete ctx s)"
    by (auto simp: dicts service_verdict(2) [OF groups])
  have "filter (\<lambda>kv. ?v (snd kv) = Ret True) services = map (apsnd PDict) (filter (\<lambda>(k, s). runs_here ctx groups s) defs)"
    if complete: "\<forall>(k, s) \<in> set defs. complete ctx s"
  proof -
    have "?v (PDict s) = Ret True \<longleftrightarrow> runs_here ctx groups s" if "(k, s) \<in> set defs" for k s
      using service_verdict(1) [OF groups, of s] that complete by auto
    then show ?thesis unfolding dicts filter_map by (auto intro!: arg_cong [of _ _ "map (apsnd PDict)"] filter_cong)
  qed
  then have "?select = Ret r \<longleftrightarrow> (\<forall>(k, s) \<in> set defs. complete ctx s) \<and> r = map (apsnd PDict) (filter (\<lambda>(k, s). runs_here ctx groups s) defs)"
    using fold all by auto
  moreover have "?v (PDict s) = Raise (lacking s (''an '' @ quoted_attribute ''enabled''))" if "dget s ''enabled'' = PNone" for s
    using that by (simp add: service_enabled_and_mapped_to_host_def enabled_cases)
  moreover have "?v (PDict s) = Raise (lacking s (''a '' @ quoted_attribute ''group'' @ '' or '' @ quoted_attribute ''host_in_groups''))"
    if "dget s ''enabled'' \<noteq> PNone \<and> bool_filter ctx (dget s ''enabled'') = Ret True
             \<and> dget s ''host_in_groups'' = PNone \<and> dget s ''group'' = PNone" for s
    using that by (simp add: service_enabled_and_mapped_to_host_def enabled_cases mapped_cases [OF groups])
  ultimately show ?thesis using select_stops [OF groups] unfolding dicts by blast
qed

definition sample_to_bool :: "pyval \<Rightarrow> bool outcome" where
  "sample_to_bool v =
     Ret (case v of PBool b \<Rightarrow> b | PStr s \<Rightarrow> str_lower s \<in> {''yes'', ''on'', ''1'', ''true''} | _ \<Rightarrow> py_eq v (PInt 1))"

definition sample_context :: jinja_context where
  "sample_context = \<lparr>bool_filter = sample_to_bool, context_vars = [(''group_names'', PList [PStr ''control''])]\<rparr>"

definition sample_services :: pydict where
  "sample_services =
     [(''nova-api'', PDict [(''enabled'', PBool True), (''group'', PStr ''control''),
         (''haproxy'', PDict [(''nova_api'', PDict []), (''nova_api_external'', PDict [])])]),
      (''nova-compute'', PDict [(''enabled'', PStr ''yes''), (''group'', PStr ''compute'')]),
      (''nova-ssh'', PDict [(''enabled'', PStr ''no''), (''haproxy'', PDict [(''nova_ssh'', PDict [])])]),
      (''fluentd'', PDict [(''enabled'', PBool True), (''host_in_groups'', PBool True), (''group'', PStr ''none''),
         (''haproxy'', PDict [(''fluentd'', PDict [])])])]"

definition sample_defs :: "(string \<times> pydict) list" where
  "sample_defs = map (\<lambda>(k, v). (k, case v of PDict s \<Rightarrow> s | _ \<Rightarrow> [])) sample_services"

lemma select_services_correct_witness:
  "\<exists>r. select_services_enabled_and_mapped_to_host sample_context sample_services = Ret r
     \<and> map fst r = [''nova-api'', ''fluentd'']"
proof -
  have wf: "wf_dict sample_services" by code_simp
  have defs: "sample_services = map (apsnd PDict) sample_defs" by (simp add: sample_defs_def sample_services_def)
  have groups: "map_of (context_vars sample_context) ''group_names'' = Some (PList (map PStr [''control'']))"
    by (simp add: sample_context_def)
  have low: "str_lower ''yes'' = ''yes''" "str_lower ''no'' = ''no''" by code_simp+
  have "list_all (\<lambda>(k, s). complete sample_context s) sample_defs"
    by (simp add: sample_defs_def sample_services_def complete_def sample_context_def sample_to_bool_def dget_def dget_or_def returns_outcome low)
  then have "select_services_enabled_and_mapped_to_host sample_context sample_services
      = Ret (map (apsnd PDict) (filter (\<lambda>(k, s). runs_here sample_context [''control''] s) sample_defs))"
    using select_services_correct [OF wf defs groups] by (simp add: list_all_iff)
  moreover have "map fst (filter (\<lambda>(k, s). runs_here sample_context [''control''] s) sample_defs) = [''nova-api'', ''fluentd'']"
    by (simp add: sample_defs_def sample_services_def runs_here_def sample_context_def sample_to_bool_def dget_def dget_or_def low)
  ultimately show ?thesis by simp
qed

section \<open>haproxy entries\<close>

text \<open>The entries of one service, and of the enabled services in order.\<close>

definition haproxy_of :: "pyval \<Rightarrow> pydict" where
  "haproxy_of service = (case service of
     PDict s \<Rightarrow> (case map_of s ''haproxy'' of Some (PDict h) \<Rightarrow> h | _ \<Rightarrow> []) | _ \<Rightarrow> [])"

definition enabled_haproxy :: "jinja_context \<Rightarrow> pyval list \<Rightarrow> pydict" where
  "enabled_haproxy ctx services =
     concat (map haproxy_of (filter (\<lambda>s. service_enabled ctx s = Ret True) services))"

text \<open>A definition as the roles have them: it says whether it is enabled, its entries are a dictionary.\<close>

definition haproxy_ok :: "jinja_context \<Rightarrow> pyval \<Rightarrow> bool" where
  "haproxy_ok ctx service \<longleftrightarrow>
     (\<exists>b. service_enabled ctx service = Ret b)
     \<and> (\<exists>s. service = PDict s \<and> (case map_of s ''haproxy'' of
           None \<Rightarrow> True | Some (PDict h) \<Rightarrow> wf_dict h | Some v \<Rightarrow> \<not> truthy v))"

lemma known_names: "list_ex (known_name d) (map (\<lambda>kv. PStr (fst kv)) h) \<longleftrightarrow> fst ` set d \<inter> fst ` set h \<noteq> {}"
  by (force simp: list_ex_iff known_name_def has_key_def map_of_eq_None_iff)

lemma py_set_dict: "py_set (PDict h) = Ret (map (\<lambda>kv. PStr (fst kv)) h)"
  by (auto simp: py_set_def list_all_iff)

lemma haproxy_step_get:
  assumes "service_enabled ctx (PDict s) = Ret b" and "map_of services key = Some (PDict s)"
  shows "extract_haproxy_step ctx services key acc =
    (if \<not> b \<or> \<not> truthy (dget s ''haproxy'') then Ret acc
     else obind (py_set (dget s ''haproxy'')) (\<lambda>names.
       if list_ex (known_name acc) names then Raise names_unique_error
       else update_from (dget s ''haproxy'') acc))"
proof -
  have "py_get (PDict s) ''haproxy'' = Ret (dget s ''haproxy'')" by (simp add: py_get_def dget_def)
  moreover have "dget services key = PDict s" using assms(2) by (simp add: dget_def dget_or_def)
  ultimately show ?thesis using assms(1) by (simp add: extract_haproxy_step_def)
qed

lemma haproxy_step:
  assumes "haproxy_ok ctx service" and "map_of services key = Some service" and "wf_dict acc"
  shows "extract_haproxy_step ctx services key acc =
    (let new = (if service_enabled ctx service = Ret True then haproxy_of service else []) in
     if fst ` set acc \<inter> fst ` set new \<noteq> {} then Raise names_unique_error else Ret (acc @ new))"
proof -
  obtain b s where b: "service_enabled ctx (PDict s) = Ret b" and s: "service = PDict s"
    using assms(1) by (auto simp: haproxy_ok_def)
  note step = haproxy_step_get [OF b, of services key acc] assms(2) s
  have "\<not> truthy (dget s ''haproxy'') \<or> (\<exists>h. dget s ''haproxy'' = PDict h \<and> wf_dict h \<and> haproxy_of (PDict s) = h)"
    using assms(1) by (auto simp: haproxy_ok_def s dget_def dget_or_def haproxy_of_def split: option.splits pyval.splits)
  then consider (no) "\<not> truthy (dget s ''haproxy'')"
    | (dict) h where "dget s ''haproxy'' = PDict h" "h \<noteq> []" "wf_dict h" "haproxy_of (PDict s) = h"
    by fastforce
  then show ?thesis
  proof cases
    case no
    then have "haproxy_of (PDict s) = []"
      by (auto simp: dget_def dget_or_def haproxy_of_def split: option.splits pyval.splits)
    with no step b show ?thesis by simp
  next
    case (dict h)
    then have "fst ` set acc \<inter> fst ` set h = {} \<Longrightarrow> dict_update acc h = acc @ h"
      using assms(3) by (intro dict_update_fresh) (auto simp: wf_dict_def)
    with dict step b known_names [of acc h] show ?thesis
      by (cases b) (simp_all add: py_set_dict update_from_def)
  qed
qed

lemma haproxy_ok_wf: "haproxy_ok ctx s \<Longrightarrow> wf_dict (haproxy_of s)"
  by (cases s) (auto simp: haproxy_ok_def haproxy_of_def split: option.splits pyval.splits)

lemma haproxy_fold:
  "\<lbrakk>\<forall>k \<in> set ks. \<exists>s. map_of services k = Some s \<and> haproxy_ok ctx s; wf_dict acc\<rbrakk> \<Longrightarrow>
    ofold (extract_haproxy_step ctx services) ks acc =
      (let all = acc @ enabled_haproxy ctx (map (\<lambda>k. the (map_of services k)) ks) in
       if wf_dict all then Ret all else Raise names_unique_error)"
proof (induction ks arbitrary: acc)
  case Nil
  then show ?case by (simp add: enabled_haproxy_def)
next
  case (Cons k ks)
  then obtain s where s: "map_of services k = Some s" "haproxy_ok ctx s" by auto
  let ?new = "if service_enabled ctx s = Ret True then haproxy_of s else []"
  have new: "enabled_haproxy ctx (map (\<lambda>k. the (map_of services k)) (k # ks))
      = ?new @ enabled_haproxy ctx (map (\<lambda>k. the (map_of services k)) ks)"
    by (simp add: enabled_haproxy_def s(1))
  have wf_new: "wf_dict ?new"
    using haproxy_ok_wf [OF s(2)] by simp
  show ?case
  proof (cases "fst ` set acc \<inter> fst ` set ?new = {}")
    case True
    then have "wf_dict (acc @ ?new)" using Cons.prems(2) wf_new by (simp add: wf_dict_def)
    with Cons.IH [of "acc @ ?new"] Cons.prems True show ?thesis
      unfolding new by (simp add: haproxy_step [OF s(2,1) Cons.prems(2)] Let_def)
  next
    case False
    then have "\<not> wf_dict (acc @ ?new @ rest)" for rest by (auto simp: wf_dict_def)
    with False show ?thesis
      unfolding new by (simp add: haproxy_step [OF s(2,1) Cons.prems(2)] Let_def)
  qed
qed

text \<open>C27: the haproxy entries are exactly those of the enabled services, in the order of the services, and
  their names are unique: the filter fails if and only if a name occurs twice among the enabled
  services. A disabled service contributes no entry and no conflict. The definitions are well-formed
  (\<open>haproxy_ok\<close>): dictionaries that say whether they are enabled and whose haproxy entries, if any, are
  a dictionary without repeated keys.
\<close>

theorem extract_haproxy_correct:
  assumes "wf_dict services" and "\<forall>kv \<in> set services. haproxy_ok ctx (snd kv)"
  shows "extract_haproxy_services ctx services =
    (let all = enabled_haproxy ctx (map snd services) in
     if distinct (map fst all) then Ret all else Raise names_unique_error)"
proof -
  have look: "map_of services k = Some v" if "(k, v) \<in> set services" for k v
    using that assms(1) by (simp add: map_of_in_wf)
  have "\<forall>k \<in> set (map fst services). \<exists>s. map_of services k = Some s \<and> haproxy_ok ctx s"
    using assms(2) look by fastforce
  moreover have "map (\<lambda>k. the (map_of services k)) (map fst services) = map snd services"
    using look by (auto simp: map_eq_conv)
  moreover note wf_dict_Nil
  ultimately show ?thesis
    using haproxy_fold [of "map fst services" services ctx "[]"]
    unfolding extract_haproxy_services_def by (simp only: wf_dict_def append_Nil)
qed

lemma extract_haproxy_correct_witness:
  "\<exists>r. extract_haproxy_services sample_context sample_services = Ret r
     \<and> map fst r = [''nova_api'', ''nova_api_external'', ''fluentd'']"
proof -
  have "wf_dict sample_services" by code_simp
  moreover have "\<forall>kv \<in> set sample_services. haproxy_ok sample_context (snd kv)"
    by (simp add: sample_services_def haproxy_ok_def service_enabled_def sample_context_def sample_to_bool_def
        py_get_def dget_or_def ex_bool_eq) blast
  moreover have "map fst (enabled_haproxy sample_context (map snd sample_services))
      = [''nova_api'', ''nova_api_external'', ''fluentd'']" by code_simp
  ultimately show ?thesis
    using extract_haproxy_correct [of sample_services sample_context] by (simp add: Let_def)
qed

section \<open>fluentd templates\<close>

lemma mset_orders: "mset (set_order xs) = mset xs \<Longrightarrow> set (set_order xs) = set xs \<and> (distinct (set_order xs) \<longleftrightarrow> distinct xs)"
  by (metis mset_eq_setD mset_eq_imp_distinct_iff)

lemma sorted_by_distinct_keys:
  assumes "set xs = set ys" and "distinct xs" and "distinct ys" and "inj_on f (set xs)"
    and "sorted (map f xs)" and "sorted (map f ys)"
  shows "xs = ys"
proof -
  have "map f xs = map f ys"
    using assms by (intro sorted_distinct_set_unique) (simp_all add: distinct_map)
  then show ?thesis using assms(1,4) by (simp add: inj_on_map_eq_map)
qed

text \<open>the fluentd templates. Whatever the iteration order of sets, the result has every customised path
  and exactly the default paths that no customised file name overrides (the default's \<open>.j2\<close> ignored),
  each once, sorted by file name. If the file names differ the order is determined; two paths with the
  same file name come in the order in which the set happens to be iterated.
\<close>

theorem customise_fluentd_correct:
  assumes "\<And>xs. mset (set_order xs) = mset xs"
  shows "set (customise_fluentd set_order defaults custom)
      = {f \<in> set defaults. basename_no_ext f \<notin> basename ` set custom} \<union> set custom
    \<and> distinct (customise_fluentd set_order defaults custom)
    \<and> sorted (map (\<lambda>p. Key (basename p)) (customise_fluentd set_order defaults custom))
    \<and> (inj_on basename (set (customise_fluentd set_order defaults custom)) \<longrightarrow>
        customise_fluentd set_order defaults custom = customise_fluentd (\<lambda>xs. xs) defaults custom)
    \<and> customise_fluentd (\<lambda>xs. xs) [] [''a/x.conf'', ''b/x.conf''] \<noteq> customise_fluentd rev [] [''a/x.conf'', ''b/x.conf'']"
    (is "?set \<and> ?distinct \<and> ?sorted \<and> ?unique \<and> ?differ")
proof -
  let ?xs = "remdups (filter (\<lambda>f. basename_no_ext f \<notin> set (map basename custom)) defaults @ custom)"
  have fold: "customise_fluentd ord defaults custom = sort_key (\<lambda>p. Key (basename p)) (ord ?xs)" for ord
    by (simp add: customise_fluentd_def Let_def)
  have ord: "set (set_order ?xs) = set ?xs" "distinct (set_order ?xs)"
    using mset_orders [of set_order ?xs] assms [of ?xs] by simp_all
  have 1: ?set using ord by (auto simp: fold)
  have 2: ?distinct using ord by (simp add: fold)
  have 3: ?sorted by (simp add: fold)
  have 4: ?unique
  proof
    assume inj: "inj_on basename (set (customise_fluentd set_order defaults custom))"
    show "customise_fluentd set_order defaults custom = customise_fluentd (\<lambda>xs. xs) defaults custom"
    proof (rule sorted_by_distinct_keys)
      show "inj_on (\<lambda>p. Key (basename p)) (set (customise_fluentd set_order defaults custom))"
        using inj by (auto simp: inj_on_def)
    qed (use 2 3 ord(1) in \<open>simp_all add: fold\<close>)
  qed
  have 5: ?differ by code_simp
  from 1 2 3 4 5 show ?thesis by blast
qed

lemma customise_fluentd_correct_witness:
  "customise_fluentd rev [''foo/bar.conf.j2'', ''baz/qux.conf.j2''] [''baz/bar.conf''] = [''baz/bar.conf'', ''baz/qux.conf.j2'']"
proof -
  have "inj_on basename (set (customise_fluentd rev [''foo/bar.conf.j2'', ''baz/qux.conf.j2''] [''baz/bar.conf'']))"
    by code_simp
  moreover have "customise_fluentd (\<lambda>xs. xs) [''foo/bar.conf.j2'', ''baz/qux.conf.j2''] [''baz/bar.conf'']
      = [''baz/bar.conf'', ''baz/qux.conf.j2'']" by code_simp
  ultimately show ?thesis
    using customise_fluentd_correct [of rev "[''foo/bar.conf.j2'', ''baz/qux.conf.j2'']" "[''baz/bar.conf'']"]
    by (simp only: mset_rev simp_thms)
qed

section \<open>Cells\<close>

lemma namespace_inject: "namespace_name c a = namespace_name c b \<longleftrightarrow> a = b"
  by (simp add: namespace_name_def)

lemma rename_keys_map: "wf_dict d \<Longrightarrow> rename_keys c d = map (\<lambda>(k, v). (namespace_name c k, v)) d"
proof -
  have "distinct (map fst (acc @ map (\<lambda>(k, v). (namespace_name c k, v)) d)) \<Longrightarrow>
    fold (\<lambda>(k, v) acc. AList.update (namespace_name c k) v acc) d acc = acc @ map (\<lambda>(k, v). (namespace_name c k, v)) d" for acc
  proof (induction d arbitrary: acc)
    case (Cons kv d)
    obtain k v where kv: "kv = (k, v)" by (cases kv)
    with Cons.prems have "AList.update (namespace_name c k) v acc = acc @ [(namespace_name c k, v)]"
      by (intro update_fresh) auto
    with Cons.IH [of "acc @ [(namespace_name c k, v)]"] Cons.prems show ?case by (simp add: kv)
  qed simp
  moreover have "distinct (map fst (map (\<lambda>(k, v). (namespace_name c k, v)) d)) \<longleftrightarrow> wf_dict d"
    by (induction d) (auto simp: namespace_inject image_iff wf_dict_def split: prod.splits)
  ultimately show "wf_dict d \<Longrightarrow> ?thesis" by (simp add: rename_keys_def)
qed

text \<open>What a service becomes: its haproxy entries keep their order and their values under the new names.\<close>

definition namespaced :: "string \<Rightarrow> pyval \<Rightarrow> pyval \<Rightarrow> bool" where
  "namespaced c s t \<longleftrightarrow>
     (\<exists>d. s = PDict d \<and>
       (case dget d ''haproxy'' of
          PDict h \<Rightarrow> t = (if h = [] then s else
            PDict (AList.update ''haproxy'' (PDict (map (\<lambda>(k, v). (namespace_name c k, v)) h)) d))
        | v \<Rightarrow> \<not> truthy v \<and> t = s))"

lemma namespace_service_namespaced:
  assumes "namespace_service c s = Ret t" and "wf_val s"
  shows "namespaced c s t"
proof -
  from assms(1) obtain d where d: "s = PDict d"
    by (cases s) (auto simp: namespace_service_def py_get_def)
  have "dget d ''haproxy'' = PDict h \<Longrightarrow> wf_dict h" for h
    using assms(2) map_of_SomeD [of d "''haproxy''" "PDict h"]
    by (fastforce simp: d dget_def dget_or_def split: option.splits)
  with assms(1) show ?thesis
    by (auto simp: namespaced_def d namespace_service_def py_get_def simp flip: dget_def
        split: pyval.splits if_splits simp: rename_keys_map)
qed

text \<open>
  The namespacing is injective and loses nothing: the services of a cell come in the same order under
  the namespaced names, their haproxy entries too, everything else of a service is unchanged, and with
  the empty cell name the services stay as they are. The caller's own definitions are changed with them.
\<close>

lemma namespace_haproxy_correct:
  assumes "namespace_haproxy_for_cell services cell = Ret (renamed, caller)"
    and "wf_dict services" and "\<forall>kv \<in> set services. wf_val (snd kv)"
  shows "renamed = map (\<lambda>(name, s). (namespace_name cell name, s)) caller \<and> wf_dict renamed
    \<and> list_all2 (\<lambda>old new. fst new = fst old \<and> namespaced cell (snd old) (snd new)) services caller"
proof -
  from assms(1) have run: "omap (\<lambda>(name, s). obind (namespace_service cell s) (\<lambda>s'. Ret (name, s'))) services = Ret caller"
    and renamed: "renamed = rename_keys cell caller"
    by (auto simp: namespace_haproxy_for_cell_def)
  have all: "list_all2 (\<lambda>old new. fst new = fst old \<and> namespaced cell (snd old) (snd new)) services caller"
    using run assms(3)
    by (induction services arbitrary: caller) (auto dest: namespace_service_namespaced)
  then have "map fst caller = map fst services" by (induction rule: list_all2_induct) auto
  then have "wf_dict caller" using assms(2) by (simp add: wf_dict_def)
  moreover have "wf_dict (map (\<lambda>(k, v). (namespace_name cell k, v)) d) \<longleftrightarrow> wf_dict d" for d :: pydict
    by (induction d) (auto simp: namespace_inject image_iff wf_dict_def split: prod.splits)
  ultimately show ?thesis using all by (simp add: renamed rename_keys_map)
qed

end
