(* ===== verification/Ip_Address.thy ===== *)
theory Ip_Address
  imports Py_Strings "HOL-Library.Word"
begin

text \<open>
  What the filters use of Python's \<open>ipaddress\<close> module: parsing an address and the exploded form of an
  IPv6 address. An IPv4 address is a \<open>32 word\<close>, an IPv6 address the list of its eight groups, each a
  \<open>16 word\<close>. Scoped addresses (with a percent sign) are refused: their exploded form raises
  \<open>AddressValueError\<close>.
\<close>

section \<open>Hexadecimal numbers\<close>

definition lower_hex :: "nat \<Rightarrow> char" where
  "lower_hex n = (if n < 10 then char_of (48 + n) else char_of (87 + n))"

definition hex_digit_val :: "char \<Rightarrow> nat option" where
  "hex_digit_val c =
     (let n = code_of c in
      if 48 \<le> n \<and> n \<le> 57 then Some (n - 48)
      else if 97 \<le> n \<and> n \<le> 102 then Some (n - 87)
      else if 65 \<le> n \<and> n \<le> 70 then Some (n - 55)
      else None)"

text \<open>\<open>'%x' % n\<close>.\<close>

fun hex_str :: "nat \<Rightarrow> string" where
  "hex_str n = (if n < 16 then [lower_hex n] else hex_str (n div 16) @ [lower_hex (n mod 16)])"

declare hex_str.simps [simp del]

text \<open>\<open>int(s, 16)\<close> of a string of hexadecimal digits.\<close>

fun hex_val :: "nat \<Rightarrow> string \<Rightarrow> nat option" where
  "hex_val acc [] = Some acc"
| "hex_val acc (c # cs) = (case hex_digit_val c of None \<Rightarrow> None | Some d \<Rightarrow> hex_val (acc * 16 + d) cs)"

definition hex_of_str :: "string \<Rightarrow> nat option" where
  "hex_of_str s = (if s = [] then None else hex_val 0 s)"

text \<open>\<open>'%04x' % n\<close>.\<close>

definition hex4 :: "nat \<Rightarrow> string" where
  "hex4 n = replicate (4 - length (hex_str n)) CHR ''0'' @ hex_str n"

section \<open>IPv4\<close>

definition parse_octet :: "string \<Rightarrow> nat option" where
  "parse_octet s =
     (if s = [] \<or> \<not> list_all is_decimal s \<or> length s > 3 \<or> (s \<noteq> ''0'' \<and> hd s = CHR ''0'') then None
      else case digits_val 0 s of
        None \<Rightarrow> None
      | Some n \<Rightarrow> if n > 255 then None else Some n)"

definition parse_ipv4 :: "string \<Rightarrow> 32 word option" where
  "parse_ipv4 s =
     (case map parse_octet (split_char CHR ''.'' s) of
        [Some a, Some b, Some c, Some d] \<Rightarrow> Some (of_nat (((a * 256 + b) * 256 + c) * 256 + d))
      | _ \<Rightarrow> None)"

section \<open>IPv6\<close>

definition parse_hextet :: "string \<Rightarrow> 16 word option" where
  "parse_hextet s = (if length s > 4 then None else map_option of_nat (hex_of_str s))"

fun all_some :: "'a option list \<Rightarrow> 'a list option" where
  "all_some [] = Some []"
| "all_some (x # xs) = (case (x, all_some xs) of (Some y, Some ys) \<Rightarrow> Some (y # ys) | _ \<Rightarrow> None)"

text \<open>A trailing IPv4 part stands for two groups.\<close>

definition expand_ipv4_part :: "string list \<Rightarrow> string list option" where
  "expand_ipv4_part parts =
     (if CHR ''.'' \<in> set (last parts)
      then case parse_ipv4 (last parts) of
             None \<Rightarrow> None
           | Some w \<Rightarrow> Some (butlast parts @ [hex_str (unat w div 65536), hex_str (unat w mod 65536)])
      else Some parts)"

text \<open>The positions of the empty parts inside: the place of the double colon.\<close>

definition inner_empty :: "string list \<Rightarrow> nat list" where
  "inner_empty parts = filter (\<lambda>i. parts ! i = []) [1 ..< length parts - 1]"

text \<open>The numbers of parts before and after the double colon, and of the groups it stands for.\<close>

definition ipv6_layout :: "string list \<Rightarrow> (nat \<times> nat \<times> nat) option" where
  "ipv6_layout parts =
     (let n = length parts in
      case inner_empty parts of
        [] \<Rightarrow> if n \<noteq> 8 \<or> hd parts = [] \<or> last parts = [] then None else Some (n, 0, 0)
      | [i] \<Rightarrow>
          (let hi = (if hd parts = [] then i - 1 else i);
               lo = (if last parts = [] then n - i - 2 else n - i - 1)
           in if hd parts = [] \<and> hi \<noteq> 0 \<or> last parts = [] \<and> lo \<noteq> 0 \<or> hi + lo \<ge> 8 then None
              else Some (hi, 8 - (hi + lo), lo))
      | _ \<Rightarrow> None)"

definition parse_ipv6 :: "string \<Rightarrow> 16 word list option" where
  "parse_ipv6 s =
     (let parts0 = split_char CHR '':'' s in
      if length parts0 < 3 then None
      else case expand_ipv4_part parts0 of
        None \<Rightarrow> None
      | Some parts \<Rightarrow>
          if length parts > 9 then None
          else case ipv6_layout parts of
            None \<Rightarrow> None
          | Some (hi, skipped, lo) \<Rightarrow>
              (case (all_some (map parse_hextet (take hi parts)),
                     all_some (map parse_hextet (drop (length parts - lo) parts))) of
                 (Some xs, Some ys) \<Rightarrow> Some (xs @ replicate skipped 0 @ ys)
               | _ \<Rightarrow> None))"

datatype ip_addr = IPv4 "32 word" | IPv6 "16 word list"

definition ip_address :: "string \<Rightarrow> ip_addr option" where
  "ip_address s =
     (case parse_ipv4 s of
        Some w \<Rightarrow> Some (IPv4 w)
      | None \<Rightarrow> map_option IPv6 (parse_ipv6 s))"

definition exploded :: "16 word list \<Rightarrow> string" where
  "exploded gs = join_with '':'' (map (\<lambda>g. hex4 (unat g)) gs)"

section \<open>Printing and parsing\<close>

lemma code_of_lower_hex: "n < 16 \<Longrightarrow> code_of (lower_hex n) = (if n < 10 then 48 + n else 87 + n)"
  by (simp add: code_of_def lower_hex_def)

lemma hex_digit_lower [simp]: "n < 16 \<Longrightarrow> hex_digit_val (lower_hex n) = Some n"
  by (simp add: hex_digit_val_def code_of_lower_hex)

lemma hex_val_append: "hex_val acc xs = Some m \<Longrightarrow> hex_val acc (xs @ ys) = hex_val m ys"
  by (induction acc xs rule: hex_val.induct) (auto split: option.splits)

lemma hex_val_str: "hex_val 0 (hex_str n) = Some n"
proof (induction n rule: hex_str.induct)
  case (1 n)
  show ?case
  proof (cases "n < 16")
    case False
    with 1 hex_val_append show ?thesis by (subst hex_str.simps) (simp add: hex_val_append)
  qed (subst hex_str.simps, simp)
qed

lemma hex_str_ne [simp]: "hex_str n \<noteq> []"
  by (subst hex_str.simps) simp

lemma hex_str_set: "set (hex_str n) \<subseteq> lower_hex ` {..<16}"
proof (induction n rule: hex_str.induct)
  case (1 n)
  then show ?case by (subst hex_str.simps) auto
qed

lemma hex_str_chars: "c \<in> set (hex_str n) \<Longrightarrow> \<exists>d < 16. c = lower_hex d"
  using hex_str_set [of n] by auto

lemma lower_hex_neq: "d < 16 \<Longrightarrow> lower_hex d \<noteq> CHR '':'' \<and> lower_hex d \<noteq> CHR ''.'' \<and> lower_hex d \<noteq> CHR 0x25"
proof -
  assume "d < 16"
  then have "code_of (lower_hex d) \<notin> {58, 46, 37}" by (auto simp: code_of_lower_hex)
  moreover have "code_of CHR '':'' = 58" "code_of CHR ''.'' = 46" "code_of CHR 0x25 = 37" by (simp_all add: code_of_def)
  ultimately show ?thesis by (metis insertCI)
qed

lemma hex_of_str_hex_str [simp]: "hex_of_str (hex_str n) = Some n"
  by (simp add: hex_of_str_def hex_val_str)

lemma length_hex_str: "n < 16 ^ k \<Longrightarrow> 0 < k \<Longrightarrow> length (hex_str n) \<le> k"
proof (induction k arbitrary: n)
  case (Suc k)
  show ?case
  proof (cases "n < 16")
    case True
    then show ?thesis by (subst hex_str.simps) simp
  next
    case False
    with Suc.prems(1) have "n div 16 < 16 ^ k" "0 < k" by (auto simp: less_mult_imp_div_less mult.commute intro!: gr0I)
    with Suc.IH False show ?thesis by (subst hex_str.simps) simp
  qed
qed simp

lemma hex_str_free: "CHR '':'' \<notin> set (hex_str n)" "CHR ''.'' \<notin> set (hex_str n)"
  using hex_str_chars [of _ n] lower_hex_neq by fastforce+

lemma hex4_free: "CHR '':'' \<notin> set (hex4 n)" "CHR ''.'' \<notin> set (hex4 n)" "hex4 n \<noteq> []"
  using hex_str_free [of n] by (auto simp: hex4_def)

lemma hex_val_zeros: "hex_val 0 (replicate k CHR ''0'' @ s) = hex_val 0 s"
proof (induction k)
  case (Suc k)
  have "hex_digit_val CHR ''0'' = Some 0" by (simp add: hex_digit_val_def code_of_def)
  with Suc show ?case by simp
qed simp

lemma hex_of_str_hex4 [simp]: "hex_of_str (hex4 n) = Some n"
  by (simp add: hex_of_str_def hex4_def hex_val_zeros hex_val_str)

lemma length_hex4: "n < 65536 \<Longrightarrow> length (hex4 n) = 4"
  using length_hex_str [of n 4] by (simp add: hex4_def)

lemma group_less: "unat g < 65536" for g :: "16 word"
proof -
  have "unat g < 2 ^ LENGTH(16)" by (rule unsigned_less)
  then show ?thesis by simp
qed

lemma parse_hextet_hex4 [simp]: "parse_hextet (hex4 (unat g)) = Some g" for g :: "16 word"
proof -
  show ?thesis using group_less [of g] by (simp add: parse_hextet_def length_hex4)
qed

lemma parse_hextet_hex_str [simp]: "parse_hextet (hex_str (unat g)) = Some g" for g :: "16 word"
proof -
  have "length (hex_str (unat g)) \<le> 4" using length_hex_str [of "unat g" 4] group_less [of g] by simp
  then show ?thesis by (simp add: parse_hextet_def)
qed

lemma all_some_map: "all_some (map (\<lambda>x. Some (f x)) xs) = Some (map f xs)"
  by (induction xs) auto

lemma all_some_length: "all_some xs = Some ys \<Longrightarrow> length ys = length xs"
  by (induction xs arbitrary: ys) (auto split: option.splits)

lemma parse_ipv6_full:
  assumes "length gs = 8" and "\<forall>g. text g \<noteq> [] \<and> CHR '':'' \<notin> set (text g) \<and> CHR ''.'' \<notin> set (text g)"
    and "\<forall>g. parse_hextet (text g) = Some g"
  shows "parse_ipv6 (join_with '':'' (map text gs)) = Some gs"
proof -
  let ?ps = "map text gs"
  have gs: "gs \<noteq> []" using assms(1) by auto
  have split: "split_char CHR '':'' (join_with '':'' ?ps) = ?ps"
    using assms(2) gs by (intro split_join) auto
  have "inner_empty ?ps = []"
    using assms(1,2) by (auto simp: inner_empty_def filter_empty_conv)
  then have layout: "ipv6_layout ?ps = Some (8, 0, 0)"
    using assms(1,2) gs by (simp add: ipv6_layout_def hd_map last_map)
  have expand: "expand_ipv4_part ?ps = Some ?ps"
    using assms(2) gs by (simp add: expand_ipv4_part_def last_map)
  have "all_some (map parse_hextet ?ps) = Some gs"
    using assms(3) all_some_map [of "\<lambda>g. g" gs] by (simp add: comp_def)
  then show ?thesis
    using assms(1) by (simp add: parse_ipv6_def split expand layout)
qed

text \<open>Printing an address and parsing it gives the address, in the exploded and in the short form of the groups.\<close>

lemma parse_exploded:
  assumes "length gs = 8"
  shows "parse_ipv6 (exploded gs) = Some gs"
    and "parse_ipv6 (join_with '':'' (map (\<lambda>g. hex_str (unat g)) gs)) = Some gs"
  using assms by (auto simp: exploded_def hex4_free hex_str_free intro!: parse_ipv6_full)

lemma parse_ipv6_length:
  assumes "parse_ipv6 s = Some gs"
  shows "length gs = 8"
proof -
  from assms obtain parts hi k lo xs ys where
    layout: "ipv6_layout parts = Some (hi, k, lo)" and xs: "all_some (map parse_hextet (take hi parts)) = Some xs"
    and ys: "all_some (map parse_hextet (drop (length parts - lo) parts)) = Some ys" and gs: "gs = xs @ replicate k 0 @ ys"
    by (auto simp: parse_ipv6_def Let_def split: option.splits if_splits prod.splits)
  have i: "inner_empty parts = [i] \<Longrightarrow> 1 \<le> i \<and> i < length parts - 1" for i
  proof -
    assume "inner_empty parts = [i]"
    then have "i \<in> set (inner_empty parts)" by simp
    then show ?thesis by (auto simp: inner_empty_def)
  qed
  have "hi + k + lo = 8 \<and> hi \<le> length parts \<and> lo \<le> length parts"
    using layout i by (auto simp: ipv6_layout_def Let_def split: list.splits if_splits)
  with all_some_length [OF xs] all_some_length [OF ys] show ?thesis by (simp add: gs)
qed

end
