(* ===== verification/Address_Filters.thy ===== *)
theory Address_Filters
  imports Service_Filters Ip_Address
begin

text \<open>
  The filters that compute addresses: \<open>kolla_ansible/put_address_in_context.py\<close>,
  \<open>kolla_ansible/kolla_url.py\<close>, \<open>kolla_ansible/kolla_address.py\<close> and \<open>kolla_ansible/database_shards.py\<close>. The
  variables of the Jinja context, the host variables and the \<open>bool\<close> filter are fields of the context
  record; a variable of the context may be Jinja's \<open>Undefined\<close>.
\<close>

section \<open>Addresses in context\<close>

definition quoted :: "string \<Rightarrow> string" where
  "quoted s = [CHR 0x27] @ s @ [CHR 0x27]"

text \<open>\<open>'16#%x' % int(x, 16)\<close>.\<close>

definition erlang_group :: "string \<Rightarrow> string outcome" where
  "erlang_group x =
     (case hex_of_str x of None \<Rightarrow> Raise ValueError | Some n \<Rightarrow> Ret (''16#'' @ hex_str n))"

definition rabbitmq_address :: "string \<Rightarrow> string outcome" where
  "rabbitmq_address address =
     (case ip_address address of
        None \<Rightarrow> Raise ValueError
      | Some (IPv6 gs) \<Rightarrow>
          obind (omap erlang_group (split_char CHR '':'' (exploded gs))) (\<lambda>xs. Ret (join_with '','' xs))
      | Some (IPv4 w) \<Rightarrow> Ret (replace_char CHR ''.'' CHR '','' address))"

definition put_address_in_context :: "string \<Rightarrow> string \<Rightarrow> string outcome" where
  "put_address_in_context address ctx =
     (if ctx \<notin> {''url'', ''memcache'', ''rabbitmq''}
      then Raise (filter_error (''Unknown context '' @ quoted ctx))
      else if CHR '':'' \<notin> set address \<and> ctx \<noteq> ''rabbitmq'' then Ret address
      else if ctx = ''url'' then Ret (''['' @ address @ '']'')
      else if ctx = ''memcache'' then Ret (''inet6:['' @ address @ '']'')
      else rabbitmq_address address)"

section \<open>URLs\<close>

definition kolla_url :: "string \<Rightarrow> string \<Rightarrow> pyval \<Rightarrow> string \<Rightarrow> string \<Rightarrow> string outcome" where
  "kolla_url fqdn protocol port path ctx =
     obind (put_address_in_context fqdn ctx) (\<lambda>host.
     obind (py_int port) (\<lambda>p.
       if protocol = ''http'' \<and> p = 80 \<or> protocol = ''https'' \<and> p = 443
          \<or> protocol = ''ws'' \<and> p = 80 \<or> protocol = ''wss'' \<and> p = 443
       then Ret (protocol @ ''://'' @ host @ path)
       else Ret (protocol @ ''://'' @ host @ '':'' @ int_str p @ path)))"

section \<open>The address of a host\<close>

text \<open>A variable looked up in the context or in \<open>hostvars\<close>.\<close>

datatype jinja_var = Undefined | Defined pyval

datatype hostvars_var = HvUndefined | HvNone | HostVars "string \<Rightarrow> jinja_var"

record host_context =
  hc_bool :: "pyval \<Rightarrow> bool outcome"
  hc_inventory_hostname :: "string option"  \<comment> \<open>\<open>None\<close>: undefined\<close>
  hc_hostvars :: hostvars_var

definition unavailable :: "string \<Rightarrow> 'a outcome" where
  "unavailable v = Raise (filter_error (quoted v @ '' variable is unavailable''))"

text \<open>\<open>host.get(name)\<close> that must give a value.\<close>

definition host_var_or :: "pyval \<Rightarrow> string \<Rightarrow> 'a outcome \<Rightarrow> (pyval \<Rightarrow> 'a outcome) \<Rightarrow> 'a outcome" where
  "host_var_or host name missing f = obind (py_get host name) (\<lambda>v. if is_none v then missing else f v)"

definition find_host :: "host_context \<Rightarrow> string \<Rightarrow> pyval outcome" where
  "find_host ctx hostname =
     (case hc_hostvars ctx of
        HostVars hv \<Rightarrow>
          (case hv hostname of
             Undefined \<Rightarrow> Raise (filter_error (quoted hostname @ '' not in '' @ quoted ''hostvars''))
           | Defined host \<Rightarrow> Ret host)
      | _ \<Rightarrow> unavailable ''hostvars'')"

definition py_lower :: "pyval \<Rightarrow> string outcome" where
  "py_lower v = (case v of PStr s \<Rightarrow> Ret (str_lower s) | _ \<Rightarrow> Raise AttributeError)"

definition dashes_replaced :: "pyval \<Rightarrow> string outcome" where
  "dashes_replaced v = (case v of PStr s \<Rightarrow> Ret (replace_char CHR ''-'' CHR ''_'' s) | _ \<Rightarrow> Raise AttributeError)"

text \<open>The virtual addresses: only when haproxy is enabled.\<close>

definition vip_addresses :: "host_context \<Rightarrow> pyval \<Rightarrow> pyval list outcome" where
  "vip_addresses ctx host =
     host_var_or host ''enable_haproxy'' (unavailable ''enable_haproxy'') (\<lambda>enable.
     obind (hc_bool ctx enable) (\<lambda>haproxy_enabled.
       if haproxy_enabled
       then obind (py_get host ''kolla_internal_vip_address'') (\<lambda>a.
            obind (py_get host ''kolla_external_vip_address'') (\<lambda>b. Ret [a, b]))
       else Ret []))"

text \<open>\<open>[x for x in af_interface if x['scope'] == 'global' and x['address'] not in vip_addresses]\<close>.\<close>

definition global_address :: "pyval list \<Rightarrow> pyval \<Rightarrow> bool outcome" where
  "global_address vips x =
     obind (py_item x ''scope'') (\<lambda>sc.
       if py_eq sc (PStr ''global'')
       then obind (py_item x ''address'') (\<lambda>a. Ret (\<not> mem_eq a vips))
       else Ret False)"

fun ofilter :: "('a \<Rightarrow> bool outcome) \<Rightarrow> 'a list \<Rightarrow> 'a list outcome" where
  "ofilter P [] = Ret []"
| "ofilter P (x # xs) = obind (P x) (\<lambda>b. obind (ofilter P xs) (\<lambda>ys. Ret (if b then x # ys else ys)))"

definition ipv6_of_interface :: "host_context \<Rightarrow> pyval \<Rightarrow> pyval \<Rightarrow> pyval outcome" where
  "ipv6_of_interface ctx host af_interface =
     obind (vip_addresses ctx host) (\<lambda>vips.
     obind (py_iter af_interface) (\<lambda>xs.
     obind (ofilter (global_address vips) xs) (\<lambda>global_ipv6_addresses.
       case global_ipv6_addresses of
         [] \<Rightarrow> Ret PNone
       | x # _ \<Rightarrow> py_item x ''address'')))"

definition kolla_address_of_host :: "host_context \<Rightarrow> string \<Rightarrow> string \<Rightarrow> pyval \<Rightarrow> pyval outcome" where
  "kolla_address_of_host ctx network_name hostname host =
     host_var_or host (network_name @ ''_interface'')
       (Raise (filter_error (''Interface name undefined for network '' @ quoted network_name
          @ '' (set '' @ quoted (network_name @ ''_interface'') @ '')''))) (\<lambda>interface_name.
     host_var_or host (network_name @ ''_address_family'')
       (Raise (filter_error (''Address family undefined for network '' @ quoted network_name
          @ '' (set '' @ quoted (network_name @ ''_address_family'') @ '')''))) (\<lambda>family.
     obind (py_lower family) (\<lambda>address_family.
     if address_family \<notin> {''ipv4'', ''ipv6''}
     then Raise (filter_error (''Unknown address family '' @ quoted address_family @ '' for network '' @ quoted network_name))
     else
     obind (dashes_replaced interface_name) (\<lambda>ansible_interface_name.
     obind (py_item host ''ansible_facts'') (\<lambda>facts.
     host_var_or facts ansible_interface_name
       (Raise (filter_error (''Interface '' @ quoted (py_str interface_name) @ '' not present on host '' @ quoted hostname))) (\<lambda>iface.
     host_var_or iface address_family
       (Raise (filter_error (''Address family '' @ quoted address_family @ '' undefined on interface ''
          @ quoted (py_str interface_name) @ '' for host: '' @ quoted hostname))) (\<lambda>af_interface.
     obind (if address_family = ''ipv4'' then py_get af_interface ''address''
            else ipv6_of_interface ctx host af_interface) (\<lambda>address.
       if is_none address
       then Raise (filter_error (address_family @ '' address missing on interface '' @ quoted (py_str interface_name)
              @ '' for host '' @ quoted hostname))
       else Ret address))))))))"

definition kolla_address :: "host_context \<Rightarrow> string \<Rightarrow> string option \<Rightarrow> pyval outcome" where
  "kolla_address ctx network_name hostname =
     obind (case hostname of
              Some h \<Rightarrow> Ret h
            | None \<Rightarrow> (case hc_inventory_hostname ctx of
                 None \<Rightarrow> unavailable ''inventory_hostname''
               | Some h \<Rightarrow> Ret h)) (\<lambda>name.
     obind (find_host ctx name) (kolla_address_of_host ctx network_name name))"

section \<open>Database shards\<close>

text \<open>\<open>shards_info\<close>: the hosts of each shard, in the order in which the shards appear, and the users.\<close>

record shards_info =
  shard_hosts :: "(string \<times> string list) list"
  shard_users :: "pydict list"

text \<open>\<open>f"{v}"\<close>.\<close>

definition format_text :: "pyval \<Rightarrow> string" where
  "format_text v = py_str v"

definition shard_user :: "pyval \<Rightarrow> pyval \<Rightarrow> string \<Rightarrow> pydict" where
  "shard_user password prefix_name shard_id =
     [(''password'', password), (''user'', PStr (format_text prefix_name @ shard_id)), (''shard_id'', PStr shard_id)]"

definition new_shard_users :: "host_context \<Rightarrow> pyval \<Rightarrow> string \<Rightarrow> pydict list outcome" where
  "new_shard_users ctx host shard_id =
     host_var_or host ''enable_mariabackup'' (unavailable ''enable_mariabackup'') (\<lambda>b.
     obind (hc_bool ctx b) (\<lambda>backup_enabled.
     host_var_or host ''database_password'' (unavailable ''database_password'') (\<lambda>db_password.
     host_var_or host ''mariadb_shard_root_user_prefix'' (unavailable ''mariadb_shard_root_user_prefix'') (\<lambda>root_prefix.
       if \<not> backup_enabled then Ret [shard_user db_password root_prefix shard_id]
       else host_var_or host ''mariadb_shard_backup_user_prefix'' (unavailable ''mariadb_shard_backup_user_prefix'') (\<lambda>backup_prefix.
            obind (py_get host ''mariadb_backup_database_password'') (\<lambda>backup_password.
              Ret [shard_user db_password root_prefix shard_id, shard_user backup_password backup_prefix shard_id]))))))"

definition shard_step :: "host_context \<Rightarrow> (string \<Rightarrow> jinja_var) \<Rightarrow> string \<Rightarrow> shards_info \<Rightarrow> shards_info outcome" where
  "shard_step ctx hv hostname info =
     (case hv hostname of
        Undefined \<Rightarrow> Raise (filter_error (quoted hostname @ '' not in '' @ quoted ''hostvars''))
      | Defined host \<Rightarrow>
          host_var_or host ''mariadb_shard_id''
            (Raise (filter_error (quoted ''mariadb_shard_id'' @ '' is undefined for host '' @ quoted hostname))) (\<lambda>sid.
          let shard_id = py_str sid in
          case map_of (shard_hosts info) shard_id of
            None \<Rightarrow>
              obind (new_shard_users ctx host shard_id) (\<lambda>users.
                Ret \<lparr>shard_hosts = AList.update shard_id [hostname] (shard_hosts info),
                     shard_users = shard_users info @ users\<rparr>)
          | Some hosts \<Rightarrow>
              Ret (info\<lparr>shard_hosts := AList.update shard_id (hosts @ [hostname]) (shard_hosts info)\<rparr>)))"

definition database_shards_info :: "host_context \<Rightarrow> string list \<Rightarrow> shards_info outcome" where
  "database_shards_info ctx hostnames =
     (case hc_hostvars ctx of
        HvUndefined \<Rightarrow> unavailable ''hostvars''
      | HvNone \<Rightarrow> if hostnames = [] then Ret \<lparr>shard_hosts = [], shard_users = []\<rparr> else Raise AttributeError
      | HostVars hv \<Rightarrow> ofold (shard_step ctx hv) hostnames \<lparr>shard_hosts = [], shard_users = []\<rparr>)"

section \<open>The address formats of RabbitMQ\<close>

definition erlang_address :: "16 word list \<Rightarrow> string" where
  "erlang_address gs = join_with '','' (map (\<lambda>g. ''16#'' @ hex_str (unat g)) gs)"

lemma erlang_groups: "omap erlang_group (map (\<lambda>g. hex4 (unat g)) gs) = Ret (map (\<lambda>g. ''16#'' @ hex_str (unat g)) gs)"
  by (induction gs) (simp_all add: erlang_group_def)

lemma rabbitmq_ipv6_groups:
  assumes "parse_ipv4 a = None" and "parse_ipv6 a = Some gs"
  shows "rabbitmq_address a = Ret (erlang_address gs)"
proof -
  have "gs \<noteq> []" using parse_ipv6_length [OF assms(2)] by auto
  then have "split_char CHR '':'' (exploded gs) = map (\<lambda>g. hex4 (unat g)) gs"
    unfolding exploded_def by (intro split_join) (auto simp: hex4_free)
  then show ?thesis
    using assms by (simp add: rabbitmq_address_def ip_address_def erlang_groups erlang_address_def)
qed

lemma parse_ipv4_no_dot: "CHR ''.'' \<notin> set a \<Longrightarrow> parse_ipv4 a = None"
  by (simp add: parse_ipv4_def split: option.splits)

lemma set_join: "set (join_with sep ps) \<subseteq> set sep \<union> \<Union> (set ` set ps)"
  by (induction sep ps rule: join_with.induct) auto

lemma no_dot_groups:
  assumes "\<forall>g. CHR ''.'' \<notin> set (f g)"
  shows "CHR ''.'' \<notin> set (join_with '':'' (map f gs))"
  using assms set_join [of "'':''" "map f gs"] by auto

text \<open>the Erlang form of an IPv6 address does not depend on how the address is written: an address
  that parses to eight groups, compressed or not, becomes the eight groups in lower-case hexadecimal
  without leading zeros, and both the exploded text and the short text of any eight groups do. A text
  that is no IP address raises \<open>ValueError\<close>; an IPv4 address has its dots replaced.
\<close>

theorem rabbitmq_address_forms:
  "(parse_ipv4 a = None \<and> parse_ipv6 a = Some gs \<longrightarrow>
      put_address_in_context a ''rabbitmq'' = Ret (erlang_address gs) \<and> length gs = 8)
   \<and> (length hs = 8 \<longrightarrow> put_address_in_context (exploded hs) ''rabbitmq'' = Ret (erlang_address hs)
      \<and> put_address_in_context (join_with '':'' (map (\<lambda>g. hex_str (unat g)) hs)) ''rabbitmq'' = Ret (erlang_address hs))
   \<and> (ip_address a = None \<longrightarrow> put_address_in_context a ''rabbitmq'' = Raise ValueError)
   \<and> (parse_ipv4 a = Some w \<longrightarrow>
      put_address_in_context a ''rabbitmq'' = Ret (replace_char CHR ''.'' CHR '','' a))"
proof -
  have ctx: "put_address_in_context x ''rabbitmq'' = rabbitmq_address x" for x
    by (simp add: put_address_in_context_def)
  have forms: "rabbitmq_address (exploded hs) = Ret (erlang_address hs)
      \<and> rabbitmq_address (join_with '':'' (map (\<lambda>g. hex_str (unat g)) hs)) = Ret (erlang_address hs)"
    if "length hs = 8"
    using parse_exploded [OF that] no_dot_groups [of "\<lambda>g. hex4 (unat g)" hs] no_dot_groups [of "\<lambda>g. hex_str (unat g)" hs]
    by (simp add: rabbitmq_ipv6_groups parse_ipv4_no_dot exploded_def hex4_free hex_str_free)
  show ?thesis
    using rabbitmq_ipv6_groups [of a gs] parse_ipv6_length [of a gs] forms
    by (auto simp: ctx) (simp_all add: rabbitmq_address_def ip_address_def)
qed

theorem rabbitmq_address_forms_witness:
  "put_address_in_context ''fd::'' ''rabbitmq'' = Ret ''16#fd,16#0,16#0,16#0,16#0,16#0,16#0,16#0''
   \<and> put_address_in_context ''fd:0:0:0:0:0:0:0'' ''rabbitmq'' = Ret ''16#fd,16#0,16#0,16#0,16#0,16#0,16#0,16#0''
   \<and> put_address_in_context ''fd::1::2'' ''rabbitmq'' = Raise ValueError
   \<and> put_address_in_context ''10.0.0.1'' ''rabbitmq'' = Ret ''10,0,0,1''"
proof -
  let ?gs = "[0xfd, 0, 0, 0, 0, 0, 0, 0] :: 16 word list"
  have short: "parse_ipv4 ''fd::'' = None" "parse_ipv6 ''fd::'' = Some ?gs"
    by code_simp+
  have bad: "ip_address ''fd::1::2'' = None" by code_simp
  have dots: "replace_char CHR ''.'' CHR '','' ''10.0.0.1'' = ''10,0,0,1''" by code_simp
  have written: "erlang_address ?gs = ''16#fd,16#0,16#0,16#0,16#0,16#0,16#0,16#0''" by code_simp
  have groups: "hex_str (unat (0xfd :: 16 word)) = ''fd''" "hex_str (unat (0 :: 16 word)) = ''0''" by code_simp+
  then have plain: "join_with '':'' (map (\<lambda>g. hex_str (unat g)) ?gs) = ''fd:0:0:0:0:0:0:0''" by simp
  have "map parse_octet (split_char CHR ''.'' ''10.0.0.1'') = [Some 10, Some 0, Some 0, Some 1]" by code_simp
  then obtain w where "parse_ipv4 ''10.0.0.1'' = Some w" unfolding parse_ipv4_def by simp
  with dots have "put_address_in_context ''10.0.0.1'' ''rabbitmq'' = Ret ''10,0,0,1''"
    using rabbitmq_address_forms [of "''10.0.0.1''" ?gs ?gs w] by simp
  then show ?thesis
    using short bad written plain rabbitmq_address_forms [of "''fd::''" ?gs ?gs 0]
      rabbitmq_address_forms [of "''fd::1::2''" ?gs ?gs 0]
    by simp
qed

section \<open>The parts of a URL\<close>

text \<open>What a client reads in a URL: the scheme, the host, the port (the one of the scheme if none is written), the path.\<close>

definition scheme_port :: "string \<Rightarrow> int option" where
  "scheme_port protocol =
     (if protocol = ''http'' \<or> protocol = ''ws'' then Some 80
      else if protocol = ''https'' \<or> protocol = ''wss'' then Some 443 else None)"

definition url_host :: "string \<Rightarrow> string \<times> string" where
  "url_host s =
     (if take 1 s = ''['' then (takeWhile (\<lambda>c. c \<noteq> CHR '']'') (tl s), tl (dropWhile (\<lambda>c. c \<noteq> CHR '']'') (tl s)))
      else (takeWhile (\<lambda>c. c \<notin> set '':/'') s, dropWhile (\<lambda>c. c \<notin> set '':/'') s))"

definition url_port :: "string \<Rightarrow> string \<Rightarrow> (int \<times> string) option" where
  "url_port protocol s =
     (if take 1 s = '':''
      then map_option (\<lambda>p. (p, dropWhile is_decimal (tl s))) (int_of_str (takeWhile is_decimal (tl s)))
      else map_option (\<lambda>p. (p, s)) (scheme_port protocol))"

definition url_parts :: "string \<Rightarrow> (string \<times> string \<times> int \<times> string) option" where
  "url_parts u =
     (let protocol = takeWhile (\<lambda>c. c \<noteq> CHR '':'') u;
          rest = dropWhile (\<lambda>c. c \<noteq> CHR '':'') u
      in if take 3 rest \<noteq> ''://'' then None
         else let (host, after) = url_host (drop 3 rest)
              in map_option (\<lambda>(p, path). (protocol, host, p, path)) (url_port protocol after))"

definition url_path :: "string \<Rightarrow> bool" where
  "url_path path \<longleftrightarrow> path = [] \<or> hd path = CHR ''/''"

lemma int_str_digits: "0 \<le> p \<Longrightarrow> \<forall>c \<in> set (int_str p). is_decimal c"
  using nat_str_decimal by (auto simp: int_str_def)

lemma url_port_written:
  assumes "0 \<le> p" and "url_path path"
  shows "url_port protocol ('':'' @ int_str p @ path) = Some (p, path)"
proof -
  have "takeWhile is_decimal (int_str p @ path) = int_str p \<and> dropWhile is_decimal (int_str p @ path) = path"
  proof (cases path)
    case Nil
    then show ?thesis using int_str_digits [OF assms(1)] by (auto simp: takeWhile_eq_all_conv)
  next
    case (Cons c cs)
    with assms(2) have "\<not> is_decimal c" by (auto simp: url_path_def is_decimal_def code_of_def)
    with Cons int_str_digits [OF assms(1)] show ?thesis
      by (auto simp: takeWhile_append_stop dropWhile_append_stop)
  qed
  then show ?thesis by (simp add: url_port_def)
qed

lemma url_host_bracketed: "CHR '']'' \<notin> set h \<Longrightarrow> url_host (''['' @ h @ '']'' @ rest) = (h, rest)"
  by (simp add: url_host_def split_at_first)

lemma url_host_plain:
  assumes "set h \<inter> set '':/[]'' = {}" and "rest = [] \<or> hd rest \<in> set '':/''"
  shows "url_host (h @ rest) = (h, rest)"
proof -
  have *: "\<forall>c \<in> set h. c \<notin> set '':/''" using assms(1) by auto
  have "take 1 (h @ rest) \<noteq> ''[''" using assms by (cases h; cases rest) auto
  moreover have "takeWhile (\<lambda>c. c \<notin> set '':/'') (h @ rest) = h \<and> dropWhile (\<lambda>c. c \<notin> set '':/'') (h @ rest) = rest"
    using * assms(2) by (cases rest) (auto simp: takeWhile_append dropWhile_append takeWhile_eq_all_conv)
  ultimately show ?thesis by (simp add: url_host_def)
qed

text \<open>C31: reading back a URL that \<open>kolla_url\<close> wrote gives the protocol, the host, the port and the
  path it was called with: a port that is left out is the default of the protocol, and the brackets
  around an IPv6 address keep its colons from being read as a port.
\<close>

theorem kolla_url_roundtrip:
  assumes "CHR '':'' \<notin> set protocol" and "set fqdn \<inter> set ''/[]'' = {}"
    and "py_int port = Ret p" "0 \<le> p" and "url_path path"
  shows "\<exists>u. kolla_url fqdn protocol port path ''url'' = Ret u \<and> url_parts u = Some (protocol, fqdn, p, path)"
proof -
  define host where "host = (if CHR '':'' \<in> set fqdn then ''['' @ fqdn @ '']'' else fqdn)"
  define tail where "tail = (if scheme_port protocol = Some p then path else '':'' @ int_str p @ path)"
  have ctx: "put_address_in_context fqdn ''url'' = Ret host"
    by (simp add: put_address_in_context_def host_def)
  have u: "kolla_url fqdn protocol port path ''url'' = Ret (protocol @ ''://'' @ host @ tail)"
    using assms(3) by (auto simp: kolla_url_def ctx tail_def scheme_port_def)
  have "tail = [] \<or> hd tail \<in> set '':/''" using assms(5) by (auto simp: tail_def url_path_def)
  with assms(2) have host: "url_host (host @ tail) = (fqdn, tail)"
    using url_host_bracketed [of fqdn tail] url_host_plain [of fqdn tail] by (auto simp: host_def)
  have "take 1 path \<noteq> '':''" using assms(5) by (cases path) (auto simp: url_path_def)
  then have port: "url_port protocol tail = Some (p, path)"
    using url_port_written [OF assms(4,5)] by (auto simp: tail_def url_port_def)
  have "takeWhile (\<lambda>c. c \<noteq> CHR '':'') (protocol @ ''://'' @ host @ tail) = protocol"
    "dropWhile (\<lambda>c. c \<noteq> CHR '':'') (protocol @ ''://'' @ host @ tail) = ''://'' @ host @ tail"
    using assms(1) by (simp_all add: split_at_first)
  then show ?thesis using u host port by (simp add: url_parts_def)
qed

theorem kolla_url_roundtrip_witness:
  "(\<exists>u. kolla_url ''fd::1'' ''https'' (PStr ''443'') ''/v3'' ''url'' = Ret u \<and> u = ''https://[fd::1]/v3''
       \<and> url_parts u = Some (''https'', ''fd::1'', 443, ''/v3''))
   \<and> (\<exists>u. kolla_url ''api.lan'' ''http'' (PInt 443) [] ''url'' = Ret u \<and> u = ''http://api.lan:443''
       \<and> url_parts u = Some (''http'', ''api.lan'', 443, []))"
proof -
  have "kolla_url ''fd::1'' ''https'' (PStr ''443'') ''/v3'' ''url'' = Ret ''https://[fd::1]/v3''"
    "kolla_url ''api.lan'' ''http'' (PInt 443) [] ''url'' = Ret ''http://api.lan:443''"
    "py_int (PStr ''443'') = Ret 443"
    by code_simp+
  then show ?thesis
    using kolla_url_roundtrip [of "''https''" "''fd::1''" "PStr ''443''" 443 "''/v3''"]
      kolla_url_roundtrip [of "''http''" "''api.lan''" "PInt 443" 443 "[]"]
    by (simp add: url_path_def)
qed

section \<open>The address of a host on a network\<close>

text \<open>
  A host whose interface of the network carries the given IPv6 entries, dictionaries with a scope, an
  address and whatever else Ansible reports (the prefix); \<open>hb\<close> is whether haproxy is enabled.
\<close>

definition ipv6_entry :: "pydict \<Rightarrow> bool" where
  "ipv6_entry e \<longleftrightarrow> (\<exists>scope a. map_of e ''scope'' = Some (PStr scope) \<and> map_of e ''address'' = Some (PStr a))"

definition ipv6_host :: "host_context \<Rightarrow> pydict \<Rightarrow> string \<Rightarrow> string \<Rightarrow> pydict list \<Rightarrow> bool \<Rightarrow> bool" where
  "ipv6_host ctx host net interface entries hb \<longleftrightarrow>
     (\<exists>family facts iface enable.
        map_of host (net @ ''_interface'') = Some (PStr interface)
        \<and> map_of host (net @ ''_address_family'') = Some (PStr family) \<and> str_lower family = ''ipv6''
        \<and> map_of host ''ansible_facts'' = Some (PDict facts)
        \<and> map_of facts (replace_char CHR ''-'' CHR ''_'' interface) = Some (PDict iface)
        \<and> map_of iface ''ipv6'' = Some (PList (map PDict entries)) \<and> (\<forall>e \<in> set entries. ipv6_entry e)
        \<and> map_of host ''enable_haproxy'' = Some enable \<and> enable \<noteq> PNone \<and> hc_bool ctx enable = Ret hb)"

definition host_vips :: "pydict \<Rightarrow> bool \<Rightarrow> pyval list" where
  "host_vips host hb =
     (if hb then [dget host ''kolla_internal_vip_address'', dget host ''kolla_external_vip_address''] else [])"

text \<open>An address that is the host's own: global, and not one that haproxy may move to another host.\<close>

definition own_address :: "pyval list \<Rightarrow> pydict \<Rightarrow> bool" where
  "own_address vips e \<longleftrightarrow> dget e ''scope'' = PStr ''global'' \<and> dget e ''address'' \<notin> set vips"

lemma ipv6_entry_item:
  assumes "ipv6_entry e"
  shows "map_of e ''address'' = Some (dget e ''address'')" "dget e ''address'' \<noteq> PNone"
    "global_address vips (PDict e) = Ret (own_address vips e)"
proof -
  obtain scope a where e: "map_of e ''scope'' = Some (PStr scope)" "map_of e ''address'' = Some (PStr a)"
    using assms by (auto simp: ipv6_entry_def)
  then show "map_of e ''address'' = Some (dget e ''address'')" "dget e ''address'' \<noteq> PNone"
    by (simp_all add: dget_def dget_or_def)
  have "mem_eq (PStr a) vips \<longleftrightarrow> PStr a \<in> set vips" by (auto simp: mem_eq_def list_ex_iff simp del: py_eq.simps)
  then show "global_address vips (PDict e) = Ret (own_address vips e)"
    using e by (simp add: global_address_def own_address_def dget_def dget_or_def)
qed

lemma ofilter_global:
  "\<forall>e \<in> set es. ipv6_entry e \<Longrightarrow> ofilter (global_address vips) (map PDict es) = Ret (map PDict (filter (own_address vips) es))"
  by (induction es) (simp_all add: ipv6_entry_item(3))

lemma vip_addresses_of_host:
  assumes "map_of host ''enable_haproxy'' = Some enable" "enable \<noteq> PNone" "hc_bool ctx enable = Ret hb"
  shows "vip_addresses ctx (PDict host) = Ret (host_vips host hb)"
  using assms by (simp add: vip_addresses_def host_var_or_def py_get_def dget_or_def dget_def host_vips_def)

lemma find_filter: "find P xs = (case filter P xs of [] \<Rightarrow> None | x # _ \<Rightarrow> Some x)"
  by (induction xs) auto

lemma ipv6_of_interface_first:
  assumes "map_of host ''enable_haproxy'' = Some enable" "enable \<noteq> PNone" "hc_bool ctx enable = Ret hb"
    and entries: "\<forall>e \<in> set es. ipv6_entry e"
  shows "ipv6_of_interface ctx (PDict host) (PList (map PDict es))
         = Ret (case find (own_address (host_vips host hb)) es of None \<Rightarrow> PNone | Some e \<Rightarrow> dget e ''address'')"
proof (cases "filter (own_address (host_vips host hb)) es")
  case (Cons e rest)
  then have "e \<in> set es" by (metis filter_is_subset list.set_intros(1) subsetD)
  then show ?thesis
    using entries by (simp add: ipv6_of_interface_def vip_addresses_of_host [OF assms(1-3)] ofilter_global find_filter Cons ipv6_entry_item(1))
qed (simp add: ipv6_of_interface_def vip_addresses_of_host [OF assms(1-3)] ofilter_global [OF entries] find_filter)

text \<open>C32: on an IPv6 network the address of a host is the first entry of its interface that is global
  and is not one of the virtual addresses haproxy may have put there, so it is never a virtual
  address; when no entry is, the filter fails and names the interface and the host.
\<close>

theorem kolla_address_ipv6:
  assumes "hc_hostvars ctx = HostVars hv" and "hv name = Defined (PDict host)"
    and "ipv6_host ctx host net interface entries hb"
  shows "kolla_address ctx net (Some name) =
      (case find (own_address (host_vips host hb)) entries of
         Some e \<Rightarrow> Ret (dget e ''address'')
       | None \<Rightarrow> Raise (filter_error (''ipv6 address missing on interface '' @ quoted interface @ '' for host '' @ quoted name)))
    \<and> (\<forall>a. kolla_address ctx net (Some name) = Ret a \<longrightarrow> a \<notin> set (host_vips host hb)
          \<and> (\<exists>e \<in> set entries. dget e ''scope'' = PStr ''global'' \<and> dget e ''address'' = a))"
proof -
  obtain fam facts iface enable where h:
    "map_of host (net @ ''_interface'') = Some (PStr interface)"
    "map_of host (net @ ''_address_family'') = Some (PStr fam)" "str_lower fam = ''ipv6''"
    "map_of host ''ansible_facts'' = Some (PDict facts)"
    "map_of facts (replace_char CHR ''-'' CHR ''_'' interface) = Some (PDict iface)"
    "map_of iface ''ipv6'' = Some (PList (map PDict entries))"
    and entries: "\<forall>e \<in> set entries. ipv6_entry e"
    and e: "map_of host ''enable_haproxy'' = Some enable" "enable \<noteq> PNone" "hc_bool ctx enable = Ret hb"
    using assms(3) unfolding ipv6_host_def by blast
  let ?own = "own_address (host_vips host hb)"
  define r where "r = (case find ?own entries of None \<Rightarrow> PNone | Some e \<Rightarrow> dget e ''address'')"
  have "kolla_address ctx net (Some name) =
      (if is_none r then Raise (filter_error (''ipv6'' @ '' address missing on interface '' @ quoted interface
              @ '' for host '' @ quoted name)) else Ret r)"
    using assms(1,2) h ipv6_of_interface_first [OF e entries]
    by (simp add: kolla_address_def find_host_def kolla_address_of_host_def host_var_or_def py_get_def
        dget_or_def dget_def py_lower_def dashes_replaced_def r_def)
  moreover have "r \<noteq> PNone \<and> ?own x \<and> x \<in> set entries" if "find ?own entries = Some x" for x
    proof -
    have "?own x" "x \<in> set entries" using that by (auto simp: find_Some_iff)
    then show ?thesis using that entries ipv6_entry_item(2) by (simp add: r_def)
  qed
  ultimately show ?thesis by (auto simp: r_def own_address_def is_none_iff split: option.splits)
qed

theorem kolla_address_ipv6_witness:
  "\<exists>ctx. kolla_address ctx ''api'' (Some ''c1'') = Ret (PStr ''fd::11'')
     \<and> kolla_address ctx ''api'' (Some ''c2'') = Raise (filter_error
          (''ipv6 address missing on interface '' @ quoted ''br-ex'' @ '' for host '' @ quoted ''c2''))"
proof -
  let ?entry = "\<lambda>a scope. [(''address'', PStr a), (''prefix'', PStr ''64''), (''scope'', PStr scope)]"
  let ?host = "\<lambda>es. [(''api_interface'', PStr ''br-ex''), (''api_address_family'', PStr ''IPv6''),
     (''ansible_facts'', PDict [(''br_ex'', PDict [(''ipv6'', PList (map PDict es))])]),
     (''enable_haproxy'', PStr ''yes''), (''kolla_internal_vip_address'', PStr ''fd::10'')]"
  let ?vip = "?entry ''fd::10'' ''global''"
  let ?es = "[?entry ''fe80::1'' ''link'', ?vip, ?entry ''fd::11'' ''global'']"
  let ?hv = "\<lambda>n. if n = ''c1'' then Defined (PDict (?host ?es)) else if n = ''c2'' then Defined (PDict (?host [?vip])) else Undefined"
  let ?ctx = "\<lparr>hc_bool = \<lambda>v. Ret (v = PStr ''yes''), hc_inventory_hostname = None, hc_hostvars = HostVars ?hv\<rparr>"
  have low: "str_lower ''IPv6'' = ''ipv6''" "replace_char CHR ''-'' CHR ''_'' ''br-ex'' = ''br_ex''" by code_simp+
  have host: "ipv6_host ?ctx (?host es) ''api'' ''br-ex'' es True" if "\<forall>e \<in> set es. ipv6_entry e" for es
    unfolding ipv6_host_def using that by (simp add: low)
  have "kolla_address ?ctx ''api'' (Some ''c1'') = Ret (PStr ''fd::11'')"
    using kolla_address_ipv6 [of ?ctx ?hv "''c1''" "?host ?es" "''api''" "''br-ex''" ?es True] host [of ?es]
    by (simp add: host_vips_def own_address_def ipv6_entry_def dget_def dget_or_def)
  moreover have "kolla_address ?ctx ''api'' (Some ''c2'') = Raise (filter_error
          (''ipv6 address missing on interface '' @ quoted ''br-ex'' @ '' for host '' @ quoted ''c2''))"
    using kolla_address_ipv6 [of ?ctx ?hv "''c2''" "?host [?vip]" "''api''" "''br-ex''" "[?vip]" True] host [of "[?vip]"]
    by (simp add: host_vips_def own_address_def ipv6_entry_def dget_def dget_or_def)
  ultimately show ?thesis by blast
qed

section \<open>The shards partition the database hosts\<close>

definition shard_of :: "(string \<Rightarrow> jinja_var) \<Rightarrow> string \<Rightarrow> string option" where
  "shard_of hv h =
     (case hv h of
        Defined (PDict d) \<Rightarrow> (if dget d ''mariadb_shard_id'' = PNone then None else Some (py_str (dget d ''mariadb_shard_id'')))
      | _ \<Rightarrow> None)"

definition shard_members :: "(string \<Rightarrow> jinja_var) \<Rightarrow> string list \<Rightarrow> string \<Rightarrow> string list" where
  "shard_members hv hosts s = filter (\<lambda>h. shard_of hv h = Some s) hosts"

text \<open>The shards of the hosts, in the order of their first host.\<close>

definition shard_order :: "(string \<Rightarrow> jinja_var) \<Rightarrow> string list \<Rightarrow> string list" where
  "shard_order hv hosts = rev (remdups (rev (map (\<lambda>h. the (shard_of hv h)) hosts)))"

text \<open>The users of a shard are the ones its first host names.\<close>

definition users_of_shard :: "host_context \<Rightarrow> (string \<Rightarrow> jinja_var) \<Rightarrow> string list \<Rightarrow> string \<Rightarrow> pydict list outcome" where
  "users_of_shard ctx hv hosts s =
     (case hv (hd (shard_members hv hosts s)) of
        Defined host \<Rightarrow> new_shard_users ctx host s
      | Undefined \<Rightarrow> Ret [])"

definition shards_of_hosts :: "host_context \<Rightarrow> (string \<Rightarrow> jinja_var) \<Rightarrow> string list \<Rightarrow> shards_info \<Rightarrow> bool" where
  "shards_of_hosts ctx hv hosts info \<longleftrightarrow>
     list_all (\<lambda>h. shard_of hv h \<noteq> None) hosts
     \<and> shard_hosts info = map (\<lambda>s. (s, shard_members hv hosts s)) (shard_order hv hosts)
     \<and> obind (omap (users_of_shard ctx hv hosts) (shard_order hv hosts)) (\<lambda>us. Ret (concat us)) = Ret (shard_users info)"

lemma shard_order_snoc:
  "shard_of hv h = Some s \<Longrightarrow>
   shard_order hv (hosts @ [h]) = (if s \<in> set (shard_order hv hosts) then shard_order hv hosts else shard_order hv hosts @ [s])"
  by (simp add: shard_order_def)

lemma shard_order_members:
  assumes "list_all (\<lambda>h. shard_of hv h \<noteq> None) hosts"
  shows "s \<in> set (shard_order hv hosts) \<longleftrightarrow> shard_members hv hosts s \<noteq> []"
  using assms by (force simp: shard_order_def shard_members_def list_all_iff filter_empty_conv image_iff)

lemma shard_members_snoc:
  "shard_of hv h = Some s \<Longrightarrow>
   shard_members hv (hosts @ [h]) s' = (if s' = s then shard_members hv hosts s' @ [h] else shard_members hv hosts s')"
  by (simp add: shard_members_def)

lemma shard_step_keeps:
  assumes inv: "shards_of_hosts ctx hv hosts info" and step: "shard_step ctx hv h info = Ret info'"
  shows "shards_of_hosts ctx hv (hosts @ [h]) info'"
proof -
  from step obtain d v where hv: "hv h = Defined (PDict d)" and v: "dget d ''mariadb_shard_id'' = v" "v \<noteq> PNone"
    by (auto simp: shard_step_def host_var_or_def py_get_def dget_def split: jinja_var.splits if_splits elim!: py_get_or.elims)
  define s where "s = py_str v"
  have sid: "shard_of hv h = Some s" using hv v by (simp add: shard_of_def s_def)
  note snoc = shard_order_snoc [OF sid] shard_members_snoc [OF sid]
  from inv have all: "list_all (\<lambda>h. shard_of hv h \<noteq> None) hosts"
    and hs: "shard_hosts info = map (\<lambda>s. (s, shard_members hv hosts s)) (shard_order hv hosts)"
    and us: "obind (omap (users_of_shard ctx hv hosts) (shard_order hv hosts)) (\<lambda>us. Ret (concat us)) = Ret (shard_users info)"
    by (auto simp: shards_of_hosts_def)
  have dist: "distinct (shard_order hv hosts)" by (simp add: shard_order_def)
  have old: "omap (users_of_shard ctx hv (hosts @ [h])) (shard_order hv hosts)
      = omap (users_of_shard ctx hv hosts) (shard_order hv hosts)"
    using shard_order_members [OF all] by (intro omap_cong) (auto simp: users_of_shard_def snoc hd_append)
  show ?thesis
  proof (cases "s \<in> set (shard_order hv hosts)")
    case True
    then have "info' = info\<lparr>shard_hosts := AList.update s (shard_members hv hosts s @ [h]) (shard_hosts info)\<rparr>"
      using step hv v by (simp add: shard_step_def host_var_or_def py_get_def dget_def s_def [symmetric] Let_def hs map_of_key_map)
    then show ?thesis
      using all sid us True dist by (simp add: shards_of_hosts_def hs snoc AList_update_map old)
  next
    case False
    then obtain users where users: "new_shard_users ctx (PDict d) s = Ret users"
      and info': "info' = \<lparr>shard_hosts = AList.update s [h] (shard_hosts info), shard_users = shard_users info @ users\<rparr>"
      using step hv v by (auto simp: shard_step_def host_var_or_def py_get_def dget_def s_def [symmetric] Let_def hs map_of_key_map)
    have none: "shard_members hv hosts s = []" using False shard_order_members [OF all] by simp
    have "users_of_shard ctx hv (hosts @ [h]) s = Ret users"
      by (simp add: users_of_shard_def snoc none hv users)
    moreover have "AList.update s [h] (shard_hosts info) = shard_hosts info @ [(s, [h])]"
      using False by (intro update_fresh) (auto simp: hs)
    moreover have "map (\<lambda>s. (s, shard_members hv (hosts @ [h]) s)) (shard_order hv hosts) = shard_hosts info"
      using False by (auto simp: hs snoc)
    ultimately show ?thesis
      using all sid us False none by (auto simp: shards_of_hosts_def info' snoc omap_append old)
  qed
qed

text \<open>C33: when \<open>database_shards_info\<close> returns, every host has a shard, the shards come in the order of
  their first hosts, each with exactly its own hosts in the order given, and the database users are
  those that the first host of each shard names, shard by shard.
\<close>

theorem database_shards_partition:
  assumes "hc_hostvars ctx = HostVars hv" and "database_shards_info ctx hosts = Ret info"
  shows "shards_of_hosts ctx hv hosts info \<and> (\<forall>h. (h \<in> set hosts) = (\<exists>s hs. (s, hs) \<in> set (shard_hosts info) \<and> h \<in> set hs))"
proof -
  have "shards_of_hosts ctx hv [] \<lparr>shard_hosts = [], shard_users = []\<rparr>"
    by (simp add: shards_of_hosts_def shard_order_def)
  then have inv: "shards_of_hosts ctx hv ([] @ hosts) info"
    by (rule ofold_invariant) (use assms shard_step_keeps in \<open>auto simp: database_shards_info_def\<close>)
  then have "list_all (\<lambda>h. shard_of hv h \<noteq> None) hosts" by (simp add: shards_of_hosts_def)
  from inv shard_order_members [OF this] show ?thesis
    by (fastforce simp: shards_of_hosts_def shard_members_def shard_order_def list_all_iff image_iff)
qed

theorem database_shards_partition_witness:
  "\<exists>ctx hv info. hc_hostvars ctx = HostVars hv \<and> database_shards_info ctx [''a'', ''b'', ''c''] = Ret info
     \<and> shard_hosts info = [(''0'', [''a'', ''c'']), (''1'', [''b''])]
     \<and> shards_of_hosts ctx hv [''a'', ''b'', ''c''] info"
proof -
  let ?host = "\<lambda>i. PDict [(''mariadb_shard_id'', PInt i), (''enable_mariabackup'', PBool (i = 0)),
    (''database_password'', PStr ''pw''), (''mariadb_shard_root_user_prefix'', PStr ''root_shard_''),
    (''mariadb_shard_backup_user_prefix'', PStr ''backup_shard_'')]"
  let ?hv = "\<lambda>n. if n = ''b'' then Defined (?host 1) else Defined (?host 0)"
  let ?ctx = "\<lparr>hc_bool = \<lambda>v. Ret (truthy v), hc_inventory_hostname = None, hc_hostvars = HostVars ?hv\<rparr>"
  let ?users = "[shard_user (PStr ''pw'') (PStr ''root_shard_'') ''0'', shard_user PNone (PStr ''backup_shard_'') ''0'',
    shard_user (PStr ''pw'') (PStr ''root_shard_'') ''1'']"
  have "database_shards_info ?ctx [''a'', ''b'', ''c'']
      = Ret \<lparr>shard_hosts = [(''0'', [''a'', ''c'']), (''1'', [''b''])], shard_users = ?users\<rparr>"
    by code_simp
  then show ?thesis using database_shards_partition [of ?ctx ?hv "[''a'', ''b'', ''c'']"] by fastforce
qed

end
