(* ===== verification/Validate_Files.thy ===== *)
theory Validate_Files
  imports Address_Filters
begin

text \<open>
  \<open>tools/validate-all-file.py\<close> and \<open>tools/validate-yaml.py\<close>: the checks of the repository's own
  files. The directory is a tree of named files with their texts; rendering a template, parsing JSON
  and parsing YAML are parameters. A report is the return code and the logged errors.
\<close>

section \<open>Walking the files\<close>

datatype tree = Dir (dir_files: "(string \<times> string) list") (dir_dirs: "(string \<times> tree) list")

text \<open>\<open>fnmatch\<close> with the wildcards \<open>*\<close> and \<open>?\<close>; the patterns of the program have no brackets.\<close>

fun fnmatch :: "string \<Rightarrow> string \<Rightarrow> bool" where
  "fnmatch [] s = (s = [])"
| "fnmatch (p # ps) s =
     (if p = CHR ''*'' then fnmatch ps s \<or> (case s of [] \<Rightarrow> False | c # cs \<Rightarrow> fnmatch (p # ps) cs)
      else case s of [] \<Rightarrow> False | c # cs \<Rightarrow> (p = CHR ''?'' \<or> p = c) \<and> fnmatch ps cs)"

definition any_match :: "string list \<Rightarrow> string \<Rightarrow> bool" where
  "any_match patterns s = list_ex (\<lambda>p. fnmatch p s) patterns"

definition path_join :: "string \<Rightarrow> string \<Rightarrow> string" where
  "path_join root name = root @ ''/'' @ name"

text \<open>\<open>os.walk\<close>, top down, with the excluded directories removed: the files with their directories.\<close>

fun walk :: "string list \<Rightarrow> string \<Rightarrow> tree \<Rightarrow> (string \<times> string \<times> string) list" where
  "walk excludes root (Dir fs ds) =
     map (\<lambda>(f, content). (root, f, content)) fs
     @ concat (map (\<lambda>(d, t). if any_match excludes d then [] else walk excludes (path_join root d) t) ds)"

definition chosen :: "string list \<Rightarrow> string list \<Rightarrow> string \<Rightarrow> bool" where
  "chosen includes excludes f \<longleftrightarrow> \<not> any_match excludes f \<and> any_match includes f"

definition chosen_files :: "string list \<Rightarrow> string list \<Rightarrow> string \<Rightarrow> tree \<Rightarrow> (string \<times> string \<times> string) list" where
  "chosen_files includes excludes root t = filter (\<lambda>(r, f, c). chosen includes excludes f) (walk excludes root t)"

type_synonym report = "int \<times> string list"

definition log_error :: "string \<Rightarrow> report \<Rightarrow> report" where
  "log_error m r = (1, snd r @ [m])"

section \<open>Newlines at the end of files\<close>

definition NEWLINE_EOF_INCLUDE_PATTERNS :: "string list" where
  "NEWLINE_EOF_INCLUDE_PATTERNS = [''*.j2'', ''*.yml'', ''*.py'', ''*.sh'']"

definition NEWLINE_EOF_EXCLUDE_PATTERNS :: "string list" where
  "NEWLINE_EOF_EXCLUDE_PATTERNS = [''.tox'', ''.testrepository'', ''.git'']"

definition has_newline_eof :: "string \<Rightarrow> bool" where
  "has_newline_eof data \<longleftrightarrow> data = [] \<or> last data = CHR 0x0A"

definition newline_step :: "string \<times> string \<times> string \<Rightarrow> report \<Rightarrow> report" where
  "newline_step x r =
     (case x of (root, f, content) \<Rightarrow>
        if has_newline_eof content then r
        else log_error (path_join root f @ '' file error: no newline at end of file'') r)"

definition check_newline_eof :: "string \<Rightarrow> tree \<Rightarrow> report" where
  "check_newline_eof root t =
     fold newline_step (chosen_files NEWLINE_EOF_INCLUDE_PATTERNS NEWLINE_EOF_EXCLUDE_PATTERNS root t) (0, [])"

section \<open>JSON templates\<close>

definition JSON_J2_INCLUDE_PATTERNS :: "string list" where
  "JSON_J2_INCLUDE_PATTERNS = [''*.json.j2'', ''*.json'']"

definition JSON_J2_EXCLUDE_PATTERNS :: "string list" where
  "JSON_J2_EXCLUDE_PATTERNS = [''.tox'', ''.testrepository'', ''.git'']"

definition KOLLA_NETWORKS :: "string list" where
  "KOLLA_NETWORKS = [''api'', ''storage'', ''swift_storage'', ''swift_replication'', ''migration'', ''tunnel'',
     ''octavia_network'', ''bifrost_network'', ''dns'']"

definition bool_filter :: "pyval \<Rightarrow> bool" where
  "bool_filter v = True"

definition basename_filter :: "string \<Rightarrow> string" where
  "basename_filter s = last (split_char CHR 0x5C s)"

definition kolla_address_filter_mock :: "string \<Rightarrow> string outcome" where
  "kolla_address_filter_mock network_name =
     (if network_name \<notin> set KOLLA_NETWORKS then Raise ValueError else Ret ''127.0.0.1'')"

text \<open>The variables of the template: \<open>hostvars\<close> and \<open>groups\<close> are dictionaries that create what is asked for.\<close>

datatype j2_value = HostVarsMock | GroupsMock | Plain pyval

definition j2_context :: "(string \<times> j2_value) list" where
  "j2_context =
     [(''hostvars'', HostVarsMock), (''groups'', GroupsMock), (''inventory_hostname'', Plain (PStr ''hostname'')),
      (''api_interface_address'', Plain (PStr [])), (''kolla_internal_fqdn'', Plain (PStr [])),
      (''octavia_provider_drivers'', Plain (PStr [])), (''rabbitmq_ha_replica_count'', Plain (PInt 2)),
      (''rabbitmq_message_ttl_ms'', Plain (PInt 600000)), (''rabbitmq_queue_expiry_ms'', Plain (PInt 3600000))]"

record j2_filters =
  flt_bool :: "pyval \<Rightarrow> bool"
  flt_basename :: "string \<Rightarrow> string"
  flt_kolla_address :: "string \<Rightarrow> string outcome"
  flt_put_address_in_context :: "string \<Rightarrow> string \<Rightarrow> string outcome"

definition j2_env :: j2_filters where
  "j2_env = \<lparr>flt_bool = bool_filter, flt_basename = basename_filter, flt_kolla_address = kolla_address_filter_mock,
     flt_put_address_in_context = put_address_in_context\<rparr>"

record validators =
  render :: "j2_filters \<Rightarrow> (string \<times> j2_value) list \<Rightarrow> string \<Rightarrow> string \<Rightarrow> string outcome"
  json_load :: "string \<Rightarrow> pyval outcome"
  yaml_load :: "string \<Rightarrow> pyval outcome"

definition template_exn :: exn where
  "template_exn = PyError ''TemplateError''"

definition yaml_exn :: exn where
  "yaml_exn = PyError ''YAMLError''"

definition validate_json_j2 :: "validators \<Rightarrow> string \<Rightarrow> string \<Rightarrow> unit outcome" where
  "validate_json_j2 V root filename =
     obind (render V j2_env j2_context root filename) (\<lambda>data. obind (json_load V data) (\<lambda>_. Ret ()))"

definition json_step :: "validators \<Rightarrow> string \<times> string \<times> string \<Rightarrow> report \<Rightarrow> report outcome" where
  "json_step V x r =
     (case x of (root, f, content) \<Rightarrow>
        case validate_json_j2 V root f of
          Ret _ \<Rightarrow> Ret r
        | Raise e \<Rightarrow> if e = ValueError \<or> e = template_exn then Ret (log_error (path_join root f @ '' file error'') r) else Raise e
        | Exit k d \<Rightarrow> Exit k d)"

definition check_json_j2 :: "validators \<Rightarrow> string \<Rightarrow> tree \<Rightarrow> report outcome" where
  "check_json_j2 V root t =
     ofold (json_step V) (chosen_files JSON_J2_INCLUDE_PATTERNS JSON_J2_EXCLUDE_PATTERNS root t) (0, [])"

section \<open>Tasks that use the container engine\<close>

definition YAML_INCLUDE_PATTERNS :: "string list" where
  "YAML_INCLUDE_PATTERNS = [''*.yml'']"

definition YAML_EXCLUDE_PATTERNS :: "string list" where
  "YAML_EXCLUDE_PATTERNS = [''.tox'', ''.testrepository'', ''.git'', ''defaults'', ''templates'', ''vars'']"

definition ce_modules :: "string list" where
  "ce_modules = [''kolla_container'', ''kolla_container_facts'', ''kolla_toolbox'']"

definition cmd_modules :: "string list" where
  "cmd_modules = [''command'', ''shell'']"

text \<open>\<open>module in task\<close>.\<close>

definition py_in :: "string \<Rightarrow> pyval \<Rightarrow> bool outcome" where
  "py_in m task =
     (case task of
        PDict d \<Rightarrow> Ret (has_key d m)
      | PStr s \<Rightarrow> Ret (is_substring m s)
      | PList xs \<Rightarrow> Ret (mem_eq (PStr m) xs)
      | _ \<Rightarrow> Raise TypeError)"

definition no_become :: "pyval \<Rightarrow> bool outcome" where
  "no_become task = obind (py_get task ''become'') (\<lambda>v. Ret (\<not> truthy v))"

text \<open>The message names the task: a task without a name raises \<open>KeyError\<close>.\<close>

definition become_error :: "pyval \<Rightarrow> (string \<Rightarrow> string) \<Rightarrow> report \<Rightarrow> report outcome" where
  "become_error task message r = obind (py_item task ''name'') (\<lambda>name. Ret (log_error (message (py_str name)) r))"

definition ce_message :: "string \<Rightarrow> string \<Rightarrow> string \<Rightarrow> string" where
  "ce_message m fullpath name = ''Use of '' @ m @ '' module without become in task '' @ name @ '' in '' @ fullpath"

definition cmd_message :: "string \<Rightarrow> string \<Rightarrow> pyval \<Rightarrow> string \<Rightarrow> string" where
  "cmd_message m fullpath block name =
     ''Use of container engine in '' @ m @ '' module without become in task '' @ name @ '' in '' @ fullpath
     @ '' block '' @ py_str block"

definition and_then :: "bool outcome \<Rightarrow> bool outcome \<Rightarrow> bool outcome" where
  "and_then a b = obind a (\<lambda>x. if x then b else Ret False)"

definition ce_step :: "string \<Rightarrow> pyval \<Rightarrow> pyval \<Rightarrow> string \<Rightarrow> report \<Rightarrow> report outcome" where
  "ce_step fullpath task block m r =
     obind (and_then (py_in m task) (and_then (no_become task) (no_become block))) (\<lambda>bad.
       if bad then become_error task (ce_message m fullpath) r else Ret r)"

definition engine_command :: "pyval \<Rightarrow> bool outcome" where
  "engine_command v =
     (case v of PStr s \<Rightarrow> Ret (starts_with s ''docker'' \<or> starts_with s ''podman'') | _ \<Rightarrow> Raise AttributeError)"

definition cmd_text :: "pyval \<Rightarrow> bool outcome" where
  "cmd_text v =
     (case v of
        PStr s \<Rightarrow> engine_command v
      | PDict d \<Rightarrow> obind (py_item v ''cmd'') engine_command
      | _ \<Rightarrow> Ret False)"

definition cmd_step :: "string \<Rightarrow> pyval \<Rightarrow> pyval \<Rightarrow> string \<Rightarrow> report \<Rightarrow> report outcome" where
  "cmd_step fullpath task block m r =
     obind (and_then (py_in m task) (no_become task)) (\<lambda>b.
       if \<not> b then Ret r
       else obind (py_item task m) (\<lambda>v.
            obind (and_then (cmd_text v) (no_become block)) (\<lambda>bad.
              if bad then become_error task (cmd_message m fullpath block) r else Ret r)))"

text \<open>The result of the function is the first component; the errors it logs are appended to \<open>log\<close>.\<close>

definition check_container_become :: "string \<Rightarrow> pyval \<Rightarrow> pyval \<Rightarrow> string list \<Rightarrow> report outcome" where
  "check_container_become fullpath task block log =
     obind (ofold (ce_step fullpath task block) ce_modules (0, log))
       (ofold (cmd_step fullpath task block) cmd_modules)"

definition task_report :: "string \<Rightarrow> pyval \<Rightarrow> pyval \<Rightarrow> report \<Rightarrow> report outcome" where
  "task_report fullpath block task r =
     obind (check_container_become fullpath task block (snd r)) (\<lambda>q.
       Ret (if fst q \<noteq> 0 then 1 else fst r, snd q))"

definition task_step :: "string \<Rightarrow> pyval \<Rightarrow> report \<Rightarrow> report outcome" where
  "task_step fullpath task r =
     obind (py_get task ''block'') (\<lambda>b.
       if truthy b then obind (py_iter b) (\<lambda>ts. ofold (task_report fullpath task) ts r)
       else task_report fullpath (PStr []) task r)"

definition contents_step :: "validators \<Rightarrow> string \<times> string \<times> string \<Rightarrow> report \<Rightarrow> report outcome" where
  "contents_step V x r =
     (case x of (root, f, content) \<Rightarrow>
        obind (yaml_load V content) (\<lambda>tasks. obind (py_iter (or_list tasks)) (\<lambda>ts.
          ofold (task_step (path_join root f)) ts r)))"

definition check_task_contents :: "validators \<Rightarrow> string \<Rightarrow> tree \<Rightarrow> report outcome" where
  "check_task_contents V roles_path roles =
     ofold (contents_step V) (chosen_files YAML_INCLUDE_PATTERNS YAML_EXCLUDE_PATTERNS roles_path roles) (0, [])"

text \<open>\<open>main\<close>: the sum of the return codes, with the log of all checks. A directory that is missing has no files.\<close>

fun subtree :: "string list \<Rightarrow> tree \<Rightarrow> tree" where
  "subtree [] t = t"
| "subtree (p # ps) (Dir fs ds) = (case map_of ds p of None \<Rightarrow> Dir [] [] | Some t \<Rightarrow> subtree ps t)"

definition validate_main :: "validators \<Rightarrow> string \<Rightarrow> tree \<Rightarrow> report outcome" where
  "validate_main V root t =
     (let n = check_newline_eof root t;
          roles_path = path_join (path_join root ''ansible'') ''roles''
      in obind (check_json_j2 V root t) (\<lambda>j.
         obind (check_task_contents V roles_path (subtree [''ansible'', ''roles''] t)) (\<lambda>y.
           Ret (fst n + fst j + fst y, snd n @ snd j @ snd y))))"

text \<open>\<open>validate-yaml.py\<close> on the texts of its arguments; the exit status and the files that failed.\<close>

definition yaml_file_step :: "validators \<Rightarrow> string \<times> string \<Rightarrow> report \<Rightarrow> report outcome" where
  "yaml_file_step V x r =
     (case yaml_load V (snd x) of
        Ret _ \<Rightarrow> Ret r
      | Raise e \<Rightarrow> if e = yaml_exn then Ret (log_error (fst x @ '' failed validation'') r) else Raise e
      | Exit k d \<Rightarrow> Exit k d)"

definition validate_yaml :: "validators \<Rightarrow> (string \<times> string) list \<Rightarrow> report outcome" where
  "validate_yaml V inputs = ofold (yaml_file_step V) inputs (0, [])"

section \<open>The files of a tree\<close>

fun tree_file :: "tree \<Rightarrow> string list \<Rightarrow> string \<Rightarrow> string \<Rightarrow> bool" where
  "tree_file (Dir fs ds) [] f c = ((f, c) \<in> set fs)"
| "tree_file (Dir fs ds) (p # ps) f c = list_ex (\<lambda>(d, t). d = p \<and> tree_file t ps f c) ds"

lemma walk_files:
  "x \<in> set (walk ex root t) \<longleftrightarrow>
   (\<exists>ps f c. tree_file t ps f c \<and> list_all (\<lambda>d. \<not> any_match ex d) ps \<and> x = (foldl path_join root ps, f, c))"
proof (induction ex root t arbitrary: x rule: walk.induct)
  case (1 ex root fs ds)
  have sub: "x \<in> set (walk ex (path_join root d) t) \<longleftrightarrow> (\<exists>ps f c. tree_file t ps f c \<and> list_all (\<lambda>d. \<not> any_match ex d) ps
      \<and> x = (foldl path_join (path_join root d) ps, f, c))" if "(d, t) \<in> set ds" "\<not> any_match ex d" for d t
    using 1 [OF that(1) refl that(2)] .
  show ?case
  proof
    assume "x \<in> set (walk ex root (Dir fs ds))"
    then consider (here) f c where "(f, c) \<in> set fs" "x = (root, f, c)"
      | (below) d t where "(d, t) \<in> set ds" "\<not> any_match ex d" "x \<in> set (walk ex (path_join root d) t)"
      by (auto split: if_splits)
    then show "\<exists>ps f c. tree_file (Dir fs ds) ps f c \<and> list_all (\<lambda>d. \<not> any_match ex d) ps \<and> x = (foldl path_join root ps, f, c)"
    proof cases
      case here
      then show ?thesis by (intro exI [of _ "[]"] exI [of _ f] exI [of _ c]) simp
    next
      case below
      with sub obtain ps f c where "tree_file t ps f c" "list_all (\<lambda>d. \<not> any_match ex d) ps"
        "x = (foldl path_join (path_join root d) ps, f, c)" by blast
      with below show ?thesis by (intro exI [of _ "d # ps"]) (auto simp: list_ex_iff)
    qed
  next
    assume "\<exists>ps f c. tree_file (Dir fs ds) ps f c \<and> list_all (\<lambda>d. \<not> any_match ex d) ps \<and> x = (foldl path_join root ps, f, c)"
    then obtain ps f c where tf: "tree_file (Dir fs ds) ps f c" "list_all (\<lambda>d. \<not> any_match ex d) ps" "x = (foldl path_join root ps, f, c)"
      by blast
    show "x \<in> set (walk ex root (Dir fs ds))"
    proof (cases ps)
      case Nil
      with tf show ?thesis by force
    next
      case (Cons p ps')
      with tf obtain t where t: "(p, t) \<in> set ds" "tree_file t ps' f c" by (auto simp: list_ex_iff)
      with Cons tf have "x \<in> set (walk ex (path_join root p) t)" using sub [OF t(1)] by auto
      with t(1) Cons tf show ?thesis by (auto intro!: bexI [of _ "(p, t)"])
    qed
  qed
qed

section \<open>Patterns\<close>

definition plain_pattern :: "string \<Rightarrow> bool" where
  "plain_pattern p \<longleftrightarrow> CHR ''*'' \<notin> set p \<and> CHR ''?'' \<notin> set p"

lemma fnmatch_plain: "plain_pattern p \<Longrightarrow> fnmatch p s \<longleftrightarrow> s = p"
proof (induction p arbitrary: s)
  case (Cons c p)
  then show ?case by (cases s) (auto simp: plain_pattern_def)
qed simp

lemma fnmatch_star: "fnmatch (CHR ''*'' # p) s \<longleftrightarrow> (\<exists>a b. s = a @ b \<and> fnmatch p b)"
proof (induction s)
  case (Cons c s)
  have "(\<exists>a b. c # s = a @ b \<and> fnmatch p b) \<longleftrightarrow> fnmatch p (c # s) \<or> (\<exists>a b. s = a @ b \<and> fnmatch p b)"
    by (metis append_Cons append_Nil append_eq_Cons_conv)
  with Cons show ?case by simp
qed simp

text \<open>A pattern \<open>*.ext\<close> asks for the ending.\<close>

lemma fnmatch_ending: "plain_pattern e \<Longrightarrow> fnmatch (CHR ''*'' # e) s \<longleftrightarrow> (\<exists>a. s = a @ e)"
  by (auto simp: fnmatch_star fnmatch_plain simp del: fnmatch.simps)

lemma fst_newline_step: "fst (newline_step (d, f, c) r) = (if has_newline_eof c then fst r else 1)"
  by (simp add: newline_step_def log_error_def)

lemma newline_step_log:
  "fst (fold newline_step xs r) = (if list_all (\<lambda>(d, f, c). has_newline_eof c) xs then fst r else 1)"
proof (induction xs arbitrary: r)
  case (Cons x xs)
  then show ?case by (cases x) (auto simp: fst_newline_step)
qed simp

text \<open>the check of the newlines fails exactly when some file, in a directory that is not under an
  excluded one, has one of the four endings, is not excluded by name, and has a text that does not
  end with a newline; an empty file passes.
\<close>

theorem check_newline_eof_iff:
  "fst (check_newline_eof root t) =
    (if \<exists>ps f c. tree_file t ps f c \<and> set ps \<inter> {''.tox'', ''.testrepository'', ''.git''} = {}
          \<and> f \<notin> {''.tox'', ''.testrepository'', ''.git''} \<and> (\<exists>a. \<exists>e \<in> {''.j2'', ''.yml'', ''.py'', ''.sh''}. f = a @ e)
          \<and> c \<noteq> [] \<and> last c \<noteq> CHR 0x0A then 1 else 0)"
proof -
  have plain: "plain_pattern ''.tox''" "plain_pattern ''.testrepository''" "plain_pattern ''.git''"
    "plain_pattern ''.j2''" "plain_pattern ''.yml''" "plain_pattern ''.py''" "plain_pattern ''.sh''"
    by (simp_all add: plain_pattern_def)
  have ex: "any_match NEWLINE_EOF_EXCLUDE_PATTERNS s \<longleftrightarrow> s \<in> {''.tox'', ''.testrepository'', ''.git''}" for s
    by (simp add: any_match_def NEWLINE_EOF_EXCLUDE_PATTERNS_def fnmatch_plain plain del: fnmatch.simps)
  have inc: "any_match NEWLINE_EOF_INCLUDE_PATTERNS s \<longleftrightarrow> (\<exists>a. \<exists>e \<in> {''.j2'', ''.yml'', ''.py'', ''.sh''}. s = a @ e)" for s
    by (auto simp: any_match_def NEWLINE_EOF_INCLUDE_PATTERNS_def fnmatch_ending plain simp del: fnmatch.simps)
  let ?files = "chosen_files NEWLINE_EOF_INCLUDE_PATTERNS NEWLINE_EOF_EXCLUDE_PATTERNS root t"
  let ?ok = "chosen NEWLINE_EOF_INCLUDE_PATTERNS NEWLINE_EOF_EXCLUDE_PATTERNS"
  have "\<not> list_all (\<lambda>(d, f, c). has_newline_eof c) ?files
      \<longleftrightarrow> (\<exists>d f c. (d, f, c) \<in> set (walk NEWLINE_EOF_EXCLUDE_PATTERNS root t) \<and> ?ok f \<and> \<not> has_newline_eof c)"
    by (auto simp: chosen_files_def list_all_iff)
  also have "\<dots> \<longleftrightarrow> (\<exists>ps f c. tree_file t ps f c \<and> list_all (\<lambda>d. \<not> any_match NEWLINE_EOF_EXCLUDE_PATTERNS d) ps
      \<and> ?ok f \<and> \<not> has_newline_eof c)"
    by (simp add: walk_files) blast
  also have "\<dots> \<longleftrightarrow> (\<exists>ps f c. tree_file t ps f c \<and> set ps \<inter> {''.tox'', ''.testrepository'', ''.git''} = {}
          \<and> f \<notin> {''.tox'', ''.testrepository'', ''.git''} \<and> (\<exists>a. \<exists>e \<in> {''.j2'', ''.yml'', ''.py'', ''.sh''}. f = a @ e)
          \<and> c \<noteq> [] \<and> last c \<noteq> CHR 0x0A)"
    by (simp only: chosen_def has_newline_eof_def ex inc list_all_iff disjoint_iff Ball_def de_Morgan_disj conj_assoc)
  finally have eq: "(\<exists>ps f c. tree_file t ps f c \<and> set ps \<inter> {''.tox'', ''.testrepository'', ''.git''} = {}
          \<and> f \<notin> {''.tox'', ''.testrepository'', ''.git''} \<and> (\<exists>a. \<exists>e \<in> {''.j2'', ''.yml'', ''.py'', ''.sh''}. f = a @ e)
          \<and> c \<noteq> [] \<and> last c \<noteq> CHR 0x0A) = (\<not> list_all (\<lambda>(d, f, c). has_newline_eof c) ?files)" by (rule sym)
  show ?thesis unfolding eq by (simp only: check_newline_eof_def newline_step_log fst_conv if_not_P split: if_split) simp
qed

section \<open>Tasks without become\<close>

text \<open>
  What makes a task need \<open>become\<close>: a module of the container engine, or a command that starts with
  the name of an engine, given as text or as \<open>cmd\<close>.
\<close>

fun engine_text :: "pyval \<Rightarrow> bool" where
  "engine_text (PStr s) = (starts_with s ''docker'' \<or> starts_with s ''podman'')"
| "engine_text (PDict d) = (case dget d ''cmd'' of PStr s \<Rightarrow> starts_with s ''docker'' \<or> starts_with s ''podman'' | _ \<Rightarrow> False)"
| "engine_text _ = False"

definition uses_engine :: "pydict \<Rightarrow> bool" where
  "uses_engine task \<longleftrightarrow>
     list_ex (has_key task) ce_modules \<or> list_ex (\<lambda>m. has_key task m \<and> engine_text (dget task m)) cmd_modules"

definition becomes :: "pydict \<Rightarrow> bool" where
  "becomes task \<longleftrightarrow> truthy (dget task ''become'')"

text \<open>A named task whose commands are texts, or dictionaries with a text as \<open>cmd\<close>.\<close>

definition task_ok :: "pydict \<Rightarrow> bool" where
  "task_ok task \<longleftrightarrow> has_key task ''name''
     \<and> list_all (\<lambda>m. case map_of task m of Some (PDict d) \<Rightarrow> (case map_of d ''cmd'' of Some (PStr s) \<Rightarrow> True | _ \<Rightarrow> False) | _ \<Rightarrow> True) cmd_modules"

lemma py_in_dict [simp]: "py_in m (PDict d) = Ret (has_key d m)"
  by (simp add: py_in_def)

lemma no_become_dict [simp]: "no_become (PDict d) = Ret (\<not> becomes d)" "no_become (PStr s) = Raise AttributeError"
  by (simp_all add: no_become_def py_get_def becomes_def dget_def)

lemma and_then_Ret [simp]: "and_then (Ret True) b = b" "and_then (Ret False) b = Ret False" "and_then (Raise e) b = Raise e"
  by (simp_all add: and_then_def)

lemma become_error_named:
  assumes "task_ok task"
  shows "\<exists>l. become_error (PDict task) message r = Ret (1, snd r @ [l])"
  using assms by (auto simp: become_error_def task_ok_def has_key_def log_error_def)

text \<open>One step of either loop: it logs an error when the module counts, and the block does not help.\<close>

definition step_bad :: "bool \<Rightarrow> pydict \<Rightarrow> pydict \<Rightarrow> bool" where
  "step_bad counts task block \<longleftrightarrow> counts \<and> \<not> becomes task \<and> \<not> becomes block"

lemma ce_step_dict:
  assumes "task_ok task"
  shows "\<exists>l. ce_step fullpath (PDict task) (PDict block) m r
           = Ret (if step_bad (has_key task m) task block then (1, snd r @ [l]) else r)"
proof -
  have bad: "and_then (py_in m (PDict task)) (and_then (no_become (PDict task)) (no_become (PDict block)))
      = Ret (step_bad (has_key task m) task block)"
    by (cases "has_key task m"; cases "becomes task") (simp_all add: step_bad_def)
  show ?thesis
    unfolding ce_step_def bad using become_error_named [OF assms, of _ r] by (cases "step_bad (has_key task m) task block") auto
qed

lemma cmd_text_ok:
  assumes "task_ok task" "m \<in> set cmd_modules" "has_key task m"
  shows "py_item (PDict task) m = Ret (dget task m) \<and> cmd_text (dget task m) = Ret (engine_text (dget task m))"
proof -
  obtain v where v: "map_of task m = Some v" using assms(3) by (auto simp: has_key_def)
  with assms(1,2) have "case v of PDict d \<Rightarrow> (case map_of d ''cmd'' of Some (PStr s) \<Rightarrow> True | _ \<Rightarrow> False) | _ \<Rightarrow> True"
    by (auto simp: task_ok_def list_all_iff)
  with v show ?thesis
    by (cases v) (auto simp: cmd_text_def engine_command_def dget_def dget_or_def split: option.splits pyval.splits)
qed

lemma cmd_step_dict:
  assumes "task_ok task" "m \<in> set cmd_modules"
  shows "\<exists>l. cmd_step fullpath (PDict task) (PDict block) m r
           = Ret (if step_bad (has_key task m \<and> engine_text (dget task m)) task block then (1, snd r @ [l]) else r)"
proof (cases "has_key task m \<and> \<not> becomes task")
  case True
  with cmd_text_ok [OF assms] have "py_item (PDict task) m = Ret (dget task m)" "cmd_text (dget task m) = Ret (engine_text (dget task m))"
    by auto
  with True become_error_named [OF assms(1), of _ r] show ?thesis
    by (cases "engine_text (dget task m)") (auto simp: cmd_step_def step_bad_def)
next
  case False
  then show ?thesis by (auto simp: cmd_step_def step_bad_def and_then_def)
qed

lemma ofold_reports:
  assumes "\<forall>m \<in> set ms. \<forall>r. \<exists>l. step m r = Ret (if bad m then (1, snd r @ [l]) else r)"
  shows "\<exists>log. ofold step ms r = Ret (if list_ex bad ms then 1 else fst r, snd r @ log) \<and> (log \<noteq> [] \<longleftrightarrow> list_ex bad ms)"
  using assms
proof (induction ms arbitrary: r)
  case Nil
  show ?case by (cases r) simp
next
  case (Cons m ms)
  have "\<forall>r. \<exists>l. step m r = Ret (if bad m then (1, snd r @ [l]) else r)" using Cons.prems by simp
  then obtain l where l: "step m r = Ret (if bad m then (1, snd r @ [l]) else r)" by blast
  define q where "q = (if bad m then (1, snd r @ [l]) else r)"
  have "\<exists>log. ofold step ms q = Ret (if list_ex bad ms then 1 else fst q, snd q @ log) \<and> (log \<noteq> [] \<longleftrightarrow> list_ex bad ms)"
    using Cons.IH [of q] Cons.prems by simp
  then obtain log where log: "ofold step ms q = Ret (if list_ex bad ms then 1 else fst q, snd q @ log)" "log \<noteq> [] \<longleftrightarrow> list_ex bad ms"
    by blast
  have "ofold step (m # ms) r = Ret (if list_ex bad (m # ms) then 1 else fst r, snd r @ (if bad m then [l] else []) @ log)"
    using l log(1) by (auto simp: q_def)
  then show ?case using log(2) by (intro exI [of _ "(if bad m then [l] else []) @ log"]) simp
qed

lemma list_ex_step_bad: "list_ex (\<lambda>m. step_bad (P m) task block) ms \<longleftrightarrow> step_bad (list_ex P ms) task block"
  by (induction ms) (auto simp: step_bad_def)

lemma check_in_block:
  assumes "task_ok task"
  shows "\<exists>log'. check_container_become fullpath (PDict task) (PDict block) log
      = Ret (if step_bad (uses_engine task) task block then 1 else 0, log @ log') \<and> (log' \<noteq> [] \<longleftrightarrow> step_bad (uses_engine task) task block)"
proof -
  let ?ce = "list_ex (\<lambda>m. step_bad (has_key task m) task block) ce_modules"
  let ?cmd = "list_ex (\<lambda>m. step_bad (has_key task m \<and> engine_text (dget task m)) task block) cmd_modules"
  obtain a where a: "ofold (ce_step fullpath (PDict task) (PDict block)) ce_modules (0, log) = Ret (if ?ce then 1 else 0, log @ a)"
    "a \<noteq> [] \<longleftrightarrow> ?ce"
    using ofold_reports [of ce_modules "ce_step fullpath (PDict task) (PDict block)" "\<lambda>m. step_bad (has_key task m) task block" "(0, log)"]
      ce_step_dict [OF assms] by auto
  obtain b where b: "ofold (cmd_step fullpath (PDict task) (PDict block)) cmd_modules (if ?ce then 1 else 0, log @ a)
      = Ret (if ?cmd then 1 else if ?ce then 1 else 0, (log @ a) @ b)" "b \<noteq> [] \<longleftrightarrow> ?cmd"
    using ofold_reports [of cmd_modules "cmd_step fullpath (PDict task) (PDict block)"
        "\<lambda>m. step_bad (has_key task m \<and> engine_text (dget task m)) task block" "(if ?ce then 1 else 0, log @ a)"]
      cmd_step_dict [OF assms] by auto
  have "step_bad (uses_engine task) task block \<longleftrightarrow> ?ce \<or> ?cmd"
    unfolding list_ex_step_bad by (auto simp: step_bad_def uses_engine_def)
  with a b show ?thesis by (intro exI [of _ "a @ b"]) (auto simp: check_container_become_def)
qed

lemma ce_step_bare:
  "ce_step fullpath (PDict task) (PStr s) m r = (if has_key task m \<and> \<not> becomes task then Raise AttributeError else Ret r)"
  by (cases "has_key task m"; cases "becomes task") (simp_all add: ce_step_def)

lemma cmd_step_bare:
  assumes "task_ok task" "m \<in> set cmd_modules"
  shows "cmd_step fullpath (PDict task) (PStr s) m r
    = (if has_key task m \<and> engine_text (dget task m) \<and> \<not> becomes task then Raise AttributeError else Ret r)"
proof (cases "has_key task m \<and> \<not> becomes task")
  case True
  with cmd_text_ok [OF assms] have "py_item (PDict task) m = Ret (dget task m)" "cmd_text (dget task m) = Ret (engine_text (dget task m))"
    by auto
  with True show ?thesis by (cases "engine_text (dget task m)") (auto simp: cmd_step_def)
next
  case False
  then show ?thesis by (auto simp: cmd_step_def and_then_def)
qed

lemma check_bare:
  assumes "task_ok task"
  shows "check_container_become fullpath (PDict task) (PStr s) log
    = (if uses_engine task \<and> \<not> becomes task then Raise AttributeError else Ret (0, log))"
  using cmd_step_bare [OF assms, of _ fullpath s]
  by (simp add: check_container_become_def ce_step_bare uses_engine_def ce_modules_def cmd_modules_def)

text \<open>for a well-formed task inside a block the check reports an error exactly when the task uses
  the container engine and neither the task nor the block has \<open>become\<close>; for a task outside a block
  it passes what has \<open>become\<close> or does not use the engine, but instead of reporting the others it
  raises \<open>AttributeError\<close>, since the default of its argument is a text.
\<close>

theorem check_container_become_correct:
  assumes "task_ok task"
  shows "(\<exists>log. check_container_become fullpath (PDict task) (PDict block) []
        = Ret (if uses_engine task \<and> \<not> becomes task \<and> \<not> becomes block then 1 else 0, log)
        \<and> (log = [] \<longleftrightarrow> \<not> (uses_engine task \<and> \<not> becomes task \<and> \<not> becomes block)))
    \<and> check_container_become fullpath (PDict task) (PStr []) []
      = (if uses_engine task \<and> \<not> becomes task then Raise AttributeError else Ret (0, []))"
  using check_in_block [OF assms, of fullpath block "[]"] check_bare [OF assms, of fullpath "[]" "[]"]
  by (auto simp: step_bad_def)

theorem check_container_become_correct_witness:
  "(\<exists>log. check_container_become ''f.yml'' (PDict [(''name'', PStr ''t''), (''command'', PStr ''docker ps'')]) (PDict []) [] = Ret (1, log))
   \<and> check_container_become ''f.yml'' (PDict [(''name'', PStr ''t''), (''kolla_toolbox'', PNone)]) (PStr []) [] = Raise AttributeError
   \<and> check_container_become ''f.yml'' (PDict [(''name'', PStr ''t''), (''shell'', PDict [(''cmd'', PStr ''ls'')])]) (PStr []) [] = Ret (0, [])"
proof -
  let ?a = "[(''name'', PStr ''t''), (''command'', PStr ''docker ps'')]"
  let ?b = "[(''name'', PStr ''t''), (''kolla_toolbox'', PNone)]"
  let ?c = "[(''name'', PStr ''t''), (''shell'', PDict [(''cmd'', PStr ''ls'')])]"
  have ok: "task_ok ?a" "task_ok ?b" "task_ok ?c" by code_simp+
  have facts: "uses_engine ?a" "\<not> becomes ?a" "\<not> becomes []" "uses_engine ?b" "\<not> becomes ?b" "\<not> uses_engine ?c" by code_simp+
  show ?thesis
    using check_container_become_correct [OF ok(1), of "''f.yml''" "[]"] check_container_become_correct [OF ok(2), of "''f.yml''" "[]"]
      check_container_become_correct [OF ok(3), of "''f.yml''" "[]"] facts by auto
qed

section \<open>What a passing check guarantees\<close>

text \<open>A step that leaves the report alone when all is well, and sets the return code otherwise (or raises).\<close>

definition checks_at :: "(report \<Rightarrow> report outcome) \<Rightarrow> bool \<Rightarrow> bool" where
  "checks_at f good \<longleftrightarrow> (\<forall>r. (good \<longrightarrow> f r = Ret r) \<and> (\<forall>q. f r = Ret q \<longrightarrow> fst q = (if good then fst r else 1)))"

lemma checks_ofold:
  assumes "\<forall>x \<in> set xs. checks_at (step x) (good x)"
  shows "checks_at (ofold step xs) (list_all good xs)"
  using assms
proof (induction xs)
  case Nil
  show ?case by (simp add: checks_at_def)
next
  case (Cons x xs)
  then have x: "checks_at (step x) (good x)" and xs: "checks_at (ofold step xs) (list_all good xs)" by auto
  show ?case
    unfolding checks_at_def
  proof (intro allI conjI impI)
    fix r assume "list_all good (x # xs)"
    then have "good x" "list_all good xs" by simp_all
    then have "step x r = Ret r" "ofold step xs r = Ret r" using x xs unfolding checks_at_def by blast+
    then show "ofold step (x # xs) r = Ret r" by simp
  next
    fix r q assume "ofold step (x # xs) r = Ret q"
    then obtain p where "step x r = Ret p" "ofold step xs p = Ret q" by auto
    then have "fst p = (if good x then fst r else 1)" "fst q = (if list_all good xs then fst p else 1)"
      using x xs unfolding checks_at_def by blast+
    then show "fst q = (if list_all good (x # xs) then fst r else 1)" by simp
  qed
qed

datatype role_task = Bare pydict | Block pydict "pydict list"

fun task_value :: "role_task \<Rightarrow> pyval" where
  "task_value (Bare task) = PDict task"
| "task_value (Block block tasks) = PDict (AList.update ''block'' (PList (map PDict tasks)) block)"

fun role_task_ok :: "role_task \<Rightarrow> bool" where
  "role_task_ok (Bare task) = (task_ok task \<and> \<not> truthy (dget task ''block''))"
| "role_task_ok (Block block tasks) = (tasks \<noteq> [] \<and> list_all task_ok tasks)"

fun privileged :: "role_task \<Rightarrow> bool" where
  "privileged (Bare task) = (uses_engine task \<longrightarrow> becomes task)"
| "privileged (Block block tasks) = list_all (\<lambda>task. uses_engine task \<longrightarrow> becomes task \<or> becomes block) tasks"

lemma checks_in_block:
  assumes "task_ok task"
  shows "checks_at (task_report fullpath (PDict block) (PDict task)) (uses_engine task \<longrightarrow> becomes task \<or> becomes block)"
  unfolding checks_at_def
proof (intro allI)
  fix r :: report
  obtain log where "check_container_become fullpath (PDict task) (PDict block) (snd r)
      = Ret (if step_bad (uses_engine task) task block then 1 else 0, snd r @ log)" "log \<noteq> [] \<longleftrightarrow> step_bad (uses_engine task) task block"
    using check_in_block [OF assms] by blast
  then show "((uses_engine task \<longrightarrow> becomes task \<or> becomes block) \<longrightarrow> task_report fullpath (PDict block) (PDict task) r = Ret r)
      \<and> (\<forall>q. task_report fullpath (PDict block) (PDict task) r = Ret q \<longrightarrow>
           fst q = (if uses_engine task \<longrightarrow> becomes task \<or> becomes block then fst r else 1))"
    by (auto simp: task_report_def step_bad_def)
qed

lemma checks_task:
  assumes "role_task_ok t"
  shows "checks_at (task_step fullpath (task_value t)) (privileged t)"
proof (cases t)
  case (Bare task)
  with assms have ok: "task_ok task" "\<not> truthy (dget task ''block'')" by auto
  have "task_step fullpath (PDict task) r = (if uses_engine task \<and> \<not> becomes task then Raise AttributeError else Ret r)" for r
    using ok by (simp add: task_step_def py_get_def dget_def [symmetric] task_report_def check_bare)
  then show ?thesis by (simp add: Bare checks_at_def)
next
  case (Block block tasks)
  let ?b = "AList.update ''block'' (PList (map PDict tasks)) block"
  have "becomes ?b = becomes block" by (simp add: becomes_def dget_def dget_or_def)
  moreover have "task_step fullpath (PDict ?b) = ofold (task_report fullpath (PDict ?b)) (map PDict tasks)"
    using assms Block by (simp add: fun_eq_iff task_step_def py_get_def dget_or_def)
  moreover have "checks_at (ofold (task_report fullpath (PDict ?b)) (map PDict tasks))
      (list_all (\<lambda>t. case t of PDict task \<Rightarrow> uses_engine task \<longrightarrow> becomes task \<or> becomes ?b | _ \<Rightarrow> True) (map PDict tasks))"
    using assms Block by (intro checks_ofold) (auto simp: list_all_iff checks_in_block)
  ultimately show ?thesis by (simp add: Block list_all_iff)
qed

text \<open>C38: on role files whose tasks are well formed and whose blocks are flat, a check that returns
  zero means that every task of every file it looks at has \<open>become\<close>, its own or its block's, when it
  uses the container engine; and when all of them do it returns zero with nothing logged.
\<close>

theorem check_task_contents_guarantee:
  assumes parsed: "\<forall>(root, f, c) \<in> set (chosen_files YAML_INCLUDE_PATTERNS YAML_EXCLUDE_PATTERNS roles_path roles).
      yaml_load V c = Ret (PList (map task_value (parse c))) \<and> list_all role_task_ok (parse c)"
  defines "all_privileged \<equiv> list_all (\<lambda>(root, f, c). list_all privileged (parse c))
      (chosen_files YAML_INCLUDE_PATTERNS YAML_EXCLUDE_PATTERNS roles_path roles)"
  shows "(all_privileged \<longrightarrow> check_task_contents V roles_path roles = Ret (0, []))
    \<and> (\<forall>log. check_task_contents V roles_path roles = Ret (0, log) \<longrightarrow> all_privileged)"
proof -
  let ?files = "chosen_files YAML_INCLUDE_PATTERNS YAML_EXCLUDE_PATTERNS roles_path roles"
  have "checks_at (contents_step V (root, f, c)) (list_all privileged (parse c))" if x: "(root, f, c) \<in> set ?files" for root f c
  proof -
    have y: "yaml_load V c = Ret (PList (map task_value (parse c)))" and ok: "list_all role_task_ok (parse c)"
      using parsed x by auto
    have "checks_at (ofold (\<lambda>t. task_step (path_join root f) (task_value t)) (parse c)) (list_all privileged (parse c))"
      using ok by (intro checks_ofold) (auto simp: list_all_iff intro: checks_task)
    moreover have "contents_step V (root, f, c) = ofold (\<lambda>t. task_step (path_join root f) (task_value t)) (parse c)"
      by (intro ext) (simp add: contents_step_def y or_list_def ofold_map)
    ultimately show ?thesis by simp
  qed
  then have "checks_at (ofold (contents_step V) ?files) all_privileged"
    unfolding all_privileged_def by (intro checks_ofold) auto
  then have "(all_privileged \<longrightarrow> check_task_contents V roles_path roles = Ret (0, []))
      \<and> (\<forall>q. check_task_contents V roles_path roles = Ret q \<longrightarrow> fst q = (if all_privileged then 0 else 1))"
    unfolding checks_at_def check_task_contents_def by (metis fst_conv)
  then show ?thesis by (metis fst_conv zero_neq_one)
qed

definition sample_roles :: "string \<Rightarrow> tree" where
  "sample_roles content = Dir [] [(''nova'', Dir [] [(''tasks'', Dir [(''main.yml'', content)] []), (''defaults'', Dir [(''main.yml'', ''x'')] [])])]"

definition sample_parse :: "string \<Rightarrow> role_task list" where
  "sample_parse content =
     (if content = ''good'' then [Block [(''become'', PBool True)] [[(''name'', PStr ''t''), (''kolla_toolbox'', PNone)]], Bare [(''name'', PStr ''u'')]]
      else [Block [] [[(''name'', PStr ''t''), (''kolla_toolbox'', PNone)]]])"

definition sample_validators :: validators where
  "sample_validators =
     \<lparr>render = (\<lambda>env ctx root f. Ret []), json_load = (\<lambda>s. Ret PNone),
      yaml_load = (\<lambda>c. Ret (PList (map task_value (sample_parse c))))\<rparr>"

theorem check_task_contents_guarantee_witness:
  "check_task_contents sample_validators ''roles'' (sample_roles ''good'') = Ret (0, [])
   \<and> (\<forall>log. check_task_contents sample_validators ''roles'' (sample_roles ''bad'') \<noteq> Ret (0, log))"
proof -
  let ?files = "\<lambda>c. chosen_files YAML_INCLUDE_PATTERNS YAML_EXCLUDE_PATTERNS ''roles'' (sample_roles c)"
  have files: "?files ''good'' = [(''roles/nova/tasks'', ''main.yml'', ''good'')]" "?files ''bad'' = [(''roles/nova/tasks'', ''main.yml'', ''bad'')]"
    by code_simp+
  have ok: "list_all role_task_ok (sample_parse ''good'')" "list_all role_task_ok (sample_parse ''bad'')"
    "list_all privileged (sample_parse ''good'')" "\<not> list_all privileged (sample_parse ''bad'')"
    by code_simp+
  show ?thesis
    using check_task_contents_guarantee [of "''roles''" "sample_roles ''good''" sample_validators sample_parse]
      check_task_contents_guarantee [of "''roles''" "sample_roles ''bad''" sample_validators sample_parse]
    by (simp add: files ok sample_validators_def)
qed

end
