(* ===== verification/Positional_Lines.thy ===== *)
theory Positional_Lines
  imports Py_Argparse Dhcp_Lease Validate_Files
begin

text \<open>
  The command lines of \<open>contrib/dev/vagrant/newest_dhcp_lease.py\<close> (one positional argument) and
  \<open>tools/validate-yaml.py\<close> (any number of them), and the programs from their words. The only option of
  these parsers is \<open>--help\<close>.
\<close>

section \<open>Positional arguments\<close>

text \<open>The words for the positional arguments: those that are no options, and all after the first double
  dash, which is dropped. An unknown option is an error.\<close>

fun unknown_option :: "cli_word \<Rightarrow> bool" where
  "unknown_option (Named None n sep e) = True"
| "unknown_option _ = False"

definition positional_args :: "string list \<Rightarrow> cli_stop + string list" where
  "positional_args argv =
     (let p = [help_option]; ws = classify_all p argv in
      if list_ex (\<lambda>w. snd w = Ambiguous) ws then Inl UsageError
      else case consume p ws ((initial_namespace p, []), []) of
        Inl stop \<Rightarrow> Inl stop
      | Inr _ \<Rightarrow> if list_ex (\<lambda>w. unknown_option (snd w)) ws then Inl UsageError
                 else Inr (map fst (filter (\<lambda>w. snd w = Value) ws)))"

definition one_positional :: "string list \<Rightarrow> cli_stop + string" where
  "one_positional argv = (case positional_args argv of Inl stop \<Rightarrow> Inl stop | Inr [x] \<Rightarrow> Inr x | Inr _ \<Rightarrow> Inl UsageError)"

section \<open>The programs\<close>

text \<open>What a program does: it stops in its command line, or ends with an outcome.\<close>

definition lease_cli :: "'w libvirt \<Rightarrow> string list \<Rightarrow> 'w \<Rightarrow> cli_stop + (string outcome \<times> 'w)" where
  "lease_cli L argv w = (case one_positional argv of Inl stop \<Rightarrow> Inl stop | Inr vm_name \<Rightarrow> Inr (lease_main L vm_name w))"

text \<open>A file that cannot be opened ends the program with an error.\<close>

definition validate_yaml_cli :: "validators \<Rightarrow> (string \<Rightarrow> string option) \<Rightarrow> string list \<Rightarrow> cli_stop + report outcome" where
  "validate_yaml_cli V files argv =
     (case positional_args argv of
        Inl stop \<Rightarrow> Inl stop
      | Inr input \<Rightarrow> Inr (ofold (\<lambda>filename r.
          case files filename of
            None \<Rightarrow> Raise (PyError (''No such file or directory: '' @ repr_str filename))
          | Some text_of \<Rightarrow> yaml_file_step V (filename, text_of) r) input (0, [])))"

section \<open>Names are passed on\<close>

lemma classify_values: "\<forall>x \<in> set xs. x = [] \<or> hd x \<noteq> CHR ''-'' \<Longrightarrow> classify_all p xs = map (\<lambda>x. (x, Value)) xs"
proof (induction xs)
  case (Cons x xs)
  then show ?case by (cases x) (auto simp: classify_plain)
qed simp

lemma consume_values: "consume p (map (\<lambda>x. (x, Value)) xs) (st, extras) = Inr (st, extras @ xs)"
  by (induction xs arbitrary: extras) simp_all

lemma consume_after_dashes: "consume p ((''--'', Dashes) # map (\<lambda>x. (x, Value)) xs) (st, extras) = Inr (st, extras @ ''--'' # xs)"
  by (simp add: consume_values)

lemma plain_values: "filter (\<lambda>w. snd w = Value) (map (\<lambda>x. (x, Value)) xs) = map (\<lambda>x. (x, Value)) xs"
  "\<not> list_ex (\<lambda>w. snd w = Ambiguous) (map (\<lambda>x. (x, Value)) xs)" "\<not> list_ex (\<lambda>w. unknown_option (snd w)) (map (\<lambda>x. (x, Value)) xs)"
  by (induction xs) simp_all

text \<open>Names that do not start with a dash are taken as they are, and after a double dash any names are.\<close>

theorem positional_args_taken:
  "(\<forall>x \<in> set xs. x = [] \<or> hd x \<noteq> CHR ''-'') \<Longrightarrow> positional_args xs = Inr xs"
  "positional_args (''--'' # xs) = Inr xs"
proof -
  have id: "map fst (map (\<lambda>x. (x, Value)) xs) = xs" by (simp add: comp_def)
  show "(\<forall>x \<in> set xs. x = [] \<or> hd x \<noteq> CHR ''-'') \<Longrightarrow> positional_args xs = Inr xs"
    by (simp add: positional_args_def Let_def classify_values consume_values plain_values id del: map_map)
  show "positional_args (''--'' # xs) = Inr xs"
    by (simp add: positional_args_def Let_def consume_after_dashes plain_values id del: map_map consume.simps)
qed

text \<open>On files that exist the program is \<open>validate_yaml\<close> of their texts.\<close>

theorem validate_yaml_cli_checks:
  assumes "\<forall>x \<in> set xs. \<exists>c. files x = Some c"
  shows "validate_yaml_cli V files (''--'' # xs) = Inr (validate_yaml V (map (\<lambda>x. (x, the (files x))) xs))"
proof -
  have "ofold (\<lambda>filename r. case files filename of
            None \<Rightarrow> Raise (PyError (''No such file or directory: '' @ repr_str filename))
          | Some c \<Rightarrow> yaml_file_step V (filename, c) r) xs r
      = ofold (yaml_file_step V) (map (\<lambda>x. (x, the (files x))) xs) r" for r
    using assms
  proof (induction xs arbitrary: r)
    case (Cons x xs)
    then obtain c where c: "files x = Some c" by auto
    have "\<forall>x \<in> set xs. \<exists>c. files x = Some c" using Cons.prems by simp
    then show ?case using c Cons.IH by (cases "yaml_file_step V (x, c) r") simp_all
  qed simp
  then show ?thesis by (simp add: validate_yaml_cli_def validate_yaml_def positional_args_taken(2))
qed

end
