(* ===== verification/Filter_Plugins.thy ===== *)
theory Filter_Plugins
  imports Main
begin

text \<open>
  The filter plugins: \<open>FilterModule.filters\<close> of \<open>ansible/filter_plugins/address.py\<close>, \<open>database.py\<close>,
  \<open>services.py\<close>, \<open>roles/common/filter_plugins/kolla_common_filters.py\<close> and
  \<open>roles/nova-cell/filter_plugins/kolla_nova_cell_filters.py\<close>, with the tables \<open>get_filters\<close> they return.
  Every function of \<open>kolla_ansible\<close> that is a filter is a constructor.
\<close>

datatype filter_function =
    KollaAddress | KollaUrl | PutAddressInContext | DatabaseShardsInfo
  | ExtractHaproxyServices | ServiceEnabled | ServiceMappedToHost | ServiceEnabledAndMappedToHost
  | SelectServicesEnabledAndMappedToHost | CustomiseFluentd | ExtractCell | NamespaceHaproxyForCell

type_synonym filter_table = "(string \<times> filter_function) list"

definition address_filters :: filter_table where
  "address_filters = [(''kolla_address'', KollaAddress), (''kolla_url'', KollaUrl), (''put_address_in_context'', PutAddressInContext)]"

definition database_filters :: filter_table where
  "database_filters = [(''database_shards_info'', DatabaseShardsInfo)]"

definition get_service_filters :: filter_table where
  "get_service_filters =
    [(''extract_haproxy_services'', ExtractHaproxyServices),
     (''service_enabled'', ServiceEnabled),
     (''service_mapped_to_host'', ServiceMappedToHost),
     (''service_enabled_and_mapped_to_host'', ServiceEnabledAndMappedToHost),
     (''select_services_enabled_and_mapped_to_host'', SelectServicesEnabledAndMappedToHost)]"

definition get_fluentd_filters :: filter_table where
  "get_fluentd_filters = [(''customise_fluentd'', CustomiseFluentd)]"

definition get_nova_filters :: filter_table where
  "get_nova_filters = [(''extract_cell'', ExtractCell), (''namespace_haproxy_for_cell'', NamespaceHaproxyForCell)]"

definition service_filters :: filter_table where
  "service_filters = get_service_filters"

definition common_filters :: filter_table where
  "common_filters = get_fluentd_filters"

definition nova_cell_filters :: filter_table where
  "nova_cell_filters = get_nova_filters"

definition filter_plugins :: "filter_table list" where
  "filter_plugins = [address_filters, database_filters, service_filters, common_filters, nova_cell_filters]"

text \<open>Ansible gathers the plugins in one table, in any order: no name is given twice, so the order does not
  matter, and every filter is there under one name.\<close>

lemma filter_names_distinct: "distinct (map fst (concat filter_plugins)) \<and> distinct (map snd (concat filter_plugins))"
  by (simp add: filter_plugins_def address_filters_def database_filters_def service_filters_def common_filters_def
      nova_cell_filters_def get_service_filters_def get_fluentd_filters_def get_nova_filters_def)

theorem filters_independent_of_order:
  assumes "set ts = set filter_plugins" and "distinct ts"
  shows "map_of (concat ts) = map_of (concat filter_plugins)"
proof -
  have sets: "set (concat ts) = set (concat filter_plugins)" using assms(1) by simp
  have "distinct filter_plugins"
    by (simp add: filter_plugins_def address_filters_def database_filters_def service_filters_def common_filters_def
        nova_cell_filters_def get_service_filters_def get_fluentd_filters_def get_nova_filters_def)
  then have "length ts = length filter_plugins" using assms distinct_card by metis
  have "length (concat ts) = length (concat filter_plugins)"
    using assms \<open>distinct filter_plugins\<close> sum_list_distinct_conv_sum_set [of ts length] sum_list_distinct_conv_sum_set [of filter_plugins length]
    by (simp add: length_concat)
  then have "card (fst ` set (concat ts)) = length (map fst (concat ts))"
    using filter_names_distinct distinct_card [of "map fst (concat filter_plugins)"] unfolding sets by simp
  then have "distinct (map fst (concat ts))" by (simp only: set_map [symmetric] card_distinct)
  then show ?thesis
    using sets filter_names_distinct by (metis map_of_eqI map_of_inject_set)
qed

end
