(* ===== verification/Docker_Tls.thy ===== *)
theory Docker_Tls
  imports Docker_Worker
begin

text \<open>
  \<open>generate_tls\<close> and \<open>check_file\<close> of \<open>ansible/module_utils/kolla_docker_worker.py\<close>, which nothing calls. The
  files are a map from paths to whether they can be read; \<open>docker.tls.TLSConfig\<close> is a parameter. Of the
  values that \<open>os.path.isfile\<close> takes, paths are modelled.
\<close>

definition docker_check_file :: "(string \<Rightarrow> bool option) \<Rightarrow> pyval \<Rightarrow> unit outcome" where
  "docker_check_file fs path =
     (case path of
        PStr p \<Rightarrow>
          (case fs p of
             None \<Rightarrow> fail_json [(''failed'', PBool True), (''msg'', PStr (''There is no file at '' @ [CHR 0x22] @ p @ [CHR 0x22]))]
           | Some readable \<Rightarrow>
               if \<not> readable
               then fail_json [(''failed'', PBool True), (''msg'', PStr (''Permission denied for file at '' @ [CHR 0x22] @ p @ [CHR 0x22]))]
               else Ret ())
      | _ \<Rightarrow> Raise TypeError)"

text \<open>The certificate and the key are tuples of one element: their assignments end in a comma.\<close>

definition docker_generate_tls :: "(string \<Rightarrow> bool option) \<Rightarrow> (pydict \<Rightarrow> pyval outcome) \<Rightarrow> pydict \<Rightarrow> pyval outcome" where
  "docker_generate_tls fs tls_config p =
     (let verify = dget p ''tls_verify'';
          tls_cert = PList [dget p ''tls_cert''];
          tls_key = PList [dget p ''tls_key''];
          tls_cacert = dget p ''tls_cacert'';
          tls = [(''verify'', verify)]
      in obind
           (if truthy verify
            then obind
              (if truthy tls_cert
               then obind (docker_check_file fs tls_cert) (\<lambda>_. obind (docker_check_file fs tls_key) (\<lambda>_.
                      Ret (AList.update ''client_cert'' (PList [tls_cert, tls_key]) tls)))
               else Ret tls) (\<lambda>tls.
              if truthy tls_cacert
              then obind (docker_check_file fs tls_cacert) (\<lambda>_. Ret (AList.update ''verify'' tls_cacert tls))
              else Ret tls)
            else Ret tls) tls_config)"

text \<open>With verification asked for, \<open>generate_tls\<close> always fails with a \<open>TypeError\<close>, whatever the files are;
  without, it configures no certificate.\<close>

theorem docker_tls_unusable:
  "docker_generate_tls fs tls_config p =
     (if truthy (dget p ''tls_verify'') then Raise TypeError else tls_config [(''verify'', dget p ''tls_verify'')])"
  by (simp add: docker_generate_tls_def docker_check_file_def Let_def)

text \<open>\<open>check_file\<close> passes exactly the readable files.\<close>

theorem docker_check_file_passes: "docker_check_file fs (PStr p) = Ret () \<longleftrightarrow> fs p = Some True"
  by (auto simp: docker_check_file_def fail_json_def split: option.splits)

end
