(* ===== verification/Spec2Isabelle.thy ===== *)
theory Spec2Isabelle
  imports Task_Runs Module_Args Library_Args J2lint Start_Liveness Command_Lines Fernet_Cron Action_Run Vault Kolla_Toolbox Container_Facts Nova_Cells Positional_Lines Filter_Plugins Docker_Tls
begin

text \<open>
  \<^bold>\<open>Kolla-Ansible.\<close> The repository deploys OpenStack in containers. Its logic of its own is Python that
  Ansible calls on the hosts and on the controller: modules that manage containers, action plugins
  that merge configuration files, filters that select services and compute addresses, and command-line
  tools that generate and move passwords. This development models that Python code and proves what
  makes it correct; the roles and playbooks around it are data for Ansible.

  \<^bold>\<open>How the code is represented.\<close> Values that travel through module parameters, YAML documents and
  engine replies are \<open>pyval\<close> (\<open>Py_Values\<close>): None, booleans, unbounded integers, strings, lists and
  dictionaries as association lists in insertion order. A computation ends in an \<open>outcome\<close>: \<open>Ret\<close> a
  value, \<open>Raise\<close> an exception, or \<open>Exit\<close> through \<open>exit_json\<close>, \<open>fail_json\<close> or \<open>sys.exit\<close>. Stateful code is
  a command (\<open>Py_Monad\<close>): a function from a state to an outcome and the state reached, also when it
  raises. The state of a container module (\<open>wstate\<close>) holds the parameters of the module, the flag
  \<open>changed\<close>, the \<open>result\<close> dictionary and the host: its unit files and the engine's own world.

  \<^bold>\<open>Theories.\<close>
  \<^item> \<open>Kolla_Prelude\<close>, \<open>Py_Strings\<close>, \<open>Py_Values\<close>, \<open>Py_Monad\<close>, \<open>Py_Regex\<close>, \<open>Ip_Address\<close>: lists and ordered
    dictionaries, the methods of \<open>str\<close>, values and truth, the command monad with its frame and
    invariant rules, the part of \<open>re\<close> and of \<open>ipaddress\<close> that the source uses.
  \<^item> \<open>Systemd_Worker\<close> (\<open>module_utils/kolla_systemd_worker.py\<close>): the unit of a container: rendering the
    template, writing, removing, starting and stopping it and waiting for it. The lemmas show that the
    file on disk is exactly the rendered unit, that success of an action is confirmed by the unit list,
    that waiting ends and that the restart duration keeps all restarts in the start limit interval.
  \<^item> \<open>Container_Worker\<close> (\<open>kolla_container_worker.py\<close>): the comparisons of a container with what is
    requested (\<open>check_container_differs\<close> and each \<open>compare_*\<close>), parsing of images, volumes and health
    checks. The operations a worker provides are the record \<open>container_ops\<close> and the contract they keep a
    locale, interpreted for both engines.
  \<^item> \<open>Docker_Worker\<close>, \<open>Docker_Container\<close> (\<open>kolla_docker_worker.py\<close>) and \<open>Podman_Worker\<close>,
    \<open>Podman_Container\<close> (\<open>kolla_podman_worker.py\<close>; \<open>Docker_Tls\<close> has the unused \<open>generate_tls\<close>): the
    queries and comparisons of each engine, then its operations on images, containers and volumes. The lemmas show what each operation leaves behind
    (a started container has its unit and is changed; a removed one is gone), when nothing is done, and
    that the image is there before a container is stopped to be recreated. \<open>Start_Liveness\<close> adds that a
    start makes progress: it returns at the first poll within the timeout that finds the unit running.
    \<open>Container_Machine\<close> specifies what the actions promise (\<open>lifecycle\<close>) on a machine that knows only
    which containers are there and up; \<open>Container_Lifecycle\<close> and \<open>Podman_Lifecycle\<close> prove, under the
    documented laws of Docker, Podman and systemd, that every action of either worker, and with it every
    run of the module, refines \<open>lifecycle\<close> and leaves the other containers alone. \<open>Task_Runs\<close> composes
    these: tasks for different containers, with either engine, do not get in each other's way, and a
    second start changes nothing.
  \<^item> \<open>Kolla_Container\<close> (\<open>library/kolla_container.py\<close>): the merge of the parameters with the common
    options, the table of actions, \<open>main\<close>. \<open>Module_Args\<close> is its argument specification: parameters that
    pass it merge into well-typed ones, but for common options of digits, which become numbers whatever
    their type, and name an action that both workers have. \<open>Host_Runs\<close> composes
    the module: over any number of runs with either engine no unit file but those of the named
    containers is touched, and each is the rendered unit.
  \<^item> \<open>Kolla_Toolbox\<close>, \<open>Container_Facts\<close> (\<open>library/kolla_toolbox.py\<close>, \<open>kolla_container_facts.py\<close>,
    \<open>kolla_container_volume_facts.py\<close>): running an Ansible module in the toolbox container and reading
    its result back, and the facts of containers and volumes; \<open>Library_Args\<close> has their argument
    specifications.
  \<^item> \<open>Merge_Configs\<close>, \<open>Merge_Yaml\<close> (\<open>action_plugins/merge_configs.py\<close>, \<open>merge_yaml.py\<close>): merging ini files
    and YAML documents: later sources override earlier ones. The ini text is one of plain lines
    (\<open>ini_line\<close>), so a parser that reads such lines as iniparser documents (\<open>reads_plain_ini\<close>) gets the
    sections back.
    \<open>Action_Run\<close> is their method \<open>run\<close> on the controller: what is handed to the copy action is the merge of
    the sources, and however a run ends no merged configuration is left on the controller.
  \<^item> \<open>Service_Filters\<close>, \<open>Address_Filters\<close>, \<open>Nova_Cells\<close> (\<open>kolla_ansible/filters.py\<close>, \<open>fluentd_filters.py\<close>,
    \<open>put_address_in_context.py\<close>, \<open>kolla_url.py\<close>, \<open>kolla_address.py\<close>, \<open>database_shards.py\<close>,
    \<open>nova_filters.py\<close>): the Jinja filters, each against a plain specification, such as \<open>runs_here\<close> for the
    services of a host and \<open>ipv6_host\<close> for its facts. \<open>Filter_Plugins\<close> holds the
    tables by which Ansible finds them.
  \<^item> \<open>Passwords\<close>, \<open>Vault\<close> (\<open>cmd/genpwd.py\<close>, \<open>mergepwd.py\<close>, \<open>hashi_vault.py\<close>, \<open>writepwd.py\<close>,
    \<open>readpwd.py\<close>): no password of the user is lost or overwritten, each new one comes from the generator
    of its kind of key, and the way through the Vault and back. A file that \<open>yaml.safe_dump\<close> writes has
    its keys sorted (\<open>dumped\<close>).
  \<^item> \<open>Py_Argparse\<close>, \<open>Command_Lines\<close>: the part of \<open>argparse\<close> that the tools use (options, their types,
    defaults and abbreviations), and the command lines of genpwd, mergepwd, writepwd, readpwd and the
    Fernet generator: what each of them runs for its documented options, defaults and required ones
    included, that options have their types, that the documented upgrade keeps every old password, and
    that what writepwd stores readpwd restores.
  \<^item> \<open>Fernet_Cron\<close> (\<open>roles/keystone/files/fernet_rotate_cron_generator.py\<close>), \<open>Dhcp_Lease\<close>
    (\<open>contrib/dev/vagrant/newest_dhcp_lease.py\<close>), \<open>Validate_Files\<close> (\<open>tools/validate-all-file.py\<close>,
    \<open>validate-yaml.py\<close>), \<open>J2lint\<close> (\<open>tests/j2lint.py\<close>): the rotation schedule, the newest lease and the
    repository's own checks, with the command lines of newest_dhcp_lease and validate-yaml in
    \<open>Positional_Lines\<close>. The exit status of j2lint is kept at its eight bits.

  \<^bold>\<open>Interfaces.\<close> \<open>ordered_dict\<close> states what dictionaries promise (interpreted on association lists),
  the worker locales what the engines provide to the base class (interpreted on the Docker and the
  Podman operations), \<open>engine_worker\<close> what a worker promises on the abstract machine (interpreted on
  both, so that what follows for \<open>ensure_container\<close> and for replacing a container is proved once),
  \<open>effect_order\<close> what a relation on states needs to pass through the combinators
  of commands (interpreted on the unit files and containers of hosts and of module states).

  \<^bold>\<open>Termination.\<close> Loops over lists are structural recursion. \<open>wait_loop\<close> has a measure, the seconds
  left of the timeout. The readers of command lines have the length of the words left. The Fernet
  loop may not end (an interval of zero): it is a \<open>partial_function (option)\<close>, and \<open>generate_ends\<close>
  says exactly when it returns. No definition runs on fuel.

  \<^bold>\<open>Parameters.\<close> Code that is not in the repository is an argument of the definitions: the clients of
  Docker, Podman and systemd (\<open>docker_client\<close>, \<open>podman_client\<close>, \<open>systemd_api\<close>), hvac, the parsers of
  YAML, Jinja's \<open>bool\<close>, libvirt, \<open>iniparser\<close>, the generators of keys. A theorem that needs one of them to behave
  states the documented law as a hypothesis, with a witness on a concrete instance.

  \<^bold>\<open>Not modelled.\<close> The help texts and usage errors of the command lines (only that they end the
  tool), \<open>helpers.py\<close> (one call of a Jinja filter, a parameter of the filters that use it), the
  settings of Sphinx, setuptools and gunicorn, and everything in YAML, Jinja and shell. Reading, writing
  and deleting a unit file raises no error of the operating system, and its text has the line ends of
  Linux. The laws of the lifecycle are for detached containers whose restart policy is not \<open>oneshot\<close>
  (\<open>service_params\<close>). On the abstract
  machine of \<open>Container_Machine\<close> a container changes its state only during the calls that act on it and
  while the module sleeps; in \<open>Action_Run\<close> a path that is readable is a file.
\<close>

end
